(* ===== verification/Prelude.thy ===== *)
theory Prelude
  imports Main "HOL-Library.Word"
begin

text \<open>
  Shared vocabulary of the development: the result monad in which every revert and every
  thrown JavaScript error is a value, byte strings with their big-endian reading, and the
  generic lemmas on results, lists and words that the component theories rest on.

  The simp collection \<open>result_simps\<close> opens a chain of results that is known to succeed.
\<close>

named_theorems result_simps \<open>inversion of successful results\<close>
named_theorems bytes_simps \<open>lengths and values of byte strings\<close>

section \<open>Results\<close>

text \<open>
  A computation that may fail returns \<open>Inl e\<close> for the failure \<open>e\<close> and \<open>Inr v\<close> for the
  value \<open>v\<close>. \<open>bindE\<close> is sequencing: the first failure is the result of the whole chain.
\<close>

definition bindE :: "'e + 'a \<Rightarrow> ('a \<Rightarrow> 'e + 'b) \<Rightarrow> 'e + 'b" where
  "bindE m f = (case m of Inl e \<Rightarrow> Inl e | Inr x \<Rightarrow> f x)"

definition ensure :: "bool \<Rightarrow> 'e \<Rightarrow> 'e + unit" where
  "ensure b e = (if b then Inr () else Inl e)"

fun foldE :: "('a \<Rightarrow> 's \<Rightarrow> 'e + 's) \<Rightarrow> 'a list \<Rightarrow> 's \<Rightarrow> 'e + 's" where
  "foldE f [] s = Inr s"
| "foldE f (x # xs) s = bindE (f x s) (foldE f xs)"

lemma bindE_simps [simp]:
  "bindE (Inl e) f = Inl e"
  "bindE (Inr x) f = f x"
  by (simp_all add: bindE_def)

lemma bindE_Inr_iff [result_simps]:
  "bindE m f = Inr y \<longleftrightarrow> (\<exists>x. m = Inr x \<and> f x = Inr y)"
  by (cases m) simp_all

lemma bindE_InrE:
  assumes "bindE m f = Inr y"
  obtains x where "m = Inr x" and "f x = Inr y"
  using assms by (cases m) simp_all

lemma bindE_InrE2:
  assumes "bindE m f = Inr y"
  obtains a b where "m = Inr (a, b)" and "f (a, b) = Inr y"
  using assms by (cases m) auto

lemma bindE_InrE4:
  assumes "bindE m f = Inr y"
  obtains a b c d where "m = Inr (a, b, c, d)" and "f (a, b, c, d) = Inr y"
  using assms by (cases m) auto

lemma bindE_Inl_iff:
  "bindE m f = Inl e \<longleftrightarrow> m = Inl e \<or> (\<exists>x. m = Inr x \<and> f x = Inl e)"
  by (cases m) simp_all

lemma bindE_assoc: "bindE (bindE m f) g = bindE m (\<lambda>x. bindE (f x) g)"
  by (cases m) simp_all

lemma bindE_Inr_right [simp]: "bindE m Inr = m"
  by (cases m) simp_all

text \<open>
  For the evaluation of closed terms: look at the rest of a chain only when its first result is known.
\<close>

lemma bindE_weak_cong: "m = m' \<Longrightarrow> bindE m f = bindE m' f"
  by simp

lemma ensure_simps [simp]:
  "ensure True e = Inr ()"
  "ensure False e = Inl e"
  by (simp_all add: ensure_def)

lemma ensure_Inr_iff [result_simps]: "ensure b e = Inr u \<longleftrightarrow> b"
  by (simp add: ensure_def)

lemma ensure_Inl_iff: "ensure b e = Inl e' \<longleftrightarrow> \<not> b \<and> e' = e"
  by (auto simp: ensure_def)

lemma if_Inr_iff [result_simps]:
  "(if b then Inl e else r) = Inr y \<longleftrightarrow> \<not> b \<and> r = Inr y"
  by simp

lemma foldE_Nil_fun [simp]: "foldE f [] = Inr"
  by (rule ext) simp

lemma foldE_append: "foldE f (xs @ ys) s = bindE (foldE f xs s) (foldE f ys)"
proof (induction xs arbitrary: s)
  case Nil
  then show ?case by simp
next
  case (Cons x xs)
  then show ?case by (cases "f x s") simp_all
qed

lemma foldE_invariant:
  assumes "\<And>x s s'. x \<in> set xs \<Longrightarrow> P s \<Longrightarrow> f x s = Inr s' \<Longrightarrow> P s'"
    and "P s" and "foldE f xs s = Inr s'"
  shows "P s'"
  using assms
proof (induction xs arbitrary: s)
  case Nil
  then show ?case by simp
next
  case (Cons x xs)
  from Cons.prems(3) obtain t where t: "f x s = Inr t" "foldE f xs t = Inr s'"
    by (auto simp: result_simps)
  have "P t" using Cons.prems(1)[of x s t] Cons.prems(2) t(1) by simp
  moreover have "\<And>y u v. y \<in> set xs \<Longrightarrow> P u \<Longrightarrow> f y u = Inr v \<Longrightarrow> P v"
    using Cons.prems(1) by (meson list.set_intros(2))
  ultimately show ?case using Cons.IH t(2) by blast
qed

section \<open>Bytes\<close>

type_synonym bytes = "8 word list"
type_synonym uint256 = "256 word"
type_synonym address = "160 word"

text \<open>
  The big-endian value of a byte string, and the \<open>n\<close>-byte big-endian string of a value
  (which keeps the low \<open>8 * n\<close> bits).
\<close>

definition be_val :: "bytes \<Rightarrow> nat" where
  "be_val bs = foldl (\<lambda>acc b. acc * 256 + unat b) 0 bs"

primrec be_bytes :: "nat \<Rightarrow> nat \<Rightarrow> bytes" where
  "be_bytes 0 v = []"
| "be_bytes (Suc n) v = be_bytes n (v div 256) @ [of_nat (v mod 256)]"

lemma length_be_bytes [simp, bytes_simps]: "length (be_bytes n v) = n"
  by (induction n arbitrary: v) simp_all

lemma be_val_Nil [simp]: "be_val [] = 0"
  by (simp add: be_val_def)

lemma be_val_snoc [simp]: "be_val (bs @ [b]) = be_val bs * 256 + unat b"
  by (simp add: be_val_def)

lemma be_val_append: "be_val (xs @ ys) = be_val xs * 256 ^ length ys + be_val ys"
proof (induction ys rule: rev_induct)
  case Nil
  then show ?case by simp
next
  case (snoc y ys)
  have "be_val (xs @ ys @ [y]) = be_val (xs @ ys) * 256 + unat y"
    using be_val_snoc[of "xs @ ys" y] by simp
  then show ?case using snoc by (simp add: algebra_simps)
qed

lemma be_val_less: "be_val bs < 256 ^ length bs"
proof (induction bs rule: rev_induct)
  case Nil
  then show ?case by simp
next
  case (snoc b bs)
  have "unat b < 256" using unsigned_less[of b, where 'a = nat] by simp
  with snoc show ?case by simp
qed

lemma be_val_be_bytes [simp]: "be_val (be_bytes n v) = v mod 256 ^ n"
proof (induction n arbitrary: v)
  case 0
  then show ?case by simp
next
  case (Suc n)
  have "v div 256 mod 256 ^ n * 256 + v mod 256 = v mod (256 * 256 ^ n)"
    by (simp add: mod_mult2_eq)
  then show ?case using Suc by (simp add: unat_of_nat)
qed

lemma be_bytes_be_val: "length bs = n \<Longrightarrow> be_bytes n (be_val bs) = bs"
proof (induction n arbitrary: bs)
  case 0
  then show ?case by simp
next
  case (Suc n)
  then obtain cs b where bs: "bs = cs @ [b]" and n: "length cs = n"
    by (cases bs rule: rev_cases) auto
  have b: "unat b < 256" using unsigned_less[of b, where 'a = nat] by simp
  then have "(be_val cs * 256 + unat b) div 256 = be_val cs" by simp
  moreover from b have "(be_val cs * 256 + unat b) mod 256 = unat b" by simp
  ultimately show ?case using Suc.IH[OF n] bs by simp
qed

lemma be_bytes_inject:
  "v < 256 ^ n \<Longrightarrow> w < 256 ^ n \<Longrightarrow> be_bytes n v = be_bytes n w \<Longrightarrow> v = w"
  by (metis be_val_be_bytes mod_less)

section \<open>Words\<close>

lemma unat_of_nat_256: "n < 2 ^ 256 \<Longrightarrow> unat (of_nat n :: uint256) = n"
  by (simp add: unat_of_nat)

lemma unat_lt_256: "unat (w :: uint256) < 2 ^ 256"
  using unsigned_less[of w, where 'a = nat] by simp

lemma word_gt_iff_unat: "\<not> (a :: uint256) \<le> b \<longleftrightarrow> unat b < unat a"
  by (simp add: word_le_nat_alt not_le)

section \<open>Exclusive sections\<close>

text \<open>
  The contract of a flag that guards a section: every step leaves the flag and the number of
  activities inside the section alone, enters it while the flag is clear, or leaves it and clears
  the flag. Whatever the interleaving, at most one activity is inside, and the flag says so.
\<close>

locale exclusive =
  fixes step :: "'s \<Rightarrow> 's \<Rightarrow> bool" and init :: 's and flag :: "'s \<Rightarrow> bool" and inside :: "'s \<Rightarrow> nat"
  assumes init_clear: "\<not> flag init" "inside init = 0"
    and step_cases: "step s t \<Longrightarrow>
      (flag t = flag s \<and> inside t = inside s)
      \<or> (\<not> flag s \<and> flag t \<and> inside t = Suc (inside s))
      \<or> (\<not> flag t \<and> inside s = Suc (inside t))"
begin

lemma inside_iff_flag: "step\<^sup>*\<^sup>* init s \<Longrightarrow> inside s = (if flag s then 1 else 0)"
proof (induction rule: rtranclp_induct)
  case base
  then show ?case by (simp add: init_clear)
next
  case (step s t)
  from step_cases[OF step.hyps(2)] step.IH show ?case by (auto split: if_splits)
qed

lemma at_most_one: "step\<^sup>*\<^sup>* init s \<Longrightarrow> inside s \<le> 1"
  using inside_iff_flag by simp

lemma clear_when_empty: "step\<^sup>*\<^sup>* init s \<Longrightarrow> inside s = 0 \<Longrightarrow> \<not> flag s"
  using inside_iff_flag by fastforce

end

section \<open>Codecs\<close>

text \<open>
  The contract of an encoder and its decoder: on the values of \<open>dom\<close> decoding undoes
  encoding. Packing and unpacking in the program are instances.
\<close>

locale codec =
  fixes enc :: "'a \<Rightarrow> 'b" and dec :: "'b \<Rightarrow> 'a" and dom :: "'a \<Rightarrow> bool"
  assumes dec_enc: "dom x \<Longrightarrow> dec (enc x) = x"
begin

lemma enc_inject: "dom x \<Longrightarrow> dom y \<Longrightarrow> enc x = enc y \<longleftrightarrow> x = y"
  using dec_enc by metis

lemma enc_collision_free: "dom x \<Longrightarrow> dom y \<Longrightarrow> x \<noteq> y \<Longrightarrow> enc x \<noteq> enc y"
  using enc_inject by blast

end

interpretation be_codec: codec "be_bytes n" be_val "\<lambda>v. v < 256 ^ n"
  by unfold_locales simp

end
