(* ===== verification/Evm_Base.thy ===== *)
theory Evm_Base
  imports Prelude
begin

text \<open>
  What the Solidity code takes from its language: the reasons a transaction reverts, the
  checked 256-bit arithmetic of Solidity 0.8, the transaction context, slices of calldata and
  the strict ABI decoder of the argument types that the code decodes.
\<close>

section \<open>Reverts\<close>

text \<open>
  One constructor per custom error of the contracts under \<open>src/src\<close> and of \<open>BaseAccount\<close>, \<open>Panic\<close> for the
  compiler's own checks, \<open>EmptyRevert\<close> for a revert without data (a failed ABI decode, a slice
  out of range, \<open>revert()\<close>), \<open>Reverted\<close> for revert data passed on from a callee and
  \<open>RequireFailed\<close> for \<open>require\<close> with a message.
\<close>

datatype sol_error =
    Panic nat
  | EmptyRevert
  | Reverted bytes
  | RequireFailed string
  | DailyLimitExceeded uint256 uint256
  | MonthlyLimitExceeded uint256 uint256
  | NotFromEntryPoint
  | NotFromPaymaster
  | NotVaultOwner
  | InvalidTargetOrSelector
  | InvalidSelector
  | WithdrawTimelockNotMet
  | NoWithdrawRequested
  | InsufficientGasForUsdcTransfer uint256 uint256
  | LargeSpendCooldownActive
  | CostCapExceeded uint256 uint256
  | InsufficientUsdcBalance address uint256
  | PostOpGasTooLow uint256 uint256
  | ExecuteError nat bytes

section \<open>Checked arithmetic\<close>

definition add256 :: "uint256 \<Rightarrow> uint256 \<Rightarrow> sol_error + uint256" where
  "add256 a b = (if unat a + unat b < 2 ^ 256 then Inr (a + b) else Inl (Panic 0x11))"

definition mul256 :: "uint256 \<Rightarrow> uint256 \<Rightarrow> sol_error + uint256" where
  "mul256 a b = (if unat a * unat b < 2 ^ 256 then Inr (a * b) else Inl (Panic 0x11))"

definition sub256 :: "uint256 \<Rightarrow> uint256 \<Rightarrow> sol_error + uint256" where
  "sub256 a b = (if b \<le> a then Inr (a - b) else Inl (Panic 0x11))"

lemma add256_Inr [result_simps]:
  "add256 a b = Inr c \<longleftrightarrow> unat a + unat b < 2 ^ 256 \<and> c = a + b"
  by (auto simp: add256_def)

lemma mul256_Inr [result_simps]:
  "mul256 a b = Inr c \<longleftrightarrow> unat a * unat b < 2 ^ 256 \<and> c = a * b"
  by (auto simp: mul256_def)

lemma sub256_Inr [result_simps]: "sub256 a b = Inr c \<longleftrightarrow> b \<le> a \<and> c = a - b"
  by (auto simp: sub256_def)

lemma unat_add256: "unat (a :: uint256) + unat b < 2 ^ 256 \<Longrightarrow> unat (a + b) = unat a + unat b"
  by (simp add: unat_word_ariths)

lemma unat_mul256: "unat (a :: uint256) * unat b < 2 ^ 256 \<Longrightarrow> unat (a * b) = unat a * unat b"
  by (simp add: unat_word_ariths)

lemma add256_unat: "add256 a b = Inr c \<Longrightarrow> unat c = unat a + unat b"
  by (auto simp: result_simps unat_add256)

lemma mul256_unat: "mul256 a b = Inr c \<Longrightarrow> unat c = unat a * unat b"
  by (auto simp: result_simps unat_mul256)

lemma unat_div256: "unat ((a :: uint256) div b) = unat a div unat b"
  by (rule unat_div)

lemma add256_0 [simp]: "add256 0 b = Inr b" "add256 b 0 = Inr b"
  using unat_lt_256[of b] by (simp_all add: add256_def)

lemma add256_mono:
  assumes "add256 a b = Inr c" and "a' \<le> a" and "b' \<le> b"
  obtains c' where "add256 a' b' = Inr c'" and "c' \<le> c"
proof -
  from assms(2,3) have le: "unat a' + unat b' \<le> unat a + unat b"
    by (simp add: word_le_nat_alt add_mono)
  with assms(1) have "add256 a' b' = Inr (a' + b')" by (auto simp: add256_def split: if_splits)
  moreover from this have "unat (a' + b') = unat a' + unat b'" by (rule add256_unat)
  ultimately show ?thesis
    using that le add256_unat[OF assms(1)] by (simp add: word_le_nat_alt)
qed

lemma mul256_mono:
  assumes "mul256 a b = Inr c" and "a' \<le> a" and "b' \<le> b"
  obtains c' where "mul256 a' b' = Inr c'" and "c' \<le> c"
proof -
  from assms(2,3) have le: "unat a' * unat b' \<le> unat a * unat b"
    by (simp add: word_le_nat_alt mult_le_mono)
  with assms(1) have "mul256 a' b' = Inr (a' * b')" by (auto simp: mul256_def split: if_splits)
  moreover from this have "unat (a' * b') = unat a' * unat b'" by (rule mul256_unat)
  ultimately show ?thesis
    using that le mul256_unat[OF assms(1)] by (simp add: word_le_nat_alt)
qed

lemma div256_mono: "(a :: uint256) \<le> b \<Longrightarrow> a div c \<le> b div c"
  by (simp add: word_le_nat_alt unat_div256 div_le_mono)

section \<open>Transaction context\<close>

text \<open>The parts of \<open>msg\<close>, \<open>block\<close> and \<open>gasleft()\<close> that the code reads.\<close>

record msg_ctx =
  msg_sender :: address
  block_timestamp :: uint256
  block_basefee :: uint256
  gasleft :: uint256

section \<open>Calldata\<close>

text \<open>
  \<open>data[i:j]\<close> on a calldata array reverts without data unless \<open>i \<le> j \<le> length\<close>.
  \<open>bytesN(slice)\<close> keeps the first N bytes; the slices below have exactly N bytes.
\<close>

definition slice :: "nat \<Rightarrow> nat \<Rightarrow> bytes \<Rightarrow> sol_error + bytes" where
  "slice i j bs = (if i \<le> j \<and> j \<le> length bs then Inr (take (j - i) (drop i bs)) else Inl EmptyRevert)"

lemma slice_Inr [result_simps]:
  "slice i j bs = Inr r \<longleftrightarrow> i \<le> j \<and> j \<le> length bs \<and> r = take (j - i) (drop i bs)"
  by (auto simp: slice_def)

text \<open>
  ABI decoding from a byte string. A static word is 32 bytes; an \<open>address\<close> word whose upper
  12 bytes are not zero reverts. A dynamic value is found through an offset, relative to the
  start of the enclosing tuple; offsets and lengths above \<open>2^64 - 1\<close> revert, as does any read past
  the end.
\<close>

definition word_at :: "bytes \<Rightarrow> nat \<Rightarrow> sol_error + nat" where
  "word_at bs i = (if i + 32 \<le> length bs then Inr (be_val (take 32 (drop i bs))) else Inl EmptyRevert)"

definition uint_at :: "bytes \<Rightarrow> nat \<Rightarrow> sol_error + uint256" where
  "uint_at bs i = bindE (word_at bs i) (\<lambda>n. Inr (of_nat n))"

definition address_at :: "bytes \<Rightarrow> nat \<Rightarrow> sol_error + address" where
  "address_at bs i = bindE (word_at bs i) (\<lambda>n. if n < 2 ^ 160 then Inr (of_nat n) else Inl EmptyRevert)"

definition offset_at :: "bytes \<Rightarrow> nat \<Rightarrow> sol_error + nat" where
  "offset_at bs i = bindE (word_at bs i) (\<lambda>n. if n < 2 ^ 64 then Inr n else Inl EmptyRevert)"

text \<open>\<open>bytes\<close> whose length word is at \<open>i\<close>.\<close>

definition bytes_at :: "bytes \<Rightarrow> nat \<Rightarrow> sol_error + bytes" where
  "bytes_at bs i = bindE (offset_at bs i) (\<lambda>n.
     if i + 32 + n \<le> length bs then Inr (take n (drop (i + 32) bs)) else Inl EmptyRevert)"

text \<open>The tuple \<open>(address, uint256, bytes)\<close> whose head starts at \<open>i\<close>.\<close>

definition call_at :: "bytes \<Rightarrow> nat \<Rightarrow> sol_error + address \<times> uint256 \<times> bytes" where
  "call_at bs i =
     bindE (address_at bs i) (\<lambda>target.
     bindE (uint_at bs (i + 32)) (\<lambda>value.
     bindE (offset_at bs (i + 64)) (\<lambda>off.
     bindE (bytes_at bs (i + off)) (\<lambda>data. Inr (target, value, data)))))"

text \<open>The elements of a \<open>(address, uint256, bytes)[]\<close>: offsets relative to the first head slot.\<close>

fun calls_at :: "bytes \<Rightarrow> nat \<Rightarrow> nat \<Rightarrow> nat \<Rightarrow> sol_error + (address \<times> uint256 \<times> bytes) list" where
  "calls_at bs base k 0 = Inr []"
| "calls_at bs base k (Suc n) =
     bindE (offset_at bs (base + 32 * k)) (\<lambda>off.
     bindE (call_at bs (base + off)) (\<lambda>c.
     bindE (calls_at bs base (Suc k) n) (\<lambda>cs. Inr (c # cs))))"

definition abi_decode_execute :: "bytes \<Rightarrow> sol_error + address \<times> uint256 \<times> bytes" where
  "abi_decode_execute bs = call_at bs 0"

definition abi_decode_calls :: "bytes \<Rightarrow> sol_error + (address \<times> uint256 \<times> bytes) list" where
  "abi_decode_calls bs =
     bindE (offset_at bs 0) (\<lambda>off.
     bindE (offset_at bs off) (\<lambda>n.
     if off + 32 + 32 * n \<le> length bs then calls_at bs (off + 32) 0 n else Inl EmptyRevert))"

definition abi_decode_transfer :: "bytes \<Rightarrow> sol_error + address \<times> uint256" where
  "abi_decode_transfer bs =
     bindE (address_at bs 0) (\<lambda>to. bindE (uint_at bs 32) (\<lambda>amount. Inr (to, amount)))"

text \<open>The encoder for the same types, as a Solidity caller or an ethers client produces it.\<close>

definition pad32 :: "bytes \<Rightarrow> bytes" where
  "pad32 bs = bs @ replicate ((32 - length bs mod 32) mod 32) 0"

definition abi_encode_transfer :: "address \<Rightarrow> uint256 \<Rightarrow> bytes" where
  "abi_encode_transfer to amount = be_bytes 32 (unat to) @ be_bytes 32 (unat amount)"

definition abi_encode_call :: "address \<Rightarrow> uint256 \<Rightarrow> bytes \<Rightarrow> bytes" where
  "abi_encode_call target value data =
     be_bytes 32 (unat target) @ be_bytes 32 (unat value) @ be_bytes 32 96
     @ be_bytes 32 (length data) @ pad32 data"

text \<open>The decoder on the encoder's output.\<close>

lemma word_at_append:
  "length pre = i \<Longrightarrow> n < 256 ^ 32 \<Longrightarrow> word_at (pre @ be_bytes 32 n @ post) i = Inr n"
  by (simp add: word_at_def)

lemma unat_address_lt: "unat (a :: address) < 2 ^ 160"
  using unsigned_less[of a, where 'a = nat] by simp

lemma address_at_append:
  "length pre = i \<Longrightarrow> address_at (pre @ be_bytes 32 (unat a) @ post) i = Inr a"
  using unat_address_lt[of a] by (simp add: address_at_def word_at_append)

lemma uint_at_append:
  "length pre = i \<Longrightarrow> uint_at (pre @ be_bytes 32 (unat a) @ post) i = Inr a"
  using unat_lt_256[of a] by (simp add: uint_at_def word_at_append)

lemma offset_at_append:
  "length pre = i \<Longrightarrow> n < 2 ^ 64 \<Longrightarrow> offset_at (pre @ be_bytes 32 n @ post) i = Inr n"
  by (simp add: offset_at_def word_at_append)

lemma bytes_at_append:
  "length pre = i \<Longrightarrow> length data < 2 ^ 64 \<Longrightarrow>
     bytes_at (pre @ be_bytes 32 (length data) @ data @ post) i = Inr data"
  by (simp add: bytes_at_def offset_at_append)

lemma abi_transfer_roundtrip:
  "abi_decode_transfer (abi_encode_transfer to amount @ rest) = Inr (to, amount)"
  using address_at_append[of "[]" 0 to "be_bytes 32 (unat amount) @ rest"]
    uint_at_append[of "be_bytes 32 (unat to)" 32 amount rest]
  by (simp add: abi_decode_transfer_def abi_encode_transfer_def)

lemma call_at_encode:
  assumes "length pre = i" and "length data < 2 ^ 64"
  shows "call_at (pre @ abi_encode_call target value data @ post) i = Inr (target, value, data)"
proof -
  let ?t = "be_bytes 32 (unat target)" and ?v = "be_bytes 32 (unat value)"
  let ?o = "be_bytes 32 96" and ?n = "be_bytes 32 (length data)"
  let ?z = "replicate ((32 - length data mod 32) mod 32) 0 @ post"
  let ?bs = "pre @ abi_encode_call target value data @ post"
  have bs: "?bs = pre @ ?t @ ?v @ ?o @ ?n @ data @ ?z"
    by (simp add: abi_encode_call_def pad32_def)
  have "address_at ?bs i = Inr target"
    unfolding bs by (rule address_at_append[OF assms(1)])
  moreover have "uint_at ?bs (i + 32) = Inr value"
    using uint_at_append[of "pre @ ?t" "i + 32" "value"] assms(1) unfolding bs by simp
  moreover have "offset_at ?bs (i + 64) = Inr 96"
    using offset_at_append[of "pre @ ?t @ ?v" "i + 64" 96] assms(1) unfolding bs by simp
  moreover have "bytes_at ?bs (i + 96) = Inr data"
    using bytes_at_append[of "pre @ ?t @ ?v @ ?o" "i + 96" data ?z] assms unfolding bs by simp
  ultimately show ?thesis by (simp add: call_at_def)
qed

lemma abi_execute_roundtrip:
  "length data < 2 ^ 64 \<Longrightarrow>
     abi_decode_execute (abi_encode_call target value data) = Inr (target, value, data)"
  using call_at_encode[of "[]" 0 data target "value" "[]"] by (simp add: abi_decode_execute_def)

text \<open>
  The encoding of an array of calls: the offset of the array, its length, the offsets of the elements
  relative to the first of them, and the elements.
\<close>

fun elem_offsets :: "nat \<Rightarrow> bytes list \<Rightarrow> nat list" where
  "elem_offsets off [] = []"
| "elem_offsets off (x # xs) = off # elem_offsets (off + length x) xs"

definition encode_elem :: "address \<times> uint256 \<times> bytes \<Rightarrow> bytes" where
  "encode_elem c = (case c of (t, v, d) \<Rightarrow> abi_encode_call t v d)"

definition abi_encode_calls :: "(address \<times> uint256 \<times> bytes) list \<Rightarrow> bytes" where
  "abi_encode_calls cs =
     be_bytes 32 32 @ be_bytes 32 (length cs)
     @ concat (map (be_bytes 32) (elem_offsets (32 * length cs) (map encode_elem cs)))
     @ concat (map encode_elem cs)"

lemma length_elem_offsets [simp]: "length (elem_offsets off xs) = length xs"
  by (induction xs arbitrary: off) simp_all

lemma length_concat_words [simp]: "length (concat (map (be_bytes 32) ns)) = 32 * length ns"
  by (induction ns) simp_all

lemma elem_offsets_append:
  "elem_offsets off (xs @ ys) = elem_offsets off xs @ elem_offsets (off + length (concat xs)) ys"
  by (induction xs arbitrary: off) (simp_all add: add.assoc)

lemma encode_elem_tuple: "encode_elem (t, v, d) = abi_encode_call t v d"
  by (simp add: encode_elem_def)

lemma length_data_le: "length d \<le> length (encode_elem (t, v, d))"
  by (simp add: encode_elem_def abi_encode_call_def pad32_def)

lemma calls_at_encode:
  assumes "bs = pre @ concat (map (be_bytes 32) (elem_offsets (32 * length (done @ cs)) (map encode_elem (done @ cs))))
              @ concat (map encode_elem (done @ cs))"
    and "length pre = base" and "length bs < 2 ^ 64"
  shows "calls_at bs base (length done) (length cs) = Inr cs"
  using assms
proof (induction cs arbitrary: "done")
  case Nil
  then show ?case by simp
next
  case (Cons c cs)
  let ?all = "done @ c # cs" and ?E = "map encode_elem"
  let ?n = "32 * length ?all"
  let ?off = "?n + length (concat (?E done))"
  obtain t v d where c: "c = (t, v, d)" by (cases c)
  have offs: "elem_offsets ?n (?E ?all)
      = elem_offsets ?n (?E done) @ ?off # elem_offsets (?off + length (encode_elem c)) (?E cs)"
    by (simp add: elem_offsets_append)
  have bs1: "bs = (pre @ concat (map (be_bytes 32) (elem_offsets ?n (?E done)))) @ be_bytes 32 ?off
      @ concat (map (be_bytes 32) (elem_offsets (?off + length (encode_elem c)) (?E cs))) @ concat (?E ?all)"
    using Cons.prems(1) unfolding offs by simp
  have bs2: "bs = (pre @ concat (map (be_bytes 32) (elem_offsets ?n (?E ?all))) @ concat (?E done))
      @ abi_encode_call t v d @ concat (?E cs)"
    using Cons.prems(1) by (simp add: c encode_elem_tuple)
  have len: "length bs = base + ?n + length (concat (?E done)) + length (encode_elem c) + length (concat (?E cs))"
    using Cons.prems(1,2) by simp
  have "offset_at bs (base + 32 * length done) = Inr ?off"
    unfolding bs1 using Cons.prems(2,3) len by (intro offset_at_append) simp_all
  moreover have "call_at bs (base + ?off) = Inr c"
    unfolding c bs2 using Cons.prems(2,3) len length_data_le[of d t v] c by (intro call_at_encode) simp_all
  moreover have "calls_at bs base (Suc (length done)) (length cs) = Inr cs"
    using Cons.IH[of "done @ [c]"] Cons.prems by simp
  ultimately show ?case by simp
qed

lemma abi_calls_roundtrip:
  assumes "length (abi_encode_calls cs) < 2 ^ 64"
  shows "abi_decode_calls (abi_encode_calls cs) = Inr cs"
proof -
  let ?bs = "abi_encode_calls cs"
  let ?rest = "concat (map (be_bytes 32) (elem_offsets (32 * length cs) (map encode_elem cs))) @ concat (map encode_elem cs)"
  have bs: "?bs = be_bytes 32 32 @ be_bytes 32 (length cs) @ ?rest" by (simp add: abi_encode_calls_def)
  have n: "length cs < 2 ^ 64" "64 + 32 * length cs \<le> length ?bs" using assms by (simp_all add: bs)
  have "offset_at ?bs 0 = Inr 32"
    using offset_at_append[of "[]" 0 32 "be_bytes 32 (length cs) @ ?rest"] by (simp add: bs)
  moreover have "offset_at ?bs 32 = Inr (length cs)"
    using offset_at_append[of "be_bytes 32 32" 32 "length cs" ?rest] n(1) by (simp add: bs)
  moreover have "calls_at ?bs 64 0 (length cs) = Inr cs"
    using calls_at_encode[of ?bs "be_bytes 32 32 @ be_bytes 32 (length cs)" "[]" cs 64] assms by (simp add: bs)
  ultimately show ?thesis using n(2) by (simp add: abi_decode_calls_def)
qed

end
