(* ===== verification/Limit_Policy.thy ===== *)
theory Limit_Policy
  imports Evm_Base
begin

text \<open>
  The library \<open>LimitPolicy\<close> of \<open>src/src/LimitPolicy.sol\<close>: the rolling windows and the two limit
  checks. The locale \<open>window_limiter\<close> is the contract a rolling-window counter offers to whoever
  relies on it: it bounds what can be spent in any interval of time, however the events fall.
\<close>

section \<open>The library\<close>

definition DAILY_WINDOW :: uint256 where "DAILY_WINDOW = 86400"

definition MONTHLY_WINDOW :: uint256 where "MONTHLY_WINDOW = 2592000"

definition maybeResetWindows ::
  "uint256 \<Rightarrow> uint256 \<Rightarrow> uint256 \<Rightarrow> uint256 \<Rightarrow> uint256 \<Rightarrow>
     sol_error + uint256 \<times> uint256 \<times> uint256 \<times> uint256" where
  "maybeResetWindows lastDailyReset lastMonthlyReset currentDailySpent currentMonthlySpent nowTs =
     bindE (add256 lastDailyReset DAILY_WINDOW) (\<lambda>dailyEnd.
     let (newDailyReset, dailySpent) =
           (if dailyEnd \<le> nowTs then (nowTs, 0) else (lastDailyReset, currentDailySpent)) in
     bindE (add256 lastMonthlyReset MONTHLY_WINDOW) (\<lambda>monthlyEnd.
     let (newMonthlyReset, monthlySpent) =
           (if monthlyEnd \<le> nowTs then (nowTs, 0) else (lastMonthlyReset, currentMonthlySpent)) in
     Inr (newDailyReset, newMonthlyReset, dailySpent, monthlySpent)))"

definition validateEthSpend ::
  "uint256 \<Rightarrow> uint256 \<Rightarrow> uint256 \<Rightarrow> uint256 \<Rightarrow> uint256 \<Rightarrow> sol_error + unit" where
  "validateEthSpend dailySpent monthlySpent dailyLimit monthlyLimit amount =
     bindE (add256 dailySpent amount) (\<lambda>d.
     if dailyLimit < d then Inl (DailyLimitExceeded d dailyLimit)
     else bindE (add256 monthlySpent amount) (\<lambda>m.
       if monthlyLimit < m then Inl (MonthlyLimitExceeded m monthlyLimit) else Inr ()))"

definition validateUsdcSpend ::
  "uint256 \<Rightarrow> uint256 \<Rightarrow> uint256 \<Rightarrow> uint256 \<Rightarrow> uint256 \<Rightarrow> sol_error + unit" where
  "validateUsdcSpend dailySpent monthlySpent dailyLimit monthlyLimit amount =
     bindE (add256 dailySpent amount) (\<lambda>d.
     if dailyLimit < d then Inl (DailyLimitExceeded d dailyLimit)
     else bindE (add256 monthlySpent amount) (\<lambda>m.
       if monthlyLimit < m then Inl (MonthlyLimitExceeded m monthlyLimit) else Inr ()))"

section \<open>What the library guarantees\<close>

text \<open>
  One window, on natural numbers: the abstract specification of half of
  \<open>maybeResetWindows\<close>.
\<close>

definition roll :: "nat \<Rightarrow> nat \<Rightarrow> nat \<Rightarrow> nat \<Rightarrow> nat \<times> nat" where
  "roll W anchor spent now = (if anchor + W \<le> now then (now, 0) else (anchor, spent))"

lemma maybeResetWindows_refines_roll:
  assumes "maybeResetWindows ld lm d m now = Inr (ld', lm', d', m')"
  shows "(unat ld', unat d') = roll 86400 (unat ld) (unat d) (unat now)"
    and "(unat lm', unat m') = roll 2592000 (unat lm) (unat m) (unat now)"
proof -
  from assms obtain e f where e: "add256 ld DAILY_WINDOW = Inr e"
    and f: "add256 lm MONTHLY_WINDOW = Inr f"
    and r: "(ld', d') = (if e \<le> now then (now, 0) else (ld, d))"
      "(lm', m') = (if f \<le> now then (now, 0) else (lm, m))"
    by (auto simp: maybeResetWindows_def bindE_Inr_iff Let_def split: if_splits)
  from add256_unat[OF e] have "unat e = unat ld + 86400" by (simp add: DAILY_WINDOW_def)
  with r(1) show "(unat ld', unat d') = roll 86400 (unat ld) (unat d) (unat now)"
    by (auto simp: roll_def word_le_nat_alt split: if_splits)
  from add256_unat[OF f] have "unat f = unat lm + 2592000" by (simp add: MONTHLY_WINDOW_def)
  with r(2) show "(unat lm', unat m') = roll 2592000 (unat lm) (unat m) (unat now)"
    by (auto simp: roll_def word_le_nat_alt split: if_splits)
qed

lemma maybeResetWindows_total:
  assumes "unat ld + 86400 < 2 ^ 256" and "unat lm + 2592000 < 2 ^ 256"
  obtains ld' lm' d' m' where "maybeResetWindows ld lm d m now = Inr (ld', lm', d', m')"
proof -
  from assms have "add256 ld DAILY_WINDOW = Inr (ld + DAILY_WINDOW)"
    "add256 lm MONTHLY_WINDOW = Inr (lm + MONTHLY_WINDOW)"
    by (simp_all add: add256_def DAILY_WINDOW_def MONTHLY_WINDOW_def)
  then have "\<exists>q. maybeResetWindows ld lm d m now = Inr q"
    by (auto simp: maybeResetWindows_def Let_def)
  then show ?thesis using that by (metis prod_cases4)
qed

text \<open>
  A second call with the anchors that the first one returned never resets: the window that
  just started at \<open>now\<close> has not expired, and one that did not expire before still has not.
\<close>

lemma maybeResetWindows_again:
  assumes "maybeResetWindows ld lm d m now = Inr (ld', lm', d', m')"
    and "maybeResetWindows ld' lm' d2 m2 now = Inr (ld'', lm'', d2', m2')"
  shows "ld'' = ld' \<and> lm'' = lm' \<and> d2' = d2 \<and> m2' = m2"
proof -
  have W: "0 < (86400 :: nat)" "0 < (2592000 :: nat)" by simp_all
  from maybeResetWindows_refines_roll[OF assms(1)] maybeResetWindows_refines_roll[OF assms(2)] W
  have "unat ld'' = unat ld' \<and> unat d2' = unat d2" "unat lm'' = unat lm' \<and> unat m2' = unat m2"
    by (auto simp: roll_def split: if_splits)
  then show ?thesis by (simp add: word_unat_eq_iff)
qed

lemma maybeResetWindows_in_range:
  assumes "maybeResetWindows ld lm d m now = Inr (ld', lm', d', m')"
  shows "(ld' = ld \<and> unat ld + 86400 < 2 ^ 256 \<or> ld' = now) \<and> (lm' = lm \<and> unat lm + 2592000 < 2 ^ 256 \<or> lm' = now)"
proof -
  from assms obtain e f where "add256 ld DAILY_WINDOW = Inr e" "add256 lm MONTHLY_WINDOW = Inr f"
    and r: "(ld', d') = (if e \<le> now then (now, 0) else (ld, d))"
      "(lm', m') = (if f \<le> now then (now, 0) else (lm, m))"
    by (auto simp: maybeResetWindows_def bindE_Inr_iff Let_def split: if_splits)
  then have "unat ld + 86400 < 2 ^ 256" "unat lm + 2592000 < 2 ^ 256"
    by (simp_all add: add256_Inr DAILY_WINDOW_def MONTHLY_WINDOW_def)
  with r show ?thesis by (auto split: if_splits)
qed

text \<open>Both windows expired, and both windows just started.\<close>

lemma maybeResetWindows_expired:
  assumes "unat ld + 86400 \<le> unat now" and "unat lm + 2592000 \<le> unat now"
  shows "maybeResetWindows ld lm d m now = Inr (now, now, 0, 0)"
proof -
  have "unat ld + 86400 < 2 ^ 256" "unat lm + 2592000 < 2 ^ 256"
    using assms unat_lt_256[of now] by linarith+
  then have a: "add256 ld DAILY_WINDOW = Inr (ld + DAILY_WINDOW)"
    "add256 lm MONTHLY_WINDOW = Inr (lm + MONTHLY_WINDOW)"
    by (simp_all add: add256_def DAILY_WINDOW_def MONTHLY_WINDOW_def)
  from assms add256_unat[OF a(1)] add256_unat[OF a(2)]
  have "ld + DAILY_WINDOW \<le> now" "lm + MONTHLY_WINDOW \<le> now"
    by (simp_all add: word_le_nat_alt DAILY_WINDOW_def MONTHLY_WINDOW_def)
  with a show ?thesis by (simp add: maybeResetWindows_def)
qed

lemma maybeResetWindows_fresh:
  assumes "unat now + 2592000 < 2 ^ 256"
  shows "maybeResetWindows now now d m now = Inr (now, now, d, m)"
proof -
  from assms have a: "add256 now DAILY_WINDOW = Inr (now + DAILY_WINDOW)"
    "add256 now MONTHLY_WINDOW = Inr (now + MONTHLY_WINDOW)"
    by (simp_all add: add256_def DAILY_WINDOW_def MONTHLY_WINDOW_def)
  from add256_unat[OF a(1)] add256_unat[OF a(2)]
  have "\<not> now + DAILY_WINDOW \<le> now" "\<not> now + MONTHLY_WINDOW \<le> now"
    by (simp_all add: word_le_nat_alt DAILY_WINDOW_def MONTHLY_WINDOW_def)
  with a show ?thesis by (simp add: maybeResetWindows_def)
qed

lemma validateEthSpend_Inr:
  "validateEthSpend d m dl ml a = Inr u \<longleftrightarrow>
     unat d + unat a \<le> unat dl \<and> unat m + unat a \<le> unat ml"
proof
  assume "validateEthSpend d m dl ml a = Inr u"
  then show "unat d + unat a \<le> unat dl \<and> unat m + unat a \<le> unat ml"
    by (auto simp: validateEthSpend_def bindE_Inr_iff not_less word_le_nat_alt
        dest: add256_unat split: if_splits)
next
  assume h: "unat d + unat a \<le> unat dl \<and> unat m + unat a \<le> unat ml"
  have "unat d + unat a < 2 ^ 256" "unat m + unat a < 2 ^ 256"
    using h unat_lt_256[of dl] unat_lt_256[of ml] by linarith+
  then have "add256 d a = Inr (d + a)" "unat (d + a) = unat d + unat a"
    "add256 m a = Inr (m + a)" "unat (m + a) = unat m + unat a"
    by (simp_all add: add256_def unat_add256)
  with h show "validateEthSpend d m dl ml a = Inr u"
    by (simp add: validateEthSpend_def word_less_nat_alt not_less)
qed

lemma validateUsdcSpend_eq: "validateUsdcSpend = validateEthSpend"
  by (intro ext) (simp add: validateUsdcSpend_def validateEthSpend_def)

lemma validateUsdcSpend_Inr:
  "validateUsdcSpend d m dl ml a = Inr u \<longleftrightarrow>
     unat d + unat a \<le> unat dl \<and> unat m + unat a \<le> unat ml"
  by (simp add: validateUsdcSpend_eq validateEthSpend_Inr)

section \<open>Rolling-window limiters\<close>

text \<open>
  A machine over events has a rolling-window limiter when some counter \<open>spent\<close> never passes
  \<open>limit\<close>, every event adds at least its \<open>amount\<close> to the counter, and the counter is only given up
  when \<open>W\<close> time units have passed since the \<open>anchor\<close>, which then moves to the time of the event.
\<close>

locale window_limiter =
  fixes apply_ev :: "'ev \<Rightarrow> 's \<Rightarrow> 'e + 's"
    and time :: "'ev \<Rightarrow> nat" and amount :: "'ev \<Rightarrow> nat"
    and anchor :: "'s \<Rightarrow> nat" and spent :: "'s \<Rightarrow> nat" and limit :: "'s \<Rightarrow> nat" and W :: nat
  assumes limit_fixed: "apply_ev ev s = Inr s' \<Longrightarrow> limit s' = limit s"
    and spent_within: "apply_ev ev s = Inr s' \<Longrightarrow> spent s \<le> limit s \<Longrightarrow> spent s' \<le> limit s'"
    and spent_or_rolled: "apply_ev ev s = Inr s' \<Longrightarrow>
      (anchor s' = anchor s \<and> spent s + amount ev \<le> spent s') \<or>
      (anchor s + W \<le> time ev \<and> anchor s' = time ev \<and> amount ev \<le> spent s')"
begin

lemma run_limit_fixed: "foldE apply_ev evs s = Inr s' \<Longrightarrow> limit s' = limit s"
  by (rule foldE_invariant[where P = "\<lambda>t. limit t = limit s"]) (auto dest: limit_fixed)

lemma run_within: "foldE apply_ev evs s = Inr s' \<Longrightarrow> spent s \<le> limit s \<Longrightarrow> spent s' \<le> limit s'"
  by (rule foldE_invariant[where P = "\<lambda>t. spent t \<le> limit t"]) (auto dest: spent_within)

text \<open>From an anchor that allows at most \<open>m\<close> more roll-overs before time \<open>T\<close>.\<close>

lemma spent_before:
  assumes "foldE apply_ev evs s = Inr s'" and "spent s \<le> limit s"
    and "\<forall>ev \<in> set evs. time ev < T" and "T \<le> anchor s + (m + 1) * W" and "0 < W"
  shows "sum_list (map amount evs) + spent s \<le> (m + 1) * limit s"
  using assms
proof (induction evs arbitrary: s m)
  case Nil
  then show ?case by (simp add: trans_le_add1)
next
  case (Cons ev evs)
  from Cons.prems(1) obtain t where t: "apply_ev ev s = Inr t" "foldE apply_ev evs t = Inr s'"
    by (auto simp: result_simps)
  have lt: "limit t = limit s" using limit_fixed[OF t(1)] .
  have st: "spent t \<le> limit t" using spent_within[OF t(1) Cons.prems(2)] .
  have late: "time ev < T" "\<forall>e \<in> set evs. time e < T" using Cons.prems(3) by simp_all
  from spent_or_rolled[OF t(1)] show ?case
  proof (elim disjE)
    assume a: "anchor t = anchor s \<and> spent s + amount ev \<le> spent t"
    then have "sum_list (map amount evs) + spent t \<le> (m + 1) * limit t"
      using Cons.IH[OF t(2) st late(2)] Cons.prems(4,5) by simp
    with a lt show ?thesis by simp
  next
    assume a: "anchor s + W \<le> time ev \<and> anchor t = time ev \<and> amount ev \<le> spent t"
    with late(1) Cons.prems(4) have "0 < m" by (cases m) auto
    then obtain k where m: "m = Suc k" by (cases m) auto
    have "sum_list (map amount evs) + spent t \<le> (k + 1) * limit t"
      using Cons.IH[OF t(2) st late(2), of k] a Cons.prems(4,5) m by simp
    with a lt Cons.prems(2) show ?thesis by (simp add: m)
  qed
qed

text \<open>
  The bound a user can rely on: in any interval of \<open>k\<close> windows the limiter lets through at most
  \<open>k + 1\<close> limits, wherever the windows are anchored.
\<close>

lemma spent_in_interval:
  assumes "foldE apply_ev evs s = Inr s'" and "spent s \<le> limit s"
    and "\<forall>ev \<in> set evs. t0 \<le> time ev \<and> time ev < t0 + k * W" and "0 < W"
  shows "sum_list (map amount evs) + spent s \<le> (k + 1) * limit s"
  using assms
proof (induction evs arbitrary: s)
  case Nil
  then show ?case by (simp add: trans_le_add1)
next
  case (Cons ev evs)
  from Cons.prems(1) obtain t where t: "apply_ev ev s = Inr t" "foldE apply_ev evs t = Inr s'"
    by (auto simp: result_simps)
  have lt: "limit t = limit s" using limit_fixed[OF t(1)] .
  have st: "spent t \<le> limit t" using spent_within[OF t(1) Cons.prems(2)] .
  have rest: "\<forall>e \<in> set evs. t0 \<le> time e \<and> time e < t0 + k * W"
    and first: "t0 \<le> time ev" "time ev < t0 + k * W" using Cons.prems(3) by simp_all
  from first obtain j where k: "k = Suc j" by (cases k) auto
  have rolled: "anchor t = time ev \<Longrightarrow> sum_list (map amount evs) + spent t \<le> k * limit t"
    using spent_before[OF t(2) st, of "t0 + k * W" j] rest first k assms(4) by simp
  from spent_or_rolled[OF t(1)] show ?case
  proof (elim disjE)
    assume a: "anchor t = anchor s \<and> spent s + amount ev \<le> spent t"
    with Cons.IH[OF t(2) st rest assms(4)] lt show ?thesis by simp
  next
    assume a: "anchor s + W \<le> time ev \<and> anchor t = time ev \<and> amount ev \<le> spent t"
    with rolled lt Cons.prems(2) show ?thesis by simp
  qed
qed

end

end
