(* ===== verification/UserOperation_Lib.thy ===== *)
theory UserOperation_Lib
  imports Evm_Base
begin

text \<open>
  The packed user operation as the EntryPoint hands it to an account, and the library
  \<open>UserOperationLib\<close> of \<open>contracts/core/UserOperationLib.sol\<close> that reads its packed fields.
  The Keccak hash is a parameter of the hashing functions.
\<close>

record PackedUserOperation =
  po_sender :: address
  po_nonce :: uint256
  po_initCode :: bytes
  po_callData :: bytes
  po_accountGasLimits :: uint256
  po_preVerificationGas :: uint256
  po_gasFees :: uint256
  po_paymasterAndData :: bytes
  po_signature :: bytes

definition PAYMASTER_VALIDATION_GAS_OFFSET :: nat where "PAYMASTER_VALIDATION_GAS_OFFSET = 20"

definition PAYMASTER_POSTOP_GAS_OFFSET :: nat where "PAYMASTER_POSTOP_GAS_OFFSET = 36"

definition PAYMASTER_DATA_OFFSET :: nat where "PAYMASTER_DATA_OFFSET = 52"

definition unpackHigh128 :: "uint256 \<Rightarrow> uint256" where
  "unpackHigh128 packed = drop_bit 128 packed"

definition unpackLow128 :: "uint256 \<Rightarrow> uint256" where
  "unpackLow128 packed = ucast (ucast packed :: 128 word)"

definition unpackUints :: "uint256 \<Rightarrow> uint256 \<times> uint256" where
  "unpackUints packed = (unpackHigh128 packed, unpackLow128 packed)"

definition min256 :: "uint256 \<Rightarrow> uint256 \<Rightarrow> uint256" where
  "min256 a b = (if a < b then a else b)"

text \<open>\<open>gasPrice\<close> is unchecked: the sum with the base fee wraps around.\<close>

definition gasPrice :: "msg_ctx \<Rightarrow> PackedUserOperation \<Rightarrow> uint256" where
  "gasPrice ctx userOp =
     (let (maxPriorityFeePerGas, maxFeePerGas) = unpackUints (po_gasFees userOp) in
      min256 maxFeePerGas (maxPriorityFeePerGas + block_basefee ctx))"

definition unpackVerificationGasLimit :: "PackedUserOperation \<Rightarrow> uint256" where
  "unpackVerificationGasLimit userOp = unpackHigh128 (po_accountGasLimits userOp)"

definition unpackCallGasLimit :: "PackedUserOperation \<Rightarrow> uint256" where
  "unpackCallGasLimit userOp = unpackLow128 (po_accountGasLimits userOp)"

definition unpackMaxPriorityFeePerGas :: "PackedUserOperation \<Rightarrow> uint256" where
  "unpackMaxPriorityFeePerGas userOp = unpackHigh128 (po_gasFees userOp)"

definition unpackMaxFeePerGas :: "PackedUserOperation \<Rightarrow> uint256" where
  "unpackMaxFeePerGas userOp = unpackLow128 (po_gasFees userOp)"

definition unpackPaymasterVerificationGasLimit :: "PackedUserOperation \<Rightarrow> sol_error + uint256" where
  "unpackPaymasterVerificationGasLimit userOp =
     bindE (slice PAYMASTER_VALIDATION_GAS_OFFSET PAYMASTER_POSTOP_GAS_OFFSET (po_paymasterAndData userOp))
       (\<lambda>bs. Inr (of_nat (be_val bs)))"

definition unpackPostOpGasLimit :: "PackedUserOperation \<Rightarrow> sol_error + uint256" where
  "unpackPostOpGasLimit userOp =
     bindE (slice PAYMASTER_POSTOP_GAS_OFFSET PAYMASTER_DATA_OFFSET (po_paymasterAndData userOp))
       (\<lambda>bs. Inr (of_nat (be_val bs)))"

definition unpackPaymasterStaticFields :: "bytes \<Rightarrow> sol_error + address \<times> uint256 \<times> uint256" where
  "unpackPaymasterStaticFields paymasterAndData =
     bindE (slice 0 PAYMASTER_VALIDATION_GAS_OFFSET paymasterAndData) (\<lambda>pm.
     bindE (slice PAYMASTER_VALIDATION_GAS_OFFSET PAYMASTER_POSTOP_GAS_OFFSET paymasterAndData) (\<lambda>vg.
     bindE (slice PAYMASTER_POSTOP_GAS_OFFSET PAYMASTER_DATA_OFFSET paymasterAndData) (\<lambda>pg.
     Inr (of_nat (be_val pm), of_nat (be_val vg), of_nat (be_val pg)))))"

text \<open>
  \<open>encode\<close> and \<open>hash\<close>: the nine 32-byte words that are hashed, the dynamic fields by their Keccak
  hash; a non-zero override replaces the hash of the init code.
\<close>

definition encode :: "(bytes \<Rightarrow> uint256) \<Rightarrow> uint256 \<Rightarrow> PackedUserOperation \<Rightarrow> uint256 \<Rightarrow> bytes" where
  "encode keccak PACKED_USEROP_TYPEHASH userOp overrideInitCodeHash =
     (let hashInitCode = (if overrideInitCodeHash \<noteq> 0 then overrideInitCodeHash
                          else keccak (po_initCode userOp));
          hashCallData = keccak (po_callData userOp);
          hashPaymasterAndData = keccak (po_paymasterAndData userOp)
      in be_bytes 32 (unat PACKED_USEROP_TYPEHASH)
         @ be_bytes 32 (unat (po_sender userOp)) @ be_bytes 32 (unat (po_nonce userOp))
         @ be_bytes 32 (unat hashInitCode) @ be_bytes 32 (unat hashCallData)
         @ be_bytes 32 (unat (po_accountGasLimits userOp))
         @ be_bytes 32 (unat (po_preVerificationGas userOp))
         @ be_bytes 32 (unat (po_gasFees userOp))
         @ be_bytes 32 (unat hashPaymasterAndData))"

definition hash :: "(bytes \<Rightarrow> uint256) \<Rightarrow> uint256 \<Rightarrow> PackedUserOperation \<Rightarrow> uint256 \<Rightarrow> uint256" where
  "hash keccak typehash userOp overrideInitCodeHash = keccak (encode keccak typehash userOp overrideInitCodeHash)"

section \<open>Values of the unpacked fields\<close>

lemma unat_unpackHigh128: "unat (unpackHigh128 w) = unat w div 2 ^ 128"
  unfolding unpackHigh128_def unat_drop_bit_eq by (rule drop_bit_eq_div)

lemma unat_unpackLow128: "unat (unpackLow128 w) = unat w mod 2 ^ 128"
proof -
  have "unat (ucast w :: 128 word) = take_bit 128 (unat w)"
    using unsigned_ucast_eq[of w, where 'a = nat and 'c = 128] by simp
  also have "\<dots> = unat w mod 2 ^ 128" by (rule take_bit_eq_mod)
  finally have low: "unat (ucast w :: 128 word) = unat w mod 2 ^ 128" .
  have "unat (unpackLow128 w) = take_bit 256 (unat (ucast w :: 128 word))"
    unfolding unpackLow128_def
    using unsigned_ucast_eq[of "ucast w :: 128 word", where 'a = nat and 'c = 256] by simp
  also have "\<dots> = unat (ucast w :: 128 word) mod 2 ^ 256" by (rule take_bit_eq_mod)
  also have "\<dots> = unat (ucast w :: 128 word)"
    unfolding low by (rule mod_less) (rule less_trans[OF mod_less_divisor], simp_all)
  finally show ?thesis using low by simp
qed

lemma unpackHigh128_lt: "unat (unpackHigh128 w) < 2 ^ 128"
  using unat_lt_256[of w] by (simp add: unat_unpackHigh128 less_mult_imp_div_less)

lemma unpackLow128_lt: "unat (unpackLow128 w) < 2 ^ 128"
  by (simp add: unat_unpackLow128)

lemma unpackUints_determines: "unpackUints v = unpackUints w \<longleftrightarrow> v = w"
proof
  assume "unpackUints v = unpackUints w"
  then have "unat v div 2 ^ 128 = unat w div 2 ^ 128" "unat v mod 2 ^ 128 = unat w mod 2 ^ 128"
    using unat_unpackHigh128 unat_unpackLow128 by (metis prod.inject unpackUints_def)+
  then have "unat v = unat w" by (metis div_mult_mod_eq)
  then show "v = w" by (simp add: word_unat_eq_iff)
qed simp

lemma min256_le: "min256 a b \<le> a" "min256 a b \<le> b"
  by (auto simp: min256_def)

lemma gasPrice_le_maxFee: "gasPrice ctx userOp \<le> unpackMaxFeePerGas userOp"
  by (simp add: gasPrice_def unpackUints_def unpackMaxFeePerGas_def min256_le)

end
