(* ===== verification/Spending_Account.thy ===== *)
theory Spending_Account
  imports Limit_Policy UserOperation_Lib
begin

text \<open>
  The contract \<open>SpendingAccount\<close> of \<open>src/src/SpendingAccount.sol\<close>: its immutables and storage, every
  internal and external function, and the dispatcher of its external functions. Calls to other
  contracts are made through the record \<open>evm\<close>, whose components are arbitrary functions of the whole
  chain: a callee may re-enter the account.
\<close>

section \<open>State\<close>

record account =
  this_addr :: address
  entryPointContract :: address
  vaultOwner :: address
  paymasterAddress :: address
  usdcPerEth :: uint256
  dailyEthLimit :: uint256
  monthlyEthLimit :: uint256
  dailyUsdcLimit :: uint256
  monthlyUsdcLimit :: uint256
  dailyEthSpent :: uint256
  monthlyEthSpent :: uint256
  dailyUsdcSpent :: uint256
  monthlyUsdcSpent :: uint256
  lastDailyResetTimestamp :: uint256
  lastMonthlyResetTimestamp :: uint256
  emergencyWithdrawRequestTime :: uint256
  lastLargeSpendTime :: uint256

definition USDC :: address where "USDC = 0x833589fCD6eDb6E08f4c7C32D4f71b54bdA02913"

definition PREMIUM_BPS :: uint256 where "PREMIUM_BPS = 500"
definition WITHDRAW_TIMELOCK :: uint256 where "WITHDRAW_TIMELOCK = 172800"
definition COOLDOWN_PERIOD :: uint256 where "COOLDOWN_PERIOD = 3600"
definition PANIC_THRESHOLD_BPS :: uint256 where "PANIC_THRESHOLD_BPS = 5000"
definition MIN_GAS_FOR_USDC_TRANSFER :: uint256 where "MIN_GAS_FOR_USDC_TRANSFER = 60000"
definition SIG_VALIDATION_FAILED :: uint256 where "SIG_VALIDATION_FAILED = 1"
definition SIG_VALIDATION_SUCCESS :: uint256 where "SIG_VALIDATION_SUCCESS = 0"

text \<open>Function selectors, the first four bytes of the Keccak hash of the signatures.\<close>

definition execute_selector :: bytes where "execute_selector = [0xb6, 0x1d, 0x27, 0xf6]"
definition executeBatch_selector :: bytes where "executeBatch_selector = [0x34, 0xfc, 0xd5, 0xbe]"
definition transfer_selector :: bytes where "transfer_selector = [0xa9, 0x05, 0x9c, 0xbb]"
definition balanceOf_selector :: bytes where "balanceOf_selector = [0x70, 0xa0, 0x82, 0x31]"
definition depositTo_selector :: bytes where "depositTo_selector = [0xb7, 0x60, 0xfa, 0xf9]"

datatype event =
    EthSpent uint256
  | UsdcSpent uint256
  | EmergencyWithdrawRequested
  | EmergencyWithdrawExecuted address uint256 uint256

record Call =
  call_target :: address
  call_value :: uint256
  call_data :: bytes

text \<open>
  The chain: the account, the events it emitted, the calls with which it left the contract, in
  order, and everything else.
\<close>

record 'w chain =
  acct :: account
  events :: "event list"
  sent :: "Call list"
  world :: 'w

text \<open>
  Code outside the contract: a call (its return data, with the new chain when it succeeded), a
  static call, the signature recovery of the ECDSA library, the account's own ether balance and the
  code size of an address.
\<close>

record 'w evm =
  x_call :: "msg_ctx \<Rightarrow> address \<Rightarrow> uint256 \<Rightarrow> bytes \<Rightarrow> 'w chain \<Rightarrow> bytes + bytes \<times> 'w chain"
  x_static :: "address \<Rightarrow> bytes \<Rightarrow> 'w chain \<Rightarrow> bytes + bytes"
  x_recover :: "uint256 \<Rightarrow> bytes \<Rightarrow> sol_error + address"
  x_balance :: "'w chain \<Rightarrow> uint256"
  x_codesize :: "address \<Rightarrow> 'w chain \<Rightarrow> nat"

definition constructor ::
  "msg_ctx \<Rightarrow> address \<Rightarrow> address \<Rightarrow> address \<Rightarrow> address \<Rightarrow> uint256 \<Rightarrow>
     uint256 \<Rightarrow> uint256 \<Rightarrow> uint256 \<Rightarrow> uint256 \<Rightarrow> account" where
  "constructor ctx this ep owner pm rate dEth mEth dUsdc mUsdc =
     \<lparr>this_addr = this, entryPointContract = ep, vaultOwner = owner, paymasterAddress = pm,
      usdcPerEth = rate, dailyEthLimit = dEth, monthlyEthLimit = mEth,
      dailyUsdcLimit = dUsdc, monthlyUsdcLimit = mUsdc,
      dailyEthSpent = 0, monthlyEthSpent = 0, dailyUsdcSpent = 0, monthlyUsdcSpent = 0,
      lastDailyResetTimestamp = block_timestamp ctx, lastMonthlyResetTimestamp = block_timestamp ctx,
      emergencyWithdrawRequestTime = 0, lastLargeSpendTime = 0\<rparr>"

section \<open>Spend amounts\<close>

text \<open>
  \<open>_parseSpendAmounts\<close>: only ether sends and \<open>transfer\<close> on the USDC token pass.
\<close>

definition parseSpendAmounts :: "address \<Rightarrow> uint256 \<Rightarrow> bytes \<Rightarrow> sol_error + uint256 \<times> uint256" where
  "parseSpendAmounts target value data =
     (let ethAmount = (if 0 < value then value else 0) in
      if target = USDC then
        (if 0 < value then Inl InvalidTargetOrSelector
         else if length data < 4 then Inl InvalidSelector
         else if take 4 data = transfer_selector then
           (if length data < 68 then Inl InvalidSelector
            else bindE (abi_decode_transfer (drop 4 data)) (\<lambda>(_, amount). Inr (ethAmount, amount)))
         else Inl InvalidSelector)
      else if value = 0 then Inl InvalidTargetOrSelector
      else Inr (ethAmount, 0))"

text \<open>The loop that sums the amounts of a batch, with checked additions.\<close>

fun sumSpendAmounts :: "Call list \<Rightarrow> uint256 \<Rightarrow> uint256 \<Rightarrow> sol_error + uint256 \<times> uint256" where
  "sumSpendAmounts [] totalEth totalUsdc = Inr (totalEth, totalUsdc)"
| "sumSpendAmounts (c # cs) totalEth totalUsdc =
     bindE (parseSpendAmounts (call_target c) (call_value c) (call_data c)) (\<lambda>(e, u).
     bindE (add256 totalEth e) (\<lambda>totalEth'.
     bindE (add256 totalUsdc u) (\<lambda>totalUsdc'. sumSpendAmounts cs totalEth' totalUsdc')))"

definition mk_call :: "address \<times> uint256 \<times> bytes \<Rightarrow> Call" where
  "mk_call c = (case c of (t, v, d) \<Rightarrow> \<lparr>call_target = t, call_value = v, call_data = d\<rparr>)"

definition parseSpendAmountsFromCallData :: "bytes \<Rightarrow> sol_error + uint256 \<times> uint256" where
  "parseSpendAmountsFromCallData callData =
     (if length callData < 4 then Inr (0, 0)
      else if take 4 callData = execute_selector then
        bindE (abi_decode_execute (drop 4 callData)) (\<lambda>(target, value, data).
          parseSpendAmounts target value data)
      else if take 4 callData = executeBatch_selector then
        bindE (abi_decode_calls (drop 4 callData)) (\<lambda>calls.
          sumSpendAmounts (map mk_call calls) 0 0)
      else Inl InvalidTargetOrSelector)"

text \<open>\<open>_getUsdcGasCostIfPaymaster\<close>: the largest charge the paymaster can make, in USDC.\<close>

definition withPremiumInUsdc :: "uint256 \<Rightarrow> uint256 \<Rightarrow> sol_error + uint256" where
  "withPremiumInUsdc rate cost =
     bindE (mul256 cost PREMIUM_BPS) (\<lambda>p.
     bindE (add256 cost (p div 10000)) (\<lambda>costWithPremium.
     bindE (mul256 costWithPremium rate) (\<lambda>x. Inr (x div 1000000000000000000))))"

definition getUsdcGasCostIfPaymaster ::
  "msg_ctx \<Rightarrow> account \<Rightarrow> PackedUserOperation \<Rightarrow> sol_error + uint256" where
  "getUsdcGasCostIfPaymaster ctx a userOp =
     (let pmd = po_paymasterAndData userOp in
      if length pmd < 52 then Inr 0
      else if of_nat (be_val (take 20 pmd)) \<noteq> paymasterAddress a then Inr 0
      else
        let validationGasLimit = of_nat (be_val (take 16 (drop 20 pmd)));
            postOpGasLimit = of_nat (be_val (take 16 (drop 36 pmd))) in
        bindE (add256 (po_preVerificationGas userOp) (unpackVerificationGasLimit userOp)) (\<lambda>g1.
        bindE (add256 g1 (unpackCallGasLimit userOp)) (\<lambda>g2.
        bindE (add256 g2 validationGasLimit) (\<lambda>g3.
        bindE (add256 g3 postOpGasLimit) (\<lambda>requiredGas.
        bindE (mul256 requiredGas (gasPrice ctx userOp)) (\<lambda>maxCostEth.
        withPremiumInUsdc (usdcPerEth a) maxCostEth))))))"

section \<open>Panic cooldown and limits\<close>

definition getUsdValue :: "account \<Rightarrow> uint256 \<Rightarrow> sol_error + uint256" where
  "getUsdValue a ethAmount =
     bindE (mul256 ethAmount (usdcPerEth a)) (\<lambda>x. Inr (x div 1000000000000000000))"

definition checkAndUpdatePanicCooldown ::
  "account \<Rightarrow> uint256 \<Rightarrow> uint256 \<Rightarrow> uint256 \<Rightarrow> sol_error + account" where
  "checkAndUpdatePanicCooldown a now ethAmount usdcAmount =
     bindE (if lastLargeSpendTime a = 0 then Inr ()
            else bindE (add256 (lastLargeSpendTime a) COOLDOWN_PERIOD) (\<lambda>end.
              if now < end then Inl LargeSpendCooldownActive else Inr ())) (\<lambda>_.
     bindE (getUsdValue a ethAmount) (\<lambda>v.
     bindE (add256 v usdcAmount) (\<lambda>totalUsdValue.
     bindE (mul256 (dailyUsdcLimit a) PANIC_THRESHOLD_BPS) (\<lambda>t.
     Inr (if t div 10000 < totalUsdValue then a\<lparr>lastLargeSpendTime := now\<rparr> else a)))))"

definition validatePreflightLimits ::
  "account \<Rightarrow> uint256 \<Rightarrow> uint256 \<Rightarrow> uint256 \<Rightarrow> sol_error + account" where
  "validatePreflightLimits a nowTs ethSpend usdcSpend =
     bindE (maybeResetWindows (lastDailyResetTimestamp a) (lastMonthlyResetTimestamp a)
              (dailyEthSpent a) (monthlyEthSpent a) nowTs) (\<lambda>(_, _, dailyEth, monthlyEth).
     bindE (maybeResetWindows (lastDailyResetTimestamp a) (lastMonthlyResetTimestamp a)
              (dailyUsdcSpent a) (monthlyUsdcSpent a) nowTs) (\<lambda>(_, _, dailyUsdc, monthlyUsdc).
     bindE (if 0 < ethSpend
            then validateEthSpend dailyEth monthlyEth (dailyEthLimit a) (monthlyEthLimit a) ethSpend
            else Inr ()) (\<lambda>_.
     bindE (if 0 < usdcSpend
            then validateUsdcSpend dailyUsdc monthlyUsdc (dailyUsdcLimit a) (monthlyUsdcLimit a) usdcSpend
            else Inr ()) (\<lambda>_.
     checkAndUpdatePanicCooldown a nowTs ethSpend usdcSpend))))"

definition applySpendAndUpdate ::
  "account \<Rightarrow> uint256 \<Rightarrow> uint256 \<Rightarrow> uint256 \<Rightarrow> sol_error + account \<times> event list" where
  "applySpendAndUpdate a nowTs ethAmount usdcAmount =
     bindE (maybeResetWindows (lastDailyResetTimestamp a) (lastMonthlyResetTimestamp a)
              (dailyEthSpent a) (monthlyEthSpent a) nowTs)
       (\<lambda>(newDailyReset, newMonthlyReset, dailyEth, monthlyEth).
     bindE (maybeResetWindows newDailyReset newMonthlyReset
              (dailyUsdcSpent a) (monthlyUsdcSpent a) nowTs)
       (\<lambda>(_, _, dailyUsdc, monthlyUsdc).
     bindE (if 0 < ethAmount then
              bindE (validateEthSpend dailyEth monthlyEth (dailyEthLimit a) (monthlyEthLimit a) ethAmount) (\<lambda>_.
              bindE (add256 dailyEth ethAmount) (\<lambda>d.
              bindE (add256 monthlyEth ethAmount) (\<lambda>m.
              Inr (a\<lparr>dailyEthSpent := d, monthlyEthSpent := m\<rparr>, [EthSpent ethAmount]))))
            else Inr (a, [])) (\<lambda>(a1, ev1).
     bindE (if 0 < usdcAmount then
              bindE (validateUsdcSpend dailyUsdc monthlyUsdc (dailyUsdcLimit a) (monthlyUsdcLimit a) usdcAmount) (\<lambda>_.
              bindE (add256 dailyUsdc usdcAmount) (\<lambda>d.
              bindE (add256 monthlyUsdc usdcAmount) (\<lambda>m.
              Inr (a1\<lparr>dailyUsdcSpent := d, monthlyUsdcSpent := m\<rparr>, ev1 @ [UsdcSpent usdcAmount]))))
            else Inr (a1, ev1)) (\<lambda>(a2, ev2).
     Inr (a2\<lparr>lastDailyResetTimestamp := newDailyReset,
             lastMonthlyResetTimestamp := newMonthlyReset\<rparr>, ev2)))))"

definition applyUsdcSpend :: "account \<Rightarrow> uint256 \<Rightarrow> uint256 \<Rightarrow> sol_error + account \<times> event list" where
  "applyUsdcSpend a nowTs amount =
     bindE (maybeResetWindows (lastDailyResetTimestamp a) (lastMonthlyResetTimestamp a)
              (dailyEthSpent a) (monthlyUsdcSpent a) nowTs)
       (\<lambda>(newDailyReset, newMonthlyReset, _, _).
     bindE (maybeResetWindows newDailyReset newMonthlyReset
              (dailyUsdcSpent a) (monthlyUsdcSpent a) nowTs)
       (\<lambda>(_, _, dailyUsdc, monthlyUsdc).
     bindE (validateUsdcSpend dailyUsdc monthlyUsdc (dailyUsdcLimit a) (monthlyUsdcLimit a) amount) (\<lambda>_.
     bindE (add256 dailyUsdc amount) (\<lambda>d.
     bindE (add256 monthlyUsdc amount) (\<lambda>m.
     Inr (a\<lparr>dailyUsdcSpent := d, monthlyUsdcSpent := m,
            lastDailyResetTimestamp := newDailyReset,
            lastMonthlyResetTimestamp := newMonthlyReset\<rparr>, [UsdcSpent amount]))))))"

section \<open>External functions\<close>

text \<open>\<open>Exec.call\<close> and \<open>_doCall\<close>: the call is recorded, and its failure reverts with its data.\<close>

definition exec_call ::
  "'w evm \<Rightarrow> msg_ctx \<Rightarrow> address \<Rightarrow> uint256 \<Rightarrow> bytes \<Rightarrow> 'w chain \<Rightarrow> bytes + bytes \<times> 'w chain" where
  "exec_call evm ctx target value data ch =
     x_call evm ctx target value data
       (ch\<lparr>sent := sent ch @ [\<lparr>call_target = target, call_value = value, call_data = data\<rparr>]\<rparr>)"

definition doCall ::
  "'w evm \<Rightarrow> msg_ctx \<Rightarrow> address \<Rightarrow> uint256 \<Rightarrow> bytes \<Rightarrow> 'w chain \<Rightarrow> sol_error + 'w chain" where
  "doCall evm ctx target value data ch =
     (case exec_call evm ctx target value data ch of
        Inl ret \<Rightarrow> Inl (Reverted ret) | Inr (_, ch') \<Rightarrow> Inr ch')"

definition validateSignature ::
  "'w evm \<Rightarrow> account \<Rightarrow> PackedUserOperation \<Rightarrow> uint256 \<Rightarrow> sol_error + uint256" where
  "validateSignature evm a userOp userOpHash =
     bindE (x_recover evm userOpHash (po_signature userOp)) (\<lambda>recovered.
     Inr (if recovered \<noteq> vaultOwner a then SIG_VALIDATION_FAILED else SIG_VALIDATION_SUCCESS))"

text \<open>\<open>_payPrefund\<close> ignores the success of the transfer; a failed one changes nothing.\<close>

definition payPrefund :: "'w evm \<Rightarrow> msg_ctx \<Rightarrow> uint256 \<Rightarrow> 'w chain \<Rightarrow> 'w chain" where
  "payPrefund evm ctx missingAccountFunds ch =
     (if missingAccountFunds \<noteq> 0 then
        (case exec_call evm ctx (msg_sender ctx) missingAccountFunds [] ch of
           Inl _ \<Rightarrow> ch | Inr (_, ch') \<Rightarrow> ch')
      else ch)"

definition validateUserOp ::
  "'w evm \<Rightarrow> msg_ctx \<Rightarrow> PackedUserOperation \<Rightarrow> uint256 \<Rightarrow> uint256 \<Rightarrow> 'w chain \<Rightarrow>
     sol_error + uint256 \<times> 'w chain" where
  "validateUserOp evm ctx userOp userOpHash missingAccountFunds ch =
     (if msg_sender ctx \<noteq> entryPointContract (acct ch) then Inl NotFromEntryPoint
      else
        bindE (validateSignature evm (acct ch) userOp userOpHash) (\<lambda>validationData.
        bindE (parseSpendAmountsFromCallData (po_callData userOp)) (\<lambda>(ethSpend, usdcSpend).
        bindE (getUsdcGasCostIfPaymaster ctx (acct ch) userOp) (\<lambda>usdcGasCost.
        bindE (add256 usdcSpend usdcGasCost) (\<lambda>usdcTotal.
        bindE (validatePreflightLimits (acct ch) (block_timestamp ctx) ethSpend usdcTotal) (\<lambda>a.
        Inr (validationData, payPrefund evm ctx missingAccountFunds (ch\<lparr>acct := a\<rparr>))))))))"

definition validateAndRecordSpend ::
  "account \<Rightarrow> uint256 \<Rightarrow> address \<Rightarrow> uint256 \<Rightarrow> bytes \<Rightarrow> sol_error + account \<times> event list" where
  "validateAndRecordSpend a now target value data =
     bindE (parseSpendAmounts target value data) (\<lambda>(ethAmount, usdcAmount).
     bindE (checkAndUpdatePanicCooldown a now ethAmount usdcAmount) (\<lambda>a1.
     applySpendAndUpdate a1 now ethAmount usdcAmount))"

definition execute ::
  "'w evm \<Rightarrow> msg_ctx \<Rightarrow> address \<Rightarrow> uint256 \<Rightarrow> bytes \<Rightarrow> 'w chain \<Rightarrow> sol_error + 'w chain" where
  "execute evm ctx target value data ch =
     (if msg_sender ctx \<noteq> entryPointContract (acct ch) then Inl NotFromEntryPoint
      else
        bindE (validateAndRecordSpend (acct ch) (block_timestamp ctx) target value data) (\<lambda>(a, evs).
        doCall evm ctx target value data (ch\<lparr>acct := a, events := events ch @ evs\<rparr>)))"

definition executeBatch ::
  "'w evm \<Rightarrow> msg_ctx \<Rightarrow> Call list \<Rightarrow> 'w chain \<Rightarrow> sol_error + 'w chain" where
  "executeBatch evm ctx calls ch =
     (if msg_sender ctx \<noteq> entryPointContract (acct ch) then Inl NotFromEntryPoint
      else
        bindE (sumSpendAmounts calls 0 0) (\<lambda>(totalEth, totalUsdc).
        bindE (checkAndUpdatePanicCooldown (acct ch) (block_timestamp ctx) totalEth totalUsdc) (\<lambda>a1.
        bindE (applySpendAndUpdate a1 (block_timestamp ctx) totalEth totalUsdc) (\<lambda>(a2, evs).
        foldE (\<lambda>c. doCall evm ctx (call_target c) (call_value c) (call_data c)) calls
          (ch\<lparr>acct := a2, events := events ch @ evs\<rparr>)))))"

definition payForGasInUsdc ::
  "'w evm \<Rightarrow> msg_ctx \<Rightarrow> uint256 \<Rightarrow> 'w chain \<Rightarrow> sol_error + 'w chain" where
  "payForGasInUsdc evm ctx amount ch =
     (if msg_sender ctx \<noteq> paymasterAddress (acct ch) then Inl NotFromPaymaster
      else if gasleft ctx < MIN_GAS_FOR_USDC_TRANSFER then
        Inl (InsufficientGasForUsdcTransfer (gasleft ctx) MIN_GAS_FOR_USDC_TRANSFER)
      else
        bindE (applyUsdcSpend (acct ch) (block_timestamp ctx) amount) (\<lambda>(a, evs).
        doCall evm ctx USDC 0
          (transfer_selector @ abi_encode_transfer (paymasterAddress (acct ch)) amount)
          (ch\<lparr>acct := a, events := events ch @ evs\<rparr>)))"

text \<open>\<open>depositTo\<close> returns nothing, so the compiler checks first that there is code to call.\<close>

definition addDeposit :: "'w evm \<Rightarrow> msg_ctx \<Rightarrow> uint256 \<Rightarrow> 'w chain \<Rightarrow> sol_error + 'w chain" where
  "addDeposit evm ctx msgValue ch =
     (if x_codesize evm (entryPointContract (acct ch)) ch = 0 then Inl EmptyRevert
      else doCall evm ctx (entryPointContract (acct ch)) msgValue
        (depositTo_selector @ be_bytes 32 (unat (this_addr (acct ch)))) ch)"

definition getDeposit :: "'w evm \<Rightarrow> 'w chain \<Rightarrow> sol_error + uint256" where
  "getDeposit evm ch =
     (case x_static evm (entryPointContract (acct ch))
             (balanceOf_selector @ be_bytes 32 (unat (this_addr (acct ch)))) ch of
        Inl ret \<Rightarrow> Inl (Reverted ret) | Inr ret \<Rightarrow> uint_at ret 0)"

definition requestEmergencyWithdraw :: "msg_ctx \<Rightarrow> 'w chain \<Rightarrow> sol_error + 'w chain" where
  "requestEmergencyWithdraw ctx ch =
     (if msg_sender ctx \<noteq> vaultOwner (acct ch) then Inl NotVaultOwner
      else Inr (ch\<lparr>acct := (acct ch)\<lparr>emergencyWithdrawRequestTime := block_timestamp ctx\<rparr>,
                   events := events ch @ [EmergencyWithdrawRequested]\<rparr>))"

text \<open>The transfer of the whole USDC balance, decoding the token's boolean answer.\<close>

definition sweepUsdc :: "'w evm \<Rightarrow> msg_ctx \<Rightarrow> address \<Rightarrow> 'w chain \<Rightarrow> sol_error + uint256 \<times> 'w chain" where
  "sweepUsdc evm ctx recipient ch =
     (if 0 < x_codesize evm USDC ch then
        (case x_static evm USDC (balanceOf_selector @ be_bytes 32 (unat (this_addr (acct ch)))) ch of
           Inl ret \<Rightarrow> Inl (Reverted ret)
         | Inr ret \<Rightarrow>
             bindE (uint_at ret 0) (\<lambda>usdcAmount.
             if 0 < usdcAmount then
               (case exec_call evm ctx USDC 0 (transfer_selector @ abi_encode_transfer recipient usdcAmount) ch of
                  Inl ret' \<Rightarrow> Inl (Reverted ret')
                | Inr (ret', ch') \<Rightarrow>
                    bindE (word_at ret' 0) (\<lambda>ok.
                    if ok = 1 then Inr (usdcAmount, ch') else Inl EmptyRevert))
             else Inr (usdcAmount, ch)))
      else Inr (0, ch))"

definition emergencyWithdraw :: "'w evm \<Rightarrow> msg_ctx \<Rightarrow> address \<Rightarrow> 'w chain \<Rightarrow> sol_error + 'w chain" where
  "emergencyWithdraw evm ctx recipient ch =
     (if msg_sender ctx \<noteq> vaultOwner (acct ch) then Inl NotVaultOwner
      else if emergencyWithdrawRequestTime (acct ch) = 0 then Inl NoWithdrawRequested
      else
        bindE (add256 (emergencyWithdrawRequestTime (acct ch)) WITHDRAW_TIMELOCK) (\<lambda>ready.
        if block_timestamp ctx < ready then Inl WithdrawTimelockNotMet
        else
          let ch1 = ch\<lparr>acct := (acct ch)\<lparr>emergencyWithdrawRequestTime := 0\<rparr>\<rparr>;
              ethAmount = x_balance evm ch1 in
          bindE (if 0 < ethAmount then
                   (case exec_call evm ctx recipient ethAmount [] ch1 of
                      Inl _ \<Rightarrow> Inl EmptyRevert | Inr (_, ch2) \<Rightarrow> Inr ch2)
                 else Inr ch1) (\<lambda>ch2.
          bindE (sweepUsdc evm ctx recipient ch2) (\<lambda>(usdcAmount, ch3).
          Inr (ch3\<lparr>events := events ch3 @ [EmergencyWithdrawExecuted recipient ethAmount usdcAmount]\<rparr>)))))"

section \<open>Dispatch\<close>

text \<open>
  A transaction's call of one external function; the validation result of \<open>validateUserOp\<close> is left
  to its caller. \<open>receive\<close> changes nothing.
\<close>

datatype operation =
    ValidateUserOp PackedUserOperation uint256 uint256
  | Execute address uint256 bytes
  | ExecuteBatch "Call list"
  | PayForGasInUsdc uint256
  | AddDeposit uint256
  | RequestEmergencyWithdraw
  | EmergencyWithdraw address
  | Receive

fun dispatch :: "'w evm \<Rightarrow> msg_ctx \<Rightarrow> operation \<Rightarrow> 'w chain \<Rightarrow> sol_error + 'w chain" where
  "dispatch evm ctx (ValidateUserOp userOp h missing) ch =
     bindE (validateUserOp evm ctx userOp h missing ch) (\<lambda>(_, ch'). Inr ch')"
| "dispatch evm ctx (Execute target value data) ch = execute evm ctx target value data ch"
| "dispatch evm ctx (ExecuteBatch calls) ch = executeBatch evm ctx calls ch"
| "dispatch evm ctx (PayForGasInUsdc amount) ch = payForGasInUsdc evm ctx amount ch"
| "dispatch evm ctx (AddDeposit v) ch = addDeposit evm ctx v ch"
| "dispatch evm ctx RequestEmergencyWithdraw ch = requestEmergencyWithdraw ctx ch"
| "dispatch evm ctx (EmergencyWithdraw recipient) ch = emergencyWithdraw evm ctx recipient ch"
| "dispatch evm ctx Receive ch = Inr ch"

text \<open>
  A sequence of transactions: a revert leaves the chain as it was. The result also lists the
  transactions that went through.
\<close>

fun run :: "'w evm \<Rightarrow> (msg_ctx \<times> operation) list \<Rightarrow> 'w chain \<Rightarrow> 'w chain \<times> (msg_ctx \<times> operation) list" where
  "run evm [] ch = (ch, [])"
| "run evm ((ctx, op) # txs) ch =
     (case dispatch evm ctx op ch of
        Inl _ \<Rightarrow> run evm txs ch
      | Inr ch' \<Rightarrow> (case run evm txs ch' of (ch'', done) \<Rightarrow> (ch'', (ctx, op) # done)))"

end
