(* ===== verification/Account_Machine.thy ===== *)
theory Account_Machine
  imports Spending_Account
begin

text \<open>
  The abstract machine behind \<open>SpendingAccount\<close>: the storage transitions its code can make, each
  with the time at which it happens, without the calls to other contracts. The contract refines it
  (\<open>dispatch_refines\<close>, \<open>run_refines\<close>), whatever its callees do as long as they reach the account's
  storage through the account's own functions; and its four counters are rolling-window limiters.
\<close>

section \<open>The machine\<close>

datatype action =
    Spend uint256 uint256
  | Preflight uint256 uint256
  | PayGas uint256
  | RequestWithdraw
  | FinishWithdraw

fun perform :: "uint256 \<Rightarrow> action \<Rightarrow> account \<Rightarrow> sol_error + account" where
  "perform now (Spend e u) a =
     bindE (checkAndUpdatePanicCooldown a now e u) (\<lambda>a1.
     bindE (applySpendAndUpdate a1 now e u) (\<lambda>(a2, _). Inr a2))"
| "perform now (Preflight e u) a = validatePreflightLimits a now e u"
| "perform now (PayGas u) a = bindE (applyUsdcSpend a now u) (\<lambda>(a1, _). Inr a1)"
| "perform now RequestWithdraw a = Inr (a\<lparr>emergencyWithdrawRequestTime := now\<rparr>)"
| "perform now FinishWithdraw a =
     (if emergencyWithdrawRequestTime a = 0 then Inl NoWithdrawRequested
      else bindE (add256 (emergencyWithdrawRequestTime a) WITHDRAW_TIMELOCK) (\<lambda>ready.
        if now < ready then Inl WithdrawTimelockNotMet
        else Inr (a\<lparr>emergencyWithdrawRequestTime := 0\<rparr>)))"

text \<open>Who may make a transition, and the error everyone else gets.\<close>

fun authorised :: "account \<Rightarrow> action \<Rightarrow> address" where
  "authorised a (Spend e u) = entryPointContract a"
| "authorised a (Preflight e u) = entryPointContract a"
| "authorised a (PayGas u) = paymasterAddress a"
| "authorised a RequestWithdraw = vaultOwner a"
| "authorised a FinishWithdraw = vaultOwner a"

fun denied :: "action \<Rightarrow> sol_error" where
  "denied (Spend e u) = NotFromEntryPoint"
| "denied (Preflight e u) = NotFromEntryPoint"
| "denied (PayGas u) = NotFromPaymaster"
| "denied RequestWithdraw = NotVaultOwner"
| "denied FinishWithdraw = NotVaultOwner"

type_synonym acct_event = "uint256 \<times> address \<times> action"

fun acct_apply :: "acct_event \<Rightarrow> account \<Rightarrow> sol_error + account" where
  "acct_apply (now, who, act) a =
     (if who \<noteq> authorised a act then Inl (denied act) else perform now act a)"

fun ev_time :: "acct_event \<Rightarrow> nat" where
  "ev_time (now, who, act) = unat now"

fun eth_amount :: "action \<Rightarrow> nat" where
  "eth_amount (Spend e u) = unat e"
| "eth_amount _ = 0"

fun usdc_amount :: "action \<Rightarrow> nat" where
  "usdc_amount (Spend e u) = unat u"
| "usdc_amount (PayGas u) = unat u"
| "usdc_amount _ = 0"

fun ev_eth :: "acct_event \<Rightarrow> nat" where
  "ev_eth (now, who, act) = eth_amount act"

fun ev_usdc :: "acct_event \<Rightarrow> nat" where
  "ev_usdc (now, who, act) = usdc_amount act"

section \<open>What the internal functions write\<close>

text \<open>The cooldown check writes one field only.\<close>

lemma checkAndUpdatePanicCooldown_frame:
  "checkAndUpdatePanicCooldown a now e u = Inr a' \<Longrightarrow> a' = a \<or> a' = a\<lparr>lastLargeSpendTime := now\<rparr>"
  by (auto simp: checkAndUpdatePanicCooldown_def result_simps split: if_splits)

lemma validatePreflightLimits_frame:
  "validatePreflightLimits a now e u = Inr a' \<Longrightarrow> a' = a \<or> a' = a\<lparr>lastLargeSpendTime := now\<rparr>"
  by (auto simp: validatePreflightLimits_def bindE_Inr_iff
      dest!: checkAndUpdatePanicCooldown_frame)

text \<open>
  The two counters of a currency after a successful check: both grow by the amount, and both stay
  within their limits.
\<close>

definition charged :: "uint256 \<Rightarrow> uint256 \<Rightarrow> uint256 \<Rightarrow> uint256 \<Rightarrow> uint256 \<Rightarrow> uint256 \<Rightarrow> uint256 \<Rightarrow> bool" where
  "charged d m dl ml x d' m' \<longleftrightarrow>
     unat d' = unat d + unat x \<and> unat m' = unat m + unat x \<and> unat d' \<le> unat dl \<and> unat m' \<le> unat ml"

lemma charge_Inr:
  "bindE (validateEthSpend d m dl ml x) (\<lambda>_. bindE (add256 d x) (\<lambda>d'. bindE (add256 m x) (\<lambda>m'. f d' m'))) = Inr r
    \<longleftrightarrow> (\<exists>d' m'. charged d m dl ml x d' m' \<and> f d' m' = Inr r)" (is "?L \<longleftrightarrow> ?R")
proof
  assume ?L
  then obtain d' m' where c: "unat d + unat x \<le> unat dl" "unat m + unat x \<le> unat ml"
    "add256 d x = Inr d'" "add256 m x = Inr m'" and f: "f d' m' = Inr r"
    by (auto simp: bindE_Inr_iff validateEthSpend_Inr)
  from c add256_unat[OF c(3)] add256_unat[OF c(4)] have "charged d m dl ml x d' m'"
    by (simp add: charged_def)
  with f show ?R by blast
next
  assume ?R
  then obtain d' m' where c: "charged d m dl ml x d' m'" and f: "f d' m' = Inr r" by blast
  have "unat d + unat x < 2 ^ 256" "unat m + unat x < 2 ^ 256"
    using c unat_lt_256[of d'] unat_lt_256[of m'] by (simp_all add: charged_def)
  moreover from this have "d + x = d'" "m + x = m'"
    using c by (simp_all add: charged_def word_unat_eq_iff unat_add256)
  ultimately have "add256 d x = Inr d'" "add256 m x = Inr m'" by (simp_all add: add256_def)
  with f c show ?L by (simp add: bindE_Inr_iff validateEthSpend_Inr charged_def)
qed

text \<open>
  \<open>applySpendAndUpdate\<close> in one step: the ether counters are rolled and charged when there is ether to
  spend and left alone otherwise; the USDC counters are charged and never rolled; the anchors
  are moved by the roll in either case.
\<close>

lemma applySpendAndUpdate_Inr:
  assumes "applySpendAndUpdate a now e u = Inr (a', evs)"
  obtains ld lm d m dE mE dU mU where
    "maybeResetWindows (lastDailyResetTimestamp a) (lastMonthlyResetTimestamp a)
       (dailyEthSpent a) (monthlyEthSpent a) now = Inr (ld, lm, d, m)"
    and "if 0 < e then charged d m (dailyEthLimit a) (monthlyEthLimit a) e dE mE
         else dE = dailyEthSpent a \<and> mE = monthlyEthSpent a"
    and "if 0 < u then charged (dailyUsdcSpent a) (monthlyUsdcSpent a) (dailyUsdcLimit a) (monthlyUsdcLimit a) u dU mU
         else dU = dailyUsdcSpent a \<and> mU = monthlyUsdcSpent a"
    and "a' = a\<lparr>dailyEthSpent := dE, monthlyEthSpent := mE, dailyUsdcSpent := dU, monthlyUsdcSpent := mU,
               lastDailyResetTimestamp := ld, lastMonthlyResetTimestamp := lm\<rparr>"
    and "evs = (if 0 < e then [EthSpent e] else []) @ (if 0 < u then [UsdcSpent u] else [])"
proof -
  let ?E = "\<lambda>d m. if 0 < e then
       bindE (validateEthSpend d m (dailyEthLimit a) (monthlyEthLimit a) e) (\<lambda>_.
       bindE (add256 d e) (\<lambda>d'. bindE (add256 m e) (\<lambda>m'.
       Inr (a\<lparr>dailyEthSpent := d', monthlyEthSpent := m'\<rparr>, [EthSpent e]))))
     else Inr (a, [])"
  let ?U = "\<lambda>d m a1 ev1. if 0 < u then
       bindE (validateEthSpend d m (dailyUsdcLimit a) (monthlyUsdcLimit a) u) (\<lambda>_.
       bindE (add256 d u) (\<lambda>d'. bindE (add256 m u) (\<lambda>m'.
       Inr (a1\<lparr>dailyUsdcSpent := d', monthlyUsdcSpent := m'\<rparr>, ev1 @ [UsdcSpent u]))))
     else Inr (a1, ev1)"
  note s0 = assms[unfolded applySpendAndUpdate_def validateUsdcSpend_eq]
  obtain ld lm d m where
    r1: "maybeResetWindows (lastDailyResetTimestamp a) (lastMonthlyResetTimestamp a)
       (dailyEthSpent a) (monthlyEthSpent a) now = Inr (ld, lm, d, m)"
    by (rule bindE_InrE4[OF s0]) (rule that)
  note s1 = s0[unfolded r1 bindE_simps prod.case]
  obtain ld2 lm2 dU0 mU0 where
    r2: "maybeResetWindows ld lm (dailyUsdcSpent a) (monthlyUsdcSpent a) now = Inr (ld2, lm2, dU0, mU0)"
    by (rule bindE_InrE4[OF s1]) (rule that)
  note s2 = s1[unfolded r2 bindE_simps prod.case]
  obtain a1 ev1 where e: "?E d m = Inr (a1, ev1)"
    by (rule bindE_InrE2[OF s2]) (rule that)
  note s3 = s2[unfolded e bindE_simps prod.case]
  obtain a2 ev2 where u: "?U dU0 mU0 a1 ev1 = Inr (a2, ev2)"
    by (rule bindE_InrE2[OF s3]) (rule that)
  from s3[unfolded u bindE_simps prod.case]
  have a': "a' = a2\<lparr>lastDailyResetTimestamp := ld, lastMonthlyResetTimestamp := lm\<rparr>" "evs = ev2"
    by simp_all
  from maybeResetWindows_again[OF r1 r2] have same: "dU0 = dailyUsdcSpent a" "mU0 = monthlyUsdcSpent a"
    by simp_all
  from e obtain dE mE where E: "if 0 < e then charged d m (dailyEthLimit a) (monthlyEthLimit a) e dE mE
         else dE = dailyEthSpent a \<and> mE = monthlyEthSpent a"
    "a1 = a\<lparr>dailyEthSpent := dE, monthlyEthSpent := mE\<rparr>" "ev1 = (if 0 < e then [EthSpent e] else [])"
    by (cases "0 < e") (auto simp: charge_Inr)
  from u E(2,3) same obtain dU mU where
    U: "if 0 < u then charged (dailyUsdcSpent a) (monthlyUsdcSpent a) (dailyUsdcLimit a) (monthlyUsdcLimit a) u dU mU
         else dU = dailyUsdcSpent a \<and> mU = monthlyUsdcSpent a"
    "a2 = a1\<lparr>dailyUsdcSpent := dU, monthlyUsdcSpent := mU\<rparr>"
    "ev2 = ev1 @ (if 0 < u then [UsdcSpent u] else [])"
    by (cases "0 < u") (auto simp: charge_Inr)
  show ?thesis by (rule that[OF r1 E(1) U(1)]) (use E(2,3) U(2,3) a' in simp_all)
qed

lemma applyUsdcSpend_Inr:
  assumes "applyUsdcSpend a now u = Inr (a', evs)"
  obtains ld lm d m dU mU where
    "maybeResetWindows (lastDailyResetTimestamp a) (lastMonthlyResetTimestamp a)
       (dailyEthSpent a) (monthlyUsdcSpent a) now = Inr (ld, lm, d, m)"
    and "charged (dailyUsdcSpent a) (monthlyUsdcSpent a) (dailyUsdcLimit a) (monthlyUsdcLimit a) u dU mU"
    and "a' = a\<lparr>dailyUsdcSpent := dU, monthlyUsdcSpent := mU,
               lastDailyResetTimestamp := ld, lastMonthlyResetTimestamp := lm\<rparr>"
    and "evs = [UsdcSpent u]"
proof -
  note s0 = assms[unfolded applyUsdcSpend_def validateUsdcSpend_eq]
  obtain ld lm d m where
    r1: "maybeResetWindows (lastDailyResetTimestamp a) (lastMonthlyResetTimestamp a)
       (dailyEthSpent a) (monthlyUsdcSpent a) now = Inr (ld, lm, d, m)"
    by (rule bindE_InrE4[OF s0]) (rule that)
  note s1 = s0[unfolded r1 bindE_simps prod.case]
  obtain ld2 lm2 dU0 mU0 where
    r2: "maybeResetWindows ld lm (dailyUsdcSpent a) (monthlyUsdcSpent a) now = Inr (ld2, lm2, dU0, mU0)"
    by (rule bindE_InrE4[OF s1]) (rule that)
  note u = s1[unfolded r2 bindE_simps prod.case]
  from maybeResetWindows_again[OF r1 r2] have "dU0 = dailyUsdcSpent a" "mU0 = monthlyUsdcSpent a"
    by simp_all
  with u r1 show ?thesis using that by (auto simp: charge_Inr)
qed

section \<open>The counters as limiters\<close>

definition limits_of :: "account \<Rightarrow> uint256 \<times> uint256 \<times> uint256 \<times> uint256" where
  "limits_of a = (dailyEthLimit a, monthlyEthLimit a, dailyUsdcLimit a, monthlyUsdcLimit a)"

text \<open>What one step does to the counters, once and for all four of them.\<close>

definition eth_step :: "nat \<Rightarrow> nat \<Rightarrow> nat \<Rightarrow> nat \<Rightarrow> nat \<Rightarrow> nat \<Rightarrow> nat \<Rightarrow> nat \<Rightarrow> bool" where
  "eth_step W now x limit anchor spent anchor' spent' \<longleftrightarrow>
     (spent \<le> limit \<longrightarrow> spent' \<le> limit) \<and>
     ((anchor' = anchor \<and> spent + x \<le> spent') \<or>
      (anchor + W \<le> now \<and> anchor' = now \<and> x \<le> spent'))"

lemma eth_step_refl: "eth_step W now 0 l anchor s anchor s"
  by (simp add: eth_step_def)

lemma eth_step_roll:
  assumes "(anchor', s0) = roll W anchor s now"
    and "if 0 < x then s' = s0 + x \<and> s' \<le> l else s' = s"
  shows "eth_step W now x l anchor s anchor' s'"
  using assms by (auto simp: eth_step_def roll_def split: if_splits)

lemma usdc_step_roll:
  assumes "(anchor', s0) = roll W anchor s1 now"
    and "if 0 < x then s' = s + x \<and> s' \<le> l else s' = s"
  shows "eth_step W now x l anchor s anchor' s'"
  using assms by (auto simp: eth_step_def roll_def split: if_splits)

lemmas account_splits = prod.splits if_splits

lemma perform_step:
  assumes "perform now act a = Inr a'"
  shows "limits_of a' = limits_of a"
    and "eth_step 86400 (unat now) (eth_amount act) (unat (dailyEthLimit a))
       (unat (lastDailyResetTimestamp a)) (unat (dailyEthSpent a))
       (unat (lastDailyResetTimestamp a')) (unat (dailyEthSpent a'))"
    and "eth_step 2592000 (unat now) (eth_amount act) (unat (monthlyEthLimit a))
       (unat (lastMonthlyResetTimestamp a)) (unat (monthlyEthSpent a))
       (unat (lastMonthlyResetTimestamp a')) (unat (monthlyEthSpent a'))"
    and "unat (dailyUsdcSpent a') = unat (dailyUsdcSpent a) + usdc_amount act"
    and "unat (monthlyUsdcSpent a') = unat (monthlyUsdcSpent a) + usdc_amount act"
    and "0 < usdc_amount act \<Longrightarrow>
       unat (dailyUsdcSpent a') \<le> unat (dailyUsdcLimit a) \<and> unat (monthlyUsdcSpent a') \<le> unat (monthlyUsdcLimit a)"
proof -
  have "limits_of a' = limits_of a \<and>
    eth_step 86400 (unat now) (eth_amount act) (unat (dailyEthLimit a))
       (unat (lastDailyResetTimestamp a)) (unat (dailyEthSpent a))
       (unat (lastDailyResetTimestamp a')) (unat (dailyEthSpent a')) \<and>
    eth_step 2592000 (unat now) (eth_amount act) (unat (monthlyEthLimit a))
       (unat (lastMonthlyResetTimestamp a)) (unat (monthlyEthSpent a))
       (unat (lastMonthlyResetTimestamp a')) (unat (monthlyEthSpent a')) \<and>
    unat (dailyUsdcSpent a') = unat (dailyUsdcSpent a) + usdc_amount act \<and>
    unat (monthlyUsdcSpent a') = unat (monthlyUsdcSpent a) + usdc_amount act \<and>
    (0 < usdc_amount act \<longrightarrow>
       unat (dailyUsdcSpent a') \<le> unat (dailyUsdcLimit a) \<and> unat (monthlyUsdcSpent a') \<le> unat (monthlyUsdcLimit a))"
  proof (cases act)
    case (Spend e u)
    with assms obtain a1 evs where
      c: "checkAndUpdatePanicCooldown a now e u = Inr a1"
      and s: "applySpendAndUpdate a1 now e u = Inr (a', evs)"
      by (auto simp: bindE_Inr_iff split: account_splits)
    from checkAndUpdatePanicCooldown_frame[OF c] have f:
      "a1 = a \<or> a1 = a\<lparr>lastLargeSpendTime := now\<rparr>" .
    from s show ?thesis
    proof (rule applySpendAndUpdate_Inr)
      fix ld lm d m dE mE dU mU
      assume r: "maybeResetWindows (lastDailyResetTimestamp a1) (lastMonthlyResetTimestamp a1)
          (dailyEthSpent a1) (monthlyEthSpent a1) now = Inr (ld, lm, d, m)"
        and E: "if 0 < e then charged d m (dailyEthLimit a1) (monthlyEthLimit a1) e dE mE
          else dE = dailyEthSpent a1 \<and> mE = monthlyEthSpent a1"
        and U: "if 0 < u then charged (dailyUsdcSpent a1) (monthlyUsdcSpent a1) (dailyUsdcLimit a1)
            (monthlyUsdcLimit a1) u dU mU
          else dU = dailyUsdcSpent a1 \<and> mU = monthlyUsdcSpent a1"
        and a': "a' = a1\<lparr>dailyEthSpent := dE, monthlyEthSpent := mE, dailyUsdcSpent := dU,
          monthlyUsdcSpent := mU, lastDailyResetTimestamp := ld, lastMonthlyResetTimestamp := lm\<rparr>"
      note rr = maybeResetWindows_refines_roll[OF r]
      have pos: "0 < e \<longleftrightarrow> 0 < unat e" "0 < u \<longleftrightarrow> 0 < unat u"
        by (simp_all add: unat_gt_0 word_gt_0)
      have "eth_step 86400 (unat now) (unat e) (unat (dailyEthLimit a1))
         (unat (lastDailyResetTimestamp a1)) (unat (dailyEthSpent a1)) (unat ld) (unat dE)"
        using E by (intro eth_step_roll[OF rr(1)]) (auto simp: charged_def pos split: if_splits)
      moreover have "eth_step 2592000 (unat now) (unat e) (unat (monthlyEthLimit a1))
         (unat (lastMonthlyResetTimestamp a1)) (unat (monthlyEthSpent a1)) (unat lm) (unat mE)"
        using E by (intro eth_step_roll[OF rr(2)]) (auto simp: charged_def pos split: if_splits)
      moreover have "unat dU = unat (dailyUsdcSpent a1) + unat u" "unat mU = unat (monthlyUsdcSpent a1) + unat u"
        "0 < unat u \<longrightarrow> unat dU \<le> unat (dailyUsdcLimit a1) \<and> unat mU \<le> unat (monthlyUsdcLimit a1)"
        using U by (auto simp: charged_def pos split: if_splits)
      ultimately show ?thesis using f a' Spend by (auto simp: limits_of_def)
    qed
  next
    case (Preflight e u)
    with assms validatePreflightLimits_frame[of a now e u a'] show ?thesis
      by (auto simp: limits_of_def eth_step_refl)
  next
    case (PayGas u)
    with assms obtain evs where s: "applyUsdcSpend a now u = Inr (a', evs)"
      by (auto simp: bindE_Inr_iff split: account_splits)
    from s show ?thesis
    proof (rule applyUsdcSpend_Inr)
      fix ld lm d m dU mU
      assume r: "maybeResetWindows (lastDailyResetTimestamp a) (lastMonthlyResetTimestamp a)
          (dailyEthSpent a) (monthlyUsdcSpent a) now = Inr (ld, lm, d, m)"
        and U: "charged (dailyUsdcSpent a) (monthlyUsdcSpent a) (dailyUsdcLimit a) (monthlyUsdcLimit a) u dU mU"
        and a': "a' = a\<lparr>dailyUsdcSpent := dU, monthlyUsdcSpent := mU,
          lastDailyResetTimestamp := ld, lastMonthlyResetTimestamp := lm\<rparr>"
      note rr = maybeResetWindows_refines_roll[OF r]
      have "eth_step 86400 (unat now) 0 (unat (dailyEthLimit a))
         (unat (lastDailyResetTimestamp a)) (unat (dailyEthSpent a)) (unat ld) (unat (dailyEthSpent a))"
        by (rule usdc_step_roll[OF rr(1)]) simp
      moreover have "eth_step 2592000 (unat now) 0 (unat (monthlyEthLimit a))
         (unat (lastMonthlyResetTimestamp a)) (unat (monthlyEthSpent a)) (unat lm) (unat (monthlyEthSpent a))"
        by (rule usdc_step_roll[OF rr(2)]) simp
      ultimately show ?thesis using U a' PayGas by (auto simp: limits_of_def charged_def)
    qed
  next
    case RequestWithdraw
    with assms show ?thesis by (auto simp: limits_of_def eth_step_refl)
  next
    case FinishWithdraw
    with assms show ?thesis
      by (auto simp: limits_of_def eth_step_refl bindE_Inr_iff split: account_splits)
  qed
  then show "limits_of a' = limits_of a"
    and "eth_step 86400 (unat now) (eth_amount act) (unat (dailyEthLimit a))
       (unat (lastDailyResetTimestamp a)) (unat (dailyEthSpent a))
       (unat (lastDailyResetTimestamp a')) (unat (dailyEthSpent a'))"
    and "eth_step 2592000 (unat now) (eth_amount act) (unat (monthlyEthLimit a))
       (unat (lastMonthlyResetTimestamp a)) (unat (monthlyEthSpent a))
       (unat (lastMonthlyResetTimestamp a')) (unat (monthlyEthSpent a'))"
    and "unat (dailyUsdcSpent a') = unat (dailyUsdcSpent a) + usdc_amount act"
    and "unat (monthlyUsdcSpent a') = unat (monthlyUsdcSpent a) + usdc_amount act"
    and "0 < usdc_amount act \<Longrightarrow>
       unat (dailyUsdcSpent a') \<le> unat (dailyUsdcLimit a) \<and> unat (monthlyUsdcSpent a') \<le> unat (monthlyUsdcLimit a)"
    by simp_all
qed


lemma acct_apply_Inr:
  "acct_apply (now, who, act) a = Inr a' \<longleftrightarrow> who = authorised a act \<and> perform now act a = Inr a'"
  by auto

text \<open>The immutables never change.\<close>

definition immutables :: "account \<Rightarrow> (address \<times> address \<times> address \<times> address) \<times> uint256 \<times> (uint256 \<times> uint256 \<times> uint256 \<times> uint256)" where
  "immutables a = ((this_addr a, entryPointContract a, vaultOwner a, paymasterAddress a), usdcPerEth a, limits_of a)"

lemma applySpendAndUpdate_immutables:
  "applySpendAndUpdate a now e u = Inr (a', evs) \<Longrightarrow> immutables a' = immutables a"
  by (erule applySpendAndUpdate_Inr) (simp add: immutables_def limits_of_def)

lemma applyUsdcSpend_immutables:
  "applyUsdcSpend a now u = Inr (a', evs) \<Longrightarrow> immutables a' = immutables a"
  by (erule applyUsdcSpend_Inr) (simp add: immutables_def limits_of_def)

lemma perform_immutables: "perform now act a = Inr a' \<Longrightarrow> immutables a' = immutables a"
  by (cases act)
    (auto simp: bindE_Inr_iff immutables_def[symmetric] split: account_splits
      dest!: applySpendAndUpdate_immutables applyUsdcSpend_immutables
        checkAndUpdatePanicCooldown_frame validatePreflightLimits_frame,
     auto simp: immutables_def limits_of_def)

lemma acct_apply_immutables: "acct_apply ev a = Inr a' \<Longrightarrow> immutables a' = immutables a"
  by (cases ev) (auto simp: acct_apply_Inr perform_immutables simp del: acct_apply.simps)

lemma acct_run_immutables: "foldE acct_apply evs a = Inr a' \<Longrightarrow> immutables a' = immutables a"
  by (rule foldE_invariant[where P = "\<lambda>b. immutables b = immutables a"]) (auto dest: acct_apply_immutables simp del: acct_apply.simps)

section \<open>Instances of the limiter\<close>

interpretation daily_eth: window_limiter acct_apply ev_time ev_eth
  "\<lambda>a. unat (lastDailyResetTimestamp a)" "\<lambda>a. unat (dailyEthSpent a)"
  "\<lambda>a. unat (dailyEthLimit a)" 86400
proof unfold_locales
  fix ev s s' assume s: "acct_apply ev s = Inr s'"
  obtain now who act where ev: "ev = (now, who, act)" by (cases ev)
  with s have p: "perform now act s = Inr s'" by (auto split: if_splits)
  from perform_step(1)[OF p] show l: "unat (dailyEthLimit s') = unat (dailyEthLimit s)"
    by (simp add: limits_of_def)
  from perform_step(2)[OF p]
  show "(unat (lastDailyResetTimestamp s') = unat (lastDailyResetTimestamp s) \<and>
      unat (dailyEthSpent s) + ev_eth ev \<le> unat (dailyEthSpent s')) \<or>
      (unat (lastDailyResetTimestamp s) + 86400 \<le> ev_time ev \<and>
       unat (lastDailyResetTimestamp s') = ev_time ev \<and> ev_eth ev \<le> unat (dailyEthSpent s'))"
    unfolding eth_step_def ev ev_time.simps ev_eth.simps by (rule conjunct2)
  assume "unat (dailyEthSpent s) \<le> unat (dailyEthLimit s)"
  with perform_step(2)[OF p] l show "unat (dailyEthSpent s') \<le> unat (dailyEthLimit s')"
    by (simp add: eth_step_def)
qed

interpretation monthly_eth: window_limiter acct_apply ev_time ev_eth
  "\<lambda>a. unat (lastMonthlyResetTimestamp a)" "\<lambda>a. unat (monthlyEthSpent a)"
  "\<lambda>a. unat (monthlyEthLimit a)" 2592000
proof unfold_locales
  fix ev s s' assume s: "acct_apply ev s = Inr s'"
  obtain now who act where ev: "ev = (now, who, act)" by (cases ev)
  with s have p: "perform now act s = Inr s'" by (auto split: if_splits)
  from perform_step(1)[OF p] show l: "unat (monthlyEthLimit s') = unat (monthlyEthLimit s)"
    by (simp add: limits_of_def)
  from perform_step(3)[OF p]
  show "(unat (lastMonthlyResetTimestamp s') = unat (lastMonthlyResetTimestamp s) \<and>
      unat (monthlyEthSpent s) + ev_eth ev \<le> unat (monthlyEthSpent s')) \<or>
      (unat (lastMonthlyResetTimestamp s) + 2592000 \<le> ev_time ev \<and>
       unat (lastMonthlyResetTimestamp s') = ev_time ev \<and> ev_eth ev \<le> unat (monthlyEthSpent s'))"
    unfolding eth_step_def ev ev_time.simps ev_eth.simps by (rule conjunct2)
  assume "unat (monthlyEthSpent s) \<le> unat (monthlyEthLimit s)"
  with perform_step(3)[OF p] l show "unat (monthlyEthSpent s') \<le> unat (monthlyEthLimit s')"
    by (simp add: eth_step_def)
qed

text \<open>
  The USDC counters never roll over: they are limiters of a single window without end, here one
  anchored at 0 on a clock that stands still.
\<close>

interpretation life_usdc: window_limiter acct_apply "\<lambda>_. 0" ev_usdc
  "\<lambda>_. 0" "\<lambda>a. unat (dailyUsdcSpent a)" "\<lambda>a. unat (dailyUsdcLimit a)" 1
proof unfold_locales
  fix ev s s' assume s: "acct_apply ev s = Inr s'"
  obtain now who act where ev: "ev = (now, who, act)" by (cases ev)
  with s have p: "perform now act s = Inr s'" by (auto split: if_splits)
  from perform_step(1)[OF p] show l: "unat (dailyUsdcLimit s') = unat (dailyUsdcLimit s)"
    by (simp add: limits_of_def)
  from perform_step(4)[OF p] ev
  show "((0::nat) = 0 \<and> unat (dailyUsdcSpent s) + ev_usdc ev \<le> unat (dailyUsdcSpent s')) \<or>
      (0 + 1 \<le> (0::nat) \<and> (0::nat) = 0 \<and> ev_usdc ev \<le> unat (dailyUsdcSpent s'))" by simp
  assume "unat (dailyUsdcSpent s) \<le> unat (dailyUsdcLimit s)"
  with perform_step(4,6)[OF p] l show "unat (dailyUsdcSpent s') \<le> unat (dailyUsdcLimit s')"
    by (cases "usdc_amount act") auto
qed

interpretation life_usdc_monthly: window_limiter acct_apply "\<lambda>_. 0" ev_usdc
  "\<lambda>_. 0" "\<lambda>a. unat (monthlyUsdcSpent a)" "\<lambda>a. unat (monthlyUsdcLimit a)" 1
proof unfold_locales
  fix ev s s' assume s: "acct_apply ev s = Inr s'"
  obtain now who act where ev: "ev = (now, who, act)" by (cases ev)
  with s have p: "perform now act s = Inr s'" by (auto split: if_splits)
  from perform_step(1)[OF p] show l: "unat (monthlyUsdcLimit s') = unat (monthlyUsdcLimit s)"
    by (simp add: limits_of_def)
  from perform_step(5)[OF p] ev
  show "((0::nat) = 0 \<and> unat (monthlyUsdcSpent s) + ev_usdc ev \<le> unat (monthlyUsdcSpent s')) \<or>
      (0 + 1 \<le> (0::nat) \<and> (0::nat) = 0 \<and> ev_usdc ev \<le> unat (monthlyUsdcSpent s'))" by simp
  assume "unat (monthlyUsdcSpent s) \<le> unat (monthlyUsdcLimit s)"
  with perform_step(5,6)[OF p] l show "unat (monthlyUsdcSpent s') \<le> unat (monthlyUsdcLimit s')"
    by (cases "usdc_amount act") auto
qed

section \<open>The state invariant\<close>

definition within_limits :: "account \<Rightarrow> bool" where
  "within_limits a \<longleftrightarrow>
     dailyEthSpent a \<le> dailyEthLimit a \<and> monthlyEthSpent a \<le> monthlyEthLimit a \<and>
     dailyUsdcSpent a \<le> dailyUsdcLimit a \<and> monthlyUsdcSpent a \<le> monthlyUsdcLimit a"

lemma within_limits_constructor: "within_limits (constructor ctx this ep owner pm rate dE mE dU mU)"
  by (simp add: within_limits_def constructor_def)

lemma acct_run_within_limits:
  "foldE acct_apply evs a = Inr a' \<Longrightarrow> within_limits a \<Longrightarrow> within_limits a'"
  unfolding within_limits_def word_le_nat_alt
  using daily_eth.run_within[of evs a a'] monthly_eth.run_within[of evs a a']
    life_usdc.run_within[of evs a a'] life_usdc_monthly.run_within[of evs a a'] by blast

end
