(* ===== verification/Account_Safety.thy ===== *)
theory Account_Safety
  imports Account_Machine
begin

text \<open>
  The contract refines its abstract machine, and what follows for every sequence of transactions:
  the limits hold, what leaves the account in any interval of time is bounded, the withdrawal
  waits for its timelock. The callees are arbitrary; the one hypothesis on them is
  \<open>storage_protected\<close>, the EVM's rule that only a contract's own code writes its storage.
\<close>

section \<open>Callees\<close>

text \<open>
  A successful call changes the account's storage, if at all, by re-entering the account's own
  functions, in the same block.
\<close>

definition storage_protected :: "'w evm \<Rightarrow> bool" where
  "storage_protected evm \<longleftrightarrow>
     (\<forall>ctx to v d ch rd ch'. x_call evm ctx to v d ch = Inr (rd, ch') \<longrightarrow>
        (\<exists>evs. foldE acct_apply evs (acct ch) = Inr (acct ch') \<and>
               (\<forall>ev \<in> set evs. fst ev = block_timestamp ctx)))"

text \<open>
  The same with the addresses from which the account may be re-entered: \<open>P\<close> has everyone that some called
  contract makes call it. \<open>steps_by P now a a'\<close>: the machine gets from \<open>a\<close> to \<open>a'\<close> at time \<open>now\<close> by transitions of
  those in \<open>P\<close>.
\<close>

definition steps_by :: "address set \<Rightarrow> uint256 \<Rightarrow> account \<Rightarrow> account \<Rightarrow> bool" where
  "steps_by P now a a' \<longleftrightarrow>
     (\<exists>evs. foldE acct_apply evs a = Inr a' \<and> (\<forall>ev \<in> set evs. fst ev = now \<and> fst (snd ev) \<in> P))"

definition reenters :: "address set \<Rightarrow> 'w evm \<Rightarrow> bool" where
  "reenters P evm \<longleftrightarrow>
     (\<forall>ctx to v d ch rd ch'. x_call evm ctx to v d ch = Inr (rd, ch') \<longrightarrow>
        steps_by P (block_timestamp ctx) (acct ch) (acct ch'))"

lemma storage_protected_reenters: "storage_protected evm \<longleftrightarrow> reenters UNIV evm"
  by (simp add: storage_protected_def reenters_def steps_by_def)

lemma steps_by_refl [simp]: "steps_by P now a a"
  unfolding steps_by_def by (rule exI[of _ "[]"]) simp

lemma steps_by_trans [trans]: "steps_by P now a b \<Longrightarrow> steps_by P now b c \<Longrightarrow> steps_by P now a c"
  unfolding steps_by_def
proof (elim exE conjE)
  fix es fs
  assume "foldE acct_apply es a = Inr b" "foldE acct_apply fs b = Inr c"
    "\<forall>ev \<in> set es. fst ev = now \<and> fst (snd ev) \<in> P" "\<forall>ev \<in> set fs. fst ev = now \<and> fst (snd ev) \<in> P"
  then show "\<exists>evs. foldE acct_apply evs a = Inr c \<and> (\<forall>ev \<in> set evs. fst ev = now \<and> fst (snd ev) \<in> P)"
    by (intro exI[of _ "es @ fs"]) (auto simp: foldE_append)
qed

lemma steps_by_immutables: "steps_by P now a b \<Longrightarrow> immutables b = immutables a"
  unfolding steps_by_def using acct_run_immutables by blast

lemma exec_call_steps:
  "reenters P evm \<Longrightarrow> exec_call evm ctx to v d ch = Inr (rd, ch') \<Longrightarrow> steps_by P (block_timestamp ctx) (acct ch) (acct ch')"
  unfolding reenters_def exec_call_def by fastforce

lemma doCall_steps:
  "reenters P evm \<Longrightarrow> doCall evm ctx to v d ch = Inr ch' \<Longrightarrow> steps_by P (block_timestamp ctx) (acct ch) (acct ch')"
  by (auto simp: doCall_def split: sum.splits dest: exec_call_steps)

lemma doCalls_steps:
  assumes "reenters P evm"
    and "foldE (\<lambda>c. doCall evm ctx (call_target c) (call_value c) (call_data c)) cs ch = Inr ch'"
  shows "steps_by P (block_timestamp ctx) (acct ch) (acct ch')"
  using assms(2)
  by (rule foldE_invariant[where P = "\<lambda>c. steps_by P (block_timestamp ctx) (acct ch) (acct c)", rotated 2])
    (auto intro: steps_by_trans doCall_steps[OF assms(1)])

lemma payPrefund_steps:
  "reenters P evm \<Longrightarrow> steps_by P (block_timestamp ctx) (acct ch) (acct (payPrefund evm ctx m ch))"
  by (auto simp: payPrefund_def split: sum.splits dest: exec_call_steps)

lemma sweepUsdc_steps:
  "reenters P evm \<Longrightarrow> sweepUsdc evm ctx r ch = Inr (n, ch') \<Longrightarrow> steps_by P (block_timestamp ctx) (acct ch) (acct ch')"
  by (auto simp: sweepUsdc_def bindE_Inr_iff split: if_splits sum.splits dest: exec_call_steps)

text \<open>
  \<open>moves now e u a a'\<close>: the machine gets from \<open>a\<close> to \<open>a'\<close> at time \<open>now\<close>, charging at least \<open>e\<close> wei and
  \<open>u\<close> units of USDC on the way.
\<close>

definition moves :: "uint256 \<Rightarrow> nat \<Rightarrow> nat \<Rightarrow> account \<Rightarrow> account \<Rightarrow> bool" where
  "moves now e u a a' \<longleftrightarrow>
     (\<exists>evs. foldE acct_apply evs a = Inr a' \<and> (\<forall>ev \<in> set evs. fst ev = now) \<and>
        e \<le> sum_list (map ev_eth evs) \<and> u \<le> sum_list (map ev_usdc evs))"

lemma moves_immutables: "moves now e u a b \<Longrightarrow> immutables b = immutables a"
  unfolding moves_def using acct_run_immutables by blast

lemma moves_refl: "moves now 0 0 a a"
  unfolding moves_def by (rule exI[of _ "[]"]) simp

lemma steps_by_moves: "steps_by P now a b \<Longrightarrow> moves now 0 0 a b"
  unfolding steps_by_def moves_def by auto

lemma payPrefund_moves:
  "storage_protected evm \<Longrightarrow> moves (block_timestamp ctx) 0 0 (acct ch) (acct (payPrefund evm ctx m ch))"
  using steps_by_moves payPrefund_steps storage_protected_reenters by blast

section \<open>What an operation spends\<close>

definition call_usdc :: "Call \<Rightarrow> nat" where
  "call_usdc c = (case parseSpendAmounts (call_target c) (call_value c) (call_data c) of
     Inl _ \<Rightarrow> 0 | Inr (_, u) \<Rightarrow> unat u)"

fun op_eth :: "operation \<Rightarrow> nat" where
  "op_eth (Execute target v data) = unat v"
| "op_eth (ExecuteBatch calls) = sum_list (map (\<lambda>c. unat (call_value c)) calls)"
| "op_eth _ = 0"

fun op_usdc :: "operation \<Rightarrow> nat" where
  "op_usdc (Execute target v data) = call_usdc \<lparr>call_target = target, call_value = v, call_data = data\<rparr>"
| "op_usdc (ExecuteBatch calls) = sum_list (map call_usdc calls)"
| "op_usdc (PayForGasInUsdc amount) = unat amount"
| "op_usdc _ = 0"

text \<open>What the transactions of a run spend together.\<close>

primrec total_eth :: "(msg_ctx \<times> operation) list \<Rightarrow> nat" where
  "total_eth [] = 0"
| "total_eth (tx # txs) = op_eth (snd tx) + total_eth txs"

primrec total_usdc :: "(msg_ctx \<times> operation) list \<Rightarrow> nat" where
  "total_usdc [] = 0"
| "total_usdc (tx # txs) = op_usdc (snd tx) + total_usdc txs"

lemma parseSpendAmounts_eth: "parseSpendAmounts t v d = Inr (e, u) \<Longrightarrow> e = v"
  by (auto simp: parseSpendAmounts_def Let_def bindE_Inr_iff word_gt_0 split: if_splits)

lemma sumSpendAmounts_sums:
  assumes "sumSpendAmounts cs e0 u0 = Inr (e, u)"
  shows "unat e = unat e0 + sum_list (map (\<lambda>c. unat (call_value c)) cs)"
    and "unat u = unat u0 + sum_list (map call_usdc cs)"
proof -
  have "unat e = unat e0 + sum_list (map (\<lambda>c. unat (call_value c)) cs) \<and>
        unat u = unat u0 + sum_list (map call_usdc cs)"
    using assms
  proof (induction cs arbitrary: e0 u0)
    case Nil
    then show ?case by simp
  next
    case (Cons c cs)
    from Cons.prems obtain x y where
      p: "parseSpendAmounts (call_target c) (call_value c) (call_data c) = Inr (x, y)"
      by (auto elim: bindE_InrE2)
    from Cons.prems p obtain e1 u1 where a: "add256 e0 x = Inr e1" "add256 u0 y = Inr u1"
      and r: "sumSpendAmounts cs e1 u1 = Inr (e, u)"
      by (auto elim!: bindE_InrE)
    from p have "x = call_value c" "call_usdc c = unat y"
      by (auto simp: call_usdc_def dest: parseSpendAmounts_eth)
    with Cons.IH[OF r] add256_unat[OF a(1)] add256_unat[OF a(2)] show ?case by simp
  qed
  then show "unat e = unat e0 + sum_list (map (\<lambda>c. unat (call_value c)) cs)"
    and "unat u = unat u0 + sum_list (map call_usdc cs)" by simp_all
qed

section \<open>Refinement\<close>

lemma execute_Inr:
  assumes "execute evm ctx target v data ch = Inr ch'"
  obtains e u a1 a2 evs where "msg_sender ctx = entryPointContract (acct ch)"
    and "parseSpendAmounts target v data = Inr (e, u)"
    and "checkAndUpdatePanicCooldown (acct ch) (block_timestamp ctx) e u = Inr a1"
    and "applySpendAndUpdate a1 (block_timestamp ctx) e u = Inr (a2, evs)"
    and "doCall evm ctx target v data (ch\<lparr>acct := a2, events := events ch @ evs\<rparr>) = Inr ch'"
proof -
  from assms have g: "msg_sender ctx = entryPointContract (acct ch)"
    by (simp add: execute_def split: if_splits)
  note s0 = assms[unfolded execute_def validateAndRecordSpend_def, simplified g, simplified, unfolded bindE_assoc]
  obtain e u where p: "parseSpendAmounts target v data = Inr (e, u)"
    by (rule bindE_InrE2[OF s0]) (rule that)
  note s1 = s0[unfolded p bindE_simps prod.case, unfolded bindE_assoc]
  obtain a1 where c: "checkAndUpdatePanicCooldown (acct ch) (block_timestamp ctx) e u = Inr a1"
    by (rule bindE_InrE[OF s1]) (rule that)
  note s2 = s1[unfolded c bindE_simps prod.case]
  obtain a2 evs where s: "applySpendAndUpdate a1 (block_timestamp ctx) e u = Inr (a2, evs)"
    by (rule bindE_InrE2[OF s2]) (rule that)
  from s2[unfolded s bindE_simps prod.case] g p c s show ?thesis using that by blast
qed

lemma executeBatch_Inr:
  assumes "executeBatch evm ctx calls ch = Inr ch'"
  obtains e u a1 a2 evs where "msg_sender ctx = entryPointContract (acct ch)"
    and "sumSpendAmounts calls 0 0 = Inr (e, u)"
    and "checkAndUpdatePanicCooldown (acct ch) (block_timestamp ctx) e u = Inr a1"
    and "applySpendAndUpdate a1 (block_timestamp ctx) e u = Inr (a2, evs)"
    and "foldE (\<lambda>c. doCall evm ctx (call_target c) (call_value c) (call_data c)) calls
          (ch\<lparr>acct := a2, events := events ch @ evs\<rparr>) = Inr ch'"
proof -
  from assms have g: "msg_sender ctx = entryPointContract (acct ch)"
    by (simp add: executeBatch_def split: if_splits)
  note s0 = assms[unfolded executeBatch_def, simplified g, simplified]
  obtain e u where p: "sumSpendAmounts calls 0 0 = Inr (e, u)"
    by (rule bindE_InrE2[OF s0]) (rule that)
  note s1 = s0[unfolded p bindE_simps prod.case]
  obtain a1 where c: "checkAndUpdatePanicCooldown (acct ch) (block_timestamp ctx) e u = Inr a1"
    by (rule bindE_InrE[OF s1]) (rule that)
  note s2 = s1[unfolded c bindE_simps prod.case]
  obtain a2 evs where s: "applySpendAndUpdate a1 (block_timestamp ctx) e u = Inr (a2, evs)"
    by (rule bindE_InrE2[OF s2]) (rule that)
  from s2[unfolded s bindE_simps prod.case] g p c s show ?thesis using that by blast
qed

lemma validateUserOp_Inr:
  assumes "validateUserOp evm ctx userOp h missing ch = Inr (vd, ch')"
  obtains e u g t a where "msg_sender ctx = entryPointContract (acct ch)"
    and "validateSignature evm (acct ch) userOp h = Inr vd"
    and "parseSpendAmountsFromCallData (po_callData userOp) = Inr (e, u)"
    and "getUsdcGasCostIfPaymaster ctx (acct ch) userOp = Inr g"
    and "add256 u g = Inr t"
    and "validatePreflightLimits (acct ch) (block_timestamp ctx) e t = Inr a"
    and "ch' = payPrefund evm ctx missing (ch\<lparr>acct := a\<rparr>)"
proof -
  from assms have s: "msg_sender ctx = entryPointContract (acct ch)"
    by (simp add: validateUserOp_def split: if_splits)
  note s0 = assms[unfolded validateUserOp_def, simplified s, simplified]
  obtain vd' where v: "validateSignature evm (acct ch) userOp h = Inr vd'"
    by (rule bindE_InrE[OF s0]) (rule that)
  note s1 = s0[unfolded v bindE_simps]
  obtain e u where p: "parseSpendAmountsFromCallData (po_callData userOp) = Inr (e, u)"
    by (rule bindE_InrE2[OF s1]) (rule that)
  note s2 = s1[unfolded p bindE_simps prod.case]
  obtain g where g: "getUsdcGasCostIfPaymaster ctx (acct ch) userOp = Inr g"
    by (rule bindE_InrE[OF s2]) (rule that)
  note s3 = s2[unfolded g bindE_simps]
  obtain t where t: "add256 u g = Inr t"
    by (rule bindE_InrE[OF s3]) (rule that)
  note s4 = s3[unfolded t bindE_simps]
  obtain a where a: "validatePreflightLimits (acct ch) (block_timestamp ctx) e t = Inr a"
    by (rule bindE_InrE[OF s4]) (rule that)
  from s4[unfolded a bindE_simps] v have "validateSignature evm (acct ch) userOp h = Inr vd"
    "ch' = payPrefund evm ctx missing (ch\<lparr>acct := a\<rparr>)" by simp_all
  with s p g t a show ?thesis using that by blast
qed

lemma emergencyWithdraw_Inr:
  assumes "emergencyWithdraw evm ctx r ch = Inr ch'"
  obtains ready ch2 n ch3 where "msg_sender ctx = vaultOwner (acct ch)" and "emergencyWithdrawRequestTime (acct ch) \<noteq> 0"
    and "add256 (emergencyWithdrawRequestTime (acct ch)) WITHDRAW_TIMELOCK = Inr ready" and "\<not> block_timestamp ctx < ready"
    and "(let ch1 = ch\<lparr>acct := (acct ch)\<lparr>emergencyWithdrawRequestTime := 0\<rparr>\<rparr> in
        if 0 < x_balance evm ch1 then \<exists>rd. exec_call evm ctx r (x_balance evm ch1) [] ch1 = Inr (rd, ch2) else ch2 = ch1)"
    and "sweepUsdc evm ctx r ch2 = Inr (n, ch3)" and "acct ch' = acct ch3"
proof -
  let ?ch1 = "ch\<lparr>acct := (acct ch)\<lparr>emergencyWithdrawRequestTime := 0\<rparr>\<rparr>"
  from assms have g: "msg_sender ctx = vaultOwner (acct ch)" "emergencyWithdrawRequestTime (acct ch) \<noteq> 0"
    by (auto simp: emergencyWithdraw_def split: if_splits)
  note s0 = assms[unfolded emergencyWithdraw_def, simplified g, simplified, unfolded Let_def]
  obtain ready where ready: "add256 (emergencyWithdrawRequestTime (acct ch)) WITHDRAW_TIMELOCK = Inr ready"
    by (rule bindE_InrE[OF s0]) (rule that)
  note s1 = s0[unfolded ready bindE_simps]
  from s1 have late: "\<not> block_timestamp ctx < ready" by (simp split: if_splits)
  note s2 = s1[simplified late if_False]
  obtain ch2 where b: "(if 0 < x_balance evm ?ch1 then
       (case exec_call evm ctx r (x_balance evm ?ch1) [] ?ch1 of Inl _ \<Rightarrow> Inl EmptyRevert | Inr (_, c) \<Rightarrow> Inr c)
     else Inr ?ch1) = Inr ch2"
    by (rule bindE_InrE[OF s2]) (rule that)
  note s3 = s2[unfolded b bindE_simps]
  obtain n ch3 where c: "sweepUsdc evm ctx r ch2 = Inr (n, ch3)"
    by (rule bindE_InrE2[OF s3]) (rule that)
  from s3[unfolded c bindE_simps prod.case] have "acct ch' = acct ch3" by auto
  moreover have "let ch1 = ?ch1 in
      if 0 < x_balance evm ch1 then \<exists>rd. exec_call evm ctx r (x_balance evm ch1) [] ch1 = Inr (rd, ch2) else ch2 = ch1"
    using b by (auto simp: Let_def split: if_splits sum.splits)
  ultimately show thesis using that g ready late c by blast
qed

text \<open>The transitions that an operation asks for, with the amounts that its arguments say.\<close>

fun requested :: "msg_ctx \<Rightarrow> account \<Rightarrow> operation \<Rightarrow> sol_error + action list" where
  "requested ctx a (ValidateUserOp userOp h missing) =
     bindE (parseSpendAmountsFromCallData (po_callData userOp)) (\<lambda>(e, u).
     bindE (getUsdcGasCostIfPaymaster ctx a userOp) (\<lambda>g.
     bindE (add256 u g) (\<lambda>t. Inr [Preflight e t])))"
| "requested ctx a (Execute target v data) =
     bindE (parseSpendAmounts target v data) (\<lambda>(e, u). Inr [Spend e u])"
| "requested ctx a (ExecuteBatch calls) = bindE (sumSpendAmounts calls 0 0) (\<lambda>(e, u). Inr [Spend e u])"
| "requested ctx a (PayForGasInUsdc amount) = Inr [PayGas amount]"
| "requested ctx a (AddDeposit v) = Inr []"
| "requested ctx a RequestEmergencyWithdraw = Inr [RequestWithdraw]"
| "requested ctx a (EmergencyWithdraw recipient) = Inr [FinishWithdraw]"
| "requested ctx a Receive = Inr []"

definition by_sender :: "msg_ctx \<Rightarrow> action list \<Rightarrow> acct_event list" where
  "by_sender ctx acts = map (\<lambda>act. (block_timestamp ctx, msg_sender ctx, act)) acts"

text \<open>The functions that call no other contract.\<close>

fun calls_nobody :: "operation \<Rightarrow> bool" where
  "calls_nobody RequestEmergencyWithdraw = True"
| "calls_nobody Receive = True"
| "calls_nobody (ValidateUserOp userOp h missing) = (missing = 0)"
| "calls_nobody _ = False"

lemma dispatch_steps:
  assumes re: "reenters P evm" and d: "dispatch evm ctx op ch = Inr ch'"
  obtains acts a where "requested ctx (acct ch) op = Inr acts"
    and "foldE acct_apply (by_sender ctx acts) (acct ch) = Inr a"
    and "steps_by P (block_timestamp ctx) a (acct ch')" and "calls_nobody op \<Longrightarrow> acct ch' = a"
    and "sum_list (map eth_amount acts) = op_eth op" and "sum_list (map usdc_amount acts) = op_usdc op"
proof (cases op)
  case (ValidateUserOp userOp h missing)
  with d obtain vd where "validateUserOp evm ctx userOp h missing ch = Inr (vd, ch')"
    by (auto elim: bindE_InrE2)
  then show ?thesis
  proof (rule validateUserOp_Inr)
    fix e u g t a
    assume s: "msg_sender ctx = entryPointContract (acct ch)"
      and r: "parseSpendAmountsFromCallData (po_callData userOp) = Inr (e, u)"
        "getUsdcGasCostIfPaymaster ctx (acct ch) userOp = Inr g" "add256 u g = Inr t"
      and p: "validatePreflightLimits (acct ch) (block_timestamp ctx) e t = Inr a"
      and ch': "ch' = payPrefund evm ctx missing (ch\<lparr>acct := a\<rparr>)"
    show ?thesis
    proof (rule that[of "[Preflight e t]" a])
      show "steps_by P (block_timestamp ctx) a (acct ch')"
        using payPrefund_steps[OF re, of ctx "ch\<lparr>acct := a\<rparr>" missing] ch' by simp
    qed (use s r p ch' ValidateUserOp in \<open>simp_all add: by_sender_def payPrefund_def\<close>)
  qed
next
  case (Execute target v data)
  with d have "execute evm ctx target v data ch = Inr ch'" by simp
  then show ?thesis
  proof (rule execute_Inr)
    fix e u a1 a2 evs
    assume g: "msg_sender ctx = entryPointContract (acct ch)"
      and p: "parseSpendAmounts target v data = Inr (e, u)"
      and c: "checkAndUpdatePanicCooldown (acct ch) (block_timestamp ctx) e u = Inr a1"
      and s: "applySpendAndUpdate a1 (block_timestamp ctx) e u = Inr (a2, evs)"
      and x: "doCall evm ctx target v data (ch\<lparr>acct := a2, events := events ch @ evs\<rparr>) = Inr ch'"
    from p have "op_eth op = unat e" "op_usdc op = unat u"
      using Execute by (auto simp: call_usdc_def dest: parseSpendAmounts_eth)
    then show ?thesis using that[of "[Spend e u]" a2] doCall_steps[OF re x] g p c s Execute by (simp add: by_sender_def)
  qed
next
  case (ExecuteBatch calls)
  with d have "executeBatch evm ctx calls ch = Inr ch'" by simp
  then show ?thesis
  proof (rule executeBatch_Inr)
    fix e u a1 a2 evs
    assume g: "msg_sender ctx = entryPointContract (acct ch)"
      and p: "sumSpendAmounts calls 0 0 = Inr (e, u)"
      and c: "checkAndUpdatePanicCooldown (acct ch) (block_timestamp ctx) e u = Inr a1"
      and s: "applySpendAndUpdate a1 (block_timestamp ctx) e u = Inr (a2, evs)"
      and x: "foldE (\<lambda>c. doCall evm ctx (call_target c) (call_value c) (call_data c)) calls
          (ch\<lparr>acct := a2, events := events ch @ evs\<rparr>) = Inr ch'"
    from sumSpendAmounts_sums[OF p] have "op_eth op = unat e" "op_usdc op = unat u"
      using ExecuteBatch by simp_all
    then show ?thesis using that[of "[Spend e u]" a2] doCalls_steps[OF re x] g p c s ExecuteBatch by (simp add: by_sender_def)
  qed
next
  case (PayForGasInUsdc amount)
  let ?call = "transfer_selector @ abi_encode_transfer (paymasterAddress (acct ch)) amount"
  from d PayForGasInUsdc obtain a evs where s: "msg_sender ctx = paymasterAddress (acct ch)"
    and u: "applyUsdcSpend (acct ch) (block_timestamp ctx) amount = Inr (a, evs)"
    and x: "doCall evm ctx USDC 0 ?call (ch\<lparr>acct := a, events := events ch @ evs\<rparr>) = Inr ch'"
    by (auto simp: payForGasInUsdc_def elim: bindE_InrE2 split: if_splits)
  show ?thesis
    by (rule that[of "[PayGas amount]" a]) (use s u doCall_steps[OF re x] PayForGasInUsdc in \<open>simp_all add: by_sender_def\<close>)
next
  case (AddDeposit v)
  with d doCall_steps[OF re] show ?thesis
    by (intro that[of "[]" "acct ch"]) (auto simp: by_sender_def addDeposit_def split: if_splits)
next
  case RequestEmergencyWithdraw
  with d show ?thesis
    by (intro that[of "[RequestWithdraw]" "acct ch'"]) (auto simp: requestEmergencyWithdraw_def by_sender_def split: if_splits)
next
  case (EmergencyWithdraw r)
  with d have "emergencyWithdraw evm ctx r ch = Inr ch'" by simp
  then show ?thesis
  proof (rule emergencyWithdraw_Inr)
    fix ready ch2 n ch3
    let ?a = "(acct ch)\<lparr>emergencyWithdrawRequestTime := 0\<rparr>"
    assume g: "msg_sender ctx = vaultOwner (acct ch)" "emergencyWithdrawRequestTime (acct ch) \<noteq> 0"
        "add256 (emergencyWithdrawRequestTime (acct ch)) WITHDRAW_TIMELOCK = Inr ready" "\<not> block_timestamp ctx < ready"
      and b: "let ch1 = ch\<lparr>acct := ?a\<rparr> in
        if 0 < x_balance evm ch1 then \<exists>rd. exec_call evm ctx r (x_balance evm ch1) [] ch1 = Inr (rd, ch2) else ch2 = ch1"
      and c: "sweepUsdc evm ctx r ch2 = Inr (n, ch3)" "acct ch' = acct ch3"
    have "steps_by P (block_timestamp ctx) ?a (acct ch2)"
      using b exec_call_steps[OF re] by (fastforce simp: Let_def split: if_splits)
    also have "steps_by P (block_timestamp ctx) (acct ch2) (acct ch')" using sweepUsdc_steps[OF re c(1)] c(2) by simp
    finally show ?thesis
      by (intro that[of "[FinishWithdraw]" ?a]) (use g EmergencyWithdraw in \<open>simp_all add: by_sender_def\<close>)
  qed
next
  case Receive
  with d show ?thesis by (intro that[of "[]" "acct ch"]) (simp_all add: by_sender_def)
qed

lemma dispatch_moves:
  assumes sp: "storage_protected evm" and d: "dispatch evm ctx op ch = Inr ch'"
  shows "moves (block_timestamp ctx) (op_eth op) (op_usdc op) (acct ch) (acct ch')"
proof (rule dispatch_steps[OF sp[unfolded storage_protected_reenters] d])
  fix acts a
  assume own: "foldE acct_apply (by_sender ctx acts) (acct ch) = Inr a" and re: "steps_by UNIV (block_timestamp ctx) a (acct ch')"
    and sums: "sum_list (map eth_amount acts) = op_eth op" "sum_list (map usdc_amount acts) = op_usdc op"
  from re obtain evs where evs: "foldE acct_apply evs a = Inr (acct ch')" "\<forall>ev \<in> set evs. fst ev = block_timestamp ctx"
    by (auto simp: steps_by_def)
  have "map ev_eth (by_sender ctx acts) = map eth_amount acts" "map ev_usdc (by_sender ctx acts) = map usdc_amount acts"
    "\<forall>ev \<in> set (by_sender ctx acts). fst ev = block_timestamp ctx" by (auto simp: by_sender_def)
  with own evs sums show ?thesis
    unfolding moves_def by (intro exI[of _ "by_sender ctx acts @ evs"]) (auto simp: foldE_append)
qed

text \<open>A run of transactions is a run of the machine, with at least the same amounts.\<close>

lemma run_moves:
  assumes sp: "storage_protected evm" and r: "run evm txs ch = (ch', done_txs)"
  obtains evs where "foldE acct_apply evs (acct ch) = Inr (acct ch')"
    and "\<forall>ev \<in> set evs. \<exists>tx \<in> set txs. fst ev = block_timestamp (fst tx)"
    and "total_eth done_txs \<le> sum_list (map ev_eth evs)"
    and "total_usdc done_txs \<le> sum_list (map ev_usdc evs)"
proof -
  have "\<exists>evs. foldE acct_apply evs (acct ch) = Inr (acct ch') \<and>
    (\<forall>ev \<in> set evs. \<exists>tx \<in> set txs. fst ev = block_timestamp (fst tx)) \<and>
    total_eth done_txs \<le> sum_list (map ev_eth evs) \<and>
    total_usdc done_txs \<le> sum_list (map ev_usdc evs)"
    using r sp
  proof (induction evm txs ch arbitrary: ch' done_txs rule: run.induct)
    case (1 evm ch)
    then show ?case by (intro exI[of _ "[]"]) simp
  next
    case (2 evm ctx op txs ch)
    show ?case
    proof (cases "dispatch evm ctx op ch")
      case (Inl e)
      with "2.prems"(1) have "run evm txs ch = (ch', done_txs)" by simp
      from "2.IH"(1)[OF Inl this "2.prems"(2)] obtain evs where
        "foldE acct_apply evs (acct ch) = Inr (acct ch')"
        "\<forall>ev \<in> set evs. \<exists>tx \<in> set txs. fst ev = block_timestamp (fst tx)"
        "total_eth done_txs \<le> sum_list (map ev_eth evs)"
        "total_usdc done_txs \<le> sum_list (map ev_usdc evs)" by blast
      then show ?thesis by (intro exI[of _ evs]) auto
    next
      case (Inr ch1)
      obtain c2 done1 where r1: "run evm txs ch1 = (c2, done1)" by fastforce
      with "2.prems" Inr have d: "done_txs = (ctx, op) # done1" "c2 = ch'" by auto
      from "2.IH"(2)[OF Inr] r1 d "2.prems"(2) obtain evs where e:
        "foldE acct_apply evs (acct ch1) = Inr (acct ch')"
        "\<forall>ev \<in> set evs. \<exists>tx \<in> set txs. fst ev = block_timestamp (fst tx)"
        "total_eth done1 \<le> sum_list (map ev_eth evs)"
        "total_usdc done1 \<le> sum_list (map ev_usdc evs)" by blast
      from dispatch_moves[OF "2.prems"(2) Inr] obtain es where f: "foldE acct_apply es (acct ch) = Inr (acct ch1)"
        "\<forall>ev \<in> set es. fst ev = block_timestamp ctx"
        "op_eth op \<le> sum_list (map ev_eth es)" "op_usdc op \<le> sum_list (map ev_usdc es)"
        unfolding moves_def by blast
      from e f d show ?thesis by (intro exI[of _ "es @ evs"]) (auto simp: foldE_append)
    qed
  qed
  then show ?thesis using that by blast
qed

section \<open>The withdrawal timelock and the cooldown on the machine\<close>

lemma applySpendAndUpdate_other:
  "applySpendAndUpdate a now e u = Inr (a', evs) \<Longrightarrow>
     emergencyWithdrawRequestTime a' = emergencyWithdrawRequestTime a \<and> lastLargeSpendTime a' = lastLargeSpendTime a"
  by (erule applySpendAndUpdate_Inr) simp

lemma applyUsdcSpend_other:
  "applyUsdcSpend a now u = Inr (a', evs) \<Longrightarrow>
     emergencyWithdrawRequestTime a' = emergencyWithdrawRequestTime a \<and> lastLargeSpendTime a' = lastLargeSpendTime a"
  by (erule applyUsdcSpend_Inr) simp

lemma perform_request_time:
  assumes "perform now act a = Inr a'"
  shows "emergencyWithdrawRequestTime a' =
    (case act of RequestWithdraw \<Rightarrow> now | FinishWithdraw \<Rightarrow> 0 | _ \<Rightarrow> emergencyWithdrawRequestTime a)"
proof (cases act)
  case (Spend e u)
  with assms obtain a1 evs where c: "checkAndUpdatePanicCooldown a now e u = Inr a1"
    "applySpendAndUpdate a1 now e u = Inr (a', evs)"
    by (auto simp: bindE_Inr_iff split: account_splits)
  from checkAndUpdatePanicCooldown_frame[OF c(1)] applySpendAndUpdate_other[OF c(2)] Spend
  show ?thesis by auto
next
  case (Preflight e u)
  with assms validatePreflightLimits_frame[of a now e u a'] show ?thesis by auto
next
  case (PayGas u)
  with assms obtain evs where "applyUsdcSpend a now u = Inr (a', evs)"
    by (auto simp: bindE_Inr_iff split: account_splits)
  from applyUsdcSpend_other[OF this] PayGas show ?thesis by simp
next
  case RequestWithdraw
  with assms show ?thesis by auto
next
  case FinishWithdraw
  with assms show ?thesis by (auto simp: bindE_Inr_iff split: account_splits)
qed

lemma perform_large_spend_time:
  assumes "perform now act a = Inr a'"
  shows "lastLargeSpendTime a' = lastLargeSpendTime a \<or> lastLargeSpendTime a' = now"
proof (cases act)
  case (Spend e u)
  with assms obtain a1 evs where c: "checkAndUpdatePanicCooldown a now e u = Inr a1"
    "applySpendAndUpdate a1 now e u = Inr (a', evs)"
    by (auto simp: bindE_Inr_iff split: account_splits)
  from checkAndUpdatePanicCooldown_frame[OF c(1)] applySpendAndUpdate_other[OF c(2)]
  show ?thesis by auto
next
  case (Preflight e u)
  with assms validatePreflightLimits_frame[of a now e u a'] show ?thesis by auto
next
  case (PayGas u)
  with assms obtain evs where "applyUsdcSpend a now u = Inr (a', evs)"
    by (auto simp: bindE_Inr_iff split: account_splits)
  from applyUsdcSpend_other[OF this] show ?thesis by simp
next
  case RequestWithdraw
  with assms show ?thesis by auto
next
  case FinishWithdraw
  with assms show ?thesis by (auto simp: bindE_Inr_iff split: account_splits)
qed

lemma moves_large_spend_time:
  assumes "moves now e u a b" and "lastLargeSpendTime a = now"
  shows "lastLargeSpendTime b = now"
proof -
  from assms(1) obtain evs where r: "foldE acct_apply evs a = Inr b" and t: "\<forall>ev \<in> set evs. fst ev = now"
    unfolding moves_def by blast
  from r show ?thesis
  proof (rule foldE_invariant[where P = "\<lambda>c. lastLargeSpendTime c = now", rotated 2])
    fix ev s s' assume ev: "ev \<in> set evs" "lastLargeSpendTime s = now" "acct_apply ev s = Inr s'"
    obtain n who act where e: "ev = (n, who, act)" by (cases ev)
    with t ev(1) have "n = now" by force
    with ev(3) e have "perform now act s = Inr s'" by (simp split: if_splits)
    from perform_large_spend_time[OF this] ev(2) show "lastLargeSpendTime s' = now" by auto
  qed (rule assms(2))
qed

text \<open>Nobody but the owner changes a pending request.\<close>

definition keeps_request :: "account \<Rightarrow> account \<Rightarrow> bool" where
  "keeps_request a a' \<longleftrightarrow> immutables a' = immutables a \<and> emergencyWithdrawRequestTime a' = emergencyWithdrawRequestTime a"

lemma keeps_request_refl [simp]: "keeps_request a a"
  by (simp add: keeps_request_def)

lemma keeps_request_trans [trans]: "keeps_request a b \<Longrightarrow> keeps_request b c \<Longrightarrow> keeps_request a c"
  by (simp add: keeps_request_def)

lemma keeps_request_owner: "keeps_request a b \<Longrightarrow> vaultOwner b = vaultOwner a"
  by (simp add: keeps_request_def immutables_def)

lemma perform_keeps_request:
  assumes "perform now act a = Inr a'" and "act \<noteq> RequestWithdraw" "act \<noteq> FinishWithdraw"
  shows "keeps_request a a'"
  using perform_request_time[OF assms(1)] perform_immutables[OF assms(1)] assms(2,3)
  by (cases act) (simp_all add: keeps_request_def)

lemma others_keep_request:
  assumes "foldE acct_apply evs a = Inr a'" and "\<forall>ev \<in> set evs. fst (snd ev) \<noteq> vaultOwner a"
  shows "keeps_request a a'"
  using assms(1)
proof (rule foldE_invariant[where P = "keeps_request a", rotated 2])
  fix ev s s' assume ev: "ev \<in> set evs" "keeps_request a s" "acct_apply ev s = Inr s'"
  obtain n who act where e: "ev = (n, who, act)" by (cases ev)
  with assms(2) ev have "who \<noteq> vaultOwner s" "who = authorised s act" "perform n act s = Inr s'"
    using keeps_request_owner[OF ev(2)] by (force split: if_splits)+
  then show "keeps_request a s'" using perform_keeps_request keeps_request_trans[OF ev(2)] by fastforce
qed simp

lemma steps_by_keeps_request: "steps_by P now a b \<Longrightarrow> vaultOwner a \<notin> P \<Longrightarrow> keeps_request a b"
  unfolding steps_by_def by (elim exE conjE, erule others_keep_request) auto

text \<open>
  The functions for the exit of the owner, and what an operation does to the request when the owner is not
  re-entered.
\<close>

fun is_exit :: "operation \<Rightarrow> bool" where
  "is_exit RequestEmergencyWithdraw = True"
| "is_exit (EmergencyWithdraw recipient) = True"
| "is_exit _ = False"

lemma requested_keeps_request:
  assumes "requested ctx a op = Inr acts" "\<not> is_exit op" and "foldE acct_apply (by_sender ctx acts) a = Inr b"
  shows "keeps_request a b"
proof -
  from assms(1,2) consider "acts = []" | act where "acts = [act]" "act \<noteq> RequestWithdraw" "act \<noteq> FinishWithdraw"
    by (cases op) (auto simp: bindE_Inr_iff split: prod.splits)
  then show ?thesis
  proof cases
    case 2
    with assms(3) have "perform (block_timestamp ctx) act a = Inr b" by (simp add: by_sender_def split: if_splits)
    with 2 show ?thesis by (intro perform_keeps_request)
  qed (use assms(3) in \<open>simp add: by_sender_def\<close>)
qed

lemma dispatch_keeps:
  assumes "reenters P evm" and "vaultOwner (acct ch) \<notin> P" and "dispatch evm ctx op ch = Inr ch'"
    and "\<not> is_exit op \<or> msg_sender ctx \<noteq> vaultOwner (acct ch)"
  shows "keeps_request (acct ch) (acct ch')"
proof (rule dispatch_steps[OF assms(1,3)])
  fix acts a
  assume own: "requested ctx (acct ch) op = Inr acts" "foldE acct_apply (by_sender ctx acts) (acct ch) = Inr a"
    and re: "steps_by P (block_timestamp ctx) a (acct ch')"
  have k: "keeps_request (acct ch) a"
    using assms(4) requested_keeps_request[OF own(1) _ own(2)] others_keep_request[OF own(2)] by (auto simp: by_sender_def)
  with steps_by_keeps_request[OF re] assms(2) keeps_request_owner[OF k] show ?thesis by (auto intro: keeps_request_trans)
qed

lemma dispatch_exit:
  assumes "reenters P evm" and "vaultOwner (acct ch) \<notin> P" and "dispatch evm ctx op ch = Inr ch'" and "is_exit op"
  shows "msg_sender ctx = vaultOwner (acct ch) \<and> vaultOwner (acct ch') = vaultOwner (acct ch)
    \<and> emergencyWithdrawRequestTime (acct ch') = (if op = RequestEmergencyWithdraw then block_timestamp ctx else 0)"
proof (rule dispatch_steps[OF assms(1,3)])
  fix acts a
  assume own: "requested ctx (acct ch) op = Inr acts" "foldE acct_apply (by_sender ctx acts) (acct ch) = Inr a"
    and re: "steps_by P (block_timestamp ctx) a (acct ch')"
  from assms(4) own have *: "msg_sender ctx = vaultOwner (acct ch)" "vaultOwner a = vaultOwner (acct ch)"
    "emergencyWithdrawRequestTime a = (if op = RequestEmergencyWithdraw then block_timestamp ctx else 0)"
    by (cases op; force simp: by_sender_def bindE_Inr_iff split: if_splits)+
  with steps_by_keeps_request[OF re] assms(2) show ?thesis by (simp add: keeps_request_def immutables_def)
qed

text \<open>The last exit function that went through decides on the request.\<close>

lemma run_last_exit:
  assumes "reenters P evm" and "vaultOwner (acct ch) \<notin> P" and "run evm txs ch = (ch', done_txs)"
  shows "vaultOwner (acct ch') = vaultOwner (acct ch)"
    and "list_all (\<lambda>tx. \<not> is_exit (snd tx)) done_txs
        \<and> emergencyWithdrawRequestTime (acct ch') = emergencyWithdrawRequestTime (acct ch)
      \<or> (\<exists>pre ctx0 op0 post. done_txs = pre @ (ctx0, op0) # post \<and> list_all (\<lambda>tx. \<not> is_exit (snd tx)) post
        \<and> msg_sender ctx0 = vaultOwner (acct ch)
        \<and> (op0 = RequestEmergencyWithdraw \<and> emergencyWithdrawRequestTime (acct ch') = block_timestamp ctx0
          \<or> emergencyWithdrawRequestTime (acct ch') = 0))" (is "?last ch done_txs")
proof -
  have "vaultOwner (acct ch') = vaultOwner (acct ch) \<and> ?last ch done_txs"
    using assms
  proof (induction evm txs ch arbitrary: ch' done_txs rule: run.induct)
    case (2 evm ctx op txs ch)
    show ?case
    proof (cases "dispatch evm ctx op ch")
      case (Inl e)
      with 2 show ?thesis by simp
    next
      case (Inr ch1)
      obtain d1 where r: "run evm txs ch1 = (ch', d1)" and d: "done_txs = (ctx, op) # d1"
        using "2.prems"(3) Inr by (cases "run evm txs ch1") auto
      have step: "vaultOwner (acct ch1) = vaultOwner (acct ch)
        \<and> (if is_exit op then msg_sender ctx = vaultOwner (acct ch) \<and> emergencyWithdrawRequestTime (acct ch1)
              = (if op = RequestEmergencyWithdraw then block_timestamp ctx else 0)
           else emergencyWithdrawRequestTime (acct ch1) = emergencyWithdrawRequestTime (acct ch))"
        using dispatch_exit[OF "2.prems"(1,2) Inr] dispatch_keeps[OF "2.prems"(1,2) Inr]
        by (auto simp: keeps_request_def immutables_def)
      with "2.IH"(2)[OF Inr "2.prems"(1) _ r] "2.prems"(2)
      have ih: "vaultOwner (acct ch') = vaultOwner (acct ch1)" "list_all (\<lambda>tx. \<not> is_exit (snd tx)) d1
            \<and> emergencyWithdrawRequestTime (acct ch') = emergencyWithdrawRequestTime (acct ch1)
          \<or> (\<exists>pre ctx0 op0 post. d1 = pre @ (ctx0, op0) # post \<and> list_all (\<lambda>tx. \<not> is_exit (snd tx)) post
            \<and> msg_sender ctx0 = vaultOwner (acct ch1)
            \<and> (op0 = RequestEmergencyWithdraw \<and> emergencyWithdrawRequestTime (acct ch') = block_timestamp ctx0
              \<or> emergencyWithdrawRequestTime (acct ch') = 0))" by simp_all
      from ih(2) show ?thesis
      proof (elim disjE conjE exE)
        assume none: "list_all (\<lambda>tx. \<not> is_exit (snd tx)) d1"
          "emergencyWithdrawRequestTime (acct ch') = emergencyWithdrawRequestTime (acct ch1)"
        show ?thesis
        proof (cases "is_exit op")
          case True
          have "done_txs = [] @ (ctx, op) # d1" using d by simp
          with none step ih(1) True show ?thesis by (metis (no_types, lifting))
        qed (use none step ih(1) d in simp)
      qed (use step ih(1) d in \<open>metis append_Cons\<close>)+
    qed
  qed simp
  then show "vaultOwner (acct ch') = vaultOwner (acct ch)" and "?last ch done_txs" by blast+
qed

section \<open>Large spends\<close>

text \<open>The value of a spend, in USDC, is above half of the daily USDC limit.\<close>

definition is_large :: "account \<Rightarrow> uint256 \<Rightarrow> uint256 \<Rightarrow> bool" where
  "is_large a e u \<longleftrightarrow>
     unat (dailyUsdcLimit a) * 5000 div 10000 < unat e * unat (usdcPerEth a) div 10 ^ 18 + unat u"

lemma checkAndUpdatePanicCooldown_large:
  assumes "checkAndUpdatePanicCooldown a now e u = Inr a'"
  shows "lastLargeSpendTime a' = (if is_large a e u then now else lastLargeSpendTime a)"
proof -
  note s0 = assms[unfolded checkAndUpdatePanicCooldown_def getUsdValue_def bindE_assoc bindE_simps]
  obtain unit where "(if lastLargeSpendTime a = 0 then Inr ()
      else bindE (add256 (lastLargeSpendTime a) COOLDOWN_PERIOD) (\<lambda>end.
        if now < end then Inl LargeSpendCooldownActive else Inr ())) = Inr unit"
    by (rule bindE_InrE[OF s0]) (rule that)
  note s1 = s0[unfolded this bindE_simps]
  obtain x where x: "mul256 e (usdcPerEth a) = Inr x"
    by (rule bindE_InrE[OF s1]) (rule that)
  note s2 = s1[unfolded x bindE_simps]
  obtain v where v: "add256 (x div 1000000000000000000) u = Inr v"
    by (rule bindE_InrE[OF s2]) (rule that)
  note s3 = s2[unfolded v bindE_simps]
  obtain t where t: "mul256 (dailyUsdcLimit a) PANIC_THRESHOLD_BPS = Inr t"
    by (rule bindE_InrE[OF s3]) (rule that)
  from s3[unfolded t bindE_simps]
  have a': "a' = (if t div 10000 < v then a\<lparr>lastLargeSpendTime := now\<rparr> else a)" by simp
  have "unat (t div 10000) = unat (dailyUsdcLimit a) * 5000 div 10000"
    using mul256_unat[OF t] by (simp add: unat_div256 PANIC_THRESHOLD_BPS_def)
  moreover have "unat v = unat e * unat (usdcPerEth a) div 10 ^ 18 + unat u"
    using add256_unat[OF v] mul256_unat[OF x] by (simp add: unat_div256)
  ultimately have "t div 10000 < v \<longleftrightarrow> is_large a e u"
    by (simp only: is_large_def word_less_nat_alt)
  with a' show ?thesis by simp
qed

lemma validatePreflightLimits_Inr:
  assumes "validatePreflightLimits a now e u = Inr a'"
  obtains ld lm dE mE ld2 lm2 dU mU where
    "maybeResetWindows (lastDailyResetTimestamp a) (lastMonthlyResetTimestamp a)
       (dailyEthSpent a) (monthlyEthSpent a) now = Inr (ld, lm, dE, mE)"
    and "maybeResetWindows (lastDailyResetTimestamp a) (lastMonthlyResetTimestamp a)
       (dailyUsdcSpent a) (monthlyUsdcSpent a) now = Inr (ld2, lm2, dU, mU)"
    and "0 < e \<Longrightarrow> validateEthSpend dE mE (dailyEthLimit a) (monthlyEthLimit a) e = Inr ()"
    and "0 < u \<Longrightarrow> validateUsdcSpend dU mU (dailyUsdcLimit a) (monthlyUsdcLimit a) u = Inr ()"
    and "checkAndUpdatePanicCooldown a now e u = Inr a'"
proof -
  note s0 = assms[unfolded validatePreflightLimits_def]
  obtain ld lm dE mE where
    r1: "maybeResetWindows (lastDailyResetTimestamp a) (lastMonthlyResetTimestamp a)
       (dailyEthSpent a) (monthlyEthSpent a) now = Inr (ld, lm, dE, mE)"
    by (rule bindE_InrE4[OF s0]) (rule that)
  note s1 = s0[unfolded r1 bindE_simps prod.case]
  obtain ld2 lm2 dU mU where
    r2: "maybeResetWindows (lastDailyResetTimestamp a) (lastMonthlyResetTimestamp a)
       (dailyUsdcSpent a) (monthlyUsdcSpent a) now = Inr (ld2, lm2, dU, mU)"
    by (rule bindE_InrE4[OF s1]) (rule that)
  note s2 = s1[unfolded r2 bindE_simps prod.case]
  obtain x where x: "(if 0 < e then validateEthSpend dE mE (dailyEthLimit a) (monthlyEthLimit a) e else Inr ()) = Inr x"
    by (rule bindE_InrE[OF s2]) (rule that)
  note s3 = s2[unfolded x bindE_simps]
  obtain y where y: "(if 0 < u then validateUsdcSpend dU mU (dailyUsdcLimit a) (monthlyUsdcLimit a) u else Inr ()) = Inr y"
    by (rule bindE_InrE[OF s3]) (rule that)
  note s4 = s3[unfolded y bindE_simps]
  show ?thesis by (rule that[OF r1 r2 _ _ s4]) (use x y in simp_all)
qed

lemma validatePreflightLimits_large:
  assumes "validatePreflightLimits a now e u = Inr a'"
  shows "lastLargeSpendTime a' = (if is_large a e u then now else lastLargeSpendTime a)"
  by (rule validatePreflightLimits_Inr[OF assms]) (rule checkAndUpdatePanicCooldown_large)

lemma checkAndUpdatePanicCooldown_blocks:
  assumes "lastLargeSpendTime a \<noteq> 0" and "unat (lastLargeSpendTime a) + 3600 < 2 ^ 256"
    and "unat now < unat (lastLargeSpendTime a) + 3600"
  shows "checkAndUpdatePanicCooldown a now e u = Inl LargeSpendCooldownActive"
proof -
  from assms(2) have c: "add256 (lastLargeSpendTime a) COOLDOWN_PERIOD = Inr (lastLargeSpendTime a + COOLDOWN_PERIOD)"
    by (simp add: add256_def COOLDOWN_PERIOD_def)
  have "now < lastLargeSpendTime a + COOLDOWN_PERIOD"
    using assms(3) add256_unat[OF c] by (simp add: word_less_nat_alt COOLDOWN_PERIOD_def)
  with c assms(1) show ?thesis by (simp add: checkAndUpdatePanicCooldown_def)
qed

lemma checkAndUpdatePanicCooldown_calm:
  assumes "lastLargeSpendTime a = 0" and "\<not> is_large a e u"
    and "unat e * unat (usdcPerEth a) < 2 ^ 256" and "unat (dailyUsdcLimit a) * 5000 < 2 ^ 256"
    and "unat e * unat (usdcPerEth a) div 10 ^ 18 + unat u < 2 ^ 256"
  shows "checkAndUpdatePanicCooldown a now e u = Inr a"
proof -
  let ?x = "e * usdcPerEth a" and ?t = "dailyUsdcLimit a * PANIC_THRESHOLD_BPS"
  let ?v = "?x div 1000000000000000000 + u"
  have x: "mul256 e (usdcPerEth a) = Inr ?x" "mul256 (dailyUsdcLimit a) PANIC_THRESHOLD_BPS = Inr ?t"
    using assms(3,4) by (simp_all add: mul256_def PANIC_THRESHOLD_BPS_def)
  have d: "unat (?x div 1000000000000000000) = unat e * unat (usdcPerEth a) div 10 ^ 18"
    using mul256_unat[OF x(1)] by (simp add: unat_div256)
  then have v: "add256 (?x div 1000000000000000000) u = Inr ?v"
    using assms(5) by (simp only: add256_def if_True)
  have "checkAndUpdatePanicCooldown a now e u =
      Inr (if ?t div 10000 < ?v then a\<lparr>lastLargeSpendTime := now\<rparr> else a)"
    using assms(1) by (simp add: checkAndUpdatePanicCooldown_def getUsdValue_def x v)
  with checkAndUpdatePanicCooldown_large[OF this] assms(1,2) show ?thesis
    by (cases "now = 0") (auto split: if_splits)
qed

text \<open>A check that passes for an amount of USDC passes for a smaller one.\<close>

lemma checkAndUpdatePanicCooldown_less:
  assumes "checkAndUpdatePanicCooldown a now e u = Inr a'" and "\<not> is_large a e u"
  shows "checkAndUpdatePanicCooldown a now e 0 = Inr a"
proof -
  note s0 = assms(1)[unfolded checkAndUpdatePanicCooldown_def getUsdValue_def bindE_assoc bindE_simps]
  obtain unit where c: "(if lastLargeSpendTime a = 0 then Inr ()
      else bindE (add256 (lastLargeSpendTime a) COOLDOWN_PERIOD) (\<lambda>end.
        if now < end then Inl LargeSpendCooldownActive else Inr ())) = Inr unit"
    by (rule bindE_InrE[OF s0]) (rule that)
  note s1 = s0[unfolded c bindE_simps]
  obtain x where x: "mul256 e (usdcPerEth a) = Inr x"
    by (rule bindE_InrE[OF s1]) (rule that)
  note s2 = s1[unfolded x bindE_simps]
  obtain v where v: "add256 (x div 1000000000000000000) u = Inr v"
    by (rule bindE_InrE[OF s2]) (rule that)
  note s3 = s2[unfolded v bindE_simps]
  obtain t where t: "mul256 (dailyUsdcLimit a) PANIC_THRESHOLD_BPS = Inr t"
    by (rule bindE_InrE[OF s3]) (rule that)
  have "unat (t div 10000) = unat (dailyUsdcLimit a) * 5000 div 10000"
    using mul256_unat[OF t] by (simp add: unat_div256 PANIC_THRESHOLD_BPS_def)
  moreover have "unat (x div 1000000000000000000) = unat e * unat (usdcPerEth a) div 10 ^ 18"
    using mul256_unat[OF x] by (simp add: unat_div256)
  ultimately have "\<not> t div 10000 < x div 1000000000000000000"
    using assms(2) by (simp only: is_large_def word_less_nat_alt)
  then show ?thesis
    unfolding checkAndUpdatePanicCooldown_def getUsdValue_def bindE_assoc bindE_simps c x t add256_0
    by simp
qed

text \<open>The accounting of an ether spend succeeds exactly when its amount fits the rolled counters.\<close>

lemma applySpendAndUpdate_eth:
  assumes "maybeResetWindows (lastDailyResetTimestamp a) (lastMonthlyResetTimestamp a)
       (dailyEthSpent a) (monthlyEthSpent a) now = Inr (ld, lm, d, m)"
    and "0 < e" and "validateEthSpend d m (dailyEthLimit a) (monthlyEthLimit a) e = Inr ()"
    and "unat now + 2592000 < 2 ^ 256"
  shows "applySpendAndUpdate a now e 0 =
    Inr (a\<lparr>dailyEthSpent := d + e, monthlyEthSpent := m + e,
           lastDailyResetTimestamp := ld, lastMonthlyResetTimestamp := lm\<rparr>, [EthSpent e])"
proof -
  from assms(3) have fits: "unat d + unat e \<le> unat (dailyEthLimit a)" "unat m + unat e \<le> unat (monthlyEthLimit a)"
    by (simp_all add: validateEthSpend_Inr)
  have "unat d + unat e < 2 ^ 256" "unat m + unat e < 2 ^ 256"
    using fits unat_lt_256[of "dailyEthLimit a"] unat_lt_256[of "monthlyEthLimit a"] by linarith+
  then have add: "add256 d e = Inr (d + e)" "add256 m e = Inr (m + e)" by (simp_all add: add256_def)
  have "unat ld + 86400 < 2 ^ 256" "unat lm + 2592000 < 2 ^ 256"
    using maybeResetWindows_in_range[OF assms(1)] assms(4) by auto
  then obtain l1 l2 u1 u2 where r: "maybeResetWindows ld lm (dailyUsdcSpent a) (monthlyUsdcSpent a) now = Inr (l1, l2, u1, u2)"
    by (rule maybeResetWindows_total)
  show ?thesis using assms(2,3) by (simp add: applySpendAndUpdate_def assms(1) r add)
qed

end
