(* ===== verification/Account_Properties.thy ===== *)
theory Account_Properties
  imports Account_Safety
begin

text \<open>
  The properties of \<open>SpendingAccount\<close> for its users: the bounds on what leaves it, the timelock, and
  the places where its limits do not work the way its documentation says. Each property with
  hypotheses is followed by its instance on a concrete chain.
\<close>

section \<open>A concrete chain\<close>

text \<open>
  Limits and rate of the test suite (1 and 10 ether, 1000 and 10000 USDC, 2000 USDC per ether), an
  EntryPoint at 0xE7, a paymaster at 0xFA, an owner at 0xA11CE whose signature is accepted, and
  callees that succeed and do nothing.
\<close>

definition demo_ctx :: "address \<Rightarrow> uint256 \<Rightarrow> msg_ctx" where
  "demo_ctx who now = \<lparr>msg_sender = who, block_timestamp = now, block_basefee = 1, gasleft = 100000\<rparr>"

definition demo_account :: account where
  "demo_account = constructor (demo_ctx 0 1700000000) 0xACC 0xE7 0xA11CE 0xFA 2000000000
     1000000000000000000 10000000000000000000 1000000000 10000000000"

definition demo_chain :: "unit chain" where
  "demo_chain = \<lparr>acct = demo_account, events = [], sent = [], world = ()\<rparr>"

definition demo_evm :: "unit evm" where
  "demo_evm = \<lparr>x_call = (\<lambda>ctx to v d ch. Inr ([], ch)), x_static = (\<lambda>to d ch. Inr []),
     x_recover = (\<lambda>h s. Inr 0xA11CE), x_balance = (\<lambda>ch. 5000000000000000000), x_codesize = (\<lambda>a ch. if a = 0xE7 then 1 else 0)\<rparr>"

definition demo_op :: "bytes \<Rightarrow> PackedUserOperation" where
  "demo_op cd = \<lparr>po_sender = 0xACC, po_nonce = 0, po_initCode = [], po_callData = cd,
     po_accountGasLimits = 0, po_preVerificationGas = 0, po_gasFees = 0, po_paymasterAndData = [],
     po_signature = []\<rparr>"

lemma demo_evm_protected: "storage_protected demo_evm"
  unfolding storage_protected_def demo_evm_def by (auto intro: exI[of _ "[]"])

lemmas demo_defs = demo_ctx_def demo_account_def demo_chain_def demo_evm_def demo_op_def constructor_def

lemmas account_evals = execute_def validateAndRecordSpend_def parseSpendAmounts_def USDC_def
  checkAndUpdatePanicCooldown_def getUsdValue_def applySpendAndUpdate_def maybeResetWindows_def
  validateEthSpend_def validateUsdcSpend_def add256_def mul256_def doCall_def exec_call_def
  DAILY_WINDOW_def MONTHLY_WINDOW_def COOLDOWN_PERIOD_def PANIC_THRESHOLD_BPS_def

definition demo_spend :: "uint256 \<Rightarrow> msg_ctx \<times> operation" where
  "demo_spend now = (demo_ctx 0xE7 now, Execute 0xB0B 200000000000000000 [])"

lemma demo_run: "run demo_evm [demo_spend 1700000100, demo_spend 1700000200] demo_chain =
    (demo_chain\<lparr>acct := demo_account\<lparr>dailyEthSpent := 400000000000000000, monthlyEthSpent := 400000000000000000\<rparr>,
       events := [EthSpent 200000000000000000, EthSpent 200000000000000000],
       sent := [\<lparr>call_target = 0xB0B, call_value = 200000000000000000, call_data = []\<rparr>,
                \<lparr>call_target = 0xB0B, call_value = 200000000000000000, call_data = []\<rparr>]\<rparr>,
     [demo_spend 1700000100, demo_spend 1700000200])"
  by (simp add: demo_defs demo_spend_def account_evals cong: bindE_weak_cong)

section \<open>What leaves the account\<close>

text \<open>
  C1. Ether spending is bounded in every interval of time. Whatever transactions are sent to the
  account within \<open>k\<close> days, by whoever and in whatever order, and whatever its callees do, the
  \<open>execute\<close> and \<open>executeBatch\<close> calls that go through spend together at most \<open>k + 1\<close> daily
  limits (two in any 24 hours, since a rolling window can be re-anchored once inside them).
\<close>

theorem daily_eth_bound:
  assumes "storage_protected evm" and "run evm txs ch = (ch', done_txs)"
    and "within_limits (acct ch)"
    and "\<forall>tx \<in> set txs. t0 \<le> unat (block_timestamp (fst tx)) \<and> unat (block_timestamp (fst tx)) < t0 + k * 86400"
  shows "total_eth done_txs + unat (dailyEthSpent (acct ch)) \<le> (k + 1) * unat (dailyEthLimit (acct ch))"
proof (rule run_moves[OF assms(1,2)])
  fix evs
  assume e: "foldE acct_apply evs (acct ch) = Inr (acct ch')"
    and t: "\<forall>ev \<in> set evs. \<exists>tx \<in> set txs. fst ev = block_timestamp (fst tx)"
    and s: "total_eth done_txs \<le> sum_list (map ev_eth evs)"
  from t assms(4) have "\<forall>ev \<in> set evs. t0 \<le> ev_time ev \<and> ev_time ev < t0 + k * 86400" by fastforce
  from daily_eth.spent_in_interval[OF e _ this] assms(3) s show ?thesis
    by (simp add: within_limits_def word_le_nat_alt)
qed

theorem daily_eth_bound_witness:
  "total_eth [demo_spend 1700000100, demo_spend 1700000200] + unat (dailyEthSpent (acct demo_chain))
     \<le> (1 + 1) * unat (dailyEthLimit (acct demo_chain))"
  by (rule daily_eth_bound[OF demo_evm_protected demo_run, of 1700000000 1])
    (simp_all add: within_limits_def demo_defs demo_spend_def)

text \<open>
  The same for the monthly limit: in any \<open>k\<close> periods of 30 days at most \<open>k + 1\<close> monthly limits
  of ether are spent.
\<close>

theorem monthly_eth_bound:
  assumes "storage_protected evm" and "run evm txs ch = (ch', done_txs)"
    and "within_limits (acct ch)"
    and "\<forall>tx \<in> set txs. t0 \<le> unat (block_timestamp (fst tx)) \<and> unat (block_timestamp (fst tx)) < t0 + k * 2592000"
  shows "total_eth done_txs + unat (monthlyEthSpent (acct ch)) \<le> (k + 1) * unat (monthlyEthLimit (acct ch))"
proof (rule run_moves[OF assms(1,2)])
  fix evs
  assume e: "foldE acct_apply evs (acct ch) = Inr (acct ch')"
    and t: "\<forall>ev \<in> set evs. \<exists>tx \<in> set txs. fst ev = block_timestamp (fst tx)"
    and s: "total_eth done_txs \<le> sum_list (map ev_eth evs)"
  from t assms(4) have "\<forall>ev \<in> set evs. t0 \<le> ev_time ev \<and> ev_time ev < t0 + k * 2592000" by fastforce
  from monthly_eth.spent_in_interval[OF e _ this] assms(3) s show ?thesis
    by (simp add: within_limits_def word_le_nat_alt)
qed

theorem monthly_eth_bound_witness:
  "total_eth [demo_spend 1700000100, demo_spend 1700000200] + unat (monthlyEthSpent (acct demo_chain))
     \<le> (1 + 1) * unat (monthlyEthLimit (acct demo_chain))"
  by (rule monthly_eth_bound[OF demo_evm_protected demo_run, of 1700000000 1])
    (simp_all add: within_limits_def demo_defs demo_spend_def)

text \<open>
  C5. USDC spending, gas charges included, is bounded by one daily limit for the life of the account:
  no window ever rolls the USDC counters over, so the total over any run, however long, stays
  below the smaller of the two USDC limits.
\<close>

theorem usdc_lifetime_bound:
  assumes "storage_protected evm" and "run evm txs ch = (ch', done_txs)"
    and "within_limits (acct ch)"
  shows "total_usdc done_txs + unat (dailyUsdcSpent (acct ch)) \<le> unat (dailyUsdcLimit (acct ch))
    \<and> total_usdc done_txs + unat (monthlyUsdcSpent (acct ch)) \<le> unat (monthlyUsdcLimit (acct ch))"
proof (rule run_moves[OF assms(1,2)])
  fix evs
  assume e: "foldE acct_apply evs (acct ch) = Inr (acct ch')"
    and s: "total_usdc done_txs \<le> sum_list (map ev_usdc evs)"
  from life_usdc.spent_before[OF e, of 1 0] life_usdc_monthly.spent_before[OF e, of 1 0] assms(3) s
  show ?thesis by (simp add: within_limits_def word_le_nat_alt)
qed

theorem usdc_lifetime_bound_witness:
  "total_usdc [demo_spend 1700000100, demo_spend 1700000200] + unat (dailyUsdcSpent (acct demo_chain))
      \<le> unat (dailyUsdcLimit (acct demo_chain))
   \<and> total_usdc [demo_spend 1700000100, demo_spend 1700000200] + unat (monthlyUsdcSpent (acct demo_chain))
      \<le> unat (monthlyUsdcLimit (acct demo_chain))"
  by (rule usdc_lifetime_bound[OF demo_evm_protected demo_run])
    (simp add: within_limits_def demo_defs)

text \<open>
  Every sequence of transactions keeps the four counters within their limits, re-entrant callees
  included.
\<close>

theorem run_within_limits:
  assumes "storage_protected evm" and "run evm txs ch = (ch', done_txs)" and "within_limits (acct ch)"
  shows "within_limits (acct ch') \<and> immutables (acct ch') = immutables (acct ch)"
  using run_moves[OF assms(1,2)] acct_run_within_limits acct_run_immutables assms(3) by metis

theorem run_within_limits_witness:
  "within_limits (acct (fst (run demo_evm [demo_spend 1700000100, demo_spend 1700000200] demo_chain)))
   \<and> immutables (acct (fst (run demo_evm [demo_spend 1700000100, demo_spend 1700000200] demo_chain)))
     = immutables (acct demo_chain)"
  by (rule run_within_limits[OF demo_evm_protected, of _ _ _ "snd (run demo_evm [demo_spend 1700000100, demo_spend 1700000200] demo_chain)"])
    (simp_all add: within_limits_def demo_defs)

text \<open>
  C2. The contract refines its abstract machine. An external function that succeeds first makes exactly the
  transitions that its arguments ask for, in the name of its caller: the machine refuses a transition to anyone
  but the EntryPoint, the paymaster or the owner it belongs to, so the same caller has passed the guard. These
  transitions charge exactly the ether and USDC of the operation. What follows are transitions by those from
  whose addresses the called contracts re-enter the account, in the same block, and nothing follows where no
  contract is called.
\<close>

theorem dispatch_refines:
  assumes "reenters P evm" and "dispatch evm ctx op ch = Inr ch'"
  shows "\<exists>acts a inner. requested ctx (acct ch) op = Inr acts
    \<and> foldE acct_apply (map (\<lambda>act. (block_timestamp ctx, msg_sender ctx, act)) acts) (acct ch) = Inr a
    \<and> sum_list (map eth_amount acts) = op_eth op \<and> sum_list (map usdc_amount acts) = op_usdc op
    \<and> foldE acct_apply inner a = Inr (acct ch')
    \<and> (\<forall>ev \<in> set inner. fst ev = block_timestamp ctx \<and> fst (snd ev) \<in> P)
    \<and> (calls_nobody op \<longrightarrow> acct ch' = a)"
proof (rule dispatch_steps[OF assms])
  fix acts a
  assume own: "requested ctx (acct ch) op = Inr acts" "foldE acct_apply (by_sender ctx acts) (acct ch) = Inr a"
    and re: "steps_by P (block_timestamp ctx) a (acct ch')" and nobody: "calls_nobody op \<Longrightarrow> acct ch' = a"
    and sums: "sum_list (map eth_amount acts) = op_eth op" "sum_list (map usdc_amount acts) = op_usdc op"
  from re obtain inner where "foldE acct_apply inner a = Inr (acct ch')"
    "\<forall>ev \<in> set inner. fst ev = block_timestamp ctx \<and> fst (snd ev) \<in> P" by (auto simp: steps_by_def)
  with own nobody sums show ?thesis by (auto simp: by_sender_def)
qed

text \<open>A target that makes the owner's contract request the emergency withdrawal while it is called.\<close>

definition owner_evm :: "unit evm" where
  "owner_evm = demo_evm\<lparr>x_call := (\<lambda>ctx to v d ch. if to = 0xB0B then
     (case requestEmergencyWithdraw (ctx\<lparr>msg_sender := 0xA11CE\<rparr>) ch of Inl _ \<Rightarrow> Inl [] | Inr ch' \<Rightarrow> Inr ([], ch'))
     else Inr ([], ch))\<rparr>"

lemma owner_evm_reenters: "reenters {0xA11CE} owner_evm"
  unfolding reenters_def
proof (intro allI impI)
  fix ctx to v d ch rd and ch' :: "unit chain"
  assume "x_call owner_evm ctx to v d ch = Inr (rd, ch')"
  then have "ch' = ch \<or> vaultOwner (acct ch) = 0xA11CE
      \<and> acct ch' = (acct ch)\<lparr>emergencyWithdrawRequestTime := block_timestamp ctx\<rparr>"
    by (auto simp: owner_evm_def requestEmergencyWithdraw_def split: if_splits sum.splits)
  then show "steps_by {0xA11CE} (block_timestamp ctx) (acct ch) (acct ch')"
  proof
    assume "vaultOwner (acct ch) = 0xA11CE \<and> acct ch' = (acct ch)\<lparr>emergencyWithdrawRequestTime := block_timestamp ctx\<rparr>"
    then show ?thesis unfolding steps_by_def by (intro exI[of _ "[(block_timestamp ctx, 0xA11CE, RequestWithdraw)]"]) simp
  qed simp
qed

lemma owner_evm_execute: "dispatch owner_evm (demo_ctx 0xE7 1700000100) (Execute 0xB0B 200000000000000000 []) demo_chain =
    Inr (demo_chain\<lparr>acct := demo_account\<lparr>dailyEthSpent := 200000000000000000, monthlyEthSpent := 200000000000000000,
         emergencyWithdrawRequestTime := 1700000100\<rparr>,
       events := [EthSpent 200000000000000000, EmergencyWithdrawRequested],
       sent := [\<lparr>call_target = 0xB0B, call_value = 200000000000000000, call_data = []\<rparr>]\<rparr>)"
  by (simp add: owner_evm_def requestEmergencyWithdraw_def demo_defs account_evals cong: bindE_weak_cong)

theorem dispatch_refines_witness:
  "\<exists>a inner. foldE acct_apply [(1700000100, 0xE7, Spend 200000000000000000 0)] demo_account = Inr a
    \<and> foldE acct_apply inner a = Inr (demo_account\<lparr>dailyEthSpent := 200000000000000000,
        monthlyEthSpent := 200000000000000000, emergencyWithdrawRequestTime := 1700000100\<rparr>)
    \<and> (\<forall>ev \<in> set inner. fst ev = 1700000100 \<and> fst (snd ev) = 0xA11CE)"
proof -
  have r: "requested ctx b (Execute 0xB0B 200000000000000000 []) = Inr [Spend 200000000000000000 0]" for ctx b
    by (simp add: parseSpendAmounts_def USDC_def)
  have c: "acct demo_chain = demo_account" "block_timestamp (demo_ctx 0xE7 1700000100) = 1700000100"
    "msg_sender (demo_ctx 0xE7 1700000100) = 0xE7" by (simp_all add: demo_chain_def demo_ctx_def)
  from dispatch_refines[OF owner_evm_reenters owner_evm_execute] show ?thesis
    unfolding r c by (auto simp del: foldE.simps acct_apply.simps)
qed

section \<open>The emergency withdrawal\<close>

text \<open>
  C20. An emergency withdrawal goes through only for the vault owner, and only 48 hours or more after the owner's
  last request. Starting from an account with no pending request, after any run, a withdrawal that succeeds has a
  successful \<open>requestEmergencyWithdraw\<close> by the owner in the run, 172800 seconds or more earlier, and
  no other request and no withdrawal has succeeded since. The owner is not one of those from whose
  addresses called contracts re-enter the account.
\<close>

theorem emergency_withdraw_timelocked:
  assumes "reenters P evm" and "vaultOwner (acct ch) \<notin> P" and "run evm txs ch = (ch', done_txs)"
    and "emergencyWithdrawRequestTime (acct ch) = 0"
    and "emergencyWithdraw evm ctx recipient ch' = Inr ch''"
  shows "msg_sender ctx = vaultOwner (acct ch)
    \<and> (\<exists>pre ctx0 post. done_txs = pre @ (ctx0, RequestEmergencyWithdraw) # post
         \<and> msg_sender ctx0 = vaultOwner (acct ch)
         \<and> unat (block_timestamp ctx0) + 172800 \<le> unat (block_timestamp ctx)
         \<and> list_all (\<lambda>tx. \<not> is_exit (snd tx)) post)"
  using assms(5)
proof (rule emergencyWithdraw_Inr)
  fix ready
  assume g: "msg_sender ctx = vaultOwner (acct ch')" and pending: "emergencyWithdrawRequestTime (acct ch') \<noteq> 0"
    and ready: "add256 (emergencyWithdrawRequestTime (acct ch')) WITHDRAW_TIMELOCK = Inr ready" "\<not> block_timestamp ctx < ready"
  have late: "unat (emergencyWithdrawRequestTime (acct ch')) + 172800 \<le> unat (block_timestamp ctx)"
    using ready(2) add256_unat[OF ready(1)] by (simp add: word_less_nat_alt WITHDRAW_TIMELOCK_def)
  note last = run_last_exit[OF assms(1-3)]
  from last(2) show ?thesis
  proof
    assume "list_all (\<lambda>tx. \<not> is_exit (snd tx)) done_txs
      \<and> emergencyWithdrawRequestTime (acct ch') = emergencyWithdrawRequestTime (acct ch)"
    with assms(4) pending show ?thesis by simp
  next
    assume "\<exists>pre ctx0 op0 post. done_txs = pre @ (ctx0, op0) # post \<and> list_all (\<lambda>tx. \<not> is_exit (snd tx)) post
      \<and> msg_sender ctx0 = vaultOwner (acct ch)
      \<and> (op0 = RequestEmergencyWithdraw \<and> emergencyWithdrawRequestTime (acct ch') = block_timestamp ctx0
        \<or> emergencyWithdrawRequestTime (acct ch') = 0)"
    with late g last(1) pending show ?thesis by fastforce
  qed
qed

definition demo_request :: "msg_ctx \<times> operation" where
  "demo_request = (demo_ctx 0xA11CE 1700000100, RequestEmergencyWithdraw)"

lemma demo_request_run: "run demo_evm [demo_request] demo_chain =
    (demo_chain\<lparr>acct := demo_account\<lparr>emergencyWithdrawRequestTime := 1700000100\<rparr>,
       events := [EmergencyWithdrawRequested]\<rparr>, [demo_request])"
  by (simp add: demo_defs demo_request_def requestEmergencyWithdraw_def)

lemma demo_withdraw: "emergencyWithdraw demo_evm (demo_ctx 0xA11CE 1700172900) 0xB0B
    (demo_chain\<lparr>acct := demo_account\<lparr>emergencyWithdrawRequestTime := 1700000100\<rparr>,
       events := [EmergencyWithdrawRequested]\<rparr>) =
    Inr (demo_chain\<lparr>
       events := [EmergencyWithdrawRequested, EmergencyWithdrawExecuted 0xB0B 5000000000000000000 0],
       sent := [\<lparr>call_target = 0xB0B, call_value = 5000000000000000000, call_data = []\<rparr>]\<rparr>)"
  by (simp add: demo_defs emergencyWithdraw_def sweepUsdc_def exec_call_def add256_def WITHDRAW_TIMELOCK_def USDC_def
      cong: bindE_weak_cong)

theorem emergency_withdraw_timelocked_witness:
  "\<exists>pre ctx0 post. [demo_request] = pre @ (ctx0, RequestEmergencyWithdraw) # post \<and> msg_sender ctx0 = 0xA11CE
     \<and> unat (block_timestamp ctx0) + 172800 \<le> 1700172900"
proof -
  have "reenters {} demo_evm" by (simp add: reenters_def demo_evm_def)
  moreover have "vaultOwner (acct demo_chain) = 0xA11CE" "emergencyWithdrawRequestTime (acct demo_chain) = 0"
    "unat (block_timestamp (demo_ctx 0xA11CE 1700172900)) = 1700172900" by (simp_all add: demo_defs)
  ultimately show ?thesis
    using emergency_withdraw_timelocked[where P = "{}", OF _ _ demo_request_run _ demo_withdraw] by auto
qed

section \<open>Large spends cannot be executed\<close>

text \<open>
  C3. A large operation that validates is never executed. When \<open>validateUserOp\<close> accepts an operation
  whose value is above half of the daily USDC limit, it starts the cooldown itself; every
  \<open>execute\<close> of the same bundle, and of the hour after, then reverts with
  \<open>LargeSpendCooldownActive\<close>, the call that was just validated included.
\<close>

theorem large_spend_never_executes:
  assumes "storage_protected evm"
    and "validateUserOp evm ctx userOp h missing ch = Inr (vd, ch1)"
    and "parseSpendAmountsFromCallData (po_callData userOp) = Inr (e, u)"
    and "is_large (acct ch) e u"
    and "block_timestamp ctx \<noteq> 0" and "unat (block_timestamp ctx) + 3600 < 2 ^ 256"
    and "unat (block_timestamp ctx') < unat (block_timestamp ctx) + 3600"
    and "msg_sender ctx' = entryPointContract (acct ch1)"
    and "parseSpendAmounts target v data = Inr (e', u')"
  shows "execute evm ctx' target v data ch1 = Inl LargeSpendCooldownActive"
  using assms(2)
proof (rule validateUserOp_Inr)
  fix e2 u2 g t a
  assume p: "parseSpendAmountsFromCallData (po_callData userOp) = Inr (e2, u2)"
    and t: "add256 u2 g = Inr t"
    and a: "validatePreflightLimits (acct ch) (block_timestamp ctx) e2 t = Inr a"
    and ch1: "ch1 = payPrefund evm ctx missing (ch\<lparr>acct := a\<rparr>)"
  from p assms(3) have "e2 = e" "u2 = u" by simp_all
  with t add256_unat[OF t] assms(4) have "is_large (acct ch) e2 t" by (simp add: is_large_def)
  with validatePreflightLimits_large[OF a] have "lastLargeSpendTime a = block_timestamp ctx" by simp
  then have "lastLargeSpendTime (acct ch1) = block_timestamp ctx"
    using moves_large_spend_time payPrefund_moves[OF assms(1), of ctx "ch\<lparr>acct := a\<rparr>" missing]
    by (simp add: ch1)
  then have "checkAndUpdatePanicCooldown (acct ch1) (block_timestamp ctx') e' u' = Inl LargeSpendCooldownActive"
    using assms(5-7) by (intro checkAndUpdatePanicCooldown_blocks) simp_all
  with assms(8,9) show ?thesis by (simp add: execute_def validateAndRecordSpend_def)
qed

definition demo_large :: PackedUserOperation where
  "demo_large = demo_op (execute_selector @ abi_encode_call 0xB0B 300000000000000000 [])"

lemma demo_large_parse: "parseSpendAmountsFromCallData (po_callData demo_large) = Inr (300000000000000000, 0)"
  by (simp add: demo_large_def demo_op_def parseSpendAmountsFromCallData_def execute_selector_def
      abi_execute_roundtrip parseSpendAmounts_def USDC_def)

lemma demo_large_validates:
  "validateUserOp demo_evm (demo_ctx 0xE7 1700000100) demo_large 7 0 demo_chain =
     Inr (SIG_VALIDATION_SUCCESS, demo_chain\<lparr>acct := demo_account\<lparr>lastLargeSpendTime := 1700000100\<rparr>\<rparr>)"
proof -
  have "getUsdcGasCostIfPaymaster (demo_ctx 0xE7 1700000100) demo_account demo_large = Inr 0"
    by (simp add: getUsdcGasCostIfPaymaster_def demo_large_def demo_op_def)
  moreover have "validatePreflightLimits demo_account 1700000100 300000000000000000 0 =
      Inr (demo_account\<lparr>lastLargeSpendTime := 1700000100\<rparr>)"
    by (simp add: validatePreflightLimits_def demo_defs account_evals cong: bindE_weak_cong)
  ultimately show ?thesis
    by (simp add: validateUserOp_def demo_large_parse validateSignature_def payPrefund_def)
       (simp add: demo_defs)
qed

theorem large_spend_never_executes_witness:
  "execute demo_evm (demo_ctx 0xE7 1700003000) 0xB0B 300000000000000000 []
     (demo_chain\<lparr>acct := demo_account\<lparr>lastLargeSpendTime := 1700000100\<rparr>\<rparr>) = Inl LargeSpendCooldownActive"
  by (rule large_spend_never_executes[OF demo_evm_protected demo_large_validates demo_large_parse])
     (simp_all add: demo_defs is_large_def parseSpendAmounts_def USDC_def)

section \<open>The USDC limits do not recover\<close>

text \<open>
  C4. What preflight accepts, execution rejects. Once the daily USDC counter has reached its limit
  and both windows have expired, \<open>validateUserOp\<close>'s preflight takes the counters as 0 and accepts any
  spend within the limits, while \<open>_applySpendAndUpdate\<close> and \<open>_applyUsdcSpend\<close> still see the old counter
  and revert with \<open>DailyLimitExceeded\<close>, however much time has passed.
\<close>

theorem usdc_limit_never_recovers:
  assumes full: "dailyUsdcSpent a = dailyUsdcLimit a"
    and expired: "unat (lastDailyResetTimestamp a) + 86400 \<le> unat now"
      "unat (lastMonthlyResetTimestamp a) + 2592000 \<le> unat now" "unat now + 2592000 < 2 ^ 256"
    and amount: "0 < u" "u \<le> dailyUsdcLimit a" "u \<le> monthlyUsdcLimit a"
      "unat (dailyUsdcLimit a) + unat u < 2 ^ 256"
    and calm: "\<not> is_large a 0 u" "lastLargeSpendTime a = 0" "unat (dailyUsdcLimit a) * 5000 < 2 ^ 256"
  shows "validatePreflightLimits a now 0 u = Inr a
    \<and> applySpendAndUpdate a now 0 u = Inl (DailyLimitExceeded (dailyUsdcLimit a + u) (dailyUsdcLimit a))
    \<and> applyUsdcSpend a now u = Inl (DailyLimitExceeded (dailyUsdcLimit a + u) (dailyUsdcLimit a))"
proof -
  note win = maybeResetWindows_expired[OF expired(1,2)] maybeResetWindows_fresh[OF expired(3)]
  have "checkAndUpdatePanicCooldown a now 0 u = Inr a"
    using calm unat_lt_256[of u] by (intro checkAndUpdatePanicCooldown_calm) simp_all
  moreover have "validateUsdcSpend 0 0 (dailyUsdcLimit a) (monthlyUsdcLimit a) u = Inr ()"
    using amount(2,3) by (simp add: validateUsdcSpend_Inr word_le_nat_alt)
  moreover have "add256 (dailyUsdcLimit a) u = Inr (dailyUsdcLimit a + u)"
    using amount(4) by (simp add: add256_def)
  moreover from add256_unat[OF this] amount(1) have "dailyUsdcLimit a < dailyUsdcLimit a + u"
    by (simp add: word_less_nat_alt)
  ultimately show ?thesis using amount(1)
    by (simp add: validatePreflightLimits_def applySpendAndUpdate_def applyUsdcSpend_def win full
        validateUsdcSpend_def[of "dailyUsdcLimit a"])
qed

definition demo_spent :: account where
  "demo_spent = demo_account\<lparr>dailyUsdcSpent := 1000000000, monthlyUsdcSpent := 1000000000\<rparr>"

theorem usdc_limit_never_recovers_witness:
  "validatePreflightLimits demo_spent 1800000000 0 1 = Inr demo_spent
    \<and> applySpendAndUpdate demo_spent 1800000000 0 1 = Inl (DailyLimitExceeded 1000000001 1000000000)
    \<and> applyUsdcSpend demo_spent 1800000000 1 = Inl (DailyLimitExceeded 1000000001 1000000000)"
  using usdc_limit_never_recovers[of demo_spent 1800000000 1]
  by (simp add: demo_spent_def demo_defs is_large_def)

section \<open>Gas prefunds are not limited\<close>

text \<open>
  C19. The gas prefund is outside the accounting. For a validly signed operation with no call data and
  no paymaster, of an account with no large spend pending and anchors and limit far from overflow, \<open>validateUserOp\<close>
  sends the EntryPoint whatever it asks for, \<open>missing\<close> wei, any number: it reads and writes none of the four counters and
  their limits before the call, which is made on the chain as it was, and does nothing after it.
\<close>

theorem prefund_bypasses_limits:
  assumes "msg_sender ctx = entryPointContract (acct ch)"
    and "x_recover evm h (po_signature userOp) = Inr (vaultOwner (acct ch))"
    and "po_callData userOp = []" and "po_paymasterAndData userOp = []"
    and "lastLargeSpendTime (acct ch) = 0"
    and "unat (lastDailyResetTimestamp (acct ch)) + 86400 < 2 ^ 256"
    and "unat (lastMonthlyResetTimestamp (acct ch)) + 2592000 < 2 ^ 256"
    and "unat (dailyUsdcLimit (acct ch)) * 5000 < 2 ^ 256"
    and "missing \<noteq> 0"
    and "x_call evm ctx (entryPointContract (acct ch)) missing []
          (ch\<lparr>sent := sent ch @ [\<lparr>call_target = entryPointContract (acct ch), call_value = missing, call_data = []\<rparr>]\<rparr>)
         = Inr (ret, ch')"
  shows "validateUserOp evm ctx userOp h missing ch = Inr (SIG_VALIDATION_SUCCESS, ch')"
proof -
  let ?a = "acct ch" and ?now = "block_timestamp ctx"
  have "checkAndUpdatePanicCooldown ?a ?now 0 0 = Inr ?a"
    using assms(5,8) by (intro checkAndUpdatePanicCooldown_calm) (simp_all add: is_large_def)
  moreover obtain ld lm d m ld2 lm2 d2 m2 where
    "maybeResetWindows (lastDailyResetTimestamp ?a) (lastMonthlyResetTimestamp ?a)
       (dailyEthSpent ?a) (monthlyEthSpent ?a) ?now = Inr (ld, lm, d, m)"
    "maybeResetWindows (lastDailyResetTimestamp ?a) (lastMonthlyResetTimestamp ?a)
       (dailyUsdcSpent ?a) (monthlyUsdcSpent ?a) ?now = Inr (ld2, lm2, d2, m2)"
    using maybeResetWindows_total[OF assms(6,7)] by metis
  ultimately have pre: "validatePreflightLimits ?a ?now 0 0 = Inr ?a"
    by (simp add: validatePreflightLimits_def)
  have same: "ch\<lparr>acct := ?a\<rparr> = ch" by simp
  show ?thesis
    using assms(1-4,9,10) pre
    by (simp add: validateUserOp_def validateSignature_def parseSpendAmountsFromCallData_def
        getUsdcGasCostIfPaymaster_def payPrefund_def exec_call_def same)
qed

theorem prefund_bypasses_limits_witness:
  "validateUserOp demo_evm (demo_ctx 0xE7 1700000100) (demo_op []) 7 (2 ^ 255) demo_chain =
     Inr (SIG_VALIDATION_SUCCESS, demo_chain\<lparr>sent := [\<lparr>call_target = 0xE7, call_value = 2 ^ 255, call_data = []\<rparr>]\<rparr>)"
  by (rule prefund_bypasses_limits[where ret = "[]"]) (simp_all add: demo_defs)

section \<open>Order of effects\<close>




text \<open>
  A batch of one call is that call: \<open>executeBatch\<close> and \<open>execute\<close> agree on it in every case, errors
  included.
\<close>

theorem executeBatch_single:
  "executeBatch evm ctx [\<lparr>call_target = target, call_value = v, call_data = data\<rparr>] ch
     = execute evm ctx target v data ch"
proof (cases "parseSpendAmounts target v data")
  case (Inl err)
  then show ?thesis by (simp add: executeBatch_def execute_def validateAndRecordSpend_def)
next
  case (Inr r)
  then obtain e u where r: "parseSpendAmounts target v data = Inr (e, u)" by (cases r) auto
  show ?thesis
    by (simp add: executeBatch_def execute_def validateAndRecordSpend_def r bindE_assoc)
qed

text \<open>
  Preflight is sound for ether. An ether send that \<open>validateUserOp\<close>'s preflight accepts, and that is
  not large, passes the accounting of \<open>execute\<close> at the same time: the gas that was charged to the
  USDC limits on top does not matter.
\<close>

theorem preflight_sound_for_eth:
  assumes "validatePreflightLimits a now e g = Inr a1"
    and "0 < e" and "target \<noteq> USDC" and "\<not> is_large a e g" and "unat now + 2592000 < 2 ^ 256"
  shows "a1 = a \<and> (\<exists>a2. validateAndRecordSpend a1 now target e data = Inr (a2, [EthSpent e]))"
  using assms(1)
proof (rule validatePreflightLimits_Inr)
  fix ld lm dE mE
  assume r: "maybeResetWindows (lastDailyResetTimestamp a) (lastMonthlyResetTimestamp a)
       (dailyEthSpent a) (monthlyEthSpent a) now = Inr (ld, lm, dE, mE)"
    and v: "0 < e \<Longrightarrow> validateEthSpend dE mE (dailyEthLimit a) (monthlyEthLimit a) e = Inr ()"
    and c: "checkAndUpdatePanicCooldown a now e g = Inr a1"
  have a1: "a1 = a"
    using checkAndUpdatePanicCooldown_frame[OF c] checkAndUpdatePanicCooldown_large[OF c] assms(4) by auto
  have "parseSpendAmounts target e data = Inr (e, 0)"
    using assms(2,3) by (auto simp: parseSpendAmounts_def)
  with applySpendAndUpdate_eth[OF r assms(2) v assms(5)] checkAndUpdatePanicCooldown_less[OF c assms(4)]
  show ?thesis using assms(2) by (simp add: a1 validateAndRecordSpend_def)
qed

lemma demo_preflight: "validatePreflightLimits demo_account 1700000100 200000000000000000 5 = Inr demo_account"
  by (simp add: validatePreflightLimits_def demo_defs account_evals cong: bindE_weak_cong)

theorem preflight_sound_for_eth_witness:
  "demo_account = demo_account \<and> (\<exists>a2. validateAndRecordSpend demo_account 1700000100 0xB0B 200000000000000000 []
      = Inr (a2, [EthSpent 200000000000000000]))"
  by (rule preflight_sound_for_eth[OF demo_preflight]) (simp_all add: demo_defs is_large_def USDC_def)



text \<open>
  C24. A USDC spend swallows the ether reset. When the windows have expired and a USDC transfer is the
  first to be recorded, the anchors move but the ether counter keeps its old value; an ether spend
  within the next day that would have been within the limit is then rejected.
\<close>

theorem usdc_spend_swallows_eth_reset:
  assumes "applySpendAndUpdate a now 0 u = Inr (a', evs)"
    and "unat (lastDailyResetTimestamp a) + 86400 \<le> unat now"
      "unat (lastMonthlyResetTimestamp a) + 2592000 \<le> unat now" "unat now' + 2592000 < 2 ^ 256"
    and "unat now \<le> unat now'" and "unat now' < unat now + 86400"
    and "0 < e" and "e \<le> dailyEthLimit a" and "e \<le> monthlyEthLimit a"
    and "unat (dailyEthLimit a) < unat (dailyEthSpent a) + unat e"
    and "unat (dailyEthSpent a) + unat e < 2 ^ 256"
  shows "applySpendAndUpdate a' now' e 0 = Inl (DailyLimitExceeded (dailyEthSpent a + e) (dailyEthLimit a))
    \<and> (\<exists>a2. applySpendAndUpdate a now' e 0 = Inr (a2, [EthSpent e]))"
  using assms(1)
proof (rule applySpendAndUpdate_Inr)
  fix ld lm d m dE mE dU mU
  assume r: "maybeResetWindows (lastDailyResetTimestamp a) (lastMonthlyResetTimestamp a)
       (dailyEthSpent a) (monthlyEthSpent a) now = Inr (ld, lm, d, m)"
    and E: "if 0 < (0 :: uint256) then charged d m (dailyEthLimit a) (monthlyEthLimit a) 0 dE mE
         else dE = dailyEthSpent a \<and> mE = monthlyEthSpent a"
    and a': "a' = a\<lparr>dailyEthSpent := dE, monthlyEthSpent := mE, dailyUsdcSpent := dU, monthlyUsdcSpent := mU,
               lastDailyResetTimestamp := ld, lastMonthlyResetTimestamp := lm\<rparr>"
  have ld: "ld = now" "lm = now" using r unfolding maybeResetWindows_expired[OF assms(2,3)] by auto
  have "unat now + 86400 < 2 ^ 256" "unat now + 2592000 < 2 ^ 256" using assms(4,5) by linarith+
  then obtain l1 l2 d1 m1 where q: "maybeResetWindows now now (dailyEthSpent a) (monthlyEthSpent a) now' = Inr (l1, l2, d1, m1)"
    by (rule maybeResetWindows_total)
  from maybeResetWindows_refines_roll[OF q] assms(6) have q1: "l1 = now" "l2 = now" "d1 = dailyEthSpent a" "m1 = monthlyEthSpent a"
    by (auto simp: roll_def word_unat_eq_iff)
  obtain l3 l4 u1 u2 where q2: "maybeResetWindows now now dU mU now' = Inr (l3, l4, u1, u2)"
    by (rule maybeResetWindows_total) (use \<open>unat now + 86400 < 2 ^ 256\<close> \<open>unat now + 2592000 < 2 ^ 256\<close> in auto)
  have over: "add256 (dailyEthSpent a) e = Inr (dailyEthSpent a + e)" using assms(11) by (simp add: add256_def)
  with add256_unat[OF this] assms(10) have "dailyEthLimit a < dailyEthSpent a + e" by (simp add: word_less_nat_alt)
  note over2 = this
  have "applySpendAndUpdate a' now' e 0 = Inl (DailyLimitExceeded (dailyEthSpent a + e) (dailyEthLimit a))"
    using over over2 q q2 E assms(7) unfolding q1
    by (simp add: a' ld applySpendAndUpdate_def validateEthSpend_def)
  moreover have "\<exists>a2. applySpendAndUpdate a now' e 0 = Inr (a2, [EthSpent e])"
    using applySpendAndUpdate_eth[OF maybeResetWindows_expired assms(7) _ assms(4), of a] assms(2,3,5,8,9)
    by (auto simp: validateEthSpend_Inr word_le_nat_alt)
  ultimately show ?thesis by blast
qed

definition demo_full :: account where
  "demo_full = demo_account\<lparr>dailyEthSpent := 1000000000000000000, monthlyEthSpent := 1000000000000000000\<rparr>"

lemma demo_usdc_spend: "applySpendAndUpdate demo_full 1800000000 0 1 =
    Inr (demo_full\<lparr>dailyUsdcSpent := 1, monthlyUsdcSpent := 1, lastDailyResetTimestamp := 1800000000,
      lastMonthlyResetTimestamp := 1800000000\<rparr>, [UsdcSpent 1])"
  by (simp add: demo_full_def demo_defs account_evals cong: bindE_weak_cong)

theorem usdc_spend_swallows_eth_reset_witness:
  "applySpendAndUpdate (demo_full\<lparr>dailyUsdcSpent := 1, monthlyUsdcSpent := 1,
      lastDailyResetTimestamp := 1800000000, lastMonthlyResetTimestamp := 1800000000\<rparr>) 1800000060 1 0
      = Inl (DailyLimitExceeded 1000000000000000001 1000000000000000000)
    \<and> (\<exists>a2. applySpendAndUpdate demo_full 1800000060 1 0 = Inr (a2, [EthSpent 1]))"
  using usdc_spend_swallows_eth_reset[OF demo_usdc_spend, of 1800000060 1]
  by (simp add: demo_full_def demo_defs)

end
