(* ===== verification/Js_Base.thy ===== *)
theory Js_Base
  imports Prelude
begin

text \<open>
  What the TypeScript code takes from its language: thrown errors, numbers with \<open>undefined\<close> and
  \<open>NaN\<close>, plain objects with their insertion order, hexadecimal strings and \<open>parseInt\<close>, and the
  rounding of integers to the 53-bit mantissa of a JavaScript number.
\<close>

section \<open>Errors\<close>

text \<open>
  \<open>TypeError\<close> is thrown by the language itself (a property of \<open>undefined\<close>, \<open>reduce\<close> of an empty
  array); \<open>Thrown\<close> is a \<open>throw new Error(message)\<close> of the code; \<open>Rejected\<close> is an error that a library,
  a node or a callback raised and the code passes on.
\<close>

datatype js_error = TypeError | Thrown string | Rejected string

section \<open>Asynchronous functions\<close>

text \<open>
  An \<open>async\<close> function run by itself: it changes the state of the world even when it throws later.
  \<open>await\<close> of a call is \<open>bindIO\<close>; interleavings with other activities are modelled separately where
  the code has them.
\<close>

type_synonym ('s, 'a) io = "'s \<Rightarrow> (js_error + 'a) \<times> 's"

definition returnIO :: "'a \<Rightarrow> ('s, 'a) io" where
  "returnIO x = (\<lambda>s. (Inr x, s))"

definition throwIO :: "js_error \<Rightarrow> ('s, 'a) io" where
  "throwIO e = (\<lambda>s. (Inl e, s))"

definition bindIO :: "('s, 'a) io \<Rightarrow> ('a \<Rightarrow> ('s, 'b) io) \<Rightarrow> ('s, 'b) io" where
  "bindIO m f = (\<lambda>s. case m s of (Inl e, s') \<Rightarrow> (Inl e, s') | (Inr x, s') \<Rightarrow> f x s')"

definition liftIO :: "js_error + 'a \<Rightarrow> ('s, 'a) io" where
  "liftIO r = (\<lambda>s. (r, s))"

definition readIO :: "('s \<Rightarrow> js_error + 'a) \<Rightarrow> ('s, 'a) io" where
  "readIO f = (\<lambda>s. (f s, s))"

definition modifyIO :: "('s \<Rightarrow> 's) \<Rightarrow> ('s, unit) io" where
  "modifyIO f = (\<lambda>s. (Inr (), f s))"

lemma io_simps [simp]:
  "returnIO x s = (Inr x, s)" "throwIO e s = (Inl e, s)" "liftIO r s = (r, s)"
  "readIO f s = (f s, s)" "modifyIO g s = (Inr (), g s)"
  by (simp_all add: returnIO_def throwIO_def liftIO_def readIO_def modifyIO_def)

lemma bindIO_run: "bindIO m f s = (case m s of (Inl e, s') \<Rightarrow> (Inl e, s') | (Inr x, s') \<Rightarrow> f x s')"
  by (simp add: bindIO_def)

lemma bindIO_Inr:
  "bindIO m f s = (Inr y, t) \<longleftrightarrow> (\<exists>x u. m s = (Inr x, u) \<and> f x u = (Inr y, t))"
  by (auto simp: bindIO_def split: prod.splits sum.splits)

lemma bindIO_InrE:
  assumes "bindIO m f s = (Inr y, t)"
  obtains x u where "m s = (Inr x, u)" and "f x u = (Inr y, t)"
  using assms by (auto simp: bindIO_Inr)

lemma bindIO_simps [simp]:
  "bindIO (returnIO x) f = f x" "bindIO (throwIO e) f = throwIO e"
  "bindIO (liftIO (Inr x)) f = f x" "bindIO (liftIO (Inl e)) f = throwIO e"
  by (auto simp: bindIO_def returnIO_def throwIO_def liftIO_def)

lemma bindIO_assoc: "bindIO (bindIO m f) g = bindIO m (\<lambda>x. bindIO (f x) g)"
  by (rule ext) (auto simp: bindIO_def split: prod.splits sum.splits)

text \<open>A computation that keeps a part of the state, whether it throws or not.\<close>

named_theorems keeps_intros

definition keeps :: "('s \<Rightarrow> 'b) \<Rightarrow> ('s, 'a) io \<Rightarrow> bool" where
  "keeps f m \<longleftrightarrow> (\<forall>s. f (snd (m s)) = f s)"

lemma keepsD: "keeps f m \<Longrightarrow> m s = (r, s') \<Longrightarrow> f s' = f s"
  by (metis keeps_def snd_conv)

lemma keeps_basic [keeps_intros]: "keeps f (returnIO x)" "keeps f (throwIO e)" "keeps f (liftIO r)" "keeps f (readIO g)"
  by (simp_all add: keeps_def)

lemma keeps_modify [keeps_intros]: "(\<And>s. f (g s) = f s) \<Longrightarrow> keeps f (modifyIO g)"
  by (simp add: keeps_def)

lemma keeps_bind [keeps_intros]: "keeps f m \<Longrightarrow> (\<And>x. keeps f (k x)) \<Longrightarrow> keeps f (bindIO m k)"
  by (auto simp: keeps_def bindIO_def split: prod.splits sum.splits) (metis snd_conv)+

lemma keeps_if [keeps_intros]: "(b \<Longrightarrow> keeps f m) \<Longrightarrow> (\<not> b \<Longrightarrow> keeps f n) \<Longrightarrow> keeps f (if b then m else n)"
  by simp

section \<open>Numbers\<close>

text \<open>A property that may be unset, or hold the result of arithmetic on an unset property.\<close>

datatype js_num = Undefined | NaN | Num int

fun js_add :: "js_num \<Rightarrow> int \<Rightarrow> js_num" where
  "js_add (Num a) b = Num (a + b)"
| "js_add Undefined b = NaN"
| "js_add NaN b = NaN"

fun js_less :: "js_num \<Rightarrow> int \<Rightarrow> bool" where
  "js_less (Num a) b = (a < b)"
| "js_less Undefined b = False"
| "js_less NaN b = False"

fun js_greater :: "js_num \<Rightarrow> int \<Rightarrow> bool" where
  "js_greater (Num a) b = (b < a)"
| "js_greater Undefined b = False"
| "js_greater NaN b = False"

definition not_a_number :: "js_num \<Rightarrow> bool" where
  "not_a_number x = (x = Undefined \<or> x = NaN)"

lemma not_a_number_simps [simp]:
  "not_a_number Undefined" "not_a_number NaN" "\<not> not_a_number (Num a)"
  by (simp_all add: not_a_number_def)

lemma not_a_number_add [simp]: "not_a_number x \<Longrightarrow> js_add x b = NaN"
  by (auto simp: not_a_number_def)

lemma not_a_number_compare [simp]:
  "not_a_number x \<Longrightarrow> \<not> js_less x b" "not_a_number x \<Longrightarrow> \<not> js_greater x b"
  by (auto simp: not_a_number_def)

text \<open>
  The nearest JavaScript number of a natural number below \<open>2 ^ 1024\<close>: above \<open>2 ^ 53\<close> the low bits are
  rounded away, ties to even.
\<close>

fun bit_length :: "nat \<Rightarrow> nat" where
  "bit_length n = (if n = 0 then 0 else Suc (bit_length (n div 2)))"

declare bit_length.simps [simp del]

definition to_double :: "nat \<Rightarrow> nat" where
  "to_double n =
     (let e = bit_length n - 53; q = n div 2 ^ e; r = n mod 2 ^ e in
      if e = 0 then n
      else if 2 * r < 2 ^ e \<or> (2 * r = 2 ^ e \<and> even q) then q * 2 ^ e else (q + 1) * 2 ^ e)"

lemma bit_length_le_iff: "bit_length n \<le> k \<longleftrightarrow> n < 2 ^ k"
proof (induction n arbitrary: k rule: bit_length.induct)
  case (1 n)
  show ?case
  proof (cases "n = 0")
    case True
    then show ?thesis by (simp add: bit_length.simps)
  next
    case False
    then have l: "bit_length n = Suc (bit_length (n div 2))" by (simp add: bit_length.simps[of n])
    show ?thesis
    proof (cases k)
      case 0
      with False l show ?thesis by simp
    next
      case (Suc j)
      have "bit_length n \<le> k \<longleftrightarrow> n div 2 < 2 ^ j" using 1 False l Suc by simp
      also have "\<dots> \<longleftrightarrow> n < 2 ^ k" using Suc by auto
      finally show ?thesis .
    qed
  qed
qed

lemma to_double_exact: "n \<le> 2 ^ 53 \<Longrightarrow> to_double n = n"
proof -
  assume le: "n \<le> 2 ^ 53"
  show "to_double n = n"
  proof (cases "n < 2 ^ 53")
    case True
    then have "bit_length n \<le> 53" by (simp add: bit_length_le_iff del: power_numeral)
    then show ?thesis by (simp add: to_double_def)
  next
    case False
    with le have n: "n = 2 ^ 53" by simp
    have "bit_length n \<le> 54" "\<not> bit_length n \<le> 53" unfolding bit_length_le_iff n by simp_all
    then have "bit_length n - 53 = 1" by simp
    then show ?thesis by (simp add: to_double_def n)
  qed
qed

section \<open>Objects\<close>

text \<open>
  A plain object as the list of its entries. Its keys are addresses or names, none of them an array
  index, so \<open>Object.keys\<close> lists them in the order of their first assignment.
\<close>

type_synonym 'v obj = "(string \<times> 'v) list"

definition obj_get :: "'v obj \<Rightarrow> string \<Rightarrow> 'v option" where
  "obj_get obj k = map_of obj k"

fun obj_set :: "'v obj \<Rightarrow> string \<Rightarrow> 'v \<Rightarrow> 'v obj" where
  "obj_set [] k v = [(k, v)]"
| "obj_set ((k', v') # obj) k v = (if k' = k then (k, v) # obj else (k', v') # obj_set obj k v)"

definition obj_keys :: "'v obj \<Rightarrow> string list" where
  "obj_keys obj = map fst obj"

definition obj_wf :: "'v obj \<Rightarrow> bool" where
  "obj_wf obj = distinct (obj_keys obj)"

lemma obj_get_Nil [simp]: "obj_get [] k = None"
  by (simp add: obj_get_def)

lemma obj_get_set: "obj_get (obj_set obj k v) k' = (if k' = k then Some v else obj_get obj k')"
  by (induction obj k v rule: obj_set.induct) (auto simp: obj_get_def)

lemma obj_keys_set: "obj_keys (obj_set obj k v) = (if k \<in> set (obj_keys obj) then obj_keys obj else obj_keys obj @ [k])"
  by (induction obj k v rule: obj_set.induct) (auto simp: obj_keys_def)

lemma obj_wf_set: "obj_wf obj \<Longrightarrow> obj_wf (obj_set obj k v)"
  by (simp add: obj_wf_def obj_keys_set)

lemma obj_wf_Nil [simp]: "obj_wf []"
  by (simp add: obj_wf_def obj_keys_def)

lemma obj_get_keys: "obj_get obj k = None \<longleftrightarrow> k \<notin> set (obj_keys obj)"
  by (simp add: obj_get_def obj_keys_def map_of_eq_None_iff)

text \<open>The contract of a keyed store, met by plain objects.\<close>

locale keyed_store =
  fixes lookup :: "'s \<Rightarrow> 'k \<Rightarrow> 'v option" and update :: "'s \<Rightarrow> 'k \<Rightarrow> 'v \<Rightarrow> 's"
    and keys :: "'s \<Rightarrow> 'k list" and inv :: "'s \<Rightarrow> bool"
  assumes lookup_update: "inv s \<Longrightarrow> lookup (update s k v) k' = (if k' = k then Some v else lookup s k')"
    and keys_update: "inv s \<Longrightarrow> keys (update s k v) = (if k \<in> set (keys s) then keys s else keys s @ [k])"
    and lookup_keys: "inv s \<Longrightarrow> lookup s k = None \<longleftrightarrow> k \<notin> set (keys s)"
    and inv_update: "inv s \<Longrightarrow> inv (update s k v)"
    and keys_distinct: "inv s \<Longrightarrow> distinct (keys s)"
begin

lemma update_twice: "inv s \<Longrightarrow> lookup (update (update s k v) k w) k' = lookup (update s k w) k'"
  by (simp add: lookup_update inv_update)

lemma update_commute:
  "inv s \<Longrightarrow> k \<noteq> l \<Longrightarrow> lookup (update (update s k v) l w) j = lookup (update (update s l w) k v) j"
  by (simp add: lookup_update inv_update)

lemma keys_grow: "inv s \<Longrightarrow> \<exists>new. keys (update s k v) = keys s @ new"
  by (simp add: keys_update)

lemma fold_updates:
  assumes "inv s"
  shows "inv (fold (\<lambda>(k, v) t. update t k v) kvs s)
    \<and> lookup (fold (\<lambda>(k, v) t. update t k v) kvs s) k = (case map_of (rev kvs) k of None \<Rightarrow> lookup s k | Some v \<Rightarrow> Some v)"
  using assms
proof (induction kvs arbitrary: s)
  case Nil
  then show ?case by simp
next
  case (Cons kv kvs)
  obtain k' v' where kv: "kv = (k', v')" by (cases kv)
  with Cons.IH[of "update s k' v'"] Cons.prems show ?case
    by (auto simp: inv_update lookup_update map_add_def split: option.splits)
qed

end

interpretation obj_store: keyed_store obj_get obj_set obj_keys obj_wf
  by unfold_locales (simp_all add: obj_get_set obj_keys_set obj_get_keys obj_wf_set, simp add: obj_wf_def)

end
