(* ===== verification/Ethers_Lib.thy ===== *)
theory Ethers_Lib
  imports Js_Base
begin

text \<open>
  Hexadecimal data strings and the functions of the \<open>ethers\<close> library that the TypeScript code calls
  on them. The library is not part of the repository: its functions are the components of a record
  that the models take as an argument, and \<open>ethers_ok\<close> collects the documented behaviour that the
  properties rely on. A concrete instance at the end satisfies it.
\<close>

section \<open>Hexadecimal strings\<close>

definition hexdigit :: "nat \<Rightarrow> char" where
  "hexdigit n = ''0123456789abcdef'' ! n"

definition hex_byte :: "8 word \<Rightarrow> string" where
  "hex_byte b = [hexdigit (unat b div 16), hexdigit (unat b mod 16)]"

text \<open>The data string of a byte string: \<open>0x\<close> and two lower-case digits a byte.\<close>

definition hx :: "bytes \<Rightarrow> string" where
  "hx bs = ''0x'' @ concat (map hex_byte bs)"

definition digit_val :: "char \<Rightarrow> nat option" where
  "digit_val c = map_of (zip ''0123456789abcdefABCDEF''
     [0, 1, 2, 3, 4, 5, 6, 7, 8, 9, 10, 11, 12, 13, 14, 15, 10, 11, 12, 13, 14, 15]) c"

definition is_digit :: "char \<Rightarrow> bool" where
  "is_digit c = (digit_val c \<noteq> None)"

text \<open>
  \<open>parseInt(s, 16)\<close> and \<open>parseInt\<close> of a string that starts with \<open>0x\<close>: the value of the longest prefix of
  digits, \<open>NaN\<close> if there is none, rounded to a number. The strings it is applied to have no sign and
  no leading white space.
\<close>

definition parseInt16 :: "string \<Rightarrow> js_num" where
  "parseInt16 s =
     (let digits = takeWhile is_digit (if take 2 s = ''0x'' then drop 2 s else s) in
      if digits = [] then NaN
      else Num (int (to_double (foldl (\<lambda>acc c. acc * 16 + the (digit_val c)) 0 digits))))"

lemma length_hex_byte [simp]: "length (hex_byte b) = 2"
  by (simp add: hex_byte_def)

lemma length_concat_hex_byte [simp]: "length (concat (map hex_byte bs)) = 2 * length bs"
  by (induction bs) simp_all

lemma length_hx [simp, bytes_simps]: "length (hx bs) = 2 + 2 * length bs"
  by (simp add: hx_def)

lemma hx_Nil: "hx [] = ''0x''"
  by (simp add: hx_def)

lemma drop_hx: "drop (2 + 2 * i) (hx bs) = concat (map hex_byte (drop i bs))"
proof -
  have "drop (2 * i) (concat (map hex_byte bs)) = concat (map hex_byte (drop i bs))"
    by (induction bs arbitrary: i) (simp, case_tac i, simp_all add: hex_byte_def)
  then show ?thesis by (simp add: hx_def)
qed

lemma take_hex_bytes: "take (2 * i) (concat (map hex_byte bs)) = concat (map hex_byte (take i bs))"
  by (induction bs arbitrary: i) (simp, case_tac i, simp_all add: hex_byte_def)

lemma digit_val_hexdigit: "n < 16 \<Longrightarrow> digit_val (hexdigit n) = Some n"
proof -
  assume "n < 16"
  then have "n \<in> set [0..<16]" by simp
  moreover have "\<forall>k \<in> set [0..<16]. digit_val (hexdigit k) = Some k" by code_simp
  ultimately show ?thesis by blast
qed

lemma unat_byte [simp]: "unat (b :: 8 word) < 256" "unat b div 16 < 16"
proof -
  show "unat b < 256" using unsigned_less[of b, where 'a = nat] by simp
  then show "unat b div 16 < 16" by simp
qed

lemma digit_val_hex_byte: "\<forall>c \<in> set (hex_byte b). digit_val c \<noteq> None"
  by (simp add: hex_byte_def digit_val_hexdigit)

lemma takeWhile_hex_bytes [simp]:
  "takeWhile is_digit (concat (map hex_byte bs)) = concat (map hex_byte bs)"
  using digit_val_hex_byte by (auto simp: is_digit_def takeWhile_eq_all_conv)

lemma hex_bytes_empty [simp]: "concat (map hex_byte bs) = [] \<longleftrightarrow> bs = []"
  by (cases bs) (simp_all add: hex_byte_def)

lemma foldl_hex_bytes:
  "foldl (\<lambda>acc c. acc * 16 + the (digit_val c)) 0 (concat (map hex_byte bs)) = be_val bs"
proof (induction bs rule: rev_induct)
  case Nil
  then show ?case by simp
next
  case (snoc b bs)
  have "foldl (\<lambda>acc c. acc * 16 + the (digit_val c)) a (hex_byte b) = a * 256 + unat b" for a
    by (simp add: hex_byte_def digit_val_hexdigit algebra_simps)
  with snoc show ?case by simp
qed

lemma hex_bytes_no_prefix: "take 2 (concat (map hex_byte bs)) \<noteq> ''0x''"
proof (cases bs)
  case (Cons b cs)
  have "digit_val CHR ''x'' = None" by code_simp
  then show ?thesis using digit_val_hex_byte[of b] by (auto simp: Cons hex_byte_def)
qed simp

lemma parseInt16_digits:
  "bs \<noteq> [] \<Longrightarrow> parseInt16 (concat (map hex_byte bs)) = Num (int (to_double (be_val bs)))"
  unfolding parseInt16_def Let_def
  by (simp only: hex_bytes_no_prefix if_False takeWhile_hex_bytes hex_bytes_empty foldl_hex_bytes)

lemma parseInt16_hx: "bs \<noteq> [] \<Longrightarrow> parseInt16 (hx bs) = Num (int (to_double (be_val bs)))"
proof -
  have "drop 2 (hx bs) = concat (map hex_byte bs)" "take 2 (hx bs) = ''0x''" by (simp_all add: hx_def)
  then show "bs \<noteq> [] \<Longrightarrow> ?thesis"
    unfolding parseInt16_def Let_def
    by (simp only: simp_thms if_True if_False takeWhile_hex_bytes hex_bytes_empty foldl_hex_bytes)
qed

text \<open>The bytes of a data string, \<open>None\<close> when it is not one.\<close>

fun unhex :: "string \<Rightarrow> bytes option" where
  "unhex [] = Some []"
| "unhex [c] = None"
| "unhex (c # d # s) =
     (case (digit_val c, digit_val d, unhex s) of
        (Some h, Some l, Some bs) \<Rightarrow> Some (of_nat (16 * h + l) # bs) | _ \<Rightarrow> None)"

definition unhx :: "string \<Rightarrow> bytes option" where
  "unhx s = (if take 2 s = ''0x'' then unhex (drop 2 s) else None)"

lemma unhx_hx [simp]: "unhx (hx bs) = Some bs"
proof -
  have "unhex (concat (map hex_byte bs)) = Some bs"
    by (induction bs) (simp_all add: hex_byte_def digit_val_hexdigit)
  then show ?thesis by (simp add: unhx_def hx_def)
qed

lemma hx_inject [simp]: "hx bs = hx cs \<longleftrightarrow> bs = cs"
  by (metis option.inject unhx_hx)

interpretation hex_codec: codec hx "\<lambda>s. the (unhx s)" "\<lambda>_. True"
  by unfold_locales simp

section \<open>Shortest byte strings\<close>

definition be_min :: "nat \<Rightarrow> bytes" where
  "be_min n = be_bytes (max 1 ((bit_length n + 7) div 8)) n"

lemma length_be_min_le: "n < 256 ^ k \<Longrightarrow> 1 \<le> k \<Longrightarrow> length (be_min n) \<le> k"
proof -
  assume n: "n < 256 ^ k" and k: "1 \<le> k"
  have "(256 :: nat) ^ k = 2 ^ (8 * k)" by (simp add: power_mult)
  with n have "bit_length n \<le> 8 * k" by (simp only: bit_length_le_iff)
  with k show ?thesis by (simp add: be_min_def)
qed

lemma be_val_be_min [simp]: "be_val (be_min n) = n"
proof -
  let ?k = "max 1 ((bit_length n + 7) div 8)"
  have "n < 2 ^ (8 * ?k)" by (subst bit_length_le_iff[symmetric]) simp
  then have "n < 256 ^ ?k" by (simp add: power_mult)
  then show ?thesis by (simp add: be_min_def)
qed

lemma length_be_min_gt: "256 ^ k \<le> n \<Longrightarrow> k < length (be_min n)"
proof (rule ccontr)
  assume le: "256 ^ k \<le> n" and "\<not> k < length (be_min n)"
  then have "(256 :: nat) ^ length (be_min n) \<le> 256 ^ k" by (intro power_increasing) simp_all
  with le be_val_less[of "be_min n"] show False by simp
qed

definition pad_left :: "nat \<Rightarrow> bytes \<Rightarrow> bytes" where
  "pad_left n bs = replicate (n - length bs) 0 @ bs"

lemma length_pad_left [simp]: "length bs \<le> n \<Longrightarrow> length (pad_left n bs) = n"
  by (simp add: pad_left_def)

lemma be_val_replicate_0 [simp]: "be_val (replicate n 0) = 0"
  by (induction n) (simp_all add: replicate_append_same[symmetric] del: replicate_Suc replicate.simps(2),
      simp add: replicate_append_same[symmetric])

lemma be_val_pad_left [simp]: "be_val (pad_left n bs) = be_val bs"
  by (simp add: pad_left_def be_val_append)

lemma pad_left_be_min: "v < 256 ^ n \<Longrightarrow> 1 \<le> n \<Longrightarrow> pad_left n (be_min v) = be_bytes n v"
  by (metis be_bytes_be_val be_val_be_min be_val_pad_left length_be_min_le length_pad_left)

section \<open>The ethers library\<close>

text \<open>
  Integers stand for \<open>BigNumberish\<close> values, data strings for \<open>BytesLike\<close> values (\<open>hexlify\<close> is called on both,
  as \<open>hexlify\<close> and \<open>hexlifyData\<close>); a call that throws
  returns \<open>Inl\<close>. \<open>abiEncode\<close> is \<open>defaultAbiCoder.encode\<close> on a list of types and values.
\<close>

datatype abi_value = AbiHex string | AbiInt int

record ethers =
  hexlify :: "int \<Rightarrow> js_error + string"
  hexZeroPad :: "string \<Rightarrow> nat \<Rightarrow> js_error + string"
  hexConcat :: "string list \<Rightarrow> js_error + string"
  hexlifyData :: "string \<Rightarrow> js_error + string"
  hexDataLength :: "string \<Rightarrow> nat"
  hexDataSlice :: "string \<Rightarrow> nat \<Rightarrow> nat option \<Rightarrow> js_error + string"
  arrayify :: "string \<Rightarrow> js_error + bytes"
  keccak256 :: "string \<Rightarrow> js_error + string"
  abiEncode :: "(string \<times> abi_value) list \<Rightarrow> js_error + string"

definition ethers_ok :: "ethers \<Rightarrow> bool" where
  "ethers_ok E \<longleftrightarrow>
     (\<forall>v. 0 \<le> v \<longrightarrow> hexlify E v = Inr (hx (be_min (nat v))))
   \<and> (\<forall>bs n. hexZeroPad E (hx bs) n =
        (if length bs \<le> n then Inr (hx (pad_left n bs)) else Inl (Rejected ''value out of range'')))
   \<and> (\<forall>bss. hexConcat E (map hx bss) = Inr (hx (concat bss)))
   \<and> (\<forall>bs. hexlifyData E (hx bs) = Inr (hx bs))
   \<and> (\<forall>bs. hexDataLength E (hx bs) = length bs)
   \<and> (\<forall>bs i. hexDataSlice E (hx bs) i None = Inr (hx (drop i bs)))
   \<and> (\<forall>bs i j. i \<le> j \<longrightarrow> hexDataSlice E (hx bs) i (Some j) = Inr (hx (take (j - i) (drop i bs))))
   \<and> (\<forall>bs. arrayify E (hx bs) = Inr bs)
   \<and> (\<forall>bs. \<exists>h. length h = 32 \<and> keccak256 E (hx bs) = Inr (hx h))"

lemma ethers_hexlify: "ethers_ok E \<Longrightarrow> 0 \<le> v \<Longrightarrow> hexlify E v = Inr (hx (be_min (nat v)))"
  by (simp add: ethers_ok_def)

lemma ethers_hexZeroPad:
  "ethers_ok E \<Longrightarrow> length bs \<le> n \<Longrightarrow> hexZeroPad E (hx bs) n = Inr (hx (pad_left n bs))"
  by (simp add: ethers_ok_def)

lemma ethers_hexZeroPad_range:
  "ethers_ok E \<Longrightarrow> n < length bs \<Longrightarrow> hexZeroPad E (hx bs) n = Inl (Rejected ''value out of range'')"
  by (simp add: ethers_ok_def)

lemma ethers_hexConcat: "ethers_ok E \<Longrightarrow> hexConcat E (map hx bss) = Inr (hx (concat bss))"
  by (simp add: ethers_ok_def)

lemma ethers_hexConcat2: "ethers_ok E \<Longrightarrow> hexConcat E [hx a, hx b] = Inr (hx (a @ b))"
  using ethers_hexConcat[of E "[a, b]"] by simp

lemma ethers_hexConcat4:
  "ethers_ok E \<Longrightarrow> hexConcat E [hx a, hx b, hx c, hx d] = Inr (hx (a @ b @ c @ d))"
  using ethers_hexConcat[of E "[a, b, c, d]"] by simp

lemma ethers_hexDataSlice:
  "ethers_ok E \<Longrightarrow> hexDataSlice E (hx bs) i None = Inr (hx (drop i bs))"
  "ethers_ok E \<Longrightarrow> i \<le> j \<Longrightarrow> hexDataSlice E (hx bs) i (Some j) = Inr (hx (take (j - i) (drop i bs)))"
  by (simp_all add: ethers_ok_def)

lemma ethers_hexlifyData:
  "ethers_ok E \<Longrightarrow> hexlifyData E (hx bs) = Inr (hx bs)"
  "ethers_ok E \<Longrightarrow> hexDataLength E (hx bs) = length bs"
  by (simp_all add: ethers_ok_def)

lemma ethers_arrayify: "ethers_ok E \<Longrightarrow> arrayify E (hx bs) = Inr bs"
  by (simp add: ethers_ok_def)

lemma ethers_keccak256:
  assumes "ethers_ok E"
  obtains h where "length h = 32" and "keccak256 E (hx bs) = Inr (hx h)"
  using assms unfolding ethers_ok_def by metis

lemmas ethers_laws = ethers_hexlify ethers_hexZeroPad ethers_hexConcat2 ethers_hexConcat4
  ethers_hexlifyData ethers_hexDataSlice ethers_arrayify

text \<open>A number padded to \<open>n\<close> bytes: the big-endian string, or an error when it does not fit.\<close>

lemma ethers_pad_number:
  "ethers_ok E \<Longrightarrow> 0 \<le> v \<Longrightarrow> nat v < 256 ^ n \<Longrightarrow> 1 \<le> n \<Longrightarrow>
     bindE (hexlify E v) (\<lambda>h. hexZeroPad E h n) = Inr (hx (be_bytes n (nat v)))"
  by (simp add: ethers_laws length_be_min_le pad_left_be_min)

lemma ethers_pad_number_range:
  "ethers_ok E \<Longrightarrow> 0 \<le> v \<Longrightarrow> 256 ^ n \<le> nat v \<Longrightarrow>
     bindE (hexlify E v) (\<lambda>h. hexZeroPad E h n) = Inl (Rejected ''value out of range'')"
  by (simp add: ethers_hexlify ethers_hexZeroPad_range length_be_min_gt)

section \<open>A concrete instance\<close>

text \<open>
  An executable implementation of the documented behaviour, for the concrete instances of the
  properties. Its hash is the low 256 bits of the argument, its encoder one word a value.
\<close>

definition on_data :: "string \<Rightarrow> (bytes \<Rightarrow> js_error + 'a) \<Rightarrow> js_error + 'a" where
  "on_data s f = (case unhx s of None \<Rightarrow> Inl (Rejected ''invalid hex string'') | Some bs \<Rightarrow> f bs)"

fun demo_concat :: "string list \<Rightarrow> js_error + bytes" where
  "demo_concat [] = Inr []"
| "demo_concat (s # ss) = on_data s (\<lambda>bs. bindE (demo_concat ss) (\<lambda>cs. Inr (bs @ cs)))"

fun demo_abi :: "(string \<times> abi_value) list \<Rightarrow> js_error + bytes" where
  "demo_abi [] = Inr []"
| "demo_abi ((t, AbiInt v) # vs) = bindE (demo_abi vs) (\<lambda>cs. Inr (be_bytes 32 (nat v) @ cs))"
| "demo_abi ((t, AbiHex s) # vs) =
     on_data s (\<lambda>bs. bindE (demo_abi vs) (\<lambda>cs. Inr (be_bytes 32 (be_val bs) @ cs)))"

definition demo_ethers :: ethers where
  "demo_ethers = \<lparr>
     hexlify = (\<lambda>v. if v < 0 then Inl (Rejected ''out-of-range'') else Inr (hx (be_min (nat v)))),
     hexZeroPad = (\<lambda>s n. on_data s (\<lambda>bs.
       if length bs \<le> n then Inr (hx (pad_left n bs)) else Inl (Rejected ''value out of range''))),
     hexConcat = (\<lambda>ss. bindE (demo_concat ss) (\<lambda>bs. Inr (hx bs))),
     hexlifyData = (\<lambda>s. on_data s (\<lambda>bs. Inr (hx bs))),
     hexDataLength = (\<lambda>s. case unhx s of None \<Rightarrow> 0 | Some bs \<Rightarrow> length bs),
     hexDataSlice = (\<lambda>s i end. on_data s (\<lambda>bs. Inr (hx (case end of
       None \<Rightarrow> drop i bs | Some j \<Rightarrow> take (j - i) (drop i bs))))),
     arrayify = (\<lambda>s. on_data s Inr),
     keccak256 = (\<lambda>s. on_data s (\<lambda>bs. Inr (hx (be_bytes 32 (be_val bs))))),
     abiEncode = (\<lambda>vs. bindE (demo_abi vs) (\<lambda>bs. Inr (hx bs)))\<rparr>"

lemma demo_concat_hx: "demo_concat (map hx bss) = Inr (concat bss)"
  by (induction bss) (simp_all add: on_data_def)

lemma demo_ethers_ok: "ethers_ok demo_ethers"
  by (simp add: ethers_ok_def demo_ethers_def on_data_def demo_concat_hx)

end
