(* ===== verification/User_Op_Client.thy ===== *)
theory User_Op_Client
  imports Ethers_Lib UserOperation_Lib
begin

text \<open>
  User operations on the client side: the types of \<open>test/UserOperation.ts\<close>, the packing helpers of
  \<open>test/testutils.ts\<close> and the packing, hashing and defaults of \<open>test/UserOp.ts\<close>, which the bundle
  sender and the signer of \<open>src/AASigner.ts\<close> use. The packed form is the one that
  \<open>UserOperationLib\<close> reads on chain.
\<close>

section \<open>Types\<close>

record UserOperation =
  uo_sender :: string
  uo_nonce :: int
  uo_initCode :: string
  uo_callData :: string
  uo_callGasLimit :: int
  uo_verificationGasLimit :: int
  uo_preVerificationGas :: int
  uo_maxFeePerGas :: int
  uo_maxPriorityFeePerGas :: int
  uo_paymaster :: string
  uo_paymasterVerificationGasLimit :: int
  uo_paymasterPostOpGasLimit :: int
  uo_paymasterData :: string
  uo_signature :: string

record PackedUserOp =
  pu_sender :: string
  pu_nonce :: int
  pu_initCode :: string
  pu_callData :: string
  pu_accountGasLimits :: string
  pu_preVerificationGas :: int
  pu_gasFees :: string
  pu_paymasterAndData :: string
  pu_signature :: string

definition AddressZero :: string where
  "AddressZero = hx (replicate 20 0)"

section \<open>Packing\<close>

definition packAccountGasLimits :: "ethers \<Rightarrow> int \<Rightarrow> int \<Rightarrow> js_error + string" where
  "packAccountGasLimits E verificationGasLimit callGasLimit =
     bindE (bindE (hexlify E verificationGasLimit) (\<lambda>h. hexZeroPad E h 16)) (\<lambda>a.
     bindE (bindE (hexlify E callGasLimit) (\<lambda>h. hexZeroPad E h 16)) (\<lambda>b.
     hexConcat E [a, b]))"

definition packPaymasterData :: "ethers \<Rightarrow> string \<Rightarrow> int \<Rightarrow> int \<Rightarrow> string \<Rightarrow> js_error + string" where
  "packPaymasterData E paymaster paymasterVerificationGasLimit postOpGasLimit paymasterData =
     bindE (bindE (hexlify E paymasterVerificationGasLimit) (\<lambda>h. hexZeroPad E h 16)) (\<lambda>a.
     bindE (bindE (hexlify E postOpGasLimit) (\<lambda>h. hexZeroPad E h 16)) (\<lambda>b.
     hexConcat E [paymaster, a, b, paymasterData]))"

definition unpackAccountGasLimits :: "string \<Rightarrow> js_num \<times> js_num" where
  "unpackAccountGasLimits accountGasLimits =
     (parseInt16 (take 32 (drop 2 accountGasLimits)), parseInt16 (drop 34 accountGasLimits))"

definition packUserOp :: "ethers \<Rightarrow> UserOperation \<Rightarrow> js_error + PackedUserOp" where
  "packUserOp E userOp =
     bindE (packAccountGasLimits E (uo_verificationGasLimit userOp) (uo_callGasLimit userOp)) (\<lambda>accountGasLimits.
     bindE (packAccountGasLimits E (uo_maxPriorityFeePerGas userOp) (uo_maxFeePerGas userOp)) (\<lambda>gasFees.
     bindE (if 20 \<le> length (uo_paymaster userOp) \<and> uo_paymaster userOp \<noteq> AddressZero
            then packPaymasterData E (uo_paymaster userOp) (uo_paymasterVerificationGasLimit userOp)
                   (uo_paymasterPostOpGasLimit userOp) (uo_paymasterData userOp)
            else Inr ''0x'') (\<lambda>paymasterAndData.
     Inr \<lparr>pu_sender = uo_sender userOp, pu_nonce = uo_nonce userOp, pu_initCode = uo_initCode userOp,
          pu_callData = uo_callData userOp, pu_accountGasLimits = accountGasLimits,
          pu_preVerificationGas = uo_preVerificationGas userOp, pu_gasFees = gasFees,
          pu_paymasterAndData = paymasterAndData, pu_signature = uo_signature userOp\<rparr>)))"

lemma packUserOp_keeps:
  assumes "packUserOp E op = Inr p"
  shows "pu_sender p = uo_sender op" "pu_nonce p = uo_nonce op" "pu_callData p = uo_callData op"
    "pu_initCode p = uo_initCode op" "pu_signature p = uo_signature op"
    "pu_preVerificationGas p = uo_preVerificationGas op"
  using assms by (auto simp: packUserOp_def result_simps)

text \<open>Two numbers of at most 16 bytes pack to their 32-byte concatenation, anything larger is refused.\<close>

lemma packAccountGasLimits_ok:
  assumes "ethers_ok E" and "0 \<le> a" "a < 2 ^ 128" "0 \<le> b" "b < 2 ^ 128"
  shows "packAccountGasLimits E a b = Inr (hx (be_bytes 16 (nat a) @ be_bytes 16 (nat b)))"
proof -
  have fit: "0 \<le> x \<Longrightarrow> x < 2 ^ 128 \<Longrightarrow> nat x < 256 ^ 16" for x :: int
    by (simp add: nat_less_iff)
  show ?thesis
    using assms fit by (simp add: packAccountGasLimits_def ethers_pad_number ethers_hexConcat2)
qed

lemma packAccountGasLimits_range:
  assumes "ethers_ok E" and "0 \<le> a" "0 \<le> b" and "2 ^ 128 \<le> a \<or> 2 ^ 128 \<le> b"
  shows "packAccountGasLimits E a b = Inl (Rejected ''value out of range'')"
proof -
  have big: "2 ^ 128 \<le> x \<Longrightarrow> 256 ^ 16 \<le> nat x" for x :: int
    by (simp add: le_nat_iff)
  show ?thesis
  proof (cases "2 ^ 128 \<le> a")
    case True
    with assms big show ?thesis by (simp add: packAccountGasLimits_def ethers_pad_number_range)
  next
    case False
    with assms have "nat a < 256 ^ 16" by (simp add: nat_less_iff)
    moreover from assms False big have "256 ^ 16 \<le> nat b" by blast
    ultimately show ?thesis
      using assms by (simp add: packAccountGasLimits_def ethers_pad_number ethers_pad_number_range)
  qed
qed

text \<open>The 32-byte word that a data string denotes on chain.\<close>

definition data_word :: "string \<Rightarrow> uint256" where
  "data_word s = (case unhx s of None \<Rightarrow> 0 | Some bs \<Rightarrow> of_nat (be_val bs))"

lemma packed_word_halves:
  assumes "a < 2 ^ 128" "b < 2 ^ 128"
  shows "unat (unpackHigh128 (data_word (hx (be_bytes 16 a @ be_bytes 16 b)))) = a"
    and "unat (unpackLow128 (data_word (hx (be_bytes 16 a @ be_bytes 16 b)))) = b"
proof -
  have v: "be_val (be_bytes 16 a @ be_bytes 16 b) = a * 2 ^ 128 + b"
    using assms by (simp add: be_val_append)
  also have "\<dots> < 2 ^ 256"
  proof -
    have "a * 2 ^ 128 + b < (a + 1) * 2 ^ 128" using assms(2) by simp
    also have "\<dots> \<le> 2 ^ 128 * 2 ^ 128" using assms(1) by (intro mult_le_mono1) simp
    finally show ?thesis by simp
  qed
  finally have "unat (data_word (hx (be_bytes 16 a @ be_bytes 16 b))) = a * 2 ^ 128 + b"
    unfolding data_word_def by (simp only: unhx_hx option.case v unat_of_nat_256)
  then show "unat (unpackHigh128 (data_word (hx (be_bytes 16 a @ be_bytes 16 b)))) = a"
    "unat (unpackLow128 (data_word (hx (be_bytes 16 a @ be_bytes 16 b)))) = b"
    using assms by (simp_all add: unat_unpackHigh128 unat_unpackLow128)
qed

text \<open>The client's own unpacking, in JavaScript numbers.\<close>

lemma unpackAccountGasLimits_packed:
  assumes "a < 2 ^ 128" "b < 2 ^ 128"
  shows "unpackAccountGasLimits (hx (be_bytes 16 a @ be_bytes 16 b))
    = (Num (int (to_double a)), Num (int (to_double b)))"
proof -
  have ne: "be_bytes 16 n \<noteq> []" for n by (metis length_be_bytes list.size(3) zero_neq_numeral)
  let ?s = "hx (be_bytes 16 a @ be_bytes 16 b)"
  have "drop 34 ?s = concat (map hex_byte (be_bytes 16 b))"
    using drop_hx[of 16 "be_bytes 16 a @ be_bytes 16 b"] by simp
  moreover have "take 32 (drop 2 ?s) = concat (map hex_byte (be_bytes 16 a))"
    using drop_hx[of 0 "be_bytes 16 a @ be_bytes 16 b"] take_hex_bytes[of 16 "be_bytes 16 a @ be_bytes 16 b"]
    by simp
  ultimately show ?thesis
    using assms parseInt16_digits[OF ne, of a] parseInt16_digits[OF ne, of b]
    by (simp add: unpackAccountGasLimits_def)
qed

text \<open>The paymaster part is the address, the two 16-byte limits and the data.\<close>

lemma packPaymasterData_ok:
  assumes "ethers_ok E" and "0 \<le> v" "v < 2 ^ 128" "0 \<le> p" "p < 2 ^ 128"
  shows "packPaymasterData E (hx addr) v p (hx data) =
    Inr (hx (addr @ be_bytes 16 (nat v) @ be_bytes 16 (nat p) @ data))"
proof -
  have fit: "0 \<le> x \<Longrightarrow> x < 2 ^ 128 \<Longrightarrow> nat x < 256 ^ 16" for x :: int
    by (simp add: nat_less_iff)
  show ?thesis
    using assms fit by (simp add: packPaymasterData_def ethers_pad_number ethers_hexConcat4)
qed

section \<open>Defaults\<close>

record PartialUserOp =
  p_sender :: "string option"
  p_nonce :: "int option"
  p_initCode :: "string option"
  p_callData :: "string option"
  p_callGasLimit :: "int option"
  p_verificationGasLimit :: "int option"
  p_preVerificationGas :: "int option"
  p_maxFeePerGas :: "int option"
  p_maxPriorityFeePerGas :: "int option"
  p_paymaster :: "string option"
  p_paymasterVerificationGasLimit :: "int option"
  p_paymasterPostOpGasLimit :: "int option"
  p_paymasterData :: "string option"
  p_signature :: "string option"

definition DefaultsForUserOp :: UserOperation where
  "DefaultsForUserOp = \<lparr>
     uo_sender = AddressZero, uo_nonce = 0, uo_initCode = ''0x'', uo_callData = ''0x'',
     uo_callGasLimit = 0, uo_verificationGasLimit = 150000, uo_preVerificationGas = 21000,
     uo_maxFeePerGas = 0, uo_maxPriorityFeePerGas = 1000000000,
     uo_paymaster = AddressZero, uo_paymasterVerificationGasLimit = 300000,
     uo_paymasterPostOpGasLimit = 0, uo_paymasterData = ''0x'', uo_signature = ''0x''\<rparr>"

fun or_default :: "'a option \<Rightarrow> 'a \<Rightarrow> 'a" where
  "or_default None d = d"
| "or_default (Some x) d = x"

text \<open>A missing field, \<open>null\<close> and \<open>undefined\<close> alike, takes its default.\<close>

definition fillUserOpDefaults :: "PartialUserOp \<Rightarrow> UserOperation \<Rightarrow> UserOperation" where
  "fillUserOpDefaults op defaults = \<lparr>
     uo_sender = or_default (p_sender op) (uo_sender defaults),
     uo_nonce = or_default (p_nonce op) (uo_nonce defaults),
     uo_initCode = or_default (p_initCode op) (uo_initCode defaults),
     uo_callData = or_default (p_callData op) (uo_callData defaults),
     uo_callGasLimit = or_default (p_callGasLimit op) (uo_callGasLimit defaults),
     uo_verificationGasLimit = or_default (p_verificationGasLimit op) (uo_verificationGasLimit defaults),
     uo_preVerificationGas = or_default (p_preVerificationGas op) (uo_preVerificationGas defaults),
     uo_maxFeePerGas = or_default (p_maxFeePerGas op) (uo_maxFeePerGas defaults),
     uo_maxPriorityFeePerGas = or_default (p_maxPriorityFeePerGas op) (uo_maxPriorityFeePerGas defaults),
     uo_paymaster = or_default (p_paymaster op) (uo_paymaster defaults),
     uo_paymasterVerificationGasLimit =
       or_default (p_paymasterVerificationGasLimit op) (uo_paymasterVerificationGasLimit defaults),
     uo_paymasterPostOpGasLimit =
       or_default (p_paymasterPostOpGasLimit op) (uo_paymasterPostOpGasLimit defaults),
     uo_paymasterData = or_default (p_paymasterData op) (uo_paymasterData defaults),
     uo_signature = or_default (p_signature op) (uo_signature defaults)\<rparr>"

end
