(* ===== verification/Op_Queue.thy ===== *)
theory Op_Queue
  imports User_Op_Client "HOL-Library.Multiset"
begin

text \<open>
  The queue of user operations of \<open>src/AASigner.ts\<close>: \<open>queueUserOpSender\<close> with its interval control, and
  \<open>sendQueuedUserOps\<close>, which makes bundles of the queued operations and sends them to the EntryPoint.

  Every queue object is a record, the timers of the JavaScript runtime a list, and the module
  variable \<open>sending\<close> a flag that all queues share. An invocation of \<open>push\<close> runs without interruption to
  its first \<open>await\<close>; one that gets past it is kept in \<open>pushes\<close> with the promise it waits for, and
  continues when the node answers. \<open>enqueued\<close>, \<open>taken\<close> and \<open>handled\<close> are histories: the operations
  given to each queue, the operations shifted from it, and the calls of \<open>handleOps\<close>.
\<close>

section \<open>State\<close>

record op_queue =
  queue :: "UserOperation list obj"
  queueSize :: js_num
  lastQueueUpdate :: js_num
  cancelId :: "nat option"

datatype stage = AwaitSigner | AwaitHandleOps | AwaitReceipt

record push =
  push_queue :: nat
  push_ops :: "PackedUserOp list"
  push_stage :: stage

record handle_ops_call =
  ho_queue :: nat
  ho_ops :: "PackedUserOp list"
  ho_beneficiary :: string

record queue_system =
  queues :: "nat \<Rightarrow> op_queue option"
  timers :: "(nat \<times> nat) list"
  next_timer :: nat
  sending :: bool
  pushes :: "push list"
  enqueued :: "(nat \<times> UserOperation) list"
  taken :: "(nat \<times> UserOperation) list"
  handled :: "handle_ops_call list"

text \<open>
  A new queue object: \<open>queue\<close> is an empty object; \<open>queueSize\<close>, \<open>lastQueueUpdate\<close> and
  \<open>_cancelInterval\<close> are not assigned.
\<close>

definition fresh_queue :: op_queue where
  "fresh_queue = \<lparr>queue = [], queueSize = Undefined, lastQueueUpdate = Undefined, cancelId = None\<rparr>"

definition init_system :: queue_system where
  "init_system = \<lparr>queues = (\<lambda>_. None), timers = [], next_timer = 0, sending = False, pushes = [],
     enqueued = [], taken = [], handled = []\<rparr>"

definition IDLE_TIME :: int where "IDLE_TIME = 5000"

definition BUNDLE_SIZE_IMMEDIATE :: int where "BUNDLE_SIZE_IMMEDIATE = 3"

text \<open>The operations queued for a sender; a missing list counts as empty.\<close>

definition ops_of :: "op_queue \<Rightarrow> string \<Rightarrow> UserOperation list" where
  "ops_of q s = or_default (obj_get (queue q) s) []"

section \<open>Operations\<close>

text \<open>The function that \<open>queueUserOpSender\<close> returns.\<close>

definition enqueue :: "int \<Rightarrow> UserOperation \<Rightarrow> op_queue \<Rightarrow> op_queue" where
  "enqueue now userOp q =
     q\<lparr>queue := obj_set (queue q) (uo_sender userOp) (ops_of q (uo_sender userOp) @ [userOp]),
       lastQueueUpdate := Num now,
       queueSize := js_add (queueSize q) 1\<rparr>"

definition cancelInterval :: "nat \<Rightarrow> op_queue \<Rightarrow> queue_system \<Rightarrow> queue_system" where
  "cancelInterval i q st =
     (case cancelId q of
        None \<Rightarrow> st
      | Some t \<Rightarrow> st\<lparr>timers := filter (\<lambda>(t', _). t' \<noteq> t) (timers st),
                     queues := (queues st)(i \<mapsto> q\<lparr>cancelId := None\<rparr>)\<rparr>)"

definition set_interval :: "nat \<Rightarrow> op_queue \<Rightarrow> queue_system \<Rightarrow> queue_system" where
  "set_interval i q st =
     (let st1 = cancelInterval i q st in
      st1\<lparr>timers := timers st1 @ [(next_timer st1, i)], next_timer := Suc (next_timer st1),
          queues := (queues st1)(i \<mapsto> q\<lparr>cancelId := Some (next_timer st1)\<rparr>)\<rparr>)"

text \<open>\<open>queueUserOpSender\<close>: the new object \<open>i\<close>, with its interval unless \<open>intervalMs\<close> is null.\<close>

definition queueUserOpSender :: "nat \<Rightarrow> int option \<Rightarrow> queue_system \<Rightarrow> queue_system" where
  "queueUserOpSender i intervalMs st =
     (let st1 = st\<lparr>queues := (queues st)(i \<mapsto> fresh_queue)\<rparr> in
      if intervalMs = None then st1 else set_interval i fresh_queue st1)"

text \<open>
  The \<open>forEach\<close> loop over the senders: shift one operation, pack it, count it. It also returns the
  operations it shifted. When packing throws, the loop ends with the operation already shifted.
\<close>

fun collect :: "ethers \<Rightarrow> string list \<Rightarrow> op_queue \<Rightarrow> PackedUserOp list \<Rightarrow> UserOperation list \<Rightarrow>
    op_queue \<times> UserOperation list \<times> (js_error + PackedUserOp list)" where
  "collect E [] q ops shifted = (q, shifted, Inr ops)"
| "collect E (s # senders) q ops shifted =
     (case ops_of q s of
        [] \<Rightarrow> collect E senders q ops shifted
      | op # rest \<Rightarrow>
          (let q1 = q\<lparr>queue := obj_set (queue q) s rest\<rparr> in
           case packUserOp E op of
             Inl e \<Rightarrow> (q1, shifted @ [op], Inl e)
           | Inr p \<Rightarrow> collect E senders (q1\<lparr>queueSize := js_add (queueSize q1) (-1)\<rparr>)
                        (ops @ [p]) (shifted @ [op])))"

text \<open>
  \<open>sendQueuedUserOps\<close> up to its first \<open>await\<close>. The \<open>finally\<close> clause clears \<open>sending\<close> on every return
  and throw of this part.
\<close>

definition sendQueuedUserOps :: "ethers \<Rightarrow> int \<Rightarrow> nat \<Rightarrow> op_queue \<Rightarrow> queue_system \<Rightarrow> queue_system" where
  "sendQueuedUserOps E now i q st =
     (if sending st then st
      else if js_less (queueSize q) BUNDLE_SIZE_IMMEDIATE
              \<or> js_greater (js_add (lastQueueUpdate q) IDLE_TIME) now
      then st\<lparr>sending := False\<rparr>
      else
        (case collect E (obj_keys (queue q)) q [] [] of (q', shifted, res) \<Rightarrow>
           let st1 = st\<lparr>queues := (queues st)(i \<mapsto> q'), taken := taken st @ map (Pair i) shifted\<rparr> in
           case res of
             Inl e \<Rightarrow> st1\<lparr>sending := False\<rparr>
           | Inr ops \<Rightarrow>
               if ops = [] then st1\<lparr>sending := False\<rparr>
               else st1\<lparr>sending := True,
                        pushes := pushes st1 @ [\<lparr>push_queue = i, push_ops = ops, push_stage = AwaitSigner\<rparr>]\<rparr>))"

text \<open>
  The rest of it: the address of the signer, the call of \<open>handleOps\<close>, its receipt. Every end, also
  by an error or a receipt without events, runs the \<open>finally\<close> clause.
\<close>

datatype answer = Failed js_error | Resolved string

definition finish_push :: "nat \<Rightarrow> queue_system \<Rightarrow> queue_system" where
  "finish_push k st = st\<lparr>pushes := take k (pushes st) @ drop (Suc k) (pushes st), sending := False\<rparr>"

definition resume_push :: "nat \<Rightarrow> answer \<Rightarrow> queue_system \<Rightarrow> queue_system" where
  "resume_push k ans st =
     (let p = pushes st ! k in
      case ans of
        Failed e \<Rightarrow> finish_push k st
      | Resolved v \<Rightarrow>
          (case push_stage p of
             AwaitSigner \<Rightarrow>
               st\<lparr>handled := handled st @ [\<lparr>ho_queue = push_queue p, ho_ops = push_ops p, ho_beneficiary = v\<rparr>],
                  pushes := (pushes st)[k := p\<lparr>push_stage := AwaitHandleOps\<rparr>]\<rparr>
           | AwaitHandleOps \<Rightarrow> st\<lparr>pushes := (pushes st)[k := p\<lparr>push_stage := AwaitReceipt\<rparr>]\<rparr>
           | AwaitReceipt \<Rightarrow> finish_push k st))"

section \<open>Runs\<close>

text \<open>
  The runtime interleaves calls of the queue functions, timer ticks and answers of the node; the
  time \<open>now\<close> of a step is arbitrary.
\<close>

inductive qstep :: "ethers \<Rightarrow> queue_system \<Rightarrow> queue_system \<Rightarrow> bool" for E where
  new_queue: "queues st i = None \<Longrightarrow> qstep E st (queueUserOpSender i intervalMs st)"
| enqueue_op: "queues st i = Some q \<Longrightarrow>
    qstep E st (st\<lparr>queues := (queues st)(i \<mapsto> enqueue now op q), enqueued := enqueued st @ [(i, op)]\<rparr>)"
| call_set_interval: "queues st i = Some q \<Longrightarrow> qstep E st (set_interval i q st)"
| call_cancel_interval: "queues st i = Some q \<Longrightarrow> qstep E st (cancelInterval i q st)"
| call_push: "queues st i = Some q \<Longrightarrow> qstep E st (sendQueuedUserOps E now i q st)"
| tick: "(t, i) \<in> set (timers st) \<Longrightarrow> queues st i = Some q \<Longrightarrow>
    qstep E st (sendQueuedUserOps E now i q st)"
| node_answer: "k < length (pushes st) \<Longrightarrow> qstep E st (resume_push k ans st)"

inductive_cases qstepE: "qstep E st st'"

definition reachable :: "ethers \<Rightarrow> queue_system \<Rightarrow> bool" where
  "reachable E st = (qstep E)\<^sup>*\<^sup>* init_system st"

section \<open>The operations, piece by piece\<close>

definition queue_ok :: "op_queue \<Rightarrow> bool" where
  "queue_ok q \<longleftrightarrow> obj_wf (queue q) \<and> not_a_number (queueSize q)
     \<and> (\<forall>s. \<forall>op \<in> set (ops_of q s). uo_sender op = s)"

lemma ops_of_set:
  "queue q' = obj_set (queue q) s ops \<Longrightarrow> ops_of q' t = (if t = s then ops else ops_of q t)"
  by (simp add: ops_of_def obj_get_set)

lemma fresh_queue_ok: "queue_ok fresh_queue"
  by (simp add: queue_ok_def fresh_queue_def ops_of_def)

lemma ops_of_enqueue:
  "ops_of (enqueue now op q) s = (if s = uo_sender op then ops_of q s @ [op] else ops_of q s)"
proof -
  have "queue (enqueue now op q) = obj_set (queue q) (uo_sender op) (ops_of q (uo_sender op) @ [op])"
    by (simp add: enqueue_def)
  from ops_of_set[OF this, of s] show ?thesis by simp
qed

lemma enqueue_ok: "queue_ok q \<Longrightarrow> queue_ok (enqueue now op q)"
  using ops_of_enqueue[of now op q] by (auto simp: queue_ok_def enqueue_def obj_wf_set)

text \<open>The queue after a shift.\<close>

lemma shift_ok:
  assumes "queue_ok q" and "ops_of q s = op # rest"
  shows "queue_ok (q\<lparr>queue := obj_set (queue q) s rest, queueSize := js_add (queueSize q) n\<rparr>)"
    and "queue_ok (q\<lparr>queue := obj_set (queue q) s rest\<rparr>)"
    and "uo_sender op = s"
proof -
  from assms have "\<forall>o' \<in> set (op # rest). uo_sender o' = s" unfolding queue_ok_def by metis
  then show "uo_sender op = s"
    "queue_ok (q\<lparr>queue := obj_set (queue q) s rest, queueSize := js_add (queueSize q) n\<rparr>)"
    "queue_ok (q\<lparr>queue := obj_set (queue q) s rest\<rparr>)"
    using assms(1) by (auto simp: queue_ok_def obj_wf_set ops_of_def obj_get_set)
qed

text \<open>
  What the loop over the senders does: it removes at most one operation a sender, from the front,
  and the bundle is what packing makes of the removed operations.
\<close>

definition collected :: "ethers \<Rightarrow> string list \<Rightarrow> op_queue \<Rightarrow> op_queue \<Rightarrow> UserOperation list \<Rightarrow> bool" where
  "collected E senders q q' new \<longleftrightarrow> queue_ok q' \<and> cancelId q' = cancelId q
     \<and> (\<forall>s. ops_of q s = filter (\<lambda>op. uo_sender op = s) new @ ops_of q' s)
     \<and> set (map uo_sender new) \<subseteq> set senders \<and> distinct (map uo_sender new)"

lemma collected_Cons:
  assumes "queue_ok q" and "ops_of q s = op # rest" and "s \<notin> set senders"
    and q1: "q1 = q\<lparr>queue := obj_set (queue q) s rest, queueSize := n\<rparr>"
    and c: "collected E senders q1 q' new"
  shows "collected E (s # senders) q q' (op # new)"
proof -
  have op: "uo_sender op = s" using shift_ok(3)[OF assms(1,2)] .
  have "ops_of q1 t = (if t = s then rest else ops_of q t)" for t
    by (rule ops_of_set) (simp add: q1)
  then have "ops_of q t = filter (\<lambda>o'. uo_sender o' = t) (op # new) @ ops_of q' t" for t
    using c op assms(2,3) unfolding collected_def by (cases "t = s") auto
  moreover have "cancelId q' = cancelId q" using c q1 by (simp add: collected_def)
  ultimately show ?thesis using c op assms(3) by (auto simp: collected_def)
qed

lemma collect_collected:
  assumes "collect E senders q ops shifted = (q', shifted', res)" and "distinct senders" and "queue_ok q"
  shows "\<exists>new. shifted' = shifted @ new \<and> collected E senders q q' new
    \<and> (\<forall>ps. res = Inr ps \<longrightarrow> (\<exists>newp. ps = ops @ newp \<and> map (packUserOp E) new = map Inr newp))"
  using assms
proof (induction E senders q ops shifted rule: collect.induct)
  case (1 E q ops shifted)
  then show ?case by (auto simp: collected_def intro!: exI[of _ "[]"])
next
  case (2 E s senders q ops shifted)
  show ?case
  proof (cases "ops_of q s")
    case Nil
    with "2.prems" have "collect E senders q ops shifted = (q', shifted', res)" "distinct senders" by simp_all
    from "2.IH"(1)[OF Nil this "2.prems"(3)] obtain new where
      "shifted' = shifted @ new" "collected E senders q q' new"
      "\<forall>ps. res = Inr ps \<longrightarrow> (\<exists>newp. ps = ops @ newp \<and> map (packUserOp E) new = map Inr newp)"
      by blast
    moreover from this(2) have "collected E (s # senders) q q' new" by (auto simp: collected_def)
    ultimately show ?thesis by blast
  next
    case (Cons op rest)
    let ?q1 = "q\<lparr>queue := obj_set (queue q) s rest\<rparr>"
    let ?q2 = "?q1\<lparr>queueSize := js_add (queueSize ?q1) (-1)\<rparr>"
    have fresh: "s \<notin> set senders" "distinct senders" using "2.prems"(2) by simp_all
    show ?thesis
    proof (cases "packUserOp E op")
      case (Inl e)
      with "2.prems"(1) Cons have r: "q' = ?q1" "shifted' = shifted @ [op]" "res = Inl e" by simp_all
      have "collected E senders ?q1 ?q1 []"
        using shift_ok(2)[OF "2.prems"(3) Cons] by (simp add: collected_def)
      then have "collected E (s # senders) q q' [op]"
        using collected_Cons[OF "2.prems"(3) Cons fresh(1), of ?q1 "queueSize q"] r by simp
      with r show ?thesis by (intro exI[of _ "[op]"]) simp
    next
      case (Inr p)
      have ok: "queue_ok ?q2" using shift_ok(1)[OF "2.prems"(3) Cons] by simp
      from "2.prems"(1) Cons Inr have rec: "collect E senders ?q2 (ops @ [p]) (shifted @ [op]) = (q', shifted', res)"
        by (simp add: Let_def)
      from "2.IH"(2)[OF Cons refl Inr rec fresh(2) ok] obtain new where
        new: "shifted' = shifted @ op # new" "collected E senders ?q2 q' new"
        "\<forall>ps. res = Inr ps \<longrightarrow> (\<exists>newp. ps = ops @ p # newp \<and> map (packUserOp E) new = map Inr newp)"
        by auto
      have "collected E (s # senders) q q' (op # new)"
        by (rule collected_Cons[OF "2.prems"(3) Cons fresh(1) _ new(2)]) simp
      with new(1,3) Inr show ?thesis
        by (intro exI[of _ "op # new"]) auto
    qed
  qed
qed

section \<open>Invariants of all runs\<close>

interpretation push_flag: exclusive "qstep E" init_system sending "\<lambda>st. length (pushes st)"
proof
  fix st st'
  assume "qstep E st st'"
  then show "(sending st' = sending st \<and> length (pushes st') = length (pushes st))
    \<or> (\<not> sending st \<and> sending st' \<and> length (pushes st') = Suc (length (pushes st)))
    \<or> (\<not> sending st' \<and> length (pushes st) = Suc (length (pushes st')))"
  proof cases
    case (node_answer k ans)
    then show ?thesis
      by (auto simp: resume_push_def finish_push_def Let_def split: answer.splits stage.splits)
  qed (auto simp: queueUserOpSender_def set_interval_def cancelInterval_def sendQueuedUserOps_def Let_def
      split: option.splits prod.splits sum.splits)
qed (simp_all add: init_system_def)

text \<open>The operations of queue \<open>i\<close> and sender \<open>s\<close> in a history.\<close>

definition hist :: "nat \<Rightarrow> string \<Rightarrow> (nat \<times> UserOperation) list \<Rightarrow> UserOperation list" where
  "hist i s l = filter (\<lambda>op. uo_sender op = s) (map snd (filter (\<lambda>x. fst x = i) l))"

lemma hist_append [simp]: "hist i s (l @ m) = hist i s l @ hist i s m"
  by (simp add: hist_def)

lemma hist_Nil [simp]: "hist i s [] = []"
  by (simp add: hist_def)

lemma hist_single [simp]: "hist i s [(j, op)] = (if j = i \<and> uo_sender op = s then [op] else [])"
  by (simp add: hist_def)

lemma hist_Pair [simp]:
  "hist i s (map (Pair j) ops) = (if j = i then filter (\<lambda>op. uo_sender op = s) ops else [])"
  by (induction ops) (auto simp: hist_def)

lemma count_hist: "count (mset l) (i, op) = count (mset (hist i (uo_sender op) l)) op"
  by (induction l) (auto simp: hist_def)

text \<open>The packed operations that were handed to \<open>handleOps\<close> or are about to be.\<close>

definition outgoing :: "queue_system \<Rightarrow> PackedUserOp list" where
  "outgoing st = concat (map ho_ops (handled st))
     @ concat (map push_ops (filter (\<lambda>p. push_stage p = AwaitSigner) (pushes st)))"

definition bundle_ok :: "PackedUserOp list \<Rightarrow> bool" where
  "bundle_ok ops \<longleftrightarrow> ops \<noteq> [] \<and> distinct (map pu_sender ops)"

definition queues_inv :: "queue_system \<Rightarrow> bool" where
  "queues_inv st \<longleftrightarrow> (\<forall>i. case queues st i of
      None \<Rightarrow> \<forall>s. hist i s (enqueued st) = [] \<and> hist i s (taken st) = []
    | Some q \<Rightarrow> queue_ok q \<and> (\<forall>s. hist i s (enqueued st) = hist i s (taken st) @ ops_of q s))"

definition bundles_inv :: "ethers \<Rightarrow> queue_system \<Rightarrow> bool" where
  "bundles_inv E st \<longleftrightarrow>
     (\<forall>p \<in> set (pushes st). bundle_ok (push_ops p)) \<and> (\<forall>c \<in> set (handled st). bundle_ok (ho_ops c))
   \<and> mset (map Inr (outgoing st)) \<subseteq># mset (map (packUserOp E \<circ> snd) (taken st))"

lemma queues_inv_update:
  assumes "queues_inv st" and "queues st i = Some q" and "queue_ok q'"
    and "queues st' = (queues st)(i \<mapsto> q')"
    and "enqueued st' = enqueued st @ map (Pair i) new" and "taken st' = taken st @ map (Pair i) gone"
    and "\<And>s. ops_of q s @ filter (\<lambda>op. uo_sender op = s) new
          = filter (\<lambda>op. uo_sender op = s) gone @ ops_of q' s"
  shows "queues_inv st'"
  unfolding queues_inv_def
proof
  fix j
  show "case queues st' j of
      None \<Rightarrow> \<forall>s. hist j s (enqueued st') = [] \<and> hist j s (taken st') = []
    | Some q \<Rightarrow> queue_ok q \<and> (\<forall>s. hist j s (enqueued st') = hist j s (taken st') @ ops_of q s)"
  proof (cases "j = i")
    case True
    have "hist i s (enqueued st) = hist i s (taken st) @ ops_of q s" for s
      using assms(1,2) unfolding queues_inv_def by (auto dest!: spec[of _ i])
    with True show ?thesis using assms(3-7) by simp
  next
    case False
    then show ?thesis
      using assms(1,4-6) unfolding queues_inv_def by (auto dest!: spec[of _ j] split: option.splits)
  qed
qed

lemma set_interval_frame:
  "queues (set_interval i q st) = (queues st)(i \<mapsto> q\<lparr>cancelId := Some (next_timer st)\<rparr>)"
  "enqueued (set_interval i q st) = enqueued st" "taken (set_interval i q st) = taken st"
  "pushes (set_interval i q st) = pushes st" "handled (set_interval i q st) = handled st"
  by (auto simp: set_interval_def cancelInterval_def Let_def split: option.splits)

lemma cancelInterval_frame:
  "enqueued (cancelInterval i q st) = enqueued st" "taken (cancelInterval i q st) = taken st"
  "pushes (cancelInterval i q st) = pushes st" "handled (cancelInterval i q st) = handled st"
  by (auto simp: cancelInterval_def split: option.splits)

lemma cancelInterval_queues:
  "queues st i = Some q \<Longrightarrow> queues (cancelInterval i q st) = (queues st)(i \<mapsto> q\<lparr>cancelId := None\<rparr>)"
  by (cases q) (auto simp: cancelInterval_def split: option.splits)

lemma queue_ok_cancelId [simp]: "queue_ok (q\<lparr>cancelId := x\<rparr>) = queue_ok q"
  by (simp add: queue_ok_def ops_of_def)

lemma ops_of_cancelId [simp]: "ops_of (q\<lparr>cancelId := x\<rparr>) s = ops_of q s"
  by (simp add: ops_of_def)

text \<open>A push leaves everything alone, or takes the heads of the queue and bundles them.\<close>

lemma send_idle:
  assumes "sending st \<or> js_less (queueSize q) BUNDLE_SIZE_IMMEDIATE
    \<or> js_greater (js_add (lastQueueUpdate q) IDLE_TIME) now"
  shows "sendQueuedUserOps E now i q st = st"
  using assms by (cases st) (auto simp: sendQueuedUserOps_def)

definition after_collect ::
  "nat \<Rightarrow> op_queue \<Rightarrow> UserOperation list \<Rightarrow> js_error + PackedUserOp list \<Rightarrow> queue_system \<Rightarrow> queue_system" where
  "after_collect i q' new res st =
     (let st1 = st\<lparr>queues := (queues st)(i \<mapsto> q'), taken := taken st @ map (Pair i) new\<rparr> in
      case res of
        Inl e \<Rightarrow> st1
      | Inr ops \<Rightarrow> if ops = [] then st1
          else st1\<lparr>sending := True,
                   pushes := pushes st @ [\<lparr>push_queue = i, push_ops = ops, push_stage = AwaitSigner\<rparr>]\<rparr>)"

lemma send_busy:
  assumes "\<not> (sending st \<or> js_less (queueSize q) BUNDLE_SIZE_IMMEDIATE
    \<or> js_greater (js_add (lastQueueUpdate q) IDLE_TIME) now)"
    and "queue_ok q" and "collect E (obj_keys (queue q)) q [] [] = (q', new, res)"
  shows "sendQueuedUserOps E now i q st = after_collect i q' new res st"
    and "collected E (obj_keys (queue q)) q q' new"
    and "\<And>ps. res = Inr ps \<Longrightarrow> map (packUserOp E) new = map Inr ps"
proof -
  show "sendQueuedUserOps E now i q st = after_collect i q' new res st"
    using assms(1,3) by (cases st) (auto simp: sendQueuedUserOps_def after_collect_def Let_def split: sum.splits)
  have "distinct (obj_keys (queue q))" using assms(2) by (simp add: queue_ok_def obj_wf_def)
  from collect_collected[OF assms(3) this assms(2)]
  show "collected E (obj_keys (queue q)) q q' new"
    "\<And>ps. res = Inr ps \<Longrightarrow> map (packUserOp E) new = map Inr ps" by auto
qed

lemma send_cases:
  assumes "queue_ok q"
  obtains "sendQueuedUserOps E now i q st = st"
  | q' new res where "sendQueuedUserOps E now i q st = after_collect i q' new res st"
      "collected E (obj_keys (queue q)) q q' new"
      "\<And>ps. res = Inr ps \<Longrightarrow> map (packUserOp E) new = map Inr ps"
  using send_idle send_busy[OF _ assms] by (metis prod_cases3)

lemma queues_inv_after_collect:
  assumes "queues_inv st" and "queues st i = Some q" and "collected E senders q q' new"
  shows "queues_inv (after_collect i q' new res st)"
proof (rule queues_inv_update[OF assms(1,2)])
  show "queue_ok q'" using assms(3) by (simp add: collected_def)
  show "queues (after_collect i q' new res st) = (queues st)(i \<mapsto> q')"
    "taken (after_collect i q' new res st) = taken st @ map (Pair i) new"
    "enqueued (after_collect i q' new res st) = enqueued st @ map (Pair i) []"
    by (auto simp: after_collect_def Let_def split: sum.splits)
qed (use assms(3) in \<open>auto simp: collected_def\<close>)

lemma queues_inv_new:
  assumes "queues_inv st" and "queues st i = None" and "queue_ok q" and "\<And>s. ops_of q s = []"
    and "queues st' = (queues st)(i \<mapsto> q)" and "enqueued st' = enqueued st" and "taken st' = taken st"
  shows "queues_inv st'"
  unfolding queues_inv_def
proof
  fix j
  show "case queues st' j of
      None \<Rightarrow> \<forall>s. hist j s (enqueued st') = [] \<and> hist j s (taken st') = []
    | Some q \<Rightarrow> queue_ok q \<and> (\<forall>s. hist j s (enqueued st') = hist j s (taken st') @ ops_of q s)"
    using assms unfolding queues_inv_def by (cases "j = i") (auto dest!: spec[of _ j] split: option.splits)
qed

lemma queues_inv_step:
  assumes "queues_inv st" and "qstep E st st'"
  shows "queues_inv st'"
  using assms(2)
proof cases
  case (new_queue i intervalMs)
  obtain x where "queues st' = (queues st)(i \<mapsto> fresh_queue\<lparr>cancelId := x\<rparr>)"
    unfolding new_queue(1)
    by (cases intervalMs) (auto simp: queueUserOpSender_def set_interval_frame fresh_queue_def)
  then show ?thesis
    using new_queue(1) fresh_queue_ok
    by (intro queues_inv_new[OF assms(1) new_queue(2)])
      (simp_all add: queueUserOpSender_def Let_def set_interval_frame, simp add: fresh_queue_def ops_of_def)
next
  case (enqueue_op i q op now)
  have ok: "queue_ok q" using assms(1) enqueue_op(2) unfolding queues_inv_def by (auto dest!: spec[of _ i])
  show ?thesis
    by (rule queues_inv_update[OF assms(1) enqueue_op(2) enqueue_ok[OF ok], where new = "[op]" and gone = "[]"])
      (auto simp: enqueue_op(1) ops_of_enqueue)
next
  case (call_set_interval i q)
  have "queue_ok q" using assms(1) call_set_interval(2) unfolding queues_inv_def by (auto dest!: spec[of _ i])
  then show ?thesis
    by (intro queues_inv_update[OF assms(1) call_set_interval(2),
          where q' = "q\<lparr>cancelId := Some (next_timer st)\<rparr>" and new = "[]" and gone = "[]"])
      (simp_all add: call_set_interval(1) set_interval_frame)
next
  case (call_cancel_interval i q)
  have "queue_ok q" using assms(1) call_cancel_interval(2) unfolding queues_inv_def by (auto dest!: spec[of _ i])
  then show ?thesis
    by (intro queues_inv_update[OF assms(1) call_cancel_interval(2),
          where q' = "q\<lparr>cancelId := None\<rparr>" and new = "[]" and gone = "[]"])
      (simp_all add: call_cancel_interval cancelInterval_frame cancelInterval_queues)
next
  case (call_push i q now)
  have "queue_ok q" using assms(1) call_push(2) unfolding queues_inv_def by (auto dest!: spec[of _ i])
  then show ?thesis
    using send_cases[of q E now i st] queues_inv_after_collect[OF assms(1) call_push(2)] assms(1) call_push(1)
    by metis
next
  case (tick t i q now)
  have "queue_ok q" using assms(1) tick(3) unfolding queues_inv_def by (auto dest!: spec[of _ i])
  then show ?thesis
    using send_cases[of q E now i st] queues_inv_after_collect[OF assms(1) tick(3)] assms(1) tick(1)
    by metis
next
  case (node_answer k ans)
  have "queues st' = queues st" "enqueued st' = enqueued st" "taken st' = taken st"
    using node_answer(1) by (auto simp: resume_push_def finish_push_def Let_def split: answer.splits stage.splits)
  then show ?thesis using assms(1) by (simp add: queues_inv_def cong: option.case_cong)
qed

lemma packed_senders: "map (packUserOp E) new = map Inr ps \<Longrightarrow> map pu_sender ps = map uo_sender new"
proof (induction new arbitrary: ps)
  case (Cons op new)
  then show ?case by (cases ps) (auto simp: packUserOp_keeps)
qed simp

lemma bundles_inv_frame:
  assumes "bundles_inv E st" and "pushes st' = pushes st" and "handled st' = handled st"
    and "taken st' = taken st @ gone"
  shows "bundles_inv E st'"
  using assms by (auto simp: bundles_inv_def outgoing_def intro: subset_mset.trans)

lemma bundles_inv_after_collect:
  assumes inv: "bundles_inv E st" and c: "collected E senders q q' new"
    and packed: "\<And>ps. res = Inr ps \<Longrightarrow> map (packUserOp E) new = map Inr ps"
  shows "bundles_inv E (after_collect i q' new res st)"
proof (cases "\<exists>ps. res = Inr ps \<and> ps \<noteq> []")
  case False
  then have "pushes (after_collect i q' new res st) = pushes st"
    by (auto simp: after_collect_def Let_def split: sum.splits)
  then show ?thesis
    by (rule bundles_inv_frame[OF inv, where gone = "map (Pair i) new"])
      (auto simp: after_collect_def Let_def split: sum.splits)
next
  case True
  then obtain ps where ps: "res = Inr ps" "ps \<noteq> []" by blast
  let ?st' = "after_collect i q' new res st"
  have m: "map (packUserOp E) new = map Inr ps" using packed ps(1) .
  have "bundle_ok ps" using ps(2) packed_senders[OF m] c by (simp add: bundle_ok_def collected_def)
  moreover have "outgoing ?st' = outgoing st @ ps"
    "taken ?st' = taken st @ map (Pair i) new"
    "pushes ?st' = pushes st @ [\<lparr>push_queue = i, push_ops = ps, push_stage = AwaitSigner\<rparr>]"
    "handled ?st' = handled st"
    using ps by (simp_all add: after_collect_def outgoing_def)
  moreover have "mset (map (packUserOp E \<circ> snd) (map (Pair i) new)) = mset (map Inr ps)"
    using m by (simp add: comp_def)
  ultimately show ?thesis
    using inv unfolding bundles_inv_def by (auto intro: subset_mset.add_mono)
qed

lemma outgoing_resume:
  assumes "k < length (pushes st)"
  shows "mset (outgoing (resume_push k ans st)) \<subseteq># mset (outgoing st)"
    and "\<forall>p \<in> set (pushes (resume_push k ans st)). \<exists>p' \<in> set (pushes st). push_ops p = push_ops p'"
    and "\<forall>c \<in> set (handled (resume_push k ans st)).
      c \<in> set (handled st) \<or> (\<exists>p \<in> set (pushes st). ho_ops c = push_ops p)"
proof -
  let ?p = "pushes st ! k" and ?w = "\<lambda>ps. concat (map push_ops (filter (\<lambda>p. push_stage p = AwaitSigner) ps))"
  obtain xs ys where split: "pushes st = xs @ ?p # ys" and k: "length xs = k"
    using id_take_nth_drop[OF assms] assms by (metis length_take min.absorb4)
  have upd: "(pushes st)[k := x] = xs @ x # ys" for x
    by (subst split) (simp add: k[symmetric] list_update_append)
  have del: "take k (pushes st) @ drop (Suc k) (pushes st) = xs @ ys"
    by (subst (1 2) split) (simp add: k[symmetric])
  have in_st: "set (pushes st) = set xs \<union> {?p} \<union> set ys" by (subst split) auto
  have w: "?w (pushes st) = ?w xs @ (if push_stage ?p = AwaitSigner then push_ops ?p else []) @ ?w ys"
    by (subst split) simp
  show "mset (outgoing (resume_push k ans st)) \<subseteq># mset (outgoing st)"
    by (cases ans; cases "push_stage ?p")
      (auto simp: resume_push_def finish_push_def Let_def outgoing_def upd del w)
  show "\<forall>p \<in> set (pushes (resume_push k ans st)). \<exists>p' \<in> set (pushes st). push_ops p = push_ops p'"
    by (cases ans; cases "push_stage ?p")
      (auto simp: resume_push_def finish_push_def Let_def upd del in_st)
  show "\<forall>c \<in> set (handled (resume_push k ans st)).
      c \<in> set (handled st) \<or> (\<exists>p \<in> set (pushes st). ho_ops c = push_ops p)"
    by (cases ans; cases "push_stage ?p")
      (auto simp: resume_push_def finish_push_def Let_def in_st)
qed

lemma bundles_inv_step:
  assumes "queues_inv st" and "bundles_inv E st" and "qstep E st st'"
  shows "bundles_inv E st'"
  using assms(3)
proof cases
  case (call_push i q now)
  have "queue_ok q" using assms(1) call_push(2) unfolding queues_inv_def by (auto dest!: spec[of _ i])
  then show ?thesis
    using send_cases[of q E now i st] bundles_inv_after_collect[OF assms(2)] assms(2) call_push(1) by metis
next
  case (tick t i q now)
  have "queue_ok q" using assms(1) tick(3) unfolding queues_inv_def by (auto dest!: spec[of _ i])
  then show ?thesis
    using send_cases[of q E now i st] bundles_inv_after_collect[OF assms(2)] assms(2) tick(1) by metis
next
  case (node_answer k ans)
  note out = outgoing_resume[OF node_answer(2), of ans]
  have "taken st' = taken st"
    using node_answer(1) by (auto simp: resume_push_def finish_push_def Let_def split: answer.splits stage.splits)
  moreover have "mset (map Inr (outgoing st')) \<subseteq># mset (map Inr (outgoing st))"
    using out(1) node_answer(1) by (simp add: image_mset_subseteq_mono)
  ultimately show ?thesis
    using assms(2) out(2,3) node_answer(1) unfolding bundles_inv_def
    by (metis (no_types, lifting) subset_mset.trans)
qed (auto intro!: bundles_inv_frame[OF assms(2), where gone = "[]"]
      simp: queueUserOpSender_def Let_def set_interval_frame cancelInterval_frame)

lemma reachable_inv:
  assumes "reachable E st"
  shows "queues_inv st" "bundles_inv E st"
proof -
  have "queues_inv st \<and> bundles_inv E st"
    using assms unfolding reachable_def
  proof (induction rule: rtranclp_induct)
    case base
    then show ?case
      by (simp add: queues_inv_def bundles_inv_def init_system_def outgoing_def)
  next
    case (step st st')
    then show ?case using queues_inv_step bundles_inv_step by blast
  qed
  then show "queues_inv st" "bundles_inv E st" by simp_all
qed

end
