(* ===== verification/Op_Queue_Properties.thy ===== *)
theory Op_Queue_Properties
  imports Op_Queue
begin

text \<open>
  The properties of the bundle queue over all interleavings of its calls, timers and answers: what
  it keeps of the operations given to it, what it sends, when it sends, and what it loses.
\<close>

section \<open>A concrete run\<close>

definition demo_user_op :: "bytes \<Rightarrow> int \<Rightarrow> UserOperation" where
  "demo_user_op sender gas = DefaultsForUserOp\<lparr>uo_sender := hx sender, uo_callGasLimit := gas\<rparr>"

definition demo_packed :: "bytes \<Rightarrow> PackedUserOp" where
  "demo_packed sender = \<lparr>pu_sender = hx sender, pu_nonce = 0, pu_initCode = ''0x'', pu_callData = ''0x'',
     pu_accountGasLimits = hx (be_bytes 16 150000 @ be_bytes 16 5), pu_preVerificationGas = 21000,
     pu_gasFees = hx (be_bytes 16 1000000000 @ be_bytes 16 0), pu_paymasterAndData = ''0x'',
     pu_signature = ''0x''\<rparr>"

lemma demo_pack: "packUserOp demo_ethers (demo_user_op sender 5) = Inr (demo_packed sender)"
  using packAccountGasLimits_ok[OF demo_ethers_ok, of 150000 5]
    packAccountGasLimits_ok[OF demo_ethers_ok, of 1000000000 0]
  by (simp add: packUserOp_def demo_user_op_def DefaultsForUserOp_def demo_packed_def)

lemma demo_pack_error:
  "packUserOp demo_ethers (demo_user_op sender (2 ^ 128)) = Inl (Rejected ''value out of range'')"
  using packAccountGasLimits_range[OF demo_ethers_ok, of 150000 "2 ^ 128"]
  by (simp add: packUserOp_def demo_user_op_def DefaultsForUserOp_def)

definition demo_queue :: "UserOperation list \<Rightarrow> op_queue" where
  "demo_queue ops = fold (enqueue 1000) ops fresh_queue"

definition demo_system :: "UserOperation list \<Rightarrow> queue_system" where
  "demo_system ops = init_system\<lparr>queues := [0 \<mapsto> demo_queue ops], enqueued := map (Pair 0) ops\<rparr>"

lemma demo_system_reachable: "reachable E (demo_system ops)"
proof (induction ops rule: rev_induct)
  case Nil
  have "qstep E init_system (queueUserOpSender 0 None init_system)"
    by (rule new_queue) (simp add: init_system_def)
  moreover have "queueUserOpSender 0 None init_system = demo_system []"
    by (simp add: queueUserOpSender_def demo_system_def demo_queue_def init_system_def)
  ultimately show ?case by (simp add: reachable_def)
next
  case (snoc op ops)
  let ?st = "demo_system ops"
  have q: "queues ?st 0 = Some (demo_queue ops)" by (simp add: demo_system_def)
  have "qstep E ?st (demo_system (ops @ [op]))"
    using enqueue_op[OF q, where E = E and now = 1000 and op = op] by (simp add: demo_system_def demo_queue_def)
  with snoc show ?case by (auto simp: reachable_def)
qed

definition demo_two :: "int \<Rightarrow> UserOperation list" where
  "demo_two gas = [demo_user_op [1] 5, demo_user_op [2] gas, demo_user_op [1] 5]"

lemma demo_queue_two: "demo_queue (demo_two gas) =
    \<lparr>queue = [(hx [1], [demo_user_op [1] 5, demo_user_op [1] 5]), (hx [2], [demo_user_op [2] gas])],
     queueSize = NaN, lastQueueUpdate = Num 1000, cancelId = None\<rparr>"
  by (simp add: demo_queue_def demo_two_def enqueue_def fresh_queue_def ops_of_def obj_get_def demo_user_op_def)

text \<open>The same queue after a push at 6000 and the answer of the signer.\<close>

definition demo_in_flight :: queue_system where
  "demo_in_flight = (demo_system (demo_two 5))\<lparr>
     queues := [0 \<mapsto> \<lparr>queue = [(hx [1], [demo_user_op [1] 5]), (hx [2], [])],
       queueSize = NaN, lastQueueUpdate = Num 1000, cancelId = None\<rparr>],
     sending := True,
     taken := [(0, demo_user_op [1] 5), (0, demo_user_op [2] 5)],
     pushes := [\<lparr>push_queue = 0, push_ops = [demo_packed [1], demo_packed [2]], push_stage = AwaitSigner\<rparr>]\<rparr>"

definition demo_handled :: queue_system where
  "demo_handled = demo_in_flight\<lparr>
     handled := [\<lparr>ho_queue = 0, ho_ops = [demo_packed [1], demo_packed [2]], ho_beneficiary = ''0x51''\<rparr>],
     pushes := [\<lparr>push_queue = 0, push_ops = [demo_packed [1], demo_packed [2]], push_stage = AwaitHandleOps\<rparr>]\<rparr>"

lemmas queue_evals = demo_system_def init_system_def demo_queue_two IDLE_TIME_def BUNDLE_SIZE_IMMEDIATE_def
  obj_keys_def obj_get_def ops_of_def demo_pack

lemma demo_push:
  "sendQueuedUserOps demo_ethers 6000 0 (demo_queue (demo_two 5)) (demo_system (demo_two 5)) = demo_in_flight"
  unfolding demo_queue_two demo_in_flight_def
  by (simp add: sendQueuedUserOps_def queue_evals demo_two_def[of 5, unfolded demo_queue_two])

lemma demo_reachable: "reachable demo_ethers demo_in_flight" "reachable demo_ethers demo_handled"
proof -
  have q: "queues (demo_system (demo_two 5)) 0 = Some (demo_queue (demo_two 5))" by (simp add: demo_system_def)
  have "qstep demo_ethers (demo_system (demo_two 5)) demo_in_flight"
    using call_push[OF q, of demo_ethers 6000] by (simp add: demo_push)
  then show r: "reachable demo_ethers demo_in_flight"
    using demo_system_reachable[of demo_ethers "demo_two 5"] by (auto simp: reachable_def)
  have "qstep demo_ethers demo_in_flight (resume_push 0 (Resolved ''0x51'') demo_in_flight)"
    by (rule node_answer) (simp add: demo_in_flight_def)
  moreover have "resume_push 0 (Resolved ''0x51'') demo_in_flight = demo_handled"
    by (simp add: resume_push_def demo_in_flight_def demo_handled_def demo_system_def init_system_def)
  ultimately show "reachable demo_ethers demo_handled" using r by (auto simp: reachable_def)
qed

section \<open>Conservation\<close>

text \<open>
  C25. The queue neither loses, duplicates nor reorders operations while they are queued: in every
  state, whatever the interleaving, the operations of a sender that were given to a queue are those
  it has taken for bundles, in the same order, followed by those it still holds.
\<close>

theorem queue_conservation:
  assumes "reachable E st" and "queues st i = Some q"
  shows "hist i s (enqueued st) = hist i s (taken st) @ ops_of q s"
  using reachable_inv(1)[OF assms(1)] assms(2) by (auto simp: queues_inv_def dest!: spec[of _ i])

theorem queue_conservation_witness:
  "hist 0 (hx [1]) (map (Pair 0) (demo_two 5)) = [] @ [demo_user_op [1] 5, demo_user_op [1] 5]"
  using queue_conservation[OF demo_system_reachable, of "demo_two 5" 0 "demo_queue (demo_two 5)" "hx [1]"]
  by (simp add: demo_system_def init_system_def demo_queue_two ops_of_def obj_get_def)

lemma taken_subset_enqueued: "queues_inv st \<Longrightarrow> mset (taken st) \<subseteq># mset (enqueued st)"
proof (rule mset_subset_eqI)
  fix x :: "nat \<times> UserOperation"
  assume inv: "queues_inv st"
  obtain i op where x: "x = (i, op)" by (cases x)
  have "\<exists>rest. hist i (uo_sender op) (enqueued st) = hist i (uo_sender op) (taken st) @ rest"
    using inv by (auto simp: queues_inv_def dest!: spec[of _ i] split: option.splits)
  then show "count (mset (taken st)) x \<le> count (mset (enqueued st)) x"
    unfolding x count_hist by auto
qed

text \<open>
  No operation reaches the EntryPoint more often than it was given to a queue: the operations of
  all calls of \<open>handleOps\<close> together are a sub-multiset of the packed forms of those enqueued.
\<close>

theorem sent_at_most_once:
  assumes "reachable E st"
  shows "mset (map Inr (concat (map ho_ops (handled st)))) \<subseteq># mset (map (\<lambda>(i, op). packUserOp E op) (enqueued st))"
proof -
  note inv = reachable_inv[OF assms]
  have "mset (map Inr (concat (map ho_ops (handled st)))) \<subseteq># mset (map Inr (outgoing st))"
    by (simp add: outgoing_def)
  also have "\<dots> \<subseteq># mset (map (packUserOp E \<circ> snd) (taken st))" using inv(2) by (simp add: bundles_inv_def)
  also have "\<dots> \<subseteq># mset (map (packUserOp E \<circ> snd) (enqueued st))"
    using taken_subset_enqueued[OF inv(1)] by (simp add: image_mset_subseteq_mono)
  finally show ?thesis by (simp add: comp_def case_prod_unfold)
qed

theorem sent_at_most_once_witness:
  "mset [Inr (demo_packed [1]), Inr (demo_packed [2])]
     \<subseteq># mset [packUserOp demo_ethers (demo_user_op [1] 5), packUserOp demo_ethers (demo_user_op [2] 5),
               packUserOp demo_ethers (demo_user_op [1] 5)]"
  using sent_at_most_once[OF demo_reachable(2)]
  by (simp add: demo_handled_def demo_in_flight_def demo_system_def demo_two_def)

text \<open>
  A bundle holds at most one operation of a sender, and is not empty: so for every call of
  \<open>handleOps\<close> that is ever made.
\<close>

theorem bundle_one_op_per_sender:
  assumes "reachable E st" and "c \<in> set (handled st)"
  shows "ho_ops c \<noteq> [] \<and> distinct (map pu_sender (ho_ops c))"
  using reachable_inv(2)[OF assms(1)] assms(2) by (simp add: bundles_inv_def bundle_ok_def)

theorem bundle_one_op_per_sender_witness:
  "[demo_packed [1], demo_packed [2]] \<noteq> [] \<and> distinct (map pu_sender [demo_packed [1], demo_packed [2]])"
  using bundle_one_op_per_sender[OF demo_reachable(2), of "hd (handled demo_handled)"]
  by (simp add: demo_handled_def)

lemma push_exclusive: "reachable E st \<Longrightarrow> length (pushes st) \<le> 1 \<and> (sending st \<longleftrightarrow> pushes st \<noteq> [])"
  using push_flag.inside_iff_flag[of E st] push_flag.at_most_one[of E st] unfolding reachable_def
  by (auto split: if_splits)

text \<open>
  C26. At most one push is past its first check at any time, over all queues of the process, and
  \<open>sending\<close> is set exactly while there is one: the \<open>finally\<close> clause leaves it set on no path.
\<close>

theorem one_push_at_a_time:
  assumes "reachable E st"
  shows "length (pushes st) \<le> 1 \<and> (sending st \<longleftrightarrow> pushes st \<noteq> [])"
  by (rule push_exclusive[OF assms])

theorem one_push_at_a_time_witness:
  "length (pushes demo_in_flight) \<le> 1 \<and> (sending demo_in_flight \<longleftrightarrow> pushes demo_in_flight \<noteq> [])
   \<and> pushes demo_in_flight \<noteq> []"
  using one_push_at_a_time[OF demo_reachable(1)] by (simp add: demo_in_flight_def)

section \<open>When a bundle is sent\<close>

text \<open>The loop over the senders when every head packs: it takes the head of every non-empty list.\<close>

lemma collect_all:
  assumes "distinct senders"
    and "\<And>s op rest. s \<in> set senders \<Longrightarrow> ops_of q s = op # rest \<Longrightarrow> \<exists>p. packUserOp E op = Inr p"
  shows "\<exists>q' ps. collect E senders q ops shifted
    = (q', shifted @ concat (map (\<lambda>s. take 1 (ops_of q s)) senders), Inr ps)"
  using assms
proof (induction senders arbitrary: q ops shifted)
  case Nil
  then show ?case by simp
next
  case (Cons s senders)
  show ?case
  proof (cases "ops_of q s")
    case Nil
    have "\<exists>q' ps. collect E senders q ops shifted
        = (q', shifted @ concat (map (\<lambda>s. take 1 (ops_of q s)) senders), Inr ps)"
    proof (rule Cons.IH)
      show "distinct senders" using Cons.prems(1) by simp
      show "\<exists>p. packUserOp E o' = Inr p" if "t \<in> set senders" "ops_of q t = o' # r" for t o' r
        using Cons.prems(2)[of t o' r] that by simp
    qed
    with Nil show ?thesis by simp
  next
    case C: (Cons op rest)
    then obtain p where p: "packUserOp E op = Inr p" using Cons.prems(2) by (metis list.set_intros(1))
    let ?q2 = "q\<lparr>queue := obj_set (queue q) s rest, queueSize := js_add (queueSize q) (-1)\<rparr>"
    have o: "ops_of ?q2 t = (if t = s then rest else ops_of q t)" for t by (rule ops_of_set) simp
    have other: "t \<in> set senders \<Longrightarrow> ops_of ?q2 t = ops_of q t" for t using Cons.prems(1) by (auto simp: o)
    have "\<exists>q' ps. collect E senders ?q2 (ops @ [p]) (shifted @ [op])
        = (q', (shifted @ [op]) @ concat (map (\<lambda>s. take 1 (ops_of ?q2 s)) senders), Inr ps)"
    proof (rule Cons.IH)
      show "distinct senders" using Cons.prems(1) by simp
      show "\<exists>p. packUserOp E o' = Inr p" if "t \<in> set senders" "ops_of ?q2 t = o' # r" for t o' r
        using Cons.prems(2)[of t o' r] that other[of t] by simp
    qed
    moreover have "map (\<lambda>s. take 1 (ops_of ?q2 s)) senders = map (\<lambda>s. take 1 (ops_of q s)) senders"
      using other by simp
    ultimately have "\<exists>q' ps. collect E senders ?q2 (ops @ [p]) (shifted @ [op])
        = (q', shifted @ op # concat (map (\<lambda>s. take 1 (ops_of q s)) senders), Inr ps)"
      by (metis append.assoc append_Cons append_Nil)
    then show ?thesis using C p by (simp add: Let_def)
  qed
qed

lemma reachable_queue_ok: "reachable E st \<Longrightarrow> queues st i = Some q \<Longrightarrow> queue_ok q"
  using reachable_inv(1)[of E st] by (auto simp: queues_inv_def dest!: spec[of _ i])

text \<open>
  The bundle size threshold has no effect. \<open>queueSize\<close> is never given a number, so the comparison
  with \<open>BUNDLE_SIZE_IMMEDIATE\<close> is always false: as long as the last operation came in less than 5
  seconds ago a push does nothing, however many operations are queued; once it did not, a push
  bundles the first operation of every sender, even a single one.
\<close>

theorem push_ignores_queue_size:
  assumes "reachable E st" and "queues st i = Some q" and "\<not> sending st" and "lastQueueUpdate q = Num t"
    and "\<And>s op rest. ops_of q s = op # rest \<Longrightarrow> \<exists>p. packUserOp E op = Inr p"
    and "ops_of q s0 \<noteq> []"
  shows "if now < t + 5000 then sendQueuedUserOps E now i q st = st
    else \<exists>ps. pushes (sendQueuedUserOps E now i q st) = [\<lparr>push_queue = i, push_ops = ps, push_stage = AwaitSigner\<rparr>]
      \<and> map Inr ps = map (packUserOp E) (concat (map (\<lambda>s. take 1 (ops_of q s)) (obj_keys (queue q))))
      \<and> ps \<noteq> []"
proof (cases "now < t + 5000")
  case True
  then show ?thesis using assms(4) by (simp add: send_idle IDLE_TIME_def)
next
  case False
  let ?heads = "concat (map (\<lambda>s. take 1 (ops_of q s)) (obj_keys (queue q)))"
  have ok: "queue_ok q" using reachable_queue_ok assms(1,2) .
  then have wf: "distinct (obj_keys (queue q))" "not_a_number (queueSize q)"
    by (simp_all add: queue_ok_def obj_wf_def)
  have "\<exists>q' ps. collect E (obj_keys (queue q)) q [] [] = (q', [] @ ?heads, Inr ps)"
    by (rule collect_all[OF wf(1)]) (rule assms(5))
  then obtain q' ps where c: "collect E (obj_keys (queue q)) q [] [] = (q', ?heads, Inr ps)" by auto
  have "\<not> (sending st \<or> js_less (queueSize q) BUNDLE_SIZE_IMMEDIATE
      \<or> js_greater (js_add (lastQueueUpdate q) IDLE_TIME) now)"
    using assms(3,4) False wf(2) by (simp add: IDLE_TIME_def)
  note busy = send_busy[OF this ok c]
  have "s0 \<in> set (obj_keys (queue q))"
    using assms(6) obj_get_keys[of "queue q" s0] by (cases "obj_get (queue q) s0") (auto simp: ops_of_def)
  then have "take 1 (ops_of q s0) \<in> set (map (\<lambda>s. take 1 (ops_of q s)) (obj_keys (queue q)))" by simp
  moreover have "take 1 (ops_of q s0) \<noteq> []" using assms(6) by simp
  ultimately have "?heads \<noteq> []" by (metis concat_eq_Nil_conv)
  with busy(3)[OF refl] have "ps \<noteq> []" by (metis Nil_is_map_conv)
  moreover have "pushes st = []" using push_exclusive[OF assms(1)] assms(3) by simp
  ultimately have "pushes (sendQueuedUserOps E now i q st)
      = [\<lparr>push_queue = i, push_ops = ps, push_stage = AwaitSigner\<rparr>]"
    unfolding busy(1) by (simp add: after_collect_def)
  then show ?thesis using False busy(3)[OF refl] \<open>ps \<noteq> []\<close> by (auto intro!: exI[of _ ps])
qed

lemma demo_heads_pack:
  "ops_of (demo_queue (demo_two 5)) s = op # rest \<Longrightarrow> \<exists>p. packUserOp demo_ethers op = Inr p"
  by (auto simp: demo_queue_two ops_of_def obj_get_def demo_pack split: if_splits)

theorem push_ignores_queue_size_witness:
  "sendQueuedUserOps demo_ethers 5999 0 (demo_queue (demo_two 5)) (demo_system (demo_two 5)) = demo_system (demo_two 5)
   \<and> (\<exists>ps. pushes (sendQueuedUserOps demo_ethers 6000 0 (demo_queue (demo_two 5)) (demo_system (demo_two 5)))
       = [\<lparr>push_queue = 0, push_ops = ps, push_stage = AwaitSigner\<rparr>] \<and> ps \<noteq> [])"
proof -
  have pre: "queues (demo_system (demo_two 5)) 0 = Some (demo_queue (demo_two 5))"
    "\<not> sending (demo_system (demo_two 5))" "lastQueueUpdate (demo_queue (demo_two 5)) = Num 1000"
    "ops_of (demo_queue (demo_two 5)) (hx [1]) \<noteq> []"
    by (simp_all add: demo_system_def init_system_def demo_queue_two ops_of_def obj_get_def)
  let ?push = "\<lambda>now. sendQueuedUserOps demo_ethers now 0 (demo_queue (demo_two 5)) (demo_system (demo_two 5))"
  have "if now < 1000 + 5000 then ?push now = demo_system (demo_two 5)
    else \<exists>ps. pushes (?push now) = [\<lparr>push_queue = 0, push_ops = ps, push_stage = AwaitSigner\<rparr>]
      \<and> map Inr ps = map (packUserOp demo_ethers)
          (concat (map (\<lambda>s. take 1 (ops_of (demo_queue (demo_two 5)) s)) (obj_keys (queue (demo_queue (demo_two 5))))))
      \<and> ps \<noteq> []" for now
    by (rule push_ignores_queue_size[OF demo_system_reachable pre(1-3) _ pre(4)]) (rule demo_heads_pack)
  from this[of 5999] this[of 6000] show ?thesis by auto
qed

section \<open>What is lost\<close>

text \<open>
  The operations that leave towards the EntryPoint in one step are packed from those taken in it.
\<close>

lemma outgoing_step:
  assumes "queues_inv st" and "qstep E st st'"
  shows "\<exists>gone. taken st' = taken st @ gone
    \<and> mset (map Inr (outgoing st')) \<subseteq># mset (map Inr (outgoing st)) + mset (map (packUserOp E \<circ> snd) gone)"
proof -
  have push: "\<exists>gone. taken st' = taken st @ gone
    \<and> mset (map Inr (outgoing st')) \<subseteq># mset (map Inr (outgoing st)) + mset (map (packUserOp E \<circ> snd) gone)"
    if "st' = sendQueuedUserOps E now i q st" "queues st i = Some q" for now i q
  proof -
    have "queue_ok q" using assms(1) that(2) unfolding queues_inv_def by (auto dest!: spec[of _ i])
    then show ?thesis
    proof (cases rule: send_cases[of q E now i st])
      case 1
      then show ?thesis using that(1) by simp
    next
      case (2 q' new res)
      have "image_mset (packUserOp E) (mset new) = image_mset Inr (mset ps)" if "res = Inr ps" for ps
        using arg_cong[OF 2(3)[OF that], of mset] by simp
      then show ?thesis
        using 2(1) that(1)
        by (intro exI[of _ "map (Pair i) new"])
          (auto simp: after_collect_def outgoing_def Let_def comp_def split: sum.splits)
    qed
  qed
  from assms(2) show ?thesis
  proof cases
    case (call_push i q now)
    then show ?thesis using push by blast
  next
    case (tick t i q now)
    then show ?thesis using push by blast
  next
    case (node_answer k ans)
    have "taken st' = taken st"
      using node_answer(1) by (auto simp: resume_push_def finish_push_def Let_def split: answer.splits stage.splits)
    moreover have "mset (map Inr (outgoing st')) \<subseteq># mset (map Inr (outgoing st))"
      using outgoing_resume(1)[OF node_answer(2), of ans] node_answer(1) by (simp add: image_mset_subseteq_mono)
    ultimately show ?thesis by simp
  qed (auto simp: queueUserOpSender_def Let_def set_interval_frame cancelInterval_frame outgoing_def)
qed

lemma outgoing_steps:
  assumes "(qstep E)\<^sup>*\<^sup>* st st'" and "queues_inv st"
  shows "queues_inv st' \<and> (\<exists>gone. taken st' = taken st @ gone
    \<and> mset (map Inr (outgoing st')) \<subseteq># mset (map Inr (outgoing st)) + mset (map (packUserOp E \<circ> snd) gone))"
  using assms
proof (induction rule: rtranclp_induct)
  case base
  then show ?case by simp
next
  case (step u v)
  then obtain g where g: "queues_inv u" "taken u = taken st @ g"
    "mset (map Inr (outgoing u)) \<subseteq># mset (map Inr (outgoing st)) + mset (map (packUserOp E \<circ> snd) g)" by blast
  from outgoing_step[OF g(1) step.hyps(2)] obtain h where h: "taken v = taken u @ h"
    "mset (map Inr (outgoing v)) \<subseteq># mset (map Inr (outgoing u)) + mset (map (packUserOp E \<circ> snd) h)" by blast
  have "mset (map Inr (outgoing v)) \<subseteq># (mset (map Inr (outgoing st)) + mset (map (packUserOp E \<circ> snd) g))
      + mset (map (packUserOp E \<circ> snd) h)"
    using h(2) subset_mset.add_right_mono[OF g(3)] by (rule subset_mset.trans)
  with g(2) h(1) queues_inv_step[OF g(1) step.hyps(2)] show ?case
    by (intro conjI exI[of _ "g @ h"]) (simp_all add: add.assoc comp_def)
qed

text \<open>
  A bundle that fails is lost. When the signer's address, \<open>handleOps\<close> or its receipt fails, the
  push ends, its operations are not put back, and they are never sent again: in every later state
  the calls of \<open>handleOps\<close> since then hold only operations taken from a queue since then.
\<close>

theorem failed_bundle_is_lost:
  assumes "reachable E st" and "pushes st = [p]"
    and "(qstep E)\<^sup>*\<^sup>* (resume_push 0 (Failed e) st) later"
  shows "\<not> sending (resume_push 0 (Failed e) st) \<and> queues (resume_push 0 (Failed e) st) = queues st
    \<and> (\<exists>gone. taken later = taken st @ gone
       \<and> mset (map Inr (concat (map ho_ops (handled later))))
         \<subseteq># mset (map Inr (concat (map ho_ops (handled st)))) + mset (map (\<lambda>(i, op). packUserOp E op) gone))"
proof -
  let ?st' = "resume_push 0 (Failed e) st"
  have st': "pushes ?st' = []" "handled ?st' = handled st" "taken ?st' = taken st"
    "queues ?st' = queues st" "\<not> sending ?st'" "enqueued ?st' = enqueued st"
    using assms(2) by (simp_all add: resume_push_def finish_push_def)
  have "queues_inv ?st'"
    using reachable_inv(1)[OF assms(1)] st' by (simp add: queues_inv_def cong: option.case_cong)
  from outgoing_steps[OF assms(3) this] obtain gone where gone: "taken later = taken st @ gone"
    "mset (map Inr (outgoing later)) \<subseteq># mset (map Inr (outgoing ?st')) + mset (map (packUserOp E \<circ> snd) gone)"
    using st'(3) by auto
  have "mset (map Inr (concat (map ho_ops (handled later)))) \<subseteq># mset (map Inr (outgoing later))"
    by (simp add: outgoing_def)
  also note gone(2)
  also have "outgoing ?st' = concat (map ho_ops (handled st))" using st' by (simp add: outgoing_def)
  finally show ?thesis using gone(1) st'(4,5) by (auto simp: comp_def case_prod_unfold)
qed

theorem failed_bundle_is_lost_witness:
  "\<not> sending (resume_push 0 (Failed TypeError) demo_in_flight)
   \<and> (\<exists>gone. [(0, demo_user_op [1] 5), (0, demo_user_op [2] 5)] = [(0, demo_user_op [1] 5), (0, demo_user_op [2] 5)] @ gone
      \<and> {#} \<subseteq># {#} + mset (map (\<lambda>(i, op). packUserOp demo_ethers op) gone))"
  using failed_bundle_is_lost[OF demo_reachable(1), of _ TypeError "resume_push 0 (Failed TypeError) demo_in_flight"]
  by (simp add: demo_in_flight_def resume_push_def finish_push_def demo_system_def init_system_def)

text \<open>
  One operation that cannot be packed takes others with it. When the head of the first sender
  packs and that of the second does not, a push shifts both, sends nothing and clears the flag: the
  good operation is gone from the queue without having been sent.
\<close>

theorem pack_error_drops_good_op:
  assumes "reachable E st" and "queues st i = Some q" and "\<not> sending st"
    and "lastQueueUpdate q = Num t" and "t + 5000 \<le> now"
    and "obj_keys (queue q) = s1 # s2 # rest"
    and "ops_of q s1 = good # r1" and "packUserOp E good = Inr p"
    and "ops_of q s2 = bad # r2" and "packUserOp E bad = Inl e"
  shows "\<exists>q'. queues (sendQueuedUserOps E now i q st) i = Some q' \<and> ops_of q' s1 = r1 \<and> ops_of q' s2 = r2
    \<and> pushes (sendQueuedUserOps E now i q st) = [] \<and> \<not> sending (sendQueuedUserOps E now i q st)
    \<and> handled (sendQueuedUserOps E now i q st) = handled st"
proof -
  have ok: "queue_ok q" using reachable_queue_ok assms(1,2) .
  then have ne: "s1 \<noteq> s2" and nan: "not_a_number (queueSize q)"
    using assms(6) by (simp_all add: queue_ok_def obj_wf_def)
  let ?q1 = "q\<lparr>queue := obj_set (queue q) s1 r1, queueSize := js_add (queueSize q) (-1)\<rparr>"
  let ?q2 = "?q1\<lparr>queue := obj_set (queue ?q1) s2 r2\<rparr>"
  have o1: "ops_of ?q1 x = (if x = s1 then r1 else ops_of q x)" for x by (rule ops_of_set) simp
  have o2: "ops_of ?q2 x = (if x = s2 then r2 else ops_of ?q1 x)" for x by (rule ops_of_set) simp
  have "ops_of ?q1 s2 = bad # r2" using o1[of s2] ne assms(9) by simp
  then have c: "collect E (obj_keys (queue q)) q [] [] = (?q2, [good, bad], Inl e)"
    using assms(6-8,10) by (simp add: Let_def)
  have "\<not> (sending st \<or> js_less (queueSize q) BUNDLE_SIZE_IMMEDIATE
      \<or> js_greater (js_add (lastQueueUpdate q) IDLE_TIME) now)"
    using assms(3-5) nan by (simp add: IDLE_TIME_def)
  note busy = send_busy(1)[OF this ok c]
  have "pushes st = []" using push_exclusive[OF assms(1)] assms(3) by simp
  then show ?thesis
    unfolding busy using o1[of s1] o2[of s1] o2[of s2] ne assms(3)
    by (intro exI[of _ ?q2]) (simp add: after_collect_def)
qed

theorem pack_error_drops_good_op_witness:
  "\<exists>q'. queues (sendQueuedUserOps demo_ethers 6000 0 (demo_queue (demo_two (2 ^ 128))) (demo_system (demo_two (2 ^ 128)))) 0
      = Some q' \<and> ops_of q' (hx [1]) = [demo_user_op [1] 5] \<and> ops_of q' (hx [2]) = []"
proof -
  let ?st = "demo_system (demo_two (2 ^ 128))" and ?q = "demo_queue (demo_two (2 ^ 128))"
  have "queues ?st 0 = Some ?q" "\<not> sending ?st" "lastQueueUpdate ?q = Num 1000"
    "obj_keys (queue ?q) = [hx [1], hx [2]]"
    "ops_of ?q (hx [1]) = [demo_user_op [1] 5, demo_user_op [1] 5]"
    "ops_of ?q (hx [2]) = [demo_user_op [2] (2 ^ 128)]"
    by (simp_all add: demo_system_def init_system_def demo_queue_two ops_of_def obj_get_def obj_keys_def)
  from pack_error_drops_good_op[OF demo_system_reachable this(1-3) _ this(4,5) demo_pack this(6) demo_pack_error, of 6000]
  show ?thesis by auto
qed

section \<open>Intervals\<close>

definition timers_inv :: "queue_system \<Rightarrow> bool" where
  "timers_inv st \<longleftrightarrow> distinct (map fst (timers st))
     \<and> (\<forall>(t, i) \<in> set (timers st). t < next_timer st \<and> (\<exists>q. queues st i = Some q \<and> cancelId q = Some t))"

lemma timers_inv_queue:
  assumes "timers_inv st" and "queues st i = Some q" and "cancelId q' = cancelId q"
    and "queues st' = (queues st)(i \<mapsto> q')" and "timers st' = timers st" and "next_timer st' = next_timer st"
  shows "timers_inv st'"
  using assms by (fastforce simp: timers_inv_def)

lemma timers_inv_cancel:
  assumes "timers_inv st" and "queues st i = Some q"
  shows "timers_inv (cancelInterval i q st)" and "(t, i) \<notin> set (timers (cancelInterval i q st))"
proof -
  have "timers_inv (cancelInterval i q st) \<and> (t, i) \<notin> set (timers (cancelInterval i q st))"
  proof (cases "cancelId q")
    case None
    with assms show ?thesis by (auto simp: cancelInterval_def timers_inv_def)
  next
    case (Some u)
    have only: "(t', i) \<in> set (timers st) \<Longrightarrow> t' = u" for t'
      using assms Some by (auto simp: timers_inv_def)
    have "distinct (map fst (filter (\<lambda>(t', _). t' \<noteq> u) (timers st)))"
      using assms(1) by (simp add: timers_inv_def distinct_map_filter)
    with assms Some only show ?thesis by (fastforce simp: cancelInterval_def timers_inv_def)
  qed
  then show "timers_inv (cancelInterval i q st)" "(t, i) \<notin> set (timers (cancelInterval i q st))" by simp_all
qed

lemma timers_inv_set:
  assumes "timers_inv st" and "\<And>t. (t, i) \<notin> set (timers (cancelInterval i q st))"
    and "timers_inv (cancelInterval i q st)"
  shows "timers_inv (set_interval i q st)"
proof -
  let ?st = "cancelInterval i q st"
  have "next_timer ?st \<notin> fst ` set (timers ?st)" using assms(3) by (auto simp: timers_inv_def)
  then show ?thesis
    using assms(2,3) unfolding timers_inv_def set_interval_def Let_def by (fastforce intro: less_SucI)
qed

lemma timers_inv_new:
  assumes "timers_inv st" and "queues st i = None"
  shows "timers_inv (queueUserOpSender i intervalMs st)"
proof -
  let ?st1 = "st\<lparr>queues := (queues st)(i \<mapsto> fresh_queue)\<rparr>"
  have inv: "timers_inv ?st1" and none: "(t, i) \<notin> set (timers ?st1)" for t
    using assms by (fastforce simp: timers_inv_def)+
  moreover have "cancelInterval i fresh_queue ?st1 = ?st1" by (simp add: cancelInterval_def fresh_queue_def)
  ultimately have "timers_inv (set_interval i fresh_queue ?st1)" by (intro timers_inv_set) simp_all
  with inv show ?thesis by (simp add: queueUserOpSender_def Let_def)
qed

lemma timers_inv_send:
  assumes "timers_inv st" and "queues st i = Some q" and "queue_ok q"
  shows "timers_inv (sendQueuedUserOps E now i q st)"
proof (cases rule: send_cases[OF assms(3), of E now i st])
  case 1
  then show ?thesis using assms(1) by simp
next
  case (2 q' new res)
  have "cancelId q' = cancelId q" using 2(2) by (simp add: collected_def)
  then show ?thesis
    unfolding 2(1) by (rule timers_inv_queue[OF assms(1,2)]) (auto simp: after_collect_def Let_def split: sum.splits)
qed

lemma timers_inv_step:
  assumes "timers_inv st" and "queues_inv st" and "qstep E st st'"
  shows "timers_inv st'"
proof -
  have ok: "queues st i = Some q \<Longrightarrow> queue_ok q" for i q
    using assms(2) by (auto simp: queues_inv_def dest!: spec[of _ i])
  from assms(3) show ?thesis
  proof cases
    case (enqueue_op i q op now)
    show ?thesis
      by (rule timers_inv_queue[OF assms(1) enqueue_op(2), of "enqueue now op q"])
        (simp_all add: enqueue_op(1) enqueue_def)
  next
    case (call_set_interval i q)
    then show ?thesis using timers_inv_cancel[OF assms(1)] by (auto intro: timers_inv_set[OF assms(1)])
  next
    case (node_answer k ans)
    have "queues st' = queues st" "timers st' = timers st" "next_timer st' = next_timer st"
      using node_answer(1) by (auto simp: resume_push_def finish_push_def Let_def split: answer.splits stage.splits)
    then show ?thesis using assms(1) by (simp add: timers_inv_def)
  qed (auto intro: timers_inv_new[OF assms(1)] timers_inv_send[OF assms(1)] timers_inv_cancel[OF assms(1)] ok)
qed

lemma reachable_timers: "reachable E st \<Longrightarrow> timers_inv st"
  unfolding reachable_def
proof (induction rule: rtranclp_induct)
  case base
  then show ?case by (simp add: timers_inv_def init_system_def)
next
  case (step st st')
  then have "reachable E st" by (simp add: reachable_def)
  with step show ?case using timers_inv_step reachable_inv(1) by blast
qed

text \<open>
  A queue has at most one interval running: \<open>setInterval\<close> replaces the previous one, and after
  \<open>cancelInterval\<close> no timer of the queue is left, whatever calls were made before.
\<close>

theorem one_interval_per_queue:
  assumes "reachable E st" and "queues st i = Some q"
  shows "length (filter (\<lambda>(t, j). j = i) (timers st)) \<le> 1
    \<and> length (filter (\<lambda>(t, j). j = i) (timers (set_interval i q st))) = 1
    \<and> filter (\<lambda>(t, j). j = i) (timers (cancelInterval i q st)) = []"
proof -
  note inv = reachable_timers[OF assms(1)]
  have one: "length (filter (\<lambda>(t, j). j = i) (timers s)) \<le> 1" if "timers_inv s" for s
  proof -
    let ?l = "filter (\<lambda>(t, j). j = i) (timers s)"
    have "t = u" if "(t, i) \<in> set (timers s)" "(u, i) \<in> set (timers s)" for t u
    proof -
      have own: "\<exists>q. queues s i = Some q \<and> cancelId q = Some x" if "(x, i) \<in> set (timers s)" for x
        using \<open>timers_inv s\<close> that unfolding timers_inv_def by blast
      from own[OF that(1)] own[OF that(2)] show ?thesis by auto
    qed
    moreover have "\<exists>t. x = (t, i) \<and> (t, i) \<in> set (timers s)" if "x \<in> set ?l" for x using that by auto
    ultimately have "x = y" if "x \<in> set ?l" "y \<in> set ?l" for x y using that by metis
    then have sub: "set ?l \<subseteq> {hd ?l}" by (metis empty_iff hd_in_set insertI1 list.set(1) subsetI)
    have "distinct (timers s)" using that unfolding timers_inv_def by (simp add: distinct_map)
    then have "length ?l = card (set ?l)" by (intro distinct_card[symmetric] distinct_filter)
    also have "\<dots> \<le> card {hd ?l}" using sub by (intro card_mono) simp
    finally show ?thesis by simp
  qed
  have c: "filter (\<lambda>(t, j). j = i) (timers (cancelInterval i q st)) = []"
    using timers_inv_cancel(2)[OF inv assms(2)] by (auto simp: filter_empty_conv)
  then have "length (filter (\<lambda>(t, j). j = i) (timers (set_interval i q st))) = 1"
    by (simp add: set_interval_def Let_def)
  with one[OF inv] c show ?thesis by blast
qed

theorem one_interval_per_queue_witness:
  "length (filter (\<lambda>(t, j). j = 0) (timers (set_interval 0 (demo_queue []) (demo_system [])))) = 1"
  using one_interval_per_queue[OF demo_system_reachable[of demo_ethers "[]"], of 0 "demo_queue []"]
  by (simp add: demo_system_def)

end
