(* ===== verification/Create2.thy ===== *)
theory Create2
  imports Ethers_Lib
begin

text \<open>
  \<open>Create2Factory\<close> of \<open>src/Create2Factory.ts\<close>: the client of the deterministic deployment proxy. The
  node and its signers are a parameter: reads are functions of the chain state, transactions change
  it and may fail. The instance's only state, \<open>factoryDeployed\<close>, is kept beside the chain.
\<close>

section \<open>The node\<close>

record transaction =
  tx_to :: string
  tx_value :: int
  tx_data :: string
  tx_gasLimit :: "int option"

record 'n node =
  getCode :: "string \<Rightarrow> 'n \<Rightarrow> js_error + string"
  estimateGas :: "transaction \<Rightarrow> 'n \<Rightarrow> js_error + int"
  signerSend :: "string \<Rightarrow> transaction \<Rightarrow> ('n, unit) io"
  sendRaw :: "string \<Rightarrow> ('n, unit) io"

record 'n create2 =
  factoryDeployed :: bool
  chain_state :: 'n

definition on_chain :: "('n, 'a) io \<Rightarrow> ('n create2, 'a) io" where
  "on_chain m = (\<lambda>s. case m (chain_state s) of (r, n) \<Rightarrow> (r, s\<lparr>chain_state := n\<rparr>))"

definition code_at :: "'n node \<Rightarrow> string \<Rightarrow> ('n create2, string) io" where
  "code_at N addr = readIO (\<lambda>s. getCode N addr (chain_state s))"

lemma code_at_run [simp]: "code_at N addr s = (getCode N addr (chain_state s), s)"
  by (simp add: code_at_def)

section \<open>Constants\<close>

definition contractAddress :: string where
  "contractAddress = ''0x4e59b44847b379578588920ca78fbf26c0b4956c''"

definition factoryTx :: string where
  "factoryTx = ''0xf8a58085174876e800830186a08080b853604580600e600039806000f350fe7fffffffffffffffffffffffffffffffffffffffffffffffffffffffffffffffe03601600081602082378035828234f58015156039578182fd5b8082525050506014600cf31ba02222222222222222222222222222222222222222222222222222222222222222a02222222222222222222222222222222222222222222222222222222222222222''"

definition factoryDeployer :: string where
  "factoryDeployer = ''0x3fab184622dc19b6109349b94811493bf2a45362''"

definition deploymentGasPrice :: int where "deploymentGasPrice = 100000000000"

definition deploymentGasLimit :: int where "deploymentGasLimit = 100000"

definition factoryDeploymentFee :: int where
  "factoryDeploymentFee = deploymentGasPrice * deploymentGasLimit"

section \<open>Addresses and call data\<close>

text \<open>A salt is a number or a data string; \<open>hexlify\<close> takes both.\<close>

datatype salt = SaltNum int | SaltHex string

fun salt_hex :: "ethers \<Rightarrow> salt \<Rightarrow> js_error + string" where
  "salt_hex E (SaltNum v) = hexlify E v"
| "salt_hex E (SaltHex s) = hexlifyData E s"

definition saltBytes32 :: "ethers \<Rightarrow> salt \<Rightarrow> js_error + string" where
  "saltBytes32 E s = bindE (salt_hex E s) (\<lambda>h. hexZeroPad E h 32)"

definition getDeployTransactionCallData :: "ethers \<Rightarrow> string \<Rightarrow> salt \<Rightarrow> js_error + string" where
  "getDeployTransactionCallData E initCode s = bindE (saltBytes32 E s) (\<lambda>b. hexConcat E [b, initCode])"

definition last_40 :: "string \<Rightarrow> string" where
  "last_40 h = drop (length h - 40) h"

definition getDeployedAddress :: "ethers \<Rightarrow> string \<Rightarrow> salt \<Rightarrow> js_error + string" where
  "getDeployedAddress E initCode s =
     bindE (saltBytes32 E s) (\<lambda>b.
     bindE (keccak256 E initCode) (\<lambda>codeHash.
     bindE (hexConcat E [''0xff'', contractAddress, b, codeHash]) (\<lambda>preimage.
     bindE (keccak256 E preimage) (\<lambda>h. Inr (''0x'' @ last_40 h)))))"

section \<open>Deployment\<close>

definition isFactoryDeployed :: "'n node \<Rightarrow> ('n create2, bool) io" where
  "isFactoryDeployed N = (\<lambda>s.
     if factoryDeployed s then (Inr True, s)
     else case getCode N contractAddress (chain_state s) of
        Inl e \<Rightarrow> (Inl e, s)
      | Inr deployed \<Rightarrow>
          if 2 < length deployed then (Inr True, s\<lparr>factoryDeployed := True\<rparr>) else (Inr False, s))"

text \<open>\<open>signer\<close> is the argument or else the signer of the instance.\<close>

definition deployFactory :: "'n node \<Rightarrow> string \<Rightarrow> ('n create2, unit) io" where
  "deployFactory N signer =
     bindIO (isFactoryDeployed N) (\<lambda>deployed.
     if deployed then returnIO ()
     else
       bindIO (on_chain (signerSend N signer
         \<lparr>tx_to = factoryDeployer, tx_value = factoryDeploymentFee, tx_data = ''0x'', tx_gasLimit = None\<rparr>)) (\<lambda>_.
       bindIO (on_chain (sendRaw N factoryTx)) (\<lambda>_.
       bindIO (isFactoryDeployed N) (\<lambda>deployed'.
       if deployed' then returnIO ()
       else throwIO (Thrown ''fatal: failed to deploy deterministic deployer'')))))"

datatype init_code = InitHex string | InitTx "string option"

datatype gas_limit = GasDefault | GasEstimate | GasGiven int

text \<open>
  The manual estimation. Its terms are whole numbers far below \<open>2 ^ 53\<close>, so that the JavaScript
  arithmetic is exact and the floor of the quotient by 63 is integer division.
\<close>

definition calldata_gas :: "bytes \<Rightarrow> js_error + int" where
  "calldata_gas bs = (if bs = [] then Inl TypeError else Inr (sum_list (map (\<lambda>x. if x = 0 then 4 else 16) bs)))"

definition manual_estimate :: "ethers \<Rightarrow> string \<Rightarrow> js_error + int" where
  "manual_estimate E initCode =
     bindE (arrayify E initCode) (\<lambda>bs.
     bindE (calldata_gas bs) (\<lambda>g.
     Inr (g + 200 * int (length initCode) div 2 + 6 * int ((length initCode + 63) div 64) + 32000 + 21000)))"

definition with_deployer_gas :: "int \<Rightarrow> int" where
  "with_deployer_gas gasLimit = gasLimit * 64 div 63"

definition deploy_gas :: "ethers \<Rightarrow> 'n node \<Rightarrow> string \<Rightarrow> transaction \<Rightarrow> gas_limit \<Rightarrow> ('n create2, int) io" where
  "deploy_gas E N initCode deployTx g =
     (case g of
        GasGiven n \<Rightarrow> returnIO n
      | GasEstimate \<Rightarrow> readIO (\<lambda>s. estimateGas N deployTx (chain_state s))
      | GasDefault \<Rightarrow> liftIO (bindE (manual_estimate E initCode) (\<lambda>n. Inr (with_deployer_gas n))))"

definition init_code_hex :: "init_code \<Rightarrow> js_error + string" where
  "init_code_hex c = (case c of InitHex s \<Rightarrow> Inr s | InitTx None \<Rightarrow> Inl TypeError | InitTx (Some s) \<Rightarrow> Inr s)"

text \<open>The transaction to the deployer, and the check that there is code afterwards.\<close>

definition send_deployment ::
  "ethers \<Rightarrow> 'n node \<Rightarrow> string \<Rightarrow> string \<Rightarrow> salt \<Rightarrow> gas_limit \<Rightarrow> string \<Rightarrow> ('n create2, string) io" where
  "send_deployment E N signer initCode s g addr =
     bindIO (liftIO (getDeployTransactionCallData E initCode s)) (\<lambda>callData.
     let deployTx = \<lparr>tx_to = contractAddress, tx_value = 0, tx_data = callData, tx_gasLimit = None\<rparr> in
     bindIO (deploy_gas E N initCode deployTx g) (\<lambda>gasLimit.
     bindIO (on_chain (signerSend N signer (deployTx\<lparr>tx_gasLimit := Some gasLimit\<rparr>))) (\<lambda>_.
     bindIO (code_at N addr) (\<lambda>c.
     if length c = 2 then throwIO (Thrown ''failed to deploy'') else returnIO addr))))"

definition deploy ::
  "ethers \<Rightarrow> 'n node \<Rightarrow> string \<Rightarrow> init_code \<Rightarrow> salt \<Rightarrow> gas_limit \<Rightarrow> ('n create2, string) io" where
  "deploy E N signer code s g =
     bindIO (deployFactory N signer) (\<lambda>_.
     bindIO (liftIO (init_code_hex code)) (\<lambda>initCode.
     bindIO (liftIO (getDeployedAddress E initCode s)) (\<lambda>addr.
     bindIO (code_at N addr) (\<lambda>c.
     if 2 < length c then returnIO addr else send_deployment E N signer initCode s g addr))))"

end
