(* ===== verification/Create2_Properties.thy ===== *)
theory Create2_Properties
  imports Create2
begin

text \<open>
  The properties of \<open>Create2Factory\<close>: the addresses it computes, the gas it sends, and what a
  successful deployment leaves on the chain.
\<close>

section \<open>Salts and addresses\<close>

definition contract_bytes :: bytes where
  "contract_bytes = [0x4e, 0x59, 0xb4, 0x48, 0x47, 0xb3, 0x79, 0x57, 0x85, 0x88,
                     0x92, 0x0c, 0xa7, 0x8f, 0xbf, 0x26, 0xc0, 0xb4, 0x95, 0x6c]"

lemma contractAddress_hx: "contractAddress = hx contract_bytes"
  by (simp add: contractAddress_def contract_bytes_def hx_def hex_byte_def hexdigit_def)

lemma ff_hx: "''0xff'' = hx [0xff]"
  by (simp add: hx_def hex_byte_def hexdigit_def)

lemma saltBytes32_num:
  "ethers_ok E \<Longrightarrow> 0 \<le> v \<Longrightarrow> v < 2 ^ 256 \<Longrightarrow> saltBytes32 E (SaltNum v) = Inr (hx (be_bytes 32 (nat v)))"
  by (simp add: saltBytes32_def ethers_pad_number nat_less_iff)

lemma saltBytes32_hex:
  "ethers_ok E \<Longrightarrow> length bs \<le> 32 \<Longrightarrow> saltBytes32 E (SaltHex (hx bs)) = Inr (hx (pad_left 32 bs))"
  by (simp add: saltBytes32_def ethers_laws)

text \<open>The salts that fit 32 bytes, and the 32 bytes they stand for.\<close>

fun salt_bytes :: "salt \<Rightarrow> bytes option" where
  "salt_bytes (SaltNum v) = (if 0 \<le> v \<and> v < 2 ^ 256 then Some (be_bytes 32 (nat v)) else None)"
| "salt_bytes (SaltHex s) = (case unhx s of
     None \<Rightarrow> None | Some bs \<Rightarrow> if s = hx bs \<and> length bs \<le> 32 then Some (pad_left 32 bs) else None)"

lemma saltBytes32_ok:
  "ethers_ok E \<Longrightarrow> salt_bytes s = Some b \<Longrightarrow> saltBytes32 E s = Inr (hx b) \<and> length b = 32"
  by (cases s) (auto simp: saltBytes32_num saltBytes32_hex split: if_splits option.splits)

text \<open>
  The address that the EVM gives to a contract created by the deployer: the last 20 bytes of the
  hash of \<open>0xff\<close>, the deployer, the salt and the hash of the init code.
\<close>

definition create2_address :: "(bytes \<Rightarrow> bytes) \<Rightarrow> bytes \<Rightarrow> bytes \<Rightarrow> bytes" where
  "create2_address keccak salt initCode = drop 12 (keccak ([0xff] @ contract_bytes @ salt @ keccak initCode))"

definition ethers_keccak :: "ethers \<Rightarrow> bytes \<Rightarrow> bytes" where
  "ethers_keccak E bs = (case keccak256 E (hx bs) of Inl _ \<Rightarrow> [] | Inr h \<Rightarrow> the (unhx h))"

lemma ethers_keccak_hx:
  assumes "ethers_ok E"
  shows "keccak256 E (hx bs) = Inr (hx (ethers_keccak E bs))" and "length (ethers_keccak E bs) = 32"
proof -
  obtain h where "length h = 32" "keccak256 E (hx bs) = Inr (hx h)" using ethers_keccak256[OF assms] .
  then show "keccak256 E (hx bs) = Inr (hx (ethers_keccak E bs))" "length (ethers_keccak E bs) = 32"
    by (simp_all add: ethers_keccak_def)
qed

lemma last_40_hx: "length h = 32 \<Longrightarrow> CHR ''0'' # CHR ''x'' # last_40 (hx h) = hx (drop 12 h)"
proof -
  assume "length h = 32"
  then have "last_40 (hx h) = concat (map hex_byte (drop 12 h))" using drop_hx[of 12 h] by (simp add: last_40_def)
  then show ?thesis by (simp add: hx_def)
qed

lemma getDeployedAddress_ok:
  assumes "ethers_ok E" and "salt_bytes s = Some b"
  shows "getDeployedAddress E (hx code) s = Inr (hx (create2_address (ethers_keccak E) b code))"
  using saltBytes32_ok[OF assms] assms(1)
  unfolding getDeployedAddress_def contractAddress_hx ff_hx
  by (simp add: ethers_keccak_hx ethers_hexConcat4 last_40_hx create2_address_def)

lemma getDeployTransactionCallData_ok:
  assumes "ethers_ok E" and "salt_bytes s = Some b"
  shows "getDeployTransactionCallData E (hx code) s = Inr (hx (b @ code))"
  using saltBytes32_ok[OF assms] assms(1)
  by (simp add: getDeployTransactionCallData_def ethers_hexConcat2)

text \<open>
  C27. The address that \<open>getDeployedAddress\<close> predicts is the one the EVM computes from the call data
  that \<open>deploy\<close> sends: the deployer takes the first 32 bytes as salt and the rest as init code, and
  the CREATE2 address of those is the predicted one. Reading salt and code back from the call data
  as data strings, as \<open>fillUserOp\<close> does, predicts the same address.
\<close>

theorem deployed_address_is_create2:
  assumes "ethers_ok E" and "salt_bytes s = Some b"
  shows "\<exists>d. getDeployTransactionCallData E (hx code) s = Inr (hx d) \<and> take 32 d = b \<and> drop 32 d = code
    \<and> getDeployedAddress E (hx code) s = Inr (hx (create2_address (ethers_keccak E) (take 32 d) (drop 32 d)))
    \<and> bindE (hexDataSlice E (hx d) 32 None) (\<lambda>ctr. bindE (hexDataSlice E (hx d) 0 (Some 32)) (\<lambda>salt.
        getDeployedAddress E ctr (SaltHex salt))) = getDeployedAddress E (hx code) s"
proof -
  have b: "length b = 32" using saltBytes32_ok[OF assms] by simp
  then have "salt_bytes (SaltHex (hx b)) = Some b" by (simp add: pad_left_def)
  with b show ?thesis
    using getDeployedAddress_ok[OF assms] getDeployTransactionCallData_ok[OF assms] assms(1)
      getDeployedAddress_ok[OF assms(1), of "SaltHex (hx b)" b]
    by (intro exI[of _ "b @ code"]) (simp add: ethers_hexDataSlice)
qed

theorem deployed_address_is_create2_witness:
  "\<exists>d. getDeployTransactionCallData demo_ethers (hx [0x60, 0]) (SaltNum 7) = Inr (hx d)
    \<and> take 32 d = be_bytes 32 7 \<and> drop 32 d = [0x60, 0]"
  using deployed_address_is_create2[OF demo_ethers_ok, of "SaltNum 7" "be_bytes 32 7" "[0x60, 0]"] by auto

section \<open>A concrete node\<close>

text \<open>
  A chain as the list of addresses with code. The raw transaction creates the deployer; a
  transaction to the deployer creates the contract of its call data.
\<close>

definition demo_create :: "string \<Rightarrow> string" where
  "demo_create d = (case unhx d of None \<Rightarrow> ''0x'' | Some bs \<Rightarrow>
     hx (create2_address (ethers_keccak demo_ethers) (take 32 bs) (drop 32 bs)))"

definition demo_node :: "string list node" where
  "demo_node = \<lparr>
     getCode = (\<lambda>a n. Inr (if a \<in> set n then ''0x6000'' else ''0x'')),
     estimateGas = (\<lambda>tx n. Inr 100000),
     signerSend = (\<lambda>signer tx n. (Inr (),
       if tx_to tx = contractAddress \<and> contractAddress \<in> set n then demo_create (tx_data tx) # n else n)),
     sendRaw = (\<lambda>raw n. (Inr (), contractAddress # n))\<rparr>"

definition demo_c2 :: "string list create2" where
  "demo_c2 = \<lparr>factoryDeployed = False, chain_state = []\<rparr>"

definition demo_address :: string where
  "demo_address = demo_create (hx (be_bytes 32 7 @ [0x60, 0]))"

lemma demo_keccak: "ethers_keccak demo_ethers bs = be_bytes 32 (be_val bs)"
  by (simp add: ethers_keccak_def demo_ethers_def on_data_def)

lemma last_be_bytes: "last (be_bytes (Suc n) v) = of_nat (v mod 256)"
  by simp

lemma last_be_bytes_32: "last (be_bytes 32 v) = of_nat (v mod 256)"
  using last_be_bytes[of 31 v] by (simp del: be_bytes.simps)

lemma be_val_mod_256: "be_val (bs @ [b]) mod 256 = unat b"
  by (simp add: mod_mult_self3)

lemma demo_address_fresh: "demo_address \<noteq> contractAddress"
proof -
  let ?h = "be_bytes 32 (be_val [0x60, 0])"
  have "be_val [0x60, 0] mod 256 = 0" using be_val_mod_256[of "[0x60]" 0] by simp
  then have "last ?h = 0" unfolding last_be_bytes_32 by simp
  moreover have "?h \<noteq> []" by (metis length_be_bytes list.size(3) zero_neq_numeral)
  ultimately have h: "?h = butlast ?h @ [0]" by (metis append_butlast_last_id)
  define pre where "pre = [0xff] @ contract_bytes @ be_bytes 32 7 @ butlast ?h"
  have "create2_address (ethers_keccak demo_ethers) (be_bytes 32 7) [0x60, 0] = drop 12 (be_bytes 32 (be_val (pre @ [0])))"
    by (simp add: create2_address_def demo_keccak pre_def h[symmetric])
  moreover have "last (drop 12 (be_bytes 32 (be_val (pre @ [0])))) = 0"
    using last_be_bytes_32[of "be_val (pre @ [0])"] be_val_mod_256[of pre 0] by (simp add: last_drop)
  moreover have "last contract_bytes \<noteq> 0" by (simp add: contract_bytes_def)
  ultimately have "create2_address (ethers_keccak demo_ethers) (be_bytes 32 7) [0x60, 0] \<noteq> contract_bytes" by metis
  then show ?thesis by (simp add: demo_address_def demo_create_def contractAddress_hx)
qed

lemma demo_c2_deploy:
  "deploy demo_ethers demo_node ''signer'' (InitHex (hx [0x60, 0])) (SaltNum 7) GasDefault demo_c2 =
     (Inr demo_address, \<lparr>factoryDeployed = True, chain_state = [demo_address, contractAddress]\<rparr>)"
proof -
  have len: "length contractAddress = 42" "length factoryDeployer = 42"
    by (simp_all add: contractAddress_def factoryDeployer_def)
  have ne: "contractAddress \<noteq> factoryDeployer" by (simp add: contractAddress_def factoryDeployer_def)
  have addr: "getDeployedAddress demo_ethers (hx [0x60, 0]) (SaltNum 7) = Inr demo_address"
    using getDeployedAddress_ok[OF demo_ethers_ok, of "SaltNum 7" "be_bytes 32 7"]
    by (simp add: demo_address_def demo_create_def)
  have cd: "getDeployTransactionCallData demo_ethers (hx [0x60, 0]) (SaltNum 7) = Inr (hx (be_bytes 32 7 @ [0x60, 0]))"
    using getDeployTransactionCallData_ok[OF demo_ethers_ok, of "SaltNum 7" "be_bytes 32 7"] by simp
  have gas: "\<exists>g. manual_estimate demo_ethers (hx [0x60, 0]) = Inr g"
    by (simp add: manual_estimate_def ethers_arrayify[OF demo_ethers_ok] calldata_gas_def)
  have fac: "deployFactory demo_node ''signer'' demo_c2 = (Inr (), \<lparr>factoryDeployed = True, chain_state = [contractAddress]\<rparr>)"
    using ne by (simp add: deployFactory_def isFactoryDeployed_def bindIO_def on_chain_def demo_node_def demo_c2_def)
  from fac addr cd gas demo_address_fresh show ?thesis
    by (auto simp: deploy_def send_deployment_def bindIO_def Let_def init_code_hex_def deploy_gas_def on_chain_def demo_node_def
        demo_address_def)
qed

section \<open>Gas\<close>

lemma all_but_64th: "0 \<le> t \<Longrightarrow> with_deployer_gas t - with_deployer_gas t div 64 = t"
proof -
  assume "0 \<le> t"
  define k r where "k = t div 63" and "r = t mod 63"
  have t: "t = 63 * k + r" "0 \<le> r" "r < 63" by (simp_all add: k_def r_def)
  have "t * 64 = r + (64 * k + r) * 63" unfolding t(1) by (simp only: algebra_simps)
  then have "with_deployer_gas t = (r + (64 * k + r) * 63) div 63" by (simp only: with_deployer_gas_def)
  also have "\<dots> = 64 * k + r + r div 63" by (rule div_mult_self1) simp
  also have "r div 63 = 0" using t(2,3) by (rule div_pos_pos_trivial)
  finally have "with_deployer_gas t = 64 * k + r" by simp
  moreover have "(r + k * 64) div 64 = k + r div 64" by (rule div_mult_self1) simp
  moreover have "r div 64 = 0" using t(2,3) by (intro div_pos_pos_trivial) simp_all
  ultimately have "with_deployer_gas t div 64 = k" by (simp only: add.commute mult.commute add_0)
  with \<open>with_deployer_gas t = 64 * k + r\<close> t(1) show ?thesis by linarith
qed

lemma calldata_gas_sum: "bs \<noteq> [] \<Longrightarrow> calldata_gas bs = Inr (sum_list (map (\<lambda>x. if x = 0 then 4 else 16) bs))"
  by (simp add: calldata_gas_def)

text \<open>
  C28. The manual gas limit leaves exactly the estimate to the deployer. A call may pass on all but one
  64th of its gas; of the limit that \<open>deploy\<close> sends, what remains after that is the estimate itself,
  and the estimate covers the call data, 200 gas a byte of code and the two base costs.
\<close>

theorem deploy_gas_covers_estimate:
  assumes "ethers_ok E" and "code \<noteq> []"
    and "T = sum_list (map (\<lambda>x. if x = 0 then 4 else 16) code) + 200 * (int (length code) + 1)
           + 6 * int ((2 * length code + 65) div 64) + 53000"
    and "deploy_gas E N (hx code) tx GasDefault st = (Inr g, st')"
  shows "g - g div 64 = T \<and> st' = st"
proof -
  have "manual_estimate E (hx code) = Inr T"
    using assms(1-3) by (simp add: manual_estimate_def ethers_arrayify calldata_gas_sum algebra_simps)
  with assms(4) have g: "g = with_deployer_gas T" "st' = st" by (simp_all add: deploy_gas_def)
  have "0 \<le> sum_list (map (\<lambda>x. if x = 0 then 4 else (16 :: int)) code)" by (induction code) simp_all
  then have "0 \<le> T" using assms(3) by simp
  with g all_but_64th show ?thesis by simp
qed

lemma demo_deploy_gas: "deploy_gas demo_ethers demo_node (hx [0x60, 0]) tx GasDefault demo_c2 = (Inr 54477, demo_c2)"
  by (simp add: deploy_gas_def manual_estimate_def ethers_arrayify[OF demo_ethers_ok] calldata_gas_def with_deployer_gas_def)

theorem deploy_gas_covers_estimate_witness:
  "(54477 :: int) - 54477 div 64 = 53626 \<and> demo_c2 = demo_c2"
  by (rule deploy_gas_covers_estimate[OF demo_ethers_ok _ _ demo_deploy_gas]) simp_all

section \<open>Deployments\<close>

lemma isFactoryDeployed_Inr:
  "isFactoryDeployed N st = (Inr b, st') \<Longrightarrow> chain_state st' = chain_state st \<and> (b \<longleftrightarrow> factoryDeployed st')"
  by (auto simp: isFactoryDeployed_def split: if_splits sum.splits)

lemma deployFactory_Inr: "deployFactory N signer st = (Inr u, st') \<Longrightarrow> factoryDeployed st'"
  by (auto simp: deployFactory_def bindIO_Inr dest!: isFactoryDeployed_Inr split: if_splits)

lemma deployFactory_again: "factoryDeployed st \<Longrightarrow> deployFactory N signer st = (Inr (), st)"
  by (simp add: deployFactory_def isFactoryDeployed_def bindIO_def)

lemma on_chain_flag: "on_chain m st = (r, st') \<Longrightarrow> factoryDeployed st' = factoryDeployed st"
  by (auto simp: on_chain_def split: prod.splits)

lemma deploy_gas_state: "deploy_gas E N code tx g st = (r, st') \<Longrightarrow> st' = st"
  by (auto simp: deploy_gas_def split: gas_limit.splits)

lemma send_deployment_Inr:
  assumes "send_deployment E N signer initCode s g a st = (Inr addr, st')"
  obtains c where "addr = a" and "getCode N a (chain_state st') = Inr c" and "length c \<noteq> 2"
    and "factoryDeployed st' = factoryDeployed st"
proof -
  from assms obtain cd gl st1 u st2 c where
    "deploy_gas E N initCode
      \<lparr>tx_to = contractAddress, tx_value = 0, tx_data = cd, tx_gasLimit = None\<rparr> g st = (Inr gl, st1)"
    "on_chain (signerSend N signer
      \<lparr>tx_to = contractAddress, tx_value = 0, tx_data = cd, tx_gasLimit = Some gl\<rparr>) st1 = (Inr u, st2)"
    "getCode N a (chain_state st2) = Inr c" "st2 = st'" "length c \<noteq> 2" "addr = a"
    by (auto simp: send_deployment_def Let_def bindIO_Inr split: if_splits)
  then show thesis using that deploy_gas_state on_chain_flag by metis
qed

lemma deploy_Inr:
  assumes "deploy E N signer code s g st = (Inr addr, st')"
  obtains initCode c where "init_code_hex code = Inr initCode" and "getDeployedAddress E initCode s = Inr addr"
    and "getCode N addr (chain_state st') = Inr c" and "length c \<noteq> 2" and "factoryDeployed st'"
proof -
  from assms obtain u st1 ic a c where 1: "deployFactory N signer st = (Inr u, st1)"
    and ic: "init_code_hex code = Inr ic" "getDeployedAddress E ic s = Inr a" "getCode N a (chain_state st1) = Inr c"
    and 2: "(if 2 < length c then returnIO a else send_deployment E N signer ic s g a) st1 = (Inr addr, st')"
    by (auto simp: deploy_def bindIO_Inr)
  note flag = deployFactory_Inr[OF 1]
  show thesis
  proof (cases "2 < length c")
    case True
    with 2 ic flag that show thesis by simp
  next
    case False
    with 2 have "send_deployment E N signer ic s g a st1 = (Inr addr, st')" by simp
    then show thesis by (rule send_deployment_Inr) (use that ic flag in auto)
  qed
qed

text \<open>
  A successful \<open>deploy\<close> leaves the contract on the chain: the address it returns is the predicted
  one, and the node reports code there at the end; the deployer is known to be deployed. Where it
  finds no code after its transaction it throws.
\<close>

theorem deploy_leaves_code:
  assumes "deploy E N signer code s g st = (Inr addr, st')"
  shows "factoryDeployed st' \<and> (\<exists>initCode c. init_code_hex code = Inr initCode
    \<and> getDeployedAddress E initCode s = Inr addr \<and> getCode N addr (chain_state st') = Inr c \<and> length c \<noteq> 2)"
  using assms by (rule deploy_Inr) auto

theorem deploy_leaves_code_witness:
  "\<exists>initCode c. init_code_hex (InitHex (hx [0x60, 0])) = Inr initCode
    \<and> getDeployedAddress demo_ethers initCode (SaltNum 7) = Inr demo_address
    \<and> getCode demo_node demo_address [demo_address, contractAddress] = Inr c \<and> length c \<noteq> 2"
  using deploy_leaves_code[OF demo_c2_deploy] by simp

text \<open>
  Deploying again changes nothing and costs nothing: once \<open>deploy\<close> has succeeded, another
  \<open>deploy\<close> of the same code and salt, by any signer and with any gas option, sends no transaction and
  returns the same address.
\<close>

theorem deploy_idempotent:
  assumes "deploy E N signer code s g st = (Inr addr, st')"
    and "\<And>a n c. getCode N a n = Inr c \<Longrightarrow> 2 \<le> length c"
  shows "deploy E N signer' code s g' st' = (Inr addr, st')"
  using assms(1)
proof (rule deploy_Inr)
  fix ic c
  assume "init_code_hex code = Inr ic" "getDeployedAddress E ic s = Inr addr"
    "getCode N addr (chain_state st') = Inr c" "length c \<noteq> 2" "factoryDeployed st'"
  moreover from this(3) assms(2) have "2 \<le> length c" by blast
  ultimately show ?thesis
    by (simp add: deploy_def bindIO_run deployFactory_again)
qed

theorem deploy_idempotent_witness:
  "deploy demo_ethers demo_node ''other'' (InitHex (hx [0x60, 0])) (SaltNum 7) GasEstimate
     \<lparr>factoryDeployed = True, chain_state = [demo_address, contractAddress]\<rparr>
   = (Inr demo_address, \<lparr>factoryDeployed = True, chain_state = [demo_address, contractAddress]\<rparr>)"
  by (rule deploy_idempotent[OF demo_c2_deploy]) (auto simp: demo_node_def split: if_splits)

end
