(* ===== verification/Interface_Id.thy ===== *)
theory Interface_Id
  imports Ethers_Lib
begin

unbundle bit_operations_syntax

text \<open>
  \<open>getERC165InterfaceID\<close> of \<open>src/Utils.ts\<close>: the ERC-165 identifier of an interface is the exclusive or
  of its function selectors. JavaScript computes it on signed 32-bit integers. The selector of a
  fragment comes from the \<open>ethers\<close> library, a parameter.
\<close>

record fragment =
  frag_type :: string
  frag_name :: "string option"

text \<open>\<open>x ^ y\<close>: both operands are taken as signed 32-bit integers, \<open>NaN\<close> as 0.\<close>

fun to_int32 :: "js_num \<Rightarrow> 32 word" where
  "to_int32 (Num n) = word_of_int n"
| "to_int32 NaN = 0"
| "to_int32 Undefined = 0"

definition js_xor :: "js_num \<Rightarrow> js_num \<Rightarrow> js_num" where
  "js_xor x y = Num (sint (to_int32 x XOR to_int32 y))"

text \<open>\<open>reduce\<close> without an initial value throws on the empty array.\<close>

fun js_reduce :: "('a \<Rightarrow> 'a \<Rightarrow> 'a) \<Rightarrow> 'a list \<Rightarrow> js_error + 'a" where
  "js_reduce f [] = Inl TypeError"
| "js_reduce f (x # xs) = Inr (foldl f x xs)"

text \<open>\<open>toString(16)\<close> of a natural number and \<open>padStart(n, '0')\<close>.\<close>

fun to_hex :: "nat \<Rightarrow> string" where
  "to_hex n = (if n < 16 then [hexdigit n] else to_hex (n div 16) @ [hexdigit (n mod 16)])"

declare to_hex.simps [simp del]

definition padStart0 :: "nat \<Rightarrow> string \<Rightarrow> string" where
  "padStart0 n s = replicate (n - length s) CHR ''0'' @ s"

fun to_string16 :: "js_num \<Rightarrow> string" where
  "to_string16 (Num n) = (if 0 \<le> n then to_hex (nat n) else CHR ''-'' # to_hex (nat (- n)))"
| "to_string16 x = ''NaN''"

fun mapE :: "('a \<Rightarrow> 'e + 'b) \<Rightarrow> 'a list \<Rightarrow> 'e + 'b list" where
  "mapE f [] = Inr []"
| "mapE f (x # xs) = bindE (f x) (\<lambda>y. bindE (mapE f xs) (\<lambda>ys. Inr (y # ys)))"

definition getERC165InterfaceID :: "(fragment \<Rightarrow> js_error + string) \<Rightarrow> fragment list \<Rightarrow> js_error + string" where
  "getERC165InterfaceID getSighash abi =
     bindE (mapE getSighash (filter (\<lambda>it. frag_type it = ''function'' \<and> frag_name it \<noteq> None) abi)) (\<lambda>sighashes.
     bindE (js_reduce js_xor (map parseInt16 sighashes)) (\<lambda>interfaceId.
     let interfaceId' = (if js_greater interfaceId 0 then interfaceId else js_add interfaceId (0xFFFFFFFF + 1))
     in Inr (''0x'' @ padStart0 8 (to_string16 interfaceId'))))"

section \<open>Fixed-width hexadecimal\<close>

fun fixed_hex :: "nat \<Rightarrow> nat \<Rightarrow> string" where
  "fixed_hex 0 n = []"
| "fixed_hex (Suc k) n = fixed_hex k (n div 16) @ [hexdigit (n mod 16)]"

lemma fixed_hex_zero: "fixed_hex k 0 = replicate k CHR ''0''"
  by (induction k) (simp_all add: hexdigit_def replicate_append_same)

lemma padStart0_to_hex:
  "n < 16 ^ k \<Longrightarrow> 1 \<le> k \<Longrightarrow> length (to_hex n) \<le> k \<and> padStart0 k (to_hex n) = fixed_hex k n"
proof (induction k arbitrary: n)
  case 0
  then show ?case by simp
next
  case (Suc k)
  show ?case
  proof (cases "n < 16")
    case True
    then show ?thesis
      by (simp add: to_hex.simps[of n] padStart0_def fixed_hex_zero)
  next
    case False
    then have k: "1 \<le> k" using Suc.prems(1) by (cases k) simp_all
    have "n div 16 < 16 ^ k" using Suc.prems(1) by (simp add: less_mult_imp_div_less mult.commute)
    with Suc.IH[OF this k] False show ?thesis
      by (simp add: to_hex.simps[of n] padStart0_def Suc_diff_le)
  qed
qed

lemma hex_bytes_fixed: "concat (map hex_byte (be_bytes k n)) = fixed_hex (2 * k) n"
proof (induction k arbitrary: n)
  case 0
  then show ?case by simp
next
  case (Suc k)
  have "hex_byte (of_nat (n mod 256)) = [hexdigit (n mod 256 div 16), hexdigit (n mod 16)]"
    by (simp add: hex_byte_def unat_of_nat mod_mod_cancel)
  moreover have "n mod 256 div 16 = n div 16 mod 16"
    using mod_mult2_eq[of n 16 16] by simp
  moreover have "n div 256 = n div 16 div 16" by (simp add: div_mult2_eq)
  ultimately show ?case using Suc by simp
qed

section \<open>The identifier\<close>

lemma foldl_js_xor:
  "foldl js_xor (Num a) (map (\<lambda>w. Num (int (unat w))) (w # ws))
     = Num (sint (foldl (XOR) (word_of_int a) (w # ws :: 32 word list)))"
proof (induction ws rule: rev_induct)
  case Nil
  then show ?case by (simp add: js_xor_def)
next
  case (snoc v ws)
  then show ?case by (simp add: js_xor_def)
qed

lemma sint_unsigned:
  fixes w :: "32 word"
  assumes "w \<noteq> 0"
  shows "(if 0 < sint w then sint w else sint w + 4294967296) = int (unat w)"
proof -
  have u: "uint w = sint w mod 4294967296" using uint_sint[of w] by (simp add: take_bit_eq_mod)
  have r: "- 2147483648 \<le> sint w" "sint w < 2147483648" using sint_ge[of w] sint_lt[of w] by simp_all
  have nz: "uint w \<noteq> 0" using assms by (simp add: uint_0_iff)
  have "(if 0 < sint w then sint w else sint w + 4294967296) = uint w"
  proof (cases "0 < sint w")
    case True
    with u r show ?thesis by (simp add: mod_pos_pos_trivial)
  next
    case False
    have "sint w \<noteq> 0" using u nz by auto
    with False r have "(sint w + 4294967296) mod 4294967296 = sint w + 4294967296"
      by (intro mod_pos_pos_trivial) simp_all
    with u False show ?thesis by simp
  qed
  then show ?thesis by simp
qed

lemma mapE_Inr: "mapE f xs = Inr ys \<longleftrightarrow> map f xs = map Inr ys"
proof (induction xs arbitrary: ys)
  case (Cons x xs)
  then show ?case by (cases ys) (auto simp: result_simps)
qed auto

definition xor_all :: "32 word list \<Rightarrow> 32 word" where
  "xor_all ws = foldl (XOR) 0 ws"

lemma xor_all_Cons: "xor_all (w # ws) = foldl (XOR) w ws"
  by (simp add: xor_all_def)

text \<open>The selector of a fragment, as the data string of four bytes.\<close>

definition selector_hex :: "32 word \<Rightarrow> string" where
  "selector_hex w = hx (be_bytes 4 (unat w))"

lemma unat_32_less: "unat (w :: 32 word) < 4294967296"
  using unsigned_less[of w, where 'a = nat] by simp

lemma parse_selector: "parseInt16 (selector_hex w) = Num (int (unat w))"
proof -
  have ne: "be_bytes 4 (unat w) \<noteq> []" by (metis length_be_bytes list.size(3) zero_neq_numeral)
  have le: "unat w \<le> 2 ^ 53" using unat_32_less[of w] by (simp add: order.trans[OF less_imp_le])
  have "be_val (be_bytes 4 (unat w)) = unat w" using unat_32_less[of w] by simp
  then show ?thesis
    unfolding selector_hex_def parseInt16_hx[OF ne] using to_double_exact[OF le] by simp
qed

lemma selector_padded: "''0x'' @ padStart0 8 (to_hex (unat (w :: 32 word))) = selector_hex w"
  using padStart0_to_hex[of "unat w" 8] hex_bytes_fixed[of 4 "unat w"] unat_32_less[of w]
  by (simp add: selector_hex_def hx_def)

lemma interface_id_value:
  assumes "filter (\<lambda>it. frag_type it = ''function'' \<and> frag_name it \<noteq> None) abi = fs"
    and "map getSighash fs = map (\<lambda>w. Inr (selector_hex w)) (w # ws)"
  shows "getERC165InterfaceID getSighash abi =
    Inr (if xor_all (w # ws) = 0 then ''0x100000000'' else selector_hex (xor_all (w # ws)))"
proof -
  let ?x = "xor_all (w # ws)"
  have "mapE getSighash fs = Inr (map selector_hex (w # ws))"
    using assms(2) by (simp add: mapE_Inr comp_def)
  moreover have "js_reduce js_xor (map parseInt16 (map selector_hex (w # ws)))
      = Inr (if ws = [] then Num (int (unat w)) else Num (sint ?x))"
  proof (cases ws)
    case (Cons v vs)
    have "map parseInt16 (map selector_hex ws) = map (\<lambda>w. Num (int (unat w))) ws"
      by (simp add: parse_selector)
    moreover have "word_of_int (int (unat w)) = w" by simp
    ultimately show ?thesis
      using foldl_js_xor[of "int (unat w)" v vs] Cons
      by (simp only: list.map parse_selector js_reduce.simps xor_all_Cons list.distinct if_False)
  qed (simp add: parse_selector)
  ultimately have id: "getERC165InterfaceID getSighash abi =
      (let i = (if ws = [] then Num (int (unat w)) else Num (sint ?x));
           j = (if js_greater i 0 then i else js_add i (0xFFFFFFFF + 1))
       in Inr (''0x'' @ padStart0 8 (to_string16 j)))"
    using assms(1) by (simp add: getERC165InterfaceID_def)
  show ?thesis
  proof (cases "?x = 0")
    case True
    have "to_hex 4294967296 = ''100000000''" by (simp add: to_hex.simps hexdigit_def)
    with True show ?thesis unfolding id by (auto simp: xor_all_Cons padStart0_def Let_def)
  next
    case False
    then have "(let i = (if ws = [] then Num (int (unat w)) else Num (sint ?x))
        in if js_greater i 0 then i else js_add i (0xFFFFFFFF + 1)) = Num (int (unat ?x))"
    proof -
      have "uint ?x \<noteq> 0" using False by (simp add: uint_0_iff)
      then have "0 < uint ?x" by (simp add: order.not_eq_order_implies_strict)
      then show ?thesis using sint_unsigned[OF False] by (cases ws) (auto simp: xor_all_Cons Let_def split: if_splits)
    qed
    with False show ?thesis unfolding id using selector_padded[of ?x] by (simp add: Let_def)
  qed
qed

section \<open>Properties\<close>

text \<open>
  The identifier is the exclusive or of the selectors of the interface's functions, as four bytes
  in hexadecimal, whatever the signs of the intermediate 32-bit integers; other fragments play no
  part, and an interface without functions throws. The one exception is an exclusive or of zero,
  for which the function returns nine digits, \<open>0x100000000\<close>, instead of \<open>0x00000000\<close>.
\<close>

theorem interface_id_is_xor:
  assumes "map getSighash (filter (\<lambda>it. frag_type it = ''function'' \<and> frag_name it \<noteq> None) abi)
      = map (\<lambda>w. Inr (selector_hex w)) ws"
  shows "getERC165InterfaceID getSighash abi =
    (if ws = [] then Inl TypeError
     else if xor_all ws = 0 then Inr ''0x100000000''
     else Inr (hx (be_bytes 4 (unat (xor_all ws)))))"
proof (cases ws)
  case Nil
  with assms show ?thesis by (simp add: getERC165InterfaceID_def)
next
  case (Cons v vs)
  with interface_id_value[OF refl, of getSighash abi v vs] assms show ?thesis
    by (simp add: selector_hex_def)
qed

definition demo_fragments :: "fragment list" where
  "demo_fragments = [\<lparr>frag_type = ''function'', frag_name = Some ''a''\<rparr>,
     \<lparr>frag_type = ''event'', frag_name = Some ''e''\<rparr>, \<lparr>frag_type = ''function'', frag_name = Some ''b''\<rparr>]"

definition demo_sighash :: "fragment \<Rightarrow> js_error + string" where
  "demo_sighash f = Inr (selector_hex (if frag_name f = Some ''a'' then 0x80000001 else 0x12))"

theorem interface_id_is_xor_witness:
  "getERC165InterfaceID demo_sighash demo_fragments = Inr (hx (be_bytes 4 0x80000013))"
  using interface_id_is_xor[of demo_sighash demo_fragments "[0x80000001, 0x12]"]
  by (simp add: demo_sighash_def demo_fragments_def xor_all_def)

end
