(* ===== verification/User_Op_Fill.thy ===== *)
theory User_Op_Fill
  imports User_Op_Client Create2
begin

text \<open>
  Completing and signing a user operation on the client: \<open>fillUserOp\<close>, the EIP-7702 adjustment of its
  init code, its hash and its signature, from \<open>test/UserOp.ts\<close>. What the node answers to the reads of
  one call is a record of answers; the wallet's signature is a parameter.
\<close>

section \<open>Answers of the node\<close>

text \<open>
  \<open>a_view\<close> is a view call without arguments of a contract, \<open>a_getSenderAddress\<close> the sender that
  \<open>getSenderAddress\<close> reports in its revert, \<open>a_estimateGas\<close> an estimate for a call from, to and with
  data.
\<close>

record answers =
  a_entryPoint :: string
  a_chainId :: "js_error + int"
  a_getCode :: "string \<Rightarrow> js_error + string"
  a_getTransactionCount :: "string \<Rightarrow> js_error + int"
  a_estimateGas :: "string option \<Rightarrow> string option \<Rightarrow> string \<Rightarrow> js_error + int"
  a_view :: "string \<Rightarrow> string \<Rightarrow> js_error + int"
  a_getSenderAddress :: "string \<Rightarrow> js_error + string"
  a_senderCreator :: "js_error + string"
  a_baseFeePerGas :: "js_error + int option"

record fill_options =
  getNonceFunction :: "string option"
  eip7702delegate :: "string option"

definition no_options :: fill_options where
  "no_options = \<lparr>getNonceFunction = None, eip7702delegate = None\<rparr>"

section \<open>EIP-7702 init codes\<close>

definition INITCODE_EIP7702_MARKER :: string where "INITCODE_EIP7702_MARKER = ''0x7702''"

definition startsWith :: "string \<Rightarrow> string \<Rightarrow> bool" where
  "startsWith s p = (take (length p) s = p)"

definition isEip7702InitCode :: "ethers \<Rightarrow> string option \<Rightarrow> js_error + bool" where
  "isEip7702InitCode E initCode =
     (case initCode of None \<Rightarrow> Inr False
      | Some c \<Rightarrow> bindE (hexlifyData E c) (\<lambda>h. Inr (startsWith h INITCODE_EIP7702_MARKER)))"

definition updateUserOpForEip7702Hash :: "ethers \<Rightarrow> UserOperation \<Rightarrow> string \<Rightarrow> js_error + UserOperation" where
  "updateUserOpForEip7702Hash E op delegate =
     bindE (isEip7702InitCode E (Some (uo_initCode op))) (\<lambda>is7702.
     if \<not> is7702 then Inl (Thrown ''initCode should start with INITCODE_EIP7702_MARKER'')
     else
       bindE (hexlifyData E (uo_initCode op)) (\<lambda>initCode.
       if hexDataLength E initCode < 20 then Inr (op\<lparr>uo_initCode := delegate\<rparr>)
       else bindE (hexDataSlice E initCode 20 None) (\<lambda>rest.
            bindE (hexConcat E [delegate, rest]) (\<lambda>c. Inr (op\<lparr>uo_initCode := c\<rparr>)))))"

section \<open>Hashes\<close>

definition encodeUserOp :: "ethers \<Rightarrow> string \<Rightarrow> UserOperation \<Rightarrow> bool \<Rightarrow> js_error + string" where
  "encodeUserOp E PACKED_USEROP_TYPEHASH userOp forSignature =
     bindE (packUserOp E userOp) (\<lambda>p.
     if forSignature then
       bindE (keccak256 E (pu_initCode p)) (\<lambda>hInit.
       bindE (keccak256 E (pu_callData p)) (\<lambda>hCall.
       bindE (keccak256 E (pu_paymasterAndData p)) (\<lambda>hPm.
       abiEncode E
         [(''bytes32'', AbiHex PACKED_USEROP_TYPEHASH),
          (''address'', AbiHex (pu_sender p)), (''uint256'', AbiInt (pu_nonce p)),
          (''bytes32'', AbiHex hInit), (''bytes32'', AbiHex hCall),
          (''bytes32'', AbiHex (pu_accountGasLimits p)), (''uint256'', AbiInt (pu_preVerificationGas p)),
          (''bytes32'', AbiHex (pu_gasFees p)), (''bytes32'', AbiHex hPm)])))
     else
       abiEncode E
         [(''bytes32'', AbiHex PACKED_USEROP_TYPEHASH),
          (''address'', AbiHex (pu_sender p)), (''uint256'', AbiInt (pu_nonce p)),
          (''bytes'', AbiHex (pu_initCode p)), (''bytes'', AbiHex (pu_callData p)),
          (''bytes32'', AbiHex (pu_accountGasLimits p)), (''uint256'', AbiInt (pu_preVerificationGas p)),
          (''bytes32'', AbiHex (pu_gasFees p)),
          (''bytes'', AbiHex (pu_paymasterAndData p)), (''bytes'', AbiHex (pu_signature p))])"

text \<open>
  \<open>getDomainSeparator\<close> with the hashes of the EIP-712 type string, the name and the version, and
  \<open>getUserOpHash\<close>.
\<close>

definition getDomainSeparator :: "ethers \<Rightarrow> string \<Rightarrow> string \<Rightarrow> string \<Rightarrow> string \<Rightarrow> int \<Rightarrow> js_error + string" where
  "getDomainSeparator E typeHash nameHash versionHash entryPoint chainId =
     bindE (abiEncode E
       [(''bytes32'', AbiHex typeHash), (''bytes32'', AbiHex nameHash), (''bytes32'', AbiHex versionHash),
        (''uint256'', AbiInt chainId), (''address'', AbiHex entryPoint)]) (keccak256 E)"

record eip712 =
  op_typehash :: string
  domain_typehash :: string
  name_hash :: string
  version_hash :: string

definition getUserOpHash :: "ethers \<Rightarrow> eip712 \<Rightarrow> UserOperation \<Rightarrow> string \<Rightarrow> int \<Rightarrow> js_error + string" where
  "getUserOpHash E H op entryPoint chainId =
     bindE (encodeUserOp E (op_typehash H) op True) (\<lambda>packed.
     bindE (getDomainSeparator E (domain_typehash H) (name_hash H) (version_hash H) entryPoint chainId) (\<lambda>sep.
     bindE (keccak256 E packed) (\<lambda>h.
     bindE (hexConcat E [''0x1901'', sep, h]) (keccak256 E))))"

section \<open>Filling\<close>

definition require_some :: "string \<Rightarrow> 'a option \<Rightarrow> js_error + 'a" where
  "require_some msg x = (case x of None \<Rightarrow> Inl (Thrown msg) | Some y \<Rightarrow> Inr y)"

text \<open>
  The part for an operation with init code. \<open>ep\<close> is \<open>None\<close> when no EntryPoint is passed. An unset
  sender reads as \<open>undefined\<close>, which the node refuses.
\<close>

definition fill_eip7702 :: "answers option \<Rightarrow> fill_options \<Rightarrow> PartialUserOp \<Rightarrow> js_error + PartialUserOp" where
  "fill_eip7702 ep opts op1 =
     bindE (require_some ''must have provider to check eip7702 delegate'' ep) (\<lambda>a.
     bindE (require_some ''undefined address'' (p_sender op1)) (\<lambda>sender.
     bindE (a_getCode a sender) (\<lambda>code.
     bindE (if length code = 2 then
              (if eip7702delegate opts = None then Inl (Thrown ''must have eip7702delegate'') else Inr ())
            else if length code \<noteq> 23 * 2 + 2 then Inl (Thrown ''sender is not an eip7702 delegate'')
            else Inr ()) (\<lambda>_.
     case p_nonce op1 of
       Some _ \<Rightarrow> Inr op1
     | None \<Rightarrow> bindE (a_getTransactionCount a sender) (\<lambda>n. Inr (op1\<lparr>p_nonce := Some n\<rparr>))))))"

text \<open>
  \<open>initAddr.toLowerCase()\<close> is compared with the deployer's address in lower case; \<open>lower\<close> is that
  function.
\<close>

definition fill_sender ::
  "ethers \<Rightarrow> (string \<Rightarrow> string) \<Rightarrow> answers option \<Rightarrow> string \<Rightarrow> string \<Rightarrow> string \<Rightarrow> PartialUserOp
     \<Rightarrow> js_error + PartialUserOp" where
  "fill_sender E lower ep initCode initAddr initCallData op =
     (case p_sender op of
        Some _ \<Rightarrow> Inr op
      | None \<Rightarrow>
          if lower initAddr = lower contractAddress then
            bindE (hexDataSlice E initCallData 32 None) (\<lambda>ctr.
            bindE (hexDataSlice E initCallData 0 (Some 32)) (\<lambda>salt.
            bindE (getDeployedAddress E ctr (SaltHex salt)) (\<lambda>s.
            Inr (op\<lparr>p_sender := Some s\<rparr>))))
          else
            bindE (require_some ''no entrypoint/provider'' ep) (\<lambda>a.
            bindE (a_getSenderAddress a initCode) (\<lambda>s.
            Inr (op\<lparr>p_sender := Some s\<rparr>))))"

definition fill_verificationGas ::
  "answers option \<Rightarrow> string \<Rightarrow> string \<Rightarrow> PartialUserOp \<Rightarrow> js_error + PartialUserOp" where
  "fill_verificationGas ep initAddr initCallData op =
     (case p_verificationGasLimit op of
        Some _ \<Rightarrow> Inr op
      | None \<Rightarrow>
          bindE (require_some ''no entrypoint/provider'' ep) (\<lambda>a.
          bindE (a_senderCreator a) (\<lambda>creator.
          bindE (a_estimateGas a (Some creator) (Some initAddr) initCallData) (\<lambda>g.
          Inr (op\<lparr>p_verificationGasLimit := Some (uo_verificationGasLimit DefaultsForUserOp + g)\<rparr>)))))"

definition fill_factory ::
  "ethers \<Rightarrow> (string \<Rightarrow> string) \<Rightarrow> answers option \<Rightarrow> string \<Rightarrow> PartialUserOp \<Rightarrow> js_error + PartialUserOp" where
  "fill_factory E lower ep initCode op1 =
     bindE (hexDataSlice E initCode 0 (Some 20)) (\<lambda>initAddr.
     bindE (hexDataSlice E initCode 20 None) (\<lambda>initCallData.
     bindE (fill_sender E lower ep initCode initAddr initCallData
              (if p_nonce op1 = None then op1\<lparr>p_nonce := Some 0\<rparr> else op1)) (\<lambda>op2.
     fill_verificationGas ep initAddr initCallData op2)))"

definition fill_initCode ::
  "ethers \<Rightarrow> (string \<Rightarrow> string) \<Rightarrow> answers option \<Rightarrow> fill_options \<Rightarrow> PartialUserOp \<Rightarrow> js_error + PartialUserOp" where
  "fill_initCode E lower ep opts op1 =
     (case p_initCode op1 of
        None \<Rightarrow> Inr op1
      | Some initCode \<Rightarrow>
          bindE (isEip7702InitCode E (Some initCode)) (\<lambda>is7702.
          if is7702 then fill_eip7702 ep opts op1 else fill_factory E lower ep initCode op1))"

text \<open>The nonce, the call gas, the paymaster gas and the fees.\<close>

definition fill_nonce :: "answers option \<Rightarrow> fill_options \<Rightarrow> string option \<Rightarrow> PartialUserOp \<Rightarrow> js_error + PartialUserOp" where
  "fill_nonce ep opts sender0 op1 =
     (case p_nonce op1 of
        Some _ \<Rightarrow> Inr op1
      | None \<Rightarrow>
          bindE (require_some ''must have entryPoint to autofill nonce'' ep) (\<lambda>a.
          bindE (require_some ''undefined address'' sender0) (\<lambda>sender.
          bindE (a_view a sender (or_default (getNonceFunction opts) ''getNonce'')) (\<lambda>n.
          Inr (op1\<lparr>p_nonce := Some n\<rparr>)))))"

definition fill_callGas :: "answers option \<Rightarrow> PartialUserOp \<Rightarrow> js_error + PartialUserOp" where
  "fill_callGas ep op1 =
     (case (p_callGasLimit op1, p_callData op1) of
        (None, Some callData) \<Rightarrow>
          bindE (require_some ''must have entryPoint for callGasLimit estimate'' ep) (\<lambda>a.
          bindE (a_estimateGas a (Some (a_entryPoint a)) (p_sender op1) callData) (\<lambda>g.
          Inr (op1\<lparr>p_callGasLimit := Some g\<rparr>)))
      | _ \<Rightarrow> Inr op1)"

definition fill_paymaster :: "PartialUserOp \<Rightarrow> PartialUserOp" where
  "fill_paymaster op1 =
     (if p_paymaster op1 = None then op1
      else op1\<lparr>
        p_paymasterVerificationGasLimit :=
          Some (or_default (p_paymasterVerificationGasLimit op1) (uo_paymasterVerificationGasLimit DefaultsForUserOp)),
        p_paymasterPostOpGasLimit :=
          Some (or_default (p_paymasterPostOpGasLimit op1) (uo_paymasterPostOpGasLimit DefaultsForUserOp))\<rparr>)"

definition fill_fees :: "answers option \<Rightarrow> PartialUserOp \<Rightarrow> js_error + PartialUserOp" where
  "fill_fees ep op1 =
     bindE (case p_maxFeePerGas op1 of
              Some _ \<Rightarrow> Inr op1
            | None \<Rightarrow>
                bindE (require_some ''must have entryPoint to autofill maxFeePerGas'' ep) (\<lambda>a.
                bindE (a_baseFeePerGas a) (\<lambda>baseFee.
                case baseFee of
                  None \<Rightarrow> Inl TypeError
                | Some b \<Rightarrow> Inr (op1\<lparr>p_maxFeePerGas := Some (b +
                    or_default (p_maxPriorityFeePerGas op1) (uo_maxPriorityFeePerGas DefaultsForUserOp))\<rparr>)))) (\<lambda>op2.
     Inr (op2\<lparr>p_maxPriorityFeePerGas :=
       Some (or_default (p_maxPriorityFeePerGas op2) (uo_maxPriorityFeePerGas DefaultsForUserOp))\<rparr>))"

definition callDataCost :: "ethers \<Rightarrow> string \<Rightarrow> js_error + int" where
  "callDataCost E data = bindE (arrayify E data) calldata_gas"

definition fillUserOp ::
  "ethers \<Rightarrow> (string \<Rightarrow> string) \<Rightarrow> eip712 \<Rightarrow> PartialUserOp \<Rightarrow> answers option \<Rightarrow> fill_options \<Rightarrow> js_error + UserOperation" where
  "fillUserOp E lower H op ep opts =
     bindE (fill_initCode E lower ep opts op) (\<lambda>op1.
     bindE (fill_nonce ep opts (p_sender op) op1) (\<lambda>op2.
     bindE (fill_callGas ep op2) (\<lambda>op3.
     bindE (fill_fees ep (fill_paymaster op3)) (\<lambda>op4.
     let filled = fillUserOpDefaults op4 DefaultsForUserOp in
     if uo_preVerificationGas filled = 0 then
       bindE (encodeUserOp E (op_typehash H) filled False) (\<lambda>enc.
       bindE (callDataCost E enc) (\<lambda>c. Inr (filled\<lparr>uo_preVerificationGas := c\<rparr>)))
     else Inr filled))))"

section \<open>Signing\<close>

text \<open>
  \<open>asyncSignUserOp\<close>: \<open>signTyped\<close> is the wallet's typed-data signature of the packed operation for the
  EntryPoint and chain.
\<close>

definition delegate_of_code :: "ethers \<Rightarrow> string \<Rightarrow> js_error + string" where
  "delegate_of_code E senderCode =
     (if \<not> startsWith senderCode ''0xef0100'' then
        (if senderCode = ''0x''
         then Inl (Thrown ''sender contract not deployed. is this the first EIP-7702 message? add eip7702delegate to options'')
         else Inl (Thrown (''sender is not an eip7702 delegate: '' @ senderCode)))
      else hexDataSlice E senderCode 3 None)"

definition asyncSignUserOp ::
  "ethers \<Rightarrow> (string \<Rightarrow> int \<Rightarrow> PackedUserOp \<Rightarrow> js_error + string) \<Rightarrow> UserOperation \<Rightarrow> answers option \<Rightarrow> fill_options
     \<Rightarrow> js_error + string" where
  "asyncSignUserOp E signTyped op ep opts =
     (case ep of
        None \<Rightarrow> Inl TypeError
      | Some a \<Rightarrow>
          bindE (a_chainId a) (\<lambda>chainId.
          bindE (isEip7702InitCode E (Some (uo_initCode op))) (\<lambda>is7702.
          bindE (if is7702 then
                   bindE (case eip7702delegate opts of
                            Some d \<Rightarrow> Inr d
                          | None \<Rightarrow> bindE (a_getCode a (uo_sender op)) (delegate_of_code E)) (\<lambda>d.
                   updateUserOpForEip7702Hash E op d)
                 else Inr op) (\<lambda>userOpToSign.
          bindE (packUserOp E userOpToSign) (signTyped (a_entryPoint a) chainId)))))"

definition fillAndSign ::
  "ethers \<Rightarrow> (string \<Rightarrow> string) \<Rightarrow> eip712 \<Rightarrow> (string \<Rightarrow> int \<Rightarrow> PackedUserOp \<Rightarrow> js_error + string)
     \<Rightarrow> PartialUserOp \<Rightarrow> answers option \<Rightarrow> fill_options \<Rightarrow> js_error + UserOperation" where
  "fillAndSign E lower H signTyped op ep opts =
     bindE (fillUserOp E lower H op ep opts) (\<lambda>op2.
     bindE (asyncSignUserOp E signTyped op2 ep opts) (\<lambda>signature.
     Inr (op2\<lparr>uo_signature := signature\<rparr>)))"

definition fillSignAndPack ::
  "ethers \<Rightarrow> (string \<Rightarrow> string) \<Rightarrow> eip712 \<Rightarrow> (string \<Rightarrow> int \<Rightarrow> PackedUserOp \<Rightarrow> js_error + string)
     \<Rightarrow> PartialUserOp \<Rightarrow> answers option \<Rightarrow> fill_options \<Rightarrow> js_error + PackedUserOp" where
  "fillSignAndPack E lower H signTyped op ep opts =
     bindE (fillAndSign E lower H signTyped op ep opts) (packUserOp E)"

end
