(* ===== verification/User_Op_Properties.thy ===== *)
theory User_Op_Properties
  imports User_Op_Fill Create2_Properties
begin

text \<open>
  The client and the contracts agree on user operations: what the client packs, the contracts
  unpack, and what it hashes for the signature is what \<open>UserOperationLib\<close> hashes on chain.
\<close>

section \<open>Packed fields\<close>

text \<open>
  C29. Packing is inverse to unpacking on chain, and in the client up to \<open>2 ^ 53\<close>. Four limits that fit 128 bits are
  read back unchanged by \<open>unpackVerificationGasLimit\<close>, \<open>unpackCallGasLimit\<close>,
  \<open>unpackMaxPriorityFeePerGas\<close> and \<open>unpackMaxFeePerGas\<close> from the words that the client sends. The client's own
  \<open>unpackAccountGasLimits\<close> reads a limit of at most \<open>2 ^ 53\<close> back unchanged and rounds a larger one to a
  JavaScript number. A limit that does not fit is refused.
\<close>

theorem client_packing_roundtrip:
  assumes "ethers_ok E" and "0 \<le> v" "0 \<le> c" "0 \<le> t" "0 \<le> m"
  shows "(if v < 2 ^ 128 \<and> c < 2 ^ 128 \<and> t < 2 ^ 128 \<and> m < 2 ^ 128 then
      \<exists>l f. packAccountGasLimits E v c = Inr l \<and> packAccountGasLimits E t m = Inr f
        \<and> unat (unpackVerificationGasLimit (op\<lparr>po_accountGasLimits := data_word l, po_gasFees := data_word f\<rparr>)) = nat v
        \<and> unat (unpackCallGasLimit (op\<lparr>po_accountGasLimits := data_word l, po_gasFees := data_word f\<rparr>)) = nat c
        \<and> unat (unpackMaxPriorityFeePerGas (op\<lparr>po_accountGasLimits := data_word l, po_gasFees := data_word f\<rparr>)) = nat t
        \<and> unat (unpackMaxFeePerGas (op\<lparr>po_accountGasLimits := data_word l, po_gasFees := data_word f\<rparr>)) = nat m
        \<and> unpackAccountGasLimits l = (Num (if v \<le> 2 ^ 53 then v else int (to_double (nat v))),
            Num (if c \<le> 2 ^ 53 then c else int (to_double (nat c))))
    else packAccountGasLimits E v c = Inl (Rejected ''value out of range'')
       \<or> packAccountGasLimits E t m = Inl (Rejected ''value out of range''))"
proof (cases "v < 2 ^ 128 \<and> c < 2 ^ 128 \<and> t < 2 ^ 128 \<and> m < 2 ^ 128")
  case True
  then have n: "nat v < 2 ^ 128" "nat c < 2 ^ 128" "nat t < 2 ^ 128" "nat m < 2 ^ 128"
    using assms by (simp_all add: nat_less_iff)
  have d: "int (to_double (nat x)) = (if x \<le> 2 ^ 53 then x else int (to_double (nat x)))" if "0 \<le> x" for x
    using that to_double_exact[of "nat x"] by (simp add: nat_le_iff)
  have "(Num (int (to_double (nat v))), Num (int (to_double (nat c))))
      = (Num (if v \<le> 2 ^ 53 then v else int (to_double (nat v))), Num (if c \<le> 2 ^ 53 then c else int (to_double (nat c))))"
    using d[OF assms(2)] d[OF assms(3)] by (simp only:)
  note client = trans[OF unpackAccountGasLimits_packed[OF n(1,2)] this]
  show ?thesis
    using True assms(2-5) packAccountGasLimits_ok[OF assms(1)] packed_word_halves[OF n(1,2)] packed_word_halves[OF n(3,4)] client
    by (simp add: unpackVerificationGasLimit_def unpackCallGasLimit_def unpackMaxPriorityFeePerGas_def
        unpackMaxFeePerGas_def)
next
  case False
  then have "2 ^ 128 \<le> v \<or> 2 ^ 128 \<le> c \<or> 2 ^ 128 \<le> t \<or> 2 ^ 128 \<le> m" by linarith
  then show ?thesis using packAccountGasLimits_range[OF assms(1)] assms False by metis
qed

definition demo_po :: PackedUserOperation where
  "demo_po = \<lparr>po_sender = 0, po_nonce = 0, po_initCode = [], po_callData = [], po_accountGasLimits = 0,
     po_preVerificationGas = 0, po_gasFees = 0, po_paymasterAndData = [], po_signature = []\<rparr>"

text \<open>The first number that a JavaScript number cannot hold.\<close>

lemma to_double_rounds: "to_double (2 ^ 53 + 1) = 2 ^ 53"
proof -
  have "bit_length (2 ^ 53 + 1) \<le> 54" "\<not> bit_length (2 ^ 53 + 1) \<le> 53" unfolding bit_length_le_iff by simp_all
  then have "bit_length (2 ^ 53 + 1) - 53 = 1" by simp
  then show ?thesis by (simp add: to_double_def)
qed

theorem client_packing_roundtrip_witness:
  "(\<exists>l f. packAccountGasLimits demo_ethers 150000 9007199254740993 = Inr l \<and> packAccountGasLimits demo_ethers 1 9 = Inr f
     \<and> unat (unpackCallGasLimit (demo_po\<lparr>po_accountGasLimits := data_word l, po_gasFees := data_word f\<rparr>)) = 9007199254740993
     \<and> unpackAccountGasLimits l = (Num 150000, Num 9007199254740992))
   \<and> (packAccountGasLimits demo_ethers 150000 (2 ^ 128) = Inl (Rejected ''value out of range'')
     \<or> packAccountGasLimits demo_ethers 1 9 = Inl (Rejected ''value out of range''))"
  using client_packing_roundtrip[OF demo_ethers_ok, of 150000 9007199254740993 1 9 demo_po]
    client_packing_roundtrip[OF demo_ethers_ok, of 150000 "2 ^ 128" 1 9 demo_po] to_double_rounds
  by fastforce

section \<open>Hashes\<close>

text \<open>
  The documented behaviour of the ABI encoder on static types: one 32-byte word a value, numbers and
  addresses padded on the left.
\<close>

fun abi_word :: "string \<times> abi_value \<Rightarrow> bytes option" where
  "abi_word (t, AbiInt v) = (if t = ''uint256'' \<and> 0 \<le> v \<and> v < 2 ^ 256 then Some (be_bytes 32 (nat v)) else None)"
| "abi_word (t, AbiHex s) = (case unhx s of
     None \<Rightarrow> None
   | Some bs \<Rightarrow> if s = hx bs \<and> (t = ''bytes32'' \<and> length bs = 32 \<or> t = ''address'' \<and> length bs = 20)
       then Some (be_bytes 32 (be_val bs)) else None)"

definition abi_ok :: "ethers \<Rightarrow> bool" where
  "abi_ok E \<longleftrightarrow> (\<forall>vs ws. map abi_word vs = map Some ws \<longrightarrow> abiEncode E vs = Inr (hx (concat ws)))"

lemma demo_abi_ok: "abi_ok demo_ethers"
proof -
  have "map abi_word vs = map Some ws \<Longrightarrow> demo_abi vs = Inr (concat ws)" for vs ws
  proof (induction vs arbitrary: ws rule: demo_abi.induct)
    case 1
    then show ?case by simp
  next
    case (2 t v vs)
    then show ?case by (cases ws) (auto split: if_splits)
  next
    case (3 t s vs)
    from "3.prems" obtain w us where ws: "ws = w # us" "map abi_word vs = map Some us"
      "abi_word (t, AbiHex s) = Some w" by (cases ws) auto
    from ws(3) obtain bs where "unhx s = Some bs" "w = be_bytes 32 (be_val bs)"
      by (auto split: option.splits if_splits)
    with "3.IH"[OF ws(2)] ws(1) show ?case by (simp add: on_data_def)
  qed
  then show ?thesis by (simp add: abi_ok_def demo_ethers_def)
qed

lemma abi_ok_encode: "abi_ok E \<Longrightarrow> map abi_word vs = map Some ws \<Longrightarrow> abiEncode E vs = Inr (hx (concat ws))"
  by (simp add: abi_ok_def)

text \<open>The packed operation as the contract receives it, and the client's hash on its byte strings.\<close>

definition on_chain_op :: "PackedUserOp \<Rightarrow> PackedUserOperation" where
  "on_chain_op p = \<lparr>
     po_sender = of_nat (be_val (the (unhx (pu_sender p)))),
     po_nonce = word_of_int (pu_nonce p),
     po_initCode = the (unhx (pu_initCode p)),
     po_callData = the (unhx (pu_callData p)),
     po_accountGasLimits = data_word (pu_accountGasLimits p),
     po_preVerificationGas = word_of_int (pu_preVerificationGas p),
     po_gasFees = data_word (pu_gasFees p),
     po_paymasterAndData = the (unhx (pu_paymasterAndData p)),
     po_signature = the (unhx (pu_signature p))\<rparr>"

definition keccak_word :: "ethers \<Rightarrow> bytes \<Rightarrow> uint256" where
  "keccak_word E bs = of_nat (be_val (ethers_keccak E bs))"

text \<open>An operation whose fields are in the ranges of their Solidity types.\<close>

definition user_op_wf :: "UserOperation \<Rightarrow> bool" where
  "user_op_wf op \<longleftrightarrow> (\<exists>s i c pd. uo_sender op = hx s \<and> length s = 20 \<and> uo_initCode op = hx i
       \<and> uo_callData op = hx c \<and> uo_paymasterData op = hx pd)
     \<and> (\<exists>pm. uo_paymaster op = hx pm \<and> length pm = 20)
     \<and> 0 \<le> uo_nonce op \<and> uo_nonce op < 2 ^ 256
     \<and> 0 \<le> uo_preVerificationGas op \<and> uo_preVerificationGas op < 2 ^ 256
     \<and> (\<forall>x \<in> {uo_callGasLimit op, uo_verificationGasLimit op, uo_maxFeePerGas op, uo_maxPriorityFeePerGas op,
           uo_paymasterVerificationGasLimit op, uo_paymasterPostOpGasLimit op}. 0 \<le> x \<and> x < 2 ^ 128)"

lemma packUserOp_wf:
  assumes "ethers_ok E" and "user_op_wf op"
  obtains p s i c pm where "packUserOp E op = Inr p" and "pu_sender p = hx s" "length s = 20"
    and "pu_initCode p = hx i" "pu_callData p = hx c" "pu_paymasterAndData p = hx pm"
    and "pu_accountGasLimits p = hx (be_bytes 16 (nat (uo_verificationGasLimit op)) @ be_bytes 16 (nat (uo_callGasLimit op)))"
    and "pu_gasFees p = hx (be_bytes 16 (nat (uo_maxPriorityFeePerGas op)) @ be_bytes 16 (nat (uo_maxFeePerGas op)))"
    and "pu_nonce p = uo_nonce op" "pu_preVerificationGas p = uo_preVerificationGas op"
proof -
  note wf = assms(2)[unfolded user_op_wf_def]
  from wf obtain s i c pd pa where o: "uo_sender op = hx s" "length s = 20" "uo_initCode op = hx i"
    "uo_callData op = hx c" "uo_paymasterData op = hx pd" "uo_paymaster op = hx pa" by auto
  have l: "packAccountGasLimits E (uo_verificationGasLimit op) (uo_callGasLimit op)
      = Inr (hx (be_bytes 16 (nat (uo_verificationGasLimit op)) @ be_bytes 16 (nat (uo_callGasLimit op))))"
    using wf by (intro packAccountGasLimits_ok[OF assms(1)]) simp_all
  have f: "packAccountGasLimits E (uo_maxPriorityFeePerGas op) (uo_maxFeePerGas op)
      = Inr (hx (be_bytes 16 (nat (uo_maxPriorityFeePerGas op)) @ be_bytes 16 (nat (uo_maxFeePerGas op))))"
    using wf by (intro packAccountGasLimits_ok[OF assms(1)]) simp_all
  have "\<exists>d. packPaymasterData E (uo_paymaster op) (uo_paymasterVerificationGasLimit op)
      (uo_paymasterPostOpGasLimit op) (uo_paymasterData op) = Inr (hx d)"
    unfolding o(5,6) by (rule exI, rule packPaymasterData_ok[OF assms(1)]) (use wf in simp_all)
  then obtain d where d: "(if 20 \<le> length (uo_paymaster op) \<and> uo_paymaster op \<noteq> AddressZero
      then packPaymasterData E (uo_paymaster op) (uo_paymasterVerificationGasLimit op)
             (uo_paymasterPostOpGasLimit op) (uo_paymasterData op) else Inr ''0x'') = Inr (hx d)"
    using hx_Nil by metis
  have "packUserOp E op = Inr \<lparr>pu_sender = uo_sender op, pu_nonce = uo_nonce op,
      pu_initCode = uo_initCode op, pu_callData = uo_callData op,
      pu_accountGasLimits = hx (be_bytes 16 (nat (uo_verificationGasLimit op)) @ be_bytes 16 (nat (uo_callGasLimit op))),
      pu_preVerificationGas = uo_preVerificationGas op,
      pu_gasFees = hx (be_bytes 16 (nat (uo_maxPriorityFeePerGas op)) @ be_bytes 16 (nat (uo_maxFeePerGas op))),
      pu_paymasterAndData = hx d, pu_signature = uo_signature op\<rparr>"
    unfolding packUserOp_def l f d by simp
  then show thesis by (rule that[OF _ _ o(2)]) (simp_all add: o)
qed

text \<open>
  The hash that the client signs is the hash that the contract checks. For every operation with
  fields in range, packing succeeds, and the byte string that \<open>encodeUserOp\<close> hashes is the one that
  \<open>UserOperationLib.encode\<close> builds from the packed operation on chain.
\<close>

theorem client_encoding_is_contract_encoding:
  assumes "ethers_ok E" and "abi_ok E" and "user_op_wf op" and "length typehash = 32"
  shows "\<exists>p. packUserOp E op = Inr p
    \<and> encodeUserOp E (hx typehash) op True
      = Inr (hx (encode (keccak_word E) (of_nat (be_val typehash)) (on_chain_op p) 0))"
proof -
  obtain p s i c pm where p: "packUserOp E op = Inr p" "pu_sender p = hx s" "length s = 20"
    "pu_initCode p = hx i" "pu_callData p = hx c" "pu_paymasterAndData p = hx pm"
    "pu_accountGasLimits p = hx (be_bytes 16 (nat (uo_verificationGasLimit op)) @ be_bytes 16 (nat (uo_callGasLimit op)))"
    "pu_gasFees p = hx (be_bytes 16 (nat (uo_maxPriorityFeePerGas op)) @ be_bytes 16 (nat (uo_maxFeePerGas op)))"
    "pu_nonce p = uo_nonce op" "pu_preVerificationGas p = uo_preVerificationGas op"
    using packUserOp_wf[OF assms(1,3)] .
  have word: "be_bytes 32 (unat (of_nat (be_val bs) :: uint256)) = be_bytes 32 (be_val bs)" if "length bs = 32" for bs
    using be_val_less[of bs] that by (simp add: unat_of_nat)
  have addr: "be_bytes 32 (unat (of_nat (be_val s) :: address)) = be_bytes 32 (be_val s)"
    using be_val_less[of s] p(3) by (simp add: unat_of_nat)
  have num: "be_bytes 32 (unat (word_of_int x :: uint256)) = be_bytes 32 (nat x)" if "0 \<le> x" "x < 2 ^ 256" for x
    using that by (simp add: unsigned_of_int take_bit_int_eq_self)
  have range: "0 \<le> uo_nonce op" "uo_nonce op < 2 ^ 256" "0 \<le> uo_preVerificationGas op" "uo_preVerificationGas op < 2 ^ 256"
    using assms(3) by (simp_all add: user_op_wf_def)
  have k: "length (ethers_keccak E bs) = 32" for bs using ethers_keccak_hx(2)[OF assms(1)] .
  define ws where "ws = [typehash, be_bytes 32 (be_val s), be_bytes 32 (nat (uo_nonce op)),
    ethers_keccak E i, ethers_keccak E c,
    be_bytes 16 (nat (uo_verificationGasLimit op)) @ be_bytes 16 (nat (uo_callGasLimit op)),
    be_bytes 32 (nat (uo_preVerificationGas op)),
    be_bytes 16 (nat (uo_maxPriorityFeePerGas op)) @ be_bytes 16 (nat (uo_maxFeePerGas op)), ethers_keccak E pm]"
  have "encodeUserOp E (hx typehash) op True = abiEncode E
      [(''bytes32'', AbiHex (hx typehash)), (''address'', AbiHex (hx s)), (''uint256'', AbiInt (uo_nonce op)),
       (''bytes32'', AbiHex (hx (ws ! 3))), (''bytes32'', AbiHex (hx (ws ! 4))), (''bytes32'', AbiHex (hx (ws ! 5))),
       (''uint256'', AbiInt (uo_preVerificationGas op)), (''bytes32'', AbiHex (hx (ws ! 7))),
       (''bytes32'', AbiHex (hx (ws ! 8)))]"
    using p by (simp add: encodeUserOp_def ethers_keccak_hx[OF assms(1)] ws_def)
  also have "\<dots> = Inr (hx (concat ws))"
    by (rule abi_ok_encode[OF assms(2)]) (use assms(4) p(3) range k in \<open>simp add: ws_def be_bytes_be_val\<close>)
  also have "concat ws = encode (keccak_word E) (of_nat (be_val typehash)) (on_chain_op p) 0"
    using p assms(4) k range word addr num
    by (simp add: ws_def encode_def on_chain_op_def keccak_word_def data_word_def be_bytes_be_val)
  finally show ?thesis using p(1) by blast
qed

lemma demo_user_op_wf: "user_op_wf (DefaultsForUserOp\<lparr>uo_sender := hx (replicate 20 1), uo_initCode := hx [1, 2]\<rparr>)"
proof -
  have "''0x'' = hx []" by (simp add: hx_Nil)
  then show ?thesis
    unfolding user_op_wf_def DefaultsForUserOp_def AddressZero_def
    by (auto intro!: exI[of _ "replicate 20 (0 :: 8 word)"] exI[of _ "replicate 20 (1 :: 8 word)"]
        exI[of _ "[] :: bytes"])
qed

theorem client_encoding_is_contract_encoding_witness:
  "\<exists>p. packUserOp demo_ethers (DefaultsForUserOp\<lparr>uo_sender := hx (replicate 20 1), uo_initCode := hx [1, 2]\<rparr>) = Inr p
    \<and> encodeUserOp demo_ethers (hx (replicate 32 3))
        (DefaultsForUserOp\<lparr>uo_sender := hx (replicate 20 1), uo_initCode := hx [1, 2]\<rparr>) True
      = Inr (hx (encode (keccak_word demo_ethers) (of_nat (be_val (replicate 32 3))) (on_chain_op p) 0))"
  by (rule client_encoding_is_contract_encoding[OF demo_ethers_ok demo_abi_ok demo_user_op_wf]) simp

section \<open>Filled operations\<close>

text \<open>
  Fields that the caller gives are kept by every step; the steps only set what is missing.
\<close>

definition extends :: "PartialUserOp \<Rightarrow> PartialUserOp \<Rightarrow> bool" where
  "extends op op' \<longleftrightarrow>
     (\<forall>x. p_sender op = Some x \<longrightarrow> p_sender op' = Some x) \<and> (\<forall>x. p_nonce op = Some x \<longrightarrow> p_nonce op' = Some x)
   \<and> p_initCode op' = p_initCode op \<and> p_callData op' = p_callData op
   \<and> (\<forall>x. p_callGasLimit op = Some x \<longrightarrow> p_callGasLimit op' = Some x)
   \<and> (\<forall>x. p_verificationGasLimit op = Some x \<longrightarrow> p_verificationGasLimit op' = Some x)
   \<and> p_preVerificationGas op' = p_preVerificationGas op
   \<and> (\<forall>x. p_maxFeePerGas op = Some x \<longrightarrow> p_maxFeePerGas op' = Some x)
   \<and> (\<forall>x. p_maxPriorityFeePerGas op = Some x \<longrightarrow> p_maxPriorityFeePerGas op' = Some x)
   \<and> p_paymaster op' = p_paymaster op
   \<and> (\<forall>x. p_paymasterVerificationGasLimit op = Some x \<longrightarrow> p_paymasterVerificationGasLimit op' = Some x)
   \<and> (\<forall>x. p_paymasterPostOpGasLimit op = Some x \<longrightarrow> p_paymasterPostOpGasLimit op' = Some x)
   \<and> p_paymasterData op' = p_paymasterData op \<and> p_signature op' = p_signature op"

lemma extends_refl: "extends op op"
  by (simp add: extends_def)

lemma extends_trans: "extends a b \<Longrightarrow> extends b c \<Longrightarrow> extends a c"
  unfolding extends_def by simp

lemma fill_eip7702_extends: "fill_eip7702 ep opts op = Inr op' \<Longrightarrow> extends op op'"
  by (auto simp: fill_eip7702_def result_simps extends_def split: option.splits)

lemma fill_sender_extends:
  "fill_sender E lower ep ic ia cd op = Inr op' \<Longrightarrow> extends op op' \<and> p_nonce op' = p_nonce op"
  by (auto simp: fill_sender_def result_simps extends_def split: option.splits if_splits)

lemma fill_verificationGas_extends:
  "fill_verificationGas ep ia cd op = Inr op' \<Longrightarrow> extends op op' \<and> p_nonce op' = p_nonce op"
  by (auto simp: fill_verificationGas_def result_simps extends_def split: option.splits)

lemma fill_factory_extends:
  assumes "fill_factory E lower ep ic op = Inr op'"
  shows "extends op op' \<and> p_nonce op' = Some (or_default (p_nonce op) 0)"
proof -
  define op2 where "op2 = (if p_nonce op = None then op\<lparr>p_nonce := Some 0\<rparr> else op)"
  from assms obtain ia cd op3 where "fill_sender E lower ep ic ia cd op2 = Inr op3"
    "fill_verificationGas ep ia cd op3 = Inr op'"
    unfolding fill_factory_def op2_def[symmetric] by (auto simp: result_simps)
  then have "extends op2 op'" "p_nonce op' = p_nonce op2"
    using fill_sender_extends fill_verificationGas_extends extends_trans by metis+
  moreover have "extends op op2" "p_nonce op2 = Some (or_default (p_nonce op) 0)"
    by (auto simp: op2_def extends_def)
  ultimately show ?thesis using extends_trans by metis
qed

lemma fill_initCode_extends: "fill_initCode E lower ep opts op = Inr op' \<Longrightarrow> extends op op'"
  using fill_eip7702_extends fill_factory_extends extends_refl
  by (auto simp: fill_initCode_def result_simps split: option.splits if_splits)

lemma fill_nonce_extends: "fill_nonce ep opts s op = Inr op' \<Longrightarrow> extends op op'"
  by (auto simp: fill_nonce_def result_simps extends_def split: option.splits)

lemma fill_callGas_extends: "fill_callGas ep op = Inr op' \<Longrightarrow> extends op op'"
  by (auto simp: fill_callGas_def result_simps extends_def split: option.splits)

lemma fill_paymaster_extends: "extends op (fill_paymaster op)"
  by (auto simp: fill_paymaster_def extends_def)

lemma fill_fees_extends: "fill_fees ep op = Inr op' \<Longrightarrow> extends op op'"
  by (auto simp: fill_fees_def result_simps extends_def split: option.splits)

lemma fillUserOp_extends:
  assumes "fillUserOp E lower H op ep opts = Inr filled"
  obtains op' pvg where "extends op op'"
    and "filled = (fillUserOpDefaults op' DefaultsForUserOp)\<lparr>uo_preVerificationGas := pvg\<rparr>"
    and "or_default (p_preVerificationGas op) 21000 = 0 \<or> pvg = or_default (p_preVerificationGas op) 21000"
proof -
  from assms obtain op1 op2 op3 op4 where
    f: "fill_initCode E lower ep opts op = Inr op1" "fill_nonce ep opts (p_sender op) op1 = Inr op2"
      "fill_callGas ep op2 = Inr op3" "fill_fees ep (fill_paymaster op3) = Inr op4"
    and r: "(let filled = fillUserOpDefaults op4 DefaultsForUserOp in
      if uo_preVerificationGas filled = 0 then
        bindE (encodeUserOp E (op_typehash H) filled False) (\<lambda>enc.
        bindE (callDataCost E enc) (\<lambda>c. Inr (filled\<lparr>uo_preVerificationGas := c\<rparr>)))
      else Inr filled) = Inr filled"
    by (auto simp: fillUserOp_def result_simps)
  have ext: "extends op op4"
    using fill_initCode_extends[OF f(1)] fill_nonce_extends[OF f(2)] fill_callGas_extends[OF f(3)]
      fill_paymaster_extends[of op3] fill_fees_extends[OF f(4)] extends_trans by metis
  then have p: "p_preVerificationGas op4 = p_preVerificationGas op" by (simp add: extends_def)
  let ?f = "fillUserOpDefaults op4 DefaultsForUserOp"
  have v: "uo_preVerificationGas ?f = or_default (p_preVerificationGas op) 21000"
    by (simp add: fillUserOpDefaults_def DefaultsForUserOp_def p)
  show thesis
  proof (cases "uo_preVerificationGas ?f = 0")
    case True
    with r obtain c where "filled = ?f\<lparr>uo_preVerificationGas := c\<rparr>" by (auto simp: Let_def result_simps)
    with that[OF ext] True v show thesis by metis
  next
    case False
    with r have "filled = ?f\<lparr>uo_preVerificationGas := uo_preVerificationGas ?f\<rparr>" by (simp add: Let_def)
    with that[OF ext] v show thesis by metis
  qed
qed

end
