(* ===== verification/Eip7702_Support.thy ===== *)
theory Eip7702_Support
  imports User_Op_Properties
begin

text \<open>
  The library \<open>Eip7702Support\<close> of \<open>contracts/core/Eip7702Support.sol\<close>, which the EntryPoint uses when it
  hashes an operation whose init code marks an EIP-7702 account, and its agreement with the client's
  \<open>updateUserOpForEip7702Hash\<close>. Init codes and contract code are byte strings; the hash is a parameter.
\<close>

definition EIP7702_PREFIX :: bytes where "EIP7702_PREFIX = [0xef, 0x01, 0x00]"

definition INITCODE_EIP7702_MARKER_BYTES :: bytes where "INITCODE_EIP7702_MARKER_BYTES = [0x77, 0x02]"

text \<open>The first 20 bytes of the calldata argument, which is padded with zeros.\<close>

definition isEip7702InitCode_sol :: "bytes \<Rightarrow> bool" where
  "isEip7702InitCode_sol initCode =
     (if length initCode < 2 then False
      else take 20 (initCode @ replicate 20 0) = INITCODE_EIP7702_MARKER_BYTES @ replicate 18 0)"

text \<open>\<open>_getEip7702Delegate\<close> of the sender's code: \<open>extcodecopy\<close> of 23 bytes pads with zeros.\<close>

definition getEip7702Delegate :: "bytes \<Rightarrow> sol_error + bytes" where
  "getEip7702Delegate senderCode =
     (let code = take 23 (senderCode @ replicate 23 0) in
      if take 3 code \<noteq> EIP7702_PREFIX then
        (if senderCode = [] then Inl (RequireFailed ''sender has no code'')
         else Inl (RequireFailed ''not an EIP-7702 delegate''))
      else Inr (take 20 (drop 3 code)))"

definition getEip7702InitCodeHashOverride :: "(bytes \<Rightarrow> uint256) \<Rightarrow> bytes \<Rightarrow> bytes \<Rightarrow> sol_error + uint256" where
  "getEip7702InitCodeHashOverride keccak senderCode initCode =
     (if \<not> isEip7702InitCode_sol initCode then Inr 0
      else bindE (getEip7702Delegate senderCode) (\<lambda>delegate.
        if length initCode \<le> 20 then Inr (keccak delegate)
        else Inr (keccak (delegate @ drop 20 initCode))))"

section \<open>Agreement with the client\<close>

lemma startsWith_marker: "startsWith (hx ic) INITCODE_EIP7702_MARKER \<longleftrightarrow> take 2 ic = [0x77, 0x02]"
proof -
  have m: "INITCODE_EIP7702_MARKER = hx [0x77, 0x02]"
    by (simp add: INITCODE_EIP7702_MARKER_def hx_def hex_byte_def hexdigit_def)
  have "take 6 (hx ic) = hx (take 2 ic)" using take_hex_bytes[of 2 ic] by (simp add: hx_def)
  then show ?thesis by (simp add: startsWith_def m)
qed

lemma client_marker: "ethers_ok E \<Longrightarrow> isEip7702InitCode E (Some (hx ic)) = Inr (take 2 ic = [0x77, 0x02])"
  by (simp add: isEip7702InitCode_def ethers_hexlifyData startsWith_marker)

lemma sol_marker: "isEip7702InitCode_sol ic \<Longrightarrow> take 2 ic = [0x77, 0x02]"
proof -
  assume "isEip7702InitCode_sol ic"
  then have l: "2 \<le> length ic" and t: "take 20 (ic @ replicate 20 0) = [0x77, 0x02] @ replicate 18 0"
    by (auto simp: isEip7702InitCode_sol_def INITCODE_EIP7702_MARKER_BYTES_def split: if_splits)
  from l have "take 2 ic = take 2 (take 20 (ic @ replicate 20 0))" by simp
  also have "\<dots> = [0x77, 0x02]" unfolding t by simp
  finally show ?thesis .
qed

text \<open>
  C30. For a well-formed EIP-7702 init code, the marker padded to 20 bytes and possibly followed by
  data, the client hashes what the contract hashes: it replaces the marker by the delegate that the
  contract reads from the sender's code. But the client only looks at the two bytes of the marker:
  an init code that starts with them and goes on with anything else is EIP-7702 for the client and
  an ordinary init code for the contract, which then hashes it unchanged.
\<close>

theorem eip7702_init_code_agreement:
  assumes "ethers_ok E" and "uo_initCode op = hx ic"
    and "getEip7702Delegate senderCode = Inr delegate"
  shows "(isEip7702InitCode_sol ic \<longrightarrow> (\<exists>ic'. updateUserOpForEip7702Hash E op (hx delegate) = Inr (op\<lparr>uo_initCode := hx ic'\<rparr>)
      \<and> getEip7702InitCodeHashOverride keccak senderCode ic = Inr (keccak ic')))
    \<and> (take 2 ic = [0x77, 0x02] \<and> \<not> isEip7702InitCode_sol ic \<longrightarrow>
      isEip7702InitCode E (Some (uo_initCode op)) = Inr True
      \<and> getEip7702InitCodeHashOverride keccak senderCode ic = Inr 0)"
proof (intro conjI impI)
  assume sol: "isEip7702InitCode_sol ic"
  have "updateUserOpForEip7702Hash E op (hx delegate) = Inr (op\<lparr>uo_initCode := hx (delegate @ drop 20 ic)\<rparr>)"
    using assms(2) sol_marker[OF sol]
    by (simp add: updateUserOpForEip7702Hash_def client_marker[OF assms(1)] ethers_hexlifyData[OF assms(1)]
        ethers_hexDataSlice[OF assms(1)] ethers_hexConcat2[OF assms(1)])
  moreover have "getEip7702InitCodeHashOverride keccak senderCode ic = Inr (keccak (delegate @ drop 20 ic))"
    using sol assms(3) by (simp add: getEip7702InitCodeHashOverride_def)
  ultimately show "\<exists>ic'. updateUserOpForEip7702Hash E op (hx delegate) = Inr (op\<lparr>uo_initCode := hx ic'\<rparr>)
      \<and> getEip7702InitCodeHashOverride keccak senderCode ic = Inr (keccak ic')" by blast
next
  assume "take 2 ic = [0x77, 0x02] \<and> \<not> isEip7702InitCode_sol ic"
  then show "isEip7702InitCode E (Some (uo_initCode op)) = Inr True"
    "getEip7702InitCodeHashOverride keccak senderCode ic = Inr 0"
    using assms(1,2) by (simp_all add: client_marker getEip7702InitCodeHashOverride_def)
qed

definition demo_7702_op :: "bytes \<Rightarrow> UserOperation" where
  "demo_7702_op ic = DefaultsForUserOp\<lparr>uo_initCode := hx ic\<rparr>"

definition demo_delegated :: bytes where "demo_delegated = [0xef, 0x01, 0x00] @ replicate 20 9"

lemma demo_delegate: "getEip7702Delegate demo_delegated = Inr (replicate 20 9)"
  by (simp add: getEip7702Delegate_def demo_delegated_def EIP7702_PREFIX_def)

theorem eip7702_init_code_agreement_witness:
  "(\<exists>ic'. updateUserOpForEip7702Hash demo_ethers (demo_7702_op [0x77, 0x02]) (hx (replicate 20 9))
      = Inr (demo_7702_op [0x77, 0x02]\<lparr>uo_initCode := hx ic'\<rparr>)
      \<and> getEip7702InitCodeHashOverride (\<lambda>bs. of_nat (be_val bs)) demo_delegated [0x77, 0x02] = Inr (of_nat (be_val ic')))
   \<and> isEip7702InitCode demo_ethers (Some (uo_initCode (demo_7702_op [0x77, 0x02, 1]))) = Inr True
   \<and> getEip7702InitCodeHashOverride (\<lambda>bs. of_nat (be_val bs)) demo_delegated [0x77, 0x02, 1] = Inr 0"
proof -
  have yes: "isEip7702InitCode_sol [0x77, 0x02]" and no: "\<not> isEip7702InitCode_sol [0x77, 0x02, 1]"
    by (simp_all add: isEip7702InitCode_sol_def INITCODE_EIP7702_MARKER_BYTES_def numeral_eq_Suc)
  have op: "uo_initCode (demo_7702_op ic) = hx ic" for ic by (simp add: demo_7702_op_def)
  note agree = eip7702_init_code_agreement[OF demo_ethers_ok op demo_delegate, where keccak = "\<lambda>bs. of_nat (be_val bs)"]
  from agree[of "[0x77, 0x02]"] agree[of "[0x77, 0x02, 1]"] yes no show ?thesis by simp
qed

end
