(* ===== verification/AA_Signer.thy ===== *)
theory AA_Signer
  imports User_Op_Fill
begin

text \<open>
  The senders and the signer of \<open>src/AASigner.ts\<close>: \<open>rpcUserOpSender\<close>, \<open>localUserOpSender\<close> and the class
  \<open>AASigner\<close>, an ethers signer for an account that may not be deployed yet. The answers of the node
  and of the underlying signer to one call are a record; they may differ from call to call.
\<close>

section \<open>Sending by RPC\<close>

text \<open>A property of the object that is sent: \<open>hexValue\<close> of the library accepts numbers, not \<open>undefined\<close>.\<close>

datatype js_value = JsString string | JsInt int | JsUndefined

definition is_hex_string :: "js_value \<Rightarrow> bool" where
  "is_hex_string v = (case v of JsString s \<Rightarrow> startsWith s ''0x'' | _ \<Rightarrow> False)"

fun cleanUserOp :: "(js_value \<Rightarrow> js_error + string) \<Rightarrow> js_value obj \<Rightarrow> js_value obj \<Rightarrow> js_error + js_value obj" where
  "cleanUserOp hexValue [] acc = Inr acc"
| "cleanUserOp hexValue ((k, v) # kvs) acc =
     (if is_hex_string v then cleanUserOp hexValue kvs (obj_set acc k v)
      else bindE (hexValue v) (\<lambda>s. cleanUserOp hexValue kvs (obj_set acc k (JsString s))))"

text \<open>
  \<open>rpcUserOpSender\<close> with its cached chain id: the answer of \<open>eth_sendUserOperation\<close> is dropped, an error
  that wraps another one is replaced by the inner one. It also returns the object that was sent.
\<close>

record rpc_error =
  outer :: js_error
  inner :: "js_error option"

definition rpcUserOpSender ::
  "(js_value \<Rightarrow> js_error + string) \<Rightarrow> js_error + int \<Rightarrow> (js_value obj \<Rightarrow> rpc_error option) \<Rightarrow> int option \<Rightarrow> js_value obj
     \<Rightarrow> (js_error + unit) \<times> int option \<times> js_value obj option" where
  "rpcUserOpSender hexValue net send chainId userOp =
     (case (case chainId of Some c \<Rightarrow> Inr c | None \<Rightarrow> net) of
        Inl e \<Rightarrow> (Inl e, chainId, None)
      | Inr c \<Rightarrow>
          (case cleanUserOp hexValue userOp [] of
             Inl e \<Rightarrow> (Inl e, Some c, None)
           | Inr clean \<Rightarrow>
               (case send clean of
                  None \<Rightarrow> (Inr (), Some c, Some clean)
                | Some e \<Rightarrow> (Inl (or_default (inner e) (outer e)), Some c, Some clean))))"

section \<open>Sending locally\<close>

text \<open>
  \<open>localUserOpSender\<close> calls \<open>handleOps\<close> with the single operation; the gas limit of the transaction is a
  constant. \<open>handleOps\<close>, with the wait for its receipt, is the function of the node.
\<close>

record handle_ops_tx =
  hot_ops :: "PackedUserOp list"
  hot_beneficiary :: string
  hot_maxPriorityFeePerGas :: int
  hot_maxFeePerGas :: int
  hot_gasLimit :: int

definition localUserOpSender ::
  "ethers \<Rightarrow> js_error + string \<Rightarrow> (handle_ops_tx \<Rightarrow> js_error + unit) \<Rightarrow> string option \<Rightarrow> UserOperation \<Rightarrow> js_error + unit" where
  "localUserOpSender E signerAddress handleOps beneficiary userOp =
     bindE (packUserOp E userOp) (\<lambda>p.
     bindE (case beneficiary of Some b \<Rightarrow> Inr b | None \<Rightarrow> signerAddress) (\<lambda>b.
     handleOps \<lparr>hot_ops = [p], hot_beneficiary = b, hot_maxPriorityFeePerGas = uo_maxPriorityFeePerGas userOp,
                hot_maxFeePerGas = uo_maxFeePerGas userOp, hot_gasLimit = 1000000\<rparr>))"

section \<open>The signer\<close>

text \<open>
  Its state: the connected account, whether it is still to be created, and the chain id promise. The
  underlying signer's address, the factory and the index are fixed at construction.
\<close>

record aa_signer =
  account_address :: "string option"
  isPhantom :: bool
  chainId :: "(js_error + int) option"

definition new_signer :: aa_signer where
  "new_signer = \<lparr>account_address = None, isPhantom = True, chainId = None\<rparr>"

text \<open>
  The answers to one call: the signer's address, the factory's \<open>getAddress(owner, salt)\<close>, the network,
  the code of an address (\<open>None\<close> without a provider), the calldata encodings, and the answers that
  \<open>fillUserOp\<close> needs.
\<close>

record signer_answers =
  s_getAddress :: "js_error + string"
  f_address :: string
  f_getAddress :: "string \<Rightarrow> int \<Rightarrow> js_error + string"
  f_createAccount :: "string \<Rightarrow> int \<Rightarrow> string"
  n_chainId :: "(js_error + int) option"
  n_getCode :: "(string \<Rightarrow> js_error + string) option"
  x_execute :: "string option \<Rightarrow> int \<Rightarrow> string option \<Rightarrow> js_error + string"
  fill_answers :: answers

definition getAccountAddress :: "signer_answers \<Rightarrow> string \<Rightarrow> int \<Rightarrow> js_error + string" where
  "getAccountAddress A owner salt = f_getAddress A owner salt"

definition getAccountInitCode :: "ethers \<Rightarrow> signer_answers \<Rightarrow> string \<Rightarrow> int \<Rightarrow> js_error + string" where
  "getAccountInitCode E A owner salt = hexConcat E [f_address A, f_createAccount A owner salt]"

definition connectAccountAddress :: "signer_answers \<Rightarrow> string \<Rightarrow> ('z aa_signer_scheme, unit) io" where
  "connectAccountAddress A address = (\<lambda>st.
     if account_address st \<noteq> None then (Inl (Thrown ''already connected to account''), st)
     else case n_getCode A of
        None \<Rightarrow> (Inl TypeError, st)
      | Some codeOf \<Rightarrow>
          (case codeOf address of
             Inl e \<Rightarrow> (Inl e, st)
           | Inr code \<Rightarrow>
               if length code \<le> 2 then (Inl (Thrown ''cannot connect to non-existing contract''), st)
               else (Inr (), st\<lparr>account_address := Some address, isPhantom := False\<rparr>)))"

definition connect_account :: "signer_answers \<Rightarrow> ('z aa_signer_scheme, string) io" where
  "connect_account A = (\<lambda>st.
     case account_address st of
       Some a \<Rightarrow> (Inr a, st)
     | None \<Rightarrow>
         (case bindE (s_getAddress A) (\<lambda>owner. getAccountAddress A owner 0) of
            Inl e \<Rightarrow> (Inl e, st)
          | Inr a \<Rightarrow> (Inr a, st\<lparr>account_address := Some a\<rparr>)))"

definition syncAccount :: "signer_answers \<Rightarrow> ('z aa_signer_scheme, unit) io" where
  "syncAccount A =
     bindIO (connect_account A) (\<lambda>address.
     bindIO (modifyIO (\<lambda>st. st\<lparr>chainId := n_chainId A\<rparr>)) (\<lambda>_. \<lambda>st.
     if isPhantom st then
       (case n_getCode A of
          None \<Rightarrow> (Inr (), st\<lparr>isPhantom := False\<rparr>)
        | Some codeOf \<Rightarrow>
            (case codeOf address of
               Inl e \<Rightarrow> (Inl e, st)
             | Inr code \<Rightarrow> (Inr (), st\<lparr>isPhantom := (length code = 2)\<rparr>)))
     else (Inr (), st)))"

definition getAddress :: "signer_answers \<Rightarrow> ('z aa_signer_scheme, string) io" where
  "getAddress A = bindIO (syncAccount A) (\<lambda>_. readIO (\<lambda>st. case account_address st of None \<Rightarrow> Inl TypeError | Some a \<Rightarrow> Inr a))"

definition isPhantom_method :: "signer_answers \<Rightarrow> ('z aa_signer_scheme, bool) io" where
  "isPhantom_method A = bindIO (syncAccount A) (\<lambda>_. readIO (\<lambda>st. Inr (isPhantom st)))"

section \<open>Transactions\<close>

record tx_request =
  tr_to :: "string option"
  tr_value :: "int option"
  tr_data :: "string option"
  tr_nonce :: "int option"
  tr_gasLimit :: "int option"
  tr_gasPrice :: "int option"
  tr_maxPriorityFeePerGas :: "int option"
  tr_maxFeePerGas :: "int option"

text \<open>\<open>getAccount\<close> returns the contract object, which the model represents by its address.\<close>

definition getAccount :: "signer_answers \<Rightarrow> ('z aa_signer_scheme, string option) io" where
  "getAccount A = bindIO (syncAccount A) (\<lambda>_. readIO (\<lambda>st. Inr (account_address st)))"

text \<open>The operations of a signer that this one does not have.\<close>

definition connect :: "('z aa_signer_scheme, 'a) io" where
  "connect = throwIO (Thrown ''connect not implemented'')"

definition signMessage :: "string \<Rightarrow> ('z aa_signer_scheme, string) io" where
  "signMessage message = throwIO (Thrown ''signMessage: unsupported by AA'')"

definition signTransaction :: "tx_request \<Rightarrow> ('z aa_signer_scheme, string) io" where
  "signTransaction tx = throwIO (Thrown ''signMessage: unsupported by AA'')"

text \<open>A legacy gas price that is set and not 0 overrides both fees.\<close>

definition tx_fees :: "tx_request \<Rightarrow> int option \<times> int option" where
  "tx_fees tx = (case tr_gasPrice tx of
      Some g \<Rightarrow> if g \<noteq> 0 then (Some g, Some g) else (tr_maxPriorityFeePerGas tx, tr_maxFeePerGas tx)
    | None \<Rightarrow> (tr_maxPriorityFeePerGas tx, tr_maxFeePerGas tx))"

text \<open>The fields that \<open>_createUserOperation\<close> passes to \<open>fillAndSign\<close>.\<close>

definition partial_of_tx :: "int \<Rightarrow> string option \<Rightarrow> string \<Rightarrow> string \<Rightarrow> tx_request \<Rightarrow> PartialUserOp" where
  "partial_of_tx index initCode sender callData tx =
     (let (prio, maxFee) = tx_fees tx in
      \<lparr>p_sender = Some sender, p_nonce = (if initCode = None then tr_nonce tx else Some index),
       p_initCode = initCode, p_callData = Some callData, p_callGasLimit = tr_gasLimit tx,
       p_verificationGasLimit = None, p_preVerificationGas = None,
       p_maxFeePerGas = maxFee, p_maxPriorityFeePerGas = prio,
       p_paymaster = None, p_paymasterVerificationGasLimit = None, p_paymasterPostOpGasLimit = None,
       p_paymasterData = None, p_signature = None\<rparr>)"

definition createUserOperation ::
  "ethers \<Rightarrow> (string \<Rightarrow> string) \<Rightarrow> eip712 \<Rightarrow> (string \<Rightarrow> int \<Rightarrow> PackedUserOp \<Rightarrow> js_error + string) \<Rightarrow> int
     \<Rightarrow> signer_answers \<Rightarrow> tx_request \<Rightarrow> ('z aa_signer_scheme, UserOperation) io" where
  "createUserOperation E lower H signTyped index A tx =
     bindIO (syncAccount A) (\<lambda>_. \<lambda>st.
     (case account_address st of
        None \<Rightarrow> Inl TypeError
      | Some address \<Rightarrow>
          bindE (if isPhantom st
                 then bindE (s_getAddress A) (\<lambda>owner. bindE (getAccountInitCode E A owner 0) (\<lambda>c. Inr (Some c)))
                 else Inr None) (\<lambda>initCode.
          bindE (x_execute A (tr_to tx) (or_default (tr_value tx) 0) (tr_data tx)) (\<lambda>callData.
          fillAndSign E lower H signTyped (partial_of_tx index initCode address callData tx)
            (Some (fill_answers A)) no_options)), st))"

text \<open>
  \<open>sendTransaction\<close> makes the operation, registers for its event and only then sends it;
  \<open>register\<close> and \<open>send\<close> are the steps it is given.
\<close>

definition sendTransaction ::
  "ethers \<Rightarrow> (string \<Rightarrow> string) \<Rightarrow> eip712 \<Rightarrow> (string \<Rightarrow> int \<Rightarrow> PackedUserOp \<Rightarrow> js_error + string) \<Rightarrow> int
     \<Rightarrow> signer_answers \<Rightarrow> (UserOperation \<Rightarrow> ('z aa_signer_scheme, 'r) io) \<Rightarrow> (UserOperation \<Rightarrow> ('z aa_signer_scheme, unit) io)
     \<Rightarrow> tx_request \<Rightarrow> ('z aa_signer_scheme, 'r) io" where
  "sendTransaction E lower H signTyped index A register send tx =
     bindIO (createUserOperation E lower H signTyped index A tx) (\<lambda>userOp.
     bindIO (register userOp) (\<lambda>response.
     bindIO (send userOp) (\<lambda>_. returnIO response)))"

end
