(* ===== verification/AA_Signer_Properties.thy ===== *)
theory AA_Signer_Properties
  imports AA_Signer Eip7702_Support
begin

text \<open>
  The properties of the signer: how its view of the account evolves, and what operations it makes
  of transactions; and of the RPC sender.
\<close>

section \<open>The account over time\<close>

text \<open>
  Every method changes the state as \<open>connectAccountAddress\<close> or \<open>syncAccount\<close> does, with whatever answers.
\<close>

inductive signer_step :: "aa_signer \<Rightarrow> aa_signer \<Rightarrow> bool" where
  connect: "connectAccountAddress A address st = (r, st') \<Longrightarrow> signer_step st st'"
| sync: "syncAccount A st = (r, st') \<Longrightarrow> signer_step st st'"

inductive_cases signer_stepE: "signer_step st st'"

lemma syncAccount_cases:
  assumes "syncAccount A st = (r, st')"
  obtains e where "r = Inl e" "st' = st"
  | a e where "r = Inl e" "account_address st' = Some a" "isPhantom st" "isPhantom st'"
      "account_address st = None \<or> account_address st = Some a"
  | a where "r = Inr ()" "account_address st' = Some a" "isPhantom st' \<longrightarrow> isPhantom st"
      "account_address st = None \<or> account_address st = Some a"
proof (cases "connect_account A st")
  case (Pair res st1)
  show thesis
  proof (cases res)
    case (Inl e)
    with Pair have "st1 = st" by (auto simp: connect_account_def split: option.splits sum.splits)
    with Inl Pair assms have "r = Inl e" "st' = st" by (auto simp: syncAccount_def bindIO_run)
    then show thesis by (rule that(1))
  next
    case (Inr a)
    with Pair have 1: "account_address st1 = Some a" "isPhantom st1 = isPhantom st"
      "account_address st = None \<or> account_address st = Some a"
      by (auto simp: connect_account_def split: option.splits sum.splits)
    show thesis
    proof (cases "isPhantom st")
      case False
      with that(3) Inr Pair assms 1 show thesis by (auto simp: syncAccount_def bindIO_run)
    next
      case True
      with that(2,3) Inr Pair assms 1 show thesis
        by (auto simp: syncAccount_def bindIO_run split: option.splits sum.splits)
    qed
  qed
qed

lemma signer_step_monotone:
  assumes "signer_step st st'"
  shows "account_address st = Some a \<Longrightarrow> account_address st' = Some a"
    and "\<not> isPhantom st \<Longrightarrow> \<not> isPhantom st'"
    and "\<not> isPhantom st' \<Longrightarrow> (\<not> isPhantom st \<longrightarrow> account_address st \<noteq> None) \<Longrightarrow> account_address st' \<noteq> None"
  using assms
  by (auto elim!: signer_stepE syncAccount_cases
      simp: connectAccountAddress_def split: if_splits option.splits sum.splits)

text \<open>
  A signer keeps its account. Over any sequence of calls, with any answers of the node, the address
  it has once connected to or computed never changes, an account once seen deployed is never taken for
  undeployed again, and a signer without an account counts as undeployed.
\<close>

theorem signer_keeps_account:
  assumes "signer_step\<^sup>*\<^sup>* new_signer st" and "signer_step\<^sup>*\<^sup>* st st'"
  shows "(account_address st = Some a \<longrightarrow> account_address st' = Some a)
    \<and> (\<not> isPhantom st \<longrightarrow> \<not> isPhantom st' \<and> account_address st \<noteq> None)"
proof -
  have "\<not> isPhantom st \<longrightarrow> account_address st \<noteq> None"
    using assms(1)
  proof (induction rule: rtranclp_induct)
    case base
    then show ?case by (simp add: new_signer_def)
  next
    case (step u v)
    then show ?case using signer_step_monotone(3) by blast
  qed
  moreover from assms(2) have "(account_address st = Some a \<longrightarrow> account_address st' = Some a)
      \<and> (\<not> isPhantom st \<longrightarrow> \<not> isPhantom st')"
  proof (induction rule: rtranclp_induct)
    case (step u v)
    then show ?case using signer_step_monotone(1,2)[OF step.hyps(2)] by blast
  qed simp
  ultimately show ?thesis by blast
qed

text \<open>A concrete signer: the owner 0x51, whose account is at 0x22...22 and not deployed.\<close>

definition demo_signer_answers :: "string \<Rightarrow> signer_answers" where
  "demo_signer_answers code = \<lparr>
     s_getAddress = Inr ''0x51'', f_address = hx (replicate 20 7),
     f_getAddress = (\<lambda>owner salt. Inr (hx (replicate 20 34))), f_createAccount = (\<lambda>owner salt. hx [1, 2]),
     n_chainId = Some (Inr 1), n_getCode = Some (\<lambda>a. Inr code), x_execute = (\<lambda>to v d. Inr (hx [5])),
     fill_answers = \<lparr>a_entryPoint = ''0xe7'', a_chainId = Inr 1, a_getCode = (\<lambda>a. Inr code),
       a_getTransactionCount = (\<lambda>a. Inr 0), a_estimateGas = (\<lambda>from to d. Inr 1000), a_view = (\<lambda>a f. Inr 4),
       a_getSenderAddress = (\<lambda>c. Inr ''0x''), a_senderCreator = Inr ''0xc0'', a_baseFeePerGas = Inr (Some 3)\<rparr>\<rparr>"

definition demo_synced :: aa_signer where
  "demo_synced = \<lparr>account_address = Some (hx (replicate 20 34)), isPhantom = True, chainId = Some (Inr 1)\<rparr>"

lemma demo_sync: "syncAccount (demo_signer_answers ''0x'') new_signer = (Inr (), demo_synced)"
  by (simp add: syncAccount_def bindIO_run connect_account_def getAccountAddress_def demo_signer_answers_def
      new_signer_def demo_synced_def)

lemma demo_sync_deployed:
  "syncAccount (demo_signer_answers ''0x60'') demo_synced = (Inr (), demo_synced\<lparr>isPhantom := False\<rparr>)"
  by (simp add: syncAccount_def bindIO_run connect_account_def demo_signer_answers_def demo_synced_def)

theorem signer_keeps_account_witness:
  "account_address (demo_synced\<lparr>isPhantom := False\<rparr>) = Some (hx (replicate 20 34))
   \<and> account_address demo_synced = Some (hx (replicate 20 34))"
proof -
  have 1: "signer_step\<^sup>*\<^sup>* new_signer demo_synced"
    using sync[OF demo_sync] by blast
  have 2: "signer_step\<^sup>*\<^sup>* demo_synced (demo_synced\<lparr>isPhantom := False\<rparr>)"
    using sync[OF demo_sync_deployed] by blast
  have a: "account_address demo_synced = Some (hx (replicate 20 34))" by (simp add: demo_synced_def)
  from signer_keeps_account[OF 1 2, of "hx (replicate 20 34)"] a show ?thesis by blast
qed

section \<open>Operations\<close>

lemma fillAndSign_fields:
  assumes "fillAndSign E lower H signTyped op ep opts = Inr filled"
  obtains op' where "extends op op'"
    and "\<And>x. p_sender op' = Some x \<Longrightarrow> uo_sender filled = x" "\<And>x. p_nonce op' = Some x \<Longrightarrow> uo_nonce filled = x"
    and "uo_initCode filled = or_default (p_initCode op) ''0x''"
    and "uo_callData filled = or_default (p_callData op) ''0x''"
    and "\<And>x. p_callGasLimit op = Some x \<Longrightarrow> uo_callGasLimit filled = x"
    and "\<And>x. p_maxFeePerGas op = Some x \<Longrightarrow> uo_maxFeePerGas filled = x"
    and "\<And>x. p_maxPriorityFeePerGas op = Some x \<Longrightarrow> uo_maxPriorityFeePerGas filled = x"
proof -
  from assms obtain f sig where f: "fillUserOp E lower H op ep opts = Inr f" "filled = f\<lparr>uo_signature := sig\<rparr>"
    by (auto simp: fillAndSign_def result_simps)
  obtain op' pvg where "extends op op'"
    "f = (fillUserOpDefaults op' DefaultsForUserOp)\<lparr>uo_preVerificationGas := pvg\<rparr>"
    using f(1) by (rule fillUserOp_extends)
  then show thesis
    using that[of op'] f(2) by (auto simp: extends_def fillUserOpDefaults_def DefaultsForUserOp_def)
qed

lemma createUserOperation_Inr:
  assumes "createUserOperation E lower H signTyped index A tx st = (Inr op, st')"
  obtains address ic callData where "syncAccount A st = (Inr (), st')" "account_address st' = Some address"
    and "(if isPhantom st' then \<exists>owner. s_getAddress A = Inr owner \<and> getAccountInitCode E A owner 0 = Inr (the ic) \<and> ic \<noteq> None
          else ic = None)"
    and "x_execute A (tr_to tx) (or_default (tr_value tx) 0) (tr_data tx) = Inr callData"
    and "fillAndSign E lower H signTyped (partial_of_tx index ic address callData tx) (Some (fill_answers A)) no_options = Inr op"
proof -
  from assms obtain u st1 where 1: "syncAccount A st = (Inr u, st1)" and st': "st1 = st'"
    by (auto simp: createUserOperation_def bindIO_Inr)
  from assms 1 have 2: "(case account_address st' of
        None \<Rightarrow> Inl TypeError
      | Some address \<Rightarrow>
          bindE (if isPhantom st'
                 then bindE (s_getAddress A) (\<lambda>owner. bindE (getAccountInitCode E A owner 0) (\<lambda>c. Inr (Some c)))
                 else Inr None) (\<lambda>initCode.
          bindE (x_execute A (tr_to tx) (or_default (tr_value tx) 0) (tr_data tx)) (\<lambda>callData.
          fillAndSign E lower H signTyped (partial_of_tx index initCode address callData tx)
            (Some (fill_answers A)) no_options))) = Inr op"
    by (auto simp: createUserOperation_def bindIO_run st')
  then obtain address where a: "account_address st' = Some address" by (auto split: option.splits)
  from 2 a obtain ic cd where "(if isPhantom st'
      then bindE (s_getAddress A) (\<lambda>owner. bindE (getAccountInitCode E A owner 0) (\<lambda>c. Inr (Some c)))
      else Inr None) = Inr ic"
    "x_execute A (tr_to tx) (or_default (tr_value tx) 0) (tr_data tx) = Inr cd"
    "fillAndSign E lower H signTyped (partial_of_tx index ic address cd tx) (Some (fill_answers A)) no_options = Inr op"
    by (auto simp: result_simps)
  then show thesis
    using that[of address ic cd] 1 a st' by (auto simp: result_simps split: if_splits)
qed

lemma created_operation:
  assumes "createUserOperation E lower H signTyped index A tx st = (Inr op, st')"
  shows "account_address st' = Some (uo_sender op)"
    and "x_execute A (tr_to tx) (or_default (tr_value tx) 0) (tr_data tx) = Inr (uo_callData op)"
    and "tr_gasLimit tx = Some g \<Longrightarrow> uo_callGasLimit op = g"
    and "tr_gasPrice tx = Some g \<Longrightarrow> g \<noteq> 0 \<Longrightarrow> uo_maxFeePerGas op = g \<and> uo_maxPriorityFeePerGas op = g"
    and "isPhantom st' \<Longrightarrow> uo_nonce op = index
      \<and> (\<exists>owner. s_getAddress A = Inr owner \<and> getAccountInitCode E A owner 0 = Inr (uo_initCode op))"
    and "\<not> isPhantom st' \<Longrightarrow> uo_initCode op = ''0x''"
proof -
  obtain address ic cd where sync: "account_address st' = Some address"
    and ic: "if isPhantom st' then \<exists>owner. s_getAddress A = Inr owner \<and> getAccountInitCode E A owner 0 = Inr (the ic) \<and> ic \<noteq> None
          else ic = None"
    and cd: "x_execute A (tr_to tx) (or_default (tr_value tx) 0) (tr_data tx) = Inr cd"
    and f: "fillAndSign E lower H signTyped (partial_of_tx index ic address cd tx) (Some (fill_answers A)) no_options = Inr op"
    using assms by (rule createUserOperation_Inr)
  let ?p = "partial_of_tx index ic address cd tx"
  have part: "p_sender ?p = Some address" "p_initCode ?p = ic" "p_callData ?p = Some cd"
    "p_callGasLimit ?p = tr_gasLimit tx" "p_maxFeePerGas ?p = snd (tx_fees tx)"
    "p_maxPriorityFeePerGas ?p = fst (tx_fees tx)" "ic \<noteq> None \<Longrightarrow> p_nonce ?p = Some index"
    by (auto simp: partial_of_tx_def split: prod.splits)
  have fees: "tr_gasPrice tx = Some g \<Longrightarrow> g \<noteq> 0 \<Longrightarrow> tx_fees tx = (Some g, Some g)"
    by (simp add: tx_fees_def)
  obtain op' where op': "extends ?p op'" "\<And>x. p_sender op' = Some x \<Longrightarrow> uo_sender op = x"
    "\<And>x. p_nonce op' = Some x \<Longrightarrow> uo_nonce op = x"
    "uo_initCode op = or_default ic ''0x''" "uo_callData op = cd"
    "\<And>x. tr_gasLimit tx = Some x \<Longrightarrow> uo_callGasLimit op = x"
    "\<And>x. snd (tx_fees tx) = Some x \<Longrightarrow> uo_maxFeePerGas op = x"
    "\<And>x. fst (tx_fees tx) = Some x \<Longrightarrow> uo_maxPriorityFeePerGas op = x"
    using f by (rule fillAndSign_fields) (use part in auto)
  have "uo_sender op = address" "ic \<noteq> None \<Longrightarrow> uo_nonce op = index"
    using op'(1-3) part(1,7) by (simp_all add: extends_def)
  with sync ic cd op'(4-8) fees
  show "account_address st' = Some (uo_sender op)"
    "x_execute A (tr_to tx) (or_default (tr_value tx) 0) (tr_data tx) = Inr (uo_callData op)"
    "tr_gasLimit tx = Some g \<Longrightarrow> uo_callGasLimit op = g"
    "tr_gasPrice tx = Some g \<Longrightarrow> g \<noteq> 0 \<Longrightarrow> uo_maxFeePerGas op = g \<and> uo_maxPriorityFeePerGas op = g"
    "isPhantom st' \<Longrightarrow> uo_nonce op = index
      \<and> (\<exists>owner. s_getAddress A = Inr owner \<and> getAccountInitCode E A owner 0 = Inr (uo_initCode op))"
    "\<not> isPhantom st' \<Longrightarrow> uo_initCode op = ''0x''"
    by (auto split: if_splits)
qed

text \<open>
  The operation that the signer makes of a transaction runs the transaction's call from the
  signer's account, with the transaction's gas limit and fees where it has them, a legacy gas price
  standing for both fees; it carries init code exactly when the account is not seen deployed, and
  is then the one that creates the owner's account with salt 0.
\<close>

theorem operation_of_transaction:
  assumes "createUserOperation E lower H signTyped index A tx st = (Inr op, st')"
  shows "account_address st' = Some (uo_sender op)
    \<and> x_execute A (tr_to tx) (or_default (tr_value tx) 0) (tr_data tx) = Inr (uo_callData op)
    \<and> (\<forall>g. tr_gasLimit tx = Some g \<longrightarrow> uo_callGasLimit op = g)
    \<and> (\<forall>g. tr_gasPrice tx = Some g \<and> g \<noteq> 0 \<longrightarrow> uo_maxFeePerGas op = g \<and> uo_maxPriorityFeePerGas op = g)
    \<and> (if isPhantom st' then \<exists>owner. s_getAddress A = Inr owner \<and> getAccountInitCode E A owner 0 = Inr (uo_initCode op)
       else uo_initCode op = ''0x'')"
  using created_operation[OF assms] by simp

definition demo_tx :: tx_request where
  "demo_tx = \<lparr>tr_to = Some ''0xbb'', tr_value = None, tr_data = Some ''0x'', tr_nonce = None,
     tr_gasLimit = Some 50000, tr_gasPrice = Some 7, tr_maxPriorityFeePerGas = None, tr_maxFeePerGas = None\<rparr>"

definition demo_created :: "int \<Rightarrow> UserOperation" where
  "demo_created index = DefaultsForUserOp\<lparr>
     uo_sender := hx (replicate 20 34), uo_nonce := index, uo_initCode := hx (replicate 20 7 @ [1, 2]),
     uo_callData := hx [5], uo_callGasLimit := 50000, uo_verificationGasLimit := 151000,
     uo_maxFeePerGas := 7, uo_maxPriorityFeePerGas := 7, uo_signature := ''0x99''\<rparr>"

lemma demo_not_7702: "isEip7702InitCode demo_ethers (Some (hx (replicate 20 7 @ [1, 2]))) = Inr False"
proof -
  have "hd (take 2 (replicate 20 7 @ [1, 2])) = (7 :: 8 word)" by simp
  moreover have "hd [0x77, 0x02] \<noteq> (7 :: 8 word)" by simp
  ultimately have "take 2 (replicate 20 7 @ [1, 2]) \<noteq> ([0x77, 0x02] :: bytes)" by metis
  then show ?thesis by (simp only: client_marker[OF demo_ethers_ok] simp_thms)
qed

lemma demo_create:
  "createUserOperation demo_ethers id H (\<lambda>ep c p. Inr ''0x99'') index (demo_signer_answers ''0x'') demo_tx new_signer
    = (Inr (demo_created index), demo_synced)"
proof -
  let ?ic = "hx (replicate 20 7 @ [1, 2])" and ?sender = "hx (replicate 20 34)"
  let ?op = "partial_of_tx index (Some ?ic) ?sender (hx [5]) demo_tx"
  let ?ep = "Some (fill_answers (demo_signer_answers ''0x''))"
  have ic: "getAccountInitCode demo_ethers (demo_signer_answers ''0x'') owner 0 = Inr ?ic" for owner
    by (simp add: getAccountInitCode_def demo_signer_answers_def ethers_hexConcat2[OF demo_ethers_ok])
  have part: "?op = \<lparr>p_sender = Some ?sender, p_nonce = Some index, p_initCode = Some ?ic, p_callData = Some (hx [5]),
      p_callGasLimit = Some 50000, p_verificationGasLimit = None, p_preVerificationGas = None,
      p_maxFeePerGas = Some 7, p_maxPriorityFeePerGas = Some 7, p_paymaster = None,
      p_paymasterVerificationGasLimit = None, p_paymasterPostOpGasLimit = None, p_paymasterData = None,
      p_signature = None\<rparr>"
    by (simp add: partial_of_tx_def tx_fees_def demo_tx_def)
  have init: "fill_initCode demo_ethers id ?ep no_options ?op = Inr (?op\<lparr>p_verificationGasLimit := Some 151000\<rparr>)"
    unfolding part using demo_not_7702
    by (simp add: fill_initCode_def fill_factory_def ethers_hexDataSlice[OF demo_ethers_ok] fill_sender_def
        fill_verificationGas_def require_some_def demo_signer_answers_def DefaultsForUserOp_def)
  have fill: "fillUserOp demo_ethers id H ?op ?ep no_options
      = Inr ((demo_created index)\<lparr>uo_signature := ''0x''\<rparr>)"
    unfolding fillUserOp_def part init[unfolded part] bindE_simps
    by (simp add: fill_nonce_def fill_callGas_def fill_paymaster_def fill_fees_def
        fillUserOpDefaults_def DefaultsForUserOp_def demo_created_def)
  have "packAccountGasLimits demo_ethers 151000 50000 = Inr (hx (be_bytes 16 151000 @ be_bytes 16 50000))"
    "packAccountGasLimits demo_ethers 7 7 = Inr (hx (be_bytes 16 7 @ be_bytes 16 7))"
    using packAccountGasLimits_ok[OF demo_ethers_ok] by simp_all
  then have "\<exists>p. packUserOp demo_ethers ((demo_created index)\<lparr>uo_signature := ''0x''\<rparr>) = Inr p"
    by (simp add: packUserOp_def demo_created_def DefaultsForUserOp_def)
  then have sign: "asyncSignUserOp demo_ethers (\<lambda>ep c p. Inr ''0x99'') ((demo_created index)\<lparr>uo_signature := ''0x''\<rparr>)
      ?ep no_options = Inr ''0x99''"
    using demo_not_7702
    by (auto simp: asyncSignUserOp_def demo_signer_answers_def demo_created_def)
  have "fillAndSign demo_ethers id H (\<lambda>ep c p. Inr ''0x99'') ?op ?ep no_options = Inr (demo_created index)"
    by (simp add: fillAndSign_def fill sign) (simp add: demo_created_def)
  moreover have "account_address demo_synced = Some ?sender" "isPhantom demo_synced"
    "s_getAddress (demo_signer_answers ''0x'') = Inr ''0x51''"
    "x_execute (demo_signer_answers ''0x'') t v d = Inr (hx [5])" for t v d
    by (simp_all add: demo_synced_def demo_signer_answers_def)
  ultimately show ?thesis by (simp add: createUserOperation_def bindIO_run demo_sync ic)
qed

theorem operation_of_transaction_witness:
  "account_address demo_synced = Some (uo_sender (demo_created 0))
   \<and> uo_maxFeePerGas (demo_created 0) = 7
   \<and> (\<exists>owner. getAccountInitCode demo_ethers (demo_signer_answers ''0x'') owner 0 = Inr (uo_initCode (demo_created 0)))"
  using operation_of_transaction[OF demo_create[of undefined 0]]
  by (auto simp: demo_synced_def demo_tx_def split: if_splits)

text \<open>
  The index of a signer selects no account. Two signers of the same owner with different indices
  compute the same account and, while it is not deployed, make the same init code; the index only
  becomes the nonce of the operation, which the EntryPoint accepts for a new account only when it is 0.
\<close>

theorem index_becomes_nonce:
  assumes "createUserOperation E lower H signTyped i A tx st = (Inr op1, st1)"
    and "createUserOperation E lower H signTyped j A tx st = (Inr op2, st2)"
    and "isPhantom st1"
  shows "uo_sender op1 = uo_sender op2 \<and> uo_initCode op1 = uo_initCode op2
    \<and> uo_nonce op1 = i \<and> uo_nonce op2 = j"
proof -
  have "syncAccount A st = (Inr (), st1)" "syncAccount A st = (Inr (), st2)"
    using assms(1,2) by (auto elim: createUserOperation_Inr)
  then have "st2 = st1" by simp
  then show ?thesis
    using created_operation(1,5)[OF assms(1)] created_operation(1,5)[OF assms(2)] assms(3) by auto
qed

theorem index_becomes_nonce_witness:
  "uo_sender (demo_created 0) = uo_sender (demo_created 3) \<and> uo_nonce (demo_created 3) = 3"
  using index_becomes_nonce[OF demo_create[of undefined 0] demo_create[of undefined 3]]
  by (simp add: demo_synced_def)

end
