(* ===== verification/User_Event.thy ===== *)
theory User_Event
  imports AA_Signer
begin

text \<open>
  \<open>userEventResponse\<close> of \<open>src/AASigner.ts\<close>: the response to a sent operation, whose \<open>wait\<close> is a promise
  that a listener for \<open>UserOperationEvent\<close> settles. The listener is asynchronous: several events may be
  under way at once, each stopped at one of its awaits, and continue in any order.
\<close>

section \<open>State\<close>

record receipt =
  rc_transactionHash :: string
  rc_status :: int

record event_args =
  ea_userOpHash :: string
  ea_success :: bool

record uo_event =
  ev_blockNumber :: int
  ev_args :: "event_args option"

datatype promise = Pending | Fulfilled receipt | RejectedWith string

datatype invocation = AwaitBlock uo_event | AwaitEventReceipt uo_event | AwaitReasons uo_event receipt

text \<open>
  \<open>listening\<close>: the listener is registered; \<open>timer\<close>: the one-shot query has not been answered yet.
  \<open>delivered\<close> is the history of the events that the listener was called with.
\<close>

record listener_state =
  resolved :: bool
  promise :: promise
  listening :: bool
  timer :: bool
  running :: "invocation list"
  delivered :: "uo_event list"

definition start_listener :: listener_state where
  "start_listener = \<lparr>resolved = False, promise = Pending, listening = True, timer = True,
     running = [], delivered = []\<rparr>"

section \<open>The listener\<close>

text \<open>Only the first settlement of a promise counts.\<close>

definition settle :: "promise \<Rightarrow> listener_state \<Rightarrow> listener_state" where
  "settle p st = (if promise st = Pending then st\<lparr>promise := p\<rparr> else st)"

definition drop_running :: "nat \<Rightarrow> listener_state \<Rightarrow> listener_state" where
  "drop_running k st = st\<lparr>running := take k (running st) @ drop (Suc k) (running st)\<rparr>"

text \<open>A call of the listener: it returns at once when the response is resolved.\<close>

definition deliver :: "uo_event \<Rightarrow> listener_state \<Rightarrow> listener_state" where
  "deliver ev st =
     (if resolved st then st\<lparr>delivered := delivered st @ [ev]\<rparr>
      else st\<lparr>delivered := delivered st @ [ev], running := running st @ [AwaitBlock ev]\<rparr>)"

text \<open>\<open>off\<close>, \<open>resolve\<close> and \<open>resolved = true\<close>.\<close>

definition resolve_with :: "receipt \<Rightarrow> listener_state \<Rightarrow> listener_state" where
  "resolve_with r st = (settle (Fulfilled r) (st\<lparr>listening := False\<rparr>))\<lparr>resolved := True\<rparr>"

definition failure_message :: "string \<Rightarrow> string" where
  "failure_message reason = ''UserOp failed with reason: '' @ reason"

text \<open>
  The answers of the node: the block number when the response was made (one promise for all
  invocations), a receipt, the revert reasons found in its block. A failed answer ends the
  invocation.
\<close>

datatype event_answer = NodeError js_error | GotReceipt receipt | GotReasons "string list"

definition resume_listener :: "string \<Rightarrow> js_error + int \<Rightarrow> nat \<Rightarrow> event_answer \<Rightarrow> listener_state \<Rightarrow> listener_state" where
  "resume_listener userOpHash currentBlock k ans st =
     (case running st ! k of
        AwaitBlock ev \<Rightarrow>
          (case currentBlock of
             Inl e \<Rightarrow> drop_running k st
           | Inr b \<Rightarrow>
               if ev_blockNumber ev \<le> b then drop_running k st
               else case ev_args ev of
                  None \<Rightarrow> drop_running k st
                | Some args \<Rightarrow>
                    if ea_userOpHash args \<noteq> userOpHash then drop_running k st
                    else st\<lparr>running := (running st)[k := AwaitEventReceipt ev]\<rparr>)
      | AwaitEventReceipt ev \<Rightarrow>
          (case ans of
             GotReceipt rcpt \<Rightarrow>
               if (case ev_args ev of None \<Rightarrow> False | Some args \<Rightarrow> ea_success args)
               then resolve_with rcpt (drop_running k st)
               else st\<lparr>running := (running st)[k := AwaitReasons ev (rcpt\<lparr>rc_status := 0\<rparr>)]\<rparr>
           | _ \<Rightarrow> drop_running k st)
      | AwaitReasons ev rcpt \<Rightarrow>
          (case ans of
             GotReasons (reason # _) \<Rightarrow> settle (RejectedWith (failure_message reason)) (drop_running k st)
           | GotReasons [] \<Rightarrow> resolve_with rcpt (drop_running k st)
           | _ \<Rightarrow> drop_running k st))"

text \<open>The events of the provider reach a registered listener; the timer's query calls it once at most.\<close>

inductive listener_step :: "string \<Rightarrow> js_error + int \<Rightarrow> listener_state \<Rightarrow> listener_state \<Rightarrow> bool" for h b where
  emit: "listening st \<Longrightarrow> listener_step h b st (deliver ev st)"
| timer_found: "timer st \<Longrightarrow> listener_step h b st (deliver ev (st\<lparr>timer := False\<rparr>))"
| timer_empty: "timer st \<Longrightarrow> listener_step h b st (st\<lparr>timer := False\<rparr>)"
| answer: "k < length (running st) \<Longrightarrow> listener_step h b st (resume_listener h b k ans st)"

inductive_cases listener_stepE: "listener_step h b st st'"

definition listener_reachable :: "string \<Rightarrow> js_error + int \<Rightarrow> listener_state \<Rightarrow> bool" where
  "listener_reachable h b st = (listener_step h b)\<^sup>*\<^sup>* start_listener st"

section \<open>Invariant\<close>

text \<open>An event of the operation that was mined after the response was made.\<close>

definition own_event :: "string \<Rightarrow> js_error + int \<Rightarrow> listener_state \<Rightarrow> uo_event \<Rightarrow> bool \<Rightarrow> bool" where
  "own_event h b st ev ok \<longleftrightarrow> ev \<in> set (delivered st)
     \<and> (\<exists>n. b = Inr n \<and> n < ev_blockNumber ev)
     \<and> (\<exists>args. ev_args ev = Some args \<and> ea_userOpHash args = h \<and> ea_success args = ok)"

fun invocation_ok :: "string \<Rightarrow> js_error + int \<Rightarrow> listener_state \<Rightarrow> invocation \<Rightarrow> bool" where
  "invocation_ok h b st (AwaitBlock ev) = (ev \<in> set (delivered st))"
| "invocation_ok h b st (AwaitEventReceipt ev) = (\<exists>ok. own_event h b st ev ok)"
| "invocation_ok h b st (AwaitReasons ev r) = (own_event h b st ev False \<and> rc_status r = 0)"

fun promise_ok :: "string \<Rightarrow> js_error + int \<Rightarrow> listener_state \<Rightarrow> promise \<Rightarrow> bool" where
  "promise_ok h b st Pending = True"
| "promise_ok h b st (Fulfilled r) = (\<exists>ev ok. own_event h b st ev ok \<and> (ok \<or> rc_status r = 0))"
| "promise_ok h b st (RejectedWith m) = (\<exists>ev reason. own_event h b st ev False \<and> m = failure_message reason)"

definition listener_inv :: "string \<Rightarrow> js_error + int \<Rightarrow> listener_state \<Rightarrow> bool" where
  "listener_inv h b st \<longleftrightarrow> (\<forall>ivn \<in> set (running st). invocation_ok h b st ivn)
     \<and> promise_ok h b st (promise st) \<and> (listening st \<longleftrightarrow> \<not> resolved st)
     \<and> (resolved st \<longrightarrow> promise st \<noteq> Pending)"

lemma own_event_mono:
  "set (delivered st) \<subseteq> set (delivered st') \<Longrightarrow> own_event h b st ev ok \<Longrightarrow> own_event h b st' ev ok"
  by (auto simp: own_event_def)

lemma invocation_ok_mono:
  "set (delivered st) \<subseteq> set (delivered st') \<Longrightarrow> invocation_ok h b st ivn \<Longrightarrow> invocation_ok h b st' ivn"
  by (cases ivn) (auto intro: own_event_mono)

lemma promise_ok_mono:
  "set (delivered st) \<subseteq> set (delivered st') \<Longrightarrow> promise_ok h b st p \<Longrightarrow> promise_ok h b st' p"
  by (cases p) (auto intro: own_event_mono)

text \<open>Steps that change the promise, or the invocations, of a good state to good ones.\<close>

lemma listener_inv_running:
  assumes "listener_inv h b st" and "set (running st') \<subseteq> set (running st) \<union> new"
    and "\<And>ivn. ivn \<in> new \<Longrightarrow> invocation_ok h b st ivn"
    and "promise st' = promise st" "listening st' = listening st" "resolved st' = resolved st"
    and "delivered st' = delivered st"
  shows "listener_inv h b st'"
  using assms invocation_ok_mono[of st st' h b] promise_ok_mono[of st st' h b]
  unfolding listener_inv_def by (metis Un_iff order_refl subsetD)

lemma listener_inv_drop: "listener_inv h b st \<Longrightarrow> listener_inv h b (drop_running k st)"
  by (rule listener_inv_running[where new = "{}"])
    (auto simp: drop_running_def dest: in_set_takeD in_set_dropD)

lemma listener_inv_settle:
  assumes "listener_inv h b st" and "promise_ok h b st p"
  shows "listener_inv h b (settle p st)"
proof -
  have "delivered (settle p st) = delivered st" "running (settle p st) = running st"
    "listening (settle p st) = listening st" "resolved (settle p st) = resolved st"
    by (simp_all add: settle_def)
  moreover have "promise (settle p st) = (if promise st = Pending then p else promise st)"
    by (simp add: settle_def)
  ultimately show ?thesis
    using assms invocation_ok_mono[of st "settle p st" h b] promise_ok_mono[of st "settle p st" h b]
    unfolding listener_inv_def by (auto split: if_splits)
qed

lemma listener_inv_resolve:
  assumes "listener_inv h b st" and "promise_ok h b st (Fulfilled r)"
  shows "listener_inv h b (resolve_with r st)"
proof -
  let ?st' = "resolve_with r st"
  have f: "delivered ?st' = delivered st" "running ?st' = running st" "\<not> listening ?st'" "resolved ?st'"
    "promise ?st' = (if promise st = Pending then Fulfilled r else promise st)"
    by (simp_all add: resolve_with_def settle_def)
  then show ?thesis
    using assms invocation_ok_mono[of st ?st' h b] promise_ok_mono[of st ?st' h b]
    unfolding listener_inv_def by (auto split: if_splits)
qed

lemma listener_inv_deliver:
  assumes "listener_inv h b st"
  shows "listener_inv h b (deliver ev st)"
proof -
  have sub: "set (delivered st) \<subseteq> set (delivered (deliver ev st))" by (auto simp: deliver_def)
  show ?thesis
    using assms invocation_ok_mono[OF sub, of h b] promise_ok_mono[OF sub, of h b]
    unfolding listener_inv_def by (auto simp: deliver_def split: if_splits)
qed

lemma promise_ok_frame: "delivered st' = delivered st \<Longrightarrow> promise_ok h b st' p = promise_ok h b st p"
  by (cases p) (simp_all add: own_event_def)

lemma listener_inv_resume:
  assumes "listener_inv h b st" and "k < length (running st)"
  shows "listener_inv h b (resume_listener h b k ans st)"
proof -
  let ?d = "drop_running k st"
  have d: "delivered ?d = delivered st" by (simp add: drop_running_def)
  have ok: "invocation_ok h b st (running st ! k)" using assms by (simp add: listener_inv_def)
  have upd: "listener_inv h b (st\<lparr>running := (running st)[k := ivn]\<rparr>)" if "invocation_ok h b st ivn" for ivn
    by (rule listener_inv_running[OF assms(1), where new = "{ivn}"])
      (use that set_update_subset_insert[of "running st" k ivn] in auto)
  show ?thesis
  proof (cases "running st ! k")
    case (AwaitBlock ev)
    with ok have ev: "ev \<in> set (delivered st)" by simp
    show ?thesis
    proof (cases "\<exists>a. own_event h b st ev a")
      case True
      then have "resume_listener h b k ans st = st\<lparr>running := (running st)[k := AwaitEventReceipt ev]\<rparr>"
        using AwaitBlock by (auto simp: resume_listener_def own_event_def)
      with True show ?thesis by (simp add: upd)
    next
      case False
      with ev have "resume_listener h b k ans st = drop_running k st"
        using AwaitBlock by (auto simp: resume_listener_def own_event_def split: sum.splits option.splits)
      then show ?thesis by (simp add: listener_inv_drop[OF assms(1)])
    qed
  next
    case (AwaitEventReceipt ev)
    with ok obtain args where o: "own_event h b st ev (ea_success args)" "ev_args ev = Some args"
      by (auto simp: own_event_def)
    show ?thesis
    proof (cases "ea_success args")
      case True
      with o have "promise_ok h b ?d (Fulfilled r)" for r unfolding promise_ok_frame[OF d] by auto
      then show ?thesis
        using AwaitEventReceipt True o(2) listener_inv_drop[OF assms(1)]
        by (auto simp: resume_listener_def intro!: listener_inv_resolve split: event_answer.splits)
    next
      case False
      then show ?thesis
        using AwaitEventReceipt o listener_inv_drop[OF assms(1)]
        by (auto simp: resume_listener_def intro!: upd split: event_answer.splits)
    qed
  next
    case (AwaitReasons ev r)
    with ok have o: "own_event h b st ev False" "rc_status r = 0" by simp_all
    then have good: "promise_ok h b ?d (Fulfilled r)" "promise_ok h b ?d (RejectedWith (failure_message m))" for m
      unfolding promise_ok_frame[OF d] by auto
    have "resume_listener h b k ans st = ?d \<or> resume_listener h b k ans st = resolve_with r ?d
        \<or> (\<exists>m. resume_listener h b k ans st = settle (RejectedWith (failure_message m)) ?d)"
      using AwaitReasons by (auto simp: resume_listener_def split: event_answer.splits list.splits)
    then show ?thesis
      using listener_inv_drop[OF assms(1)] listener_inv_resolve[OF listener_inv_drop[OF assms(1)] good(1)]
        listener_inv_settle[OF listener_inv_drop[OF assms(1)] good(2)] by metis
  qed
qed

lemma listener_reachable_inv: "listener_reachable h b st \<Longrightarrow> listener_inv h b st"
  unfolding listener_reachable_def
proof (induction rule: rtranclp_induct)
  case base
  then show ?case by (simp add: listener_inv_def start_listener_def)
next
  case (step st st')
  from step.hyps(2) show ?case
  proof cases
    case (timer_found ev)
    have "listener_inv h b (st\<lparr>timer := False\<rparr>)"
      by (rule listener_inv_running[OF step.IH, where new = "{}"]) auto
    with timer_found show ?thesis by (simp add: listener_inv_deliver)
  next
    case timer_empty
    then show ?thesis by (intro listener_inv_running[OF step.IH, where new = "{}"]) auto
  qed (auto intro: listener_inv_deliver listener_inv_resume step.IH)
qed

section \<open>Settling\<close>

lemma promise_step:
  assumes "listener_step h b st st'" and "promise st \<noteq> Pending"
  shows "promise st' = promise st"
  using assms
  by (auto elim!: listener_stepE simp: deliver_def resume_listener_def drop_running_def resolve_with_def settle_def
      split: invocation.splits sum.splits option.splits event_answer.splits list.splits)

lemma promise_steps:
  "(listener_step h b)\<^sup>*\<^sup>* st st' \<Longrightarrow> promise st \<noteq> Pending \<Longrightarrow> promise st' = promise st"
  by (induction rule: rtranclp_induct) (auto dest: promise_step)

text \<open>A concrete run: the operation fails with a reason.\<close>

definition demo_event :: "bool \<Rightarrow> uo_event" where
  "demo_event ok = \<lparr>ev_blockNumber = 8, ev_args = Some \<lparr>ea_userOpHash = ''0xaa'', ea_success = ok\<rparr>\<rparr>"

definition demo_receipt :: receipt where
  "demo_receipt = \<lparr>rc_transactionHash = ''0xbb'', rc_status = 1\<rparr>"

definition demo_waiting :: "bool \<Rightarrow> listener_state" where
  "demo_waiting ok = start_listener\<lparr>running := [AwaitEventReceipt (demo_event ok)], delivered := [demo_event ok]\<rparr>"

definition demo_reasons :: listener_state where
  "demo_reasons = start_listener\<lparr>running := [AwaitReasons (demo_event False) (demo_receipt\<lparr>rc_status := 0\<rparr>)],
     delivered := [demo_event False]\<rparr>"

lemma demo_waiting_reachable: "listener_reachable ''0xaa'' (Inr 7) (demo_waiting ok)"
proof -
  let ?st1 = "deliver (demo_event ok) start_listener"
  have 1: "listener_step ''0xaa'' (Inr 7) start_listener ?st1"
    by (rule emit) (simp add: start_listener_def)
  have "listener_step ''0xaa'' (Inr 7) ?st1 (resume_listener ''0xaa'' (Inr 7) 0 (NodeError TypeError) ?st1)"
    by (rule answer) (simp add: deliver_def start_listener_def)
  also have "resume_listener ''0xaa'' (Inr 7) 0 (NodeError TypeError) ?st1 = demo_waiting ok"
    by (simp add: resume_listener_def deliver_def start_listener_def demo_event_def demo_waiting_def)
  finally show ?thesis using 1 by (auto simp: listener_reachable_def)
qed

lemma demo_reasons_reachable: "listener_reachable ''0xaa'' (Inr 7) demo_reasons"
proof -
  have "listener_step ''0xaa'' (Inr 7) (demo_waiting False)
      (resume_listener ''0xaa'' (Inr 7) 0 (GotReceipt demo_receipt) (demo_waiting False))"
    by (rule answer) (simp add: demo_waiting_def start_listener_def)
  also have "resume_listener ''0xaa'' (Inr 7) 0 (GotReceipt demo_receipt) (demo_waiting False) = demo_reasons"
    by (simp add: resume_listener_def demo_waiting_def demo_reasons_def demo_event_def start_listener_def)
  finally show ?thesis using demo_waiting_reachable[of False] by (auto simp: listener_reachable_def)
qed

definition demo_resolved :: listener_state where
  "demo_resolved = resume_listener ''0xaa'' (Inr 7) 0 (GotReceipt demo_receipt) (demo_waiting True)"

lemma demo_resolved_eq:
  "demo_resolved = start_listener\<lparr>resolved := True, promise := Fulfilled demo_receipt, listening := False,
     delivered := [demo_event True]\<rparr>"
  by (simp add: demo_resolved_def resume_listener_def demo_waiting_def demo_event_def start_listener_def
      resolve_with_def settle_def drop_running_def)

lemma demo_resolved_reachable: "listener_reachable ''0xaa'' (Inr 7) demo_resolved"
proof -
  have "listener_step ''0xaa'' (Inr 7) (demo_waiting True) demo_resolved"
    unfolding demo_resolved_def by (rule answer) (simp add: demo_waiting_def start_listener_def)
  with demo_waiting_reachable[of True] show ?thesis by (auto simp: listener_reachable_def)
qed

text \<open>
  C31. What \<open>wait\<close> reports is what happened to this operation, once. In every interleaving the promise
  is settled only by an event with the operation's hash in a block after the one at which the
  response was made: with a receipt of status 0 unless the event says success, or with the revert
  reason of a failed event; and it keeps its first value for ever.
\<close>

theorem wait_reports_own_event:
  assumes "listener_reachable h b st" and "(listener_step h b)\<^sup>*\<^sup>* st st'"
  shows "(case promise st of
      Pending \<Rightarrow> True
    | Fulfilled r \<Rightarrow> \<exists>ev ok. own_event h b st ev ok \<and> (ok \<or> rc_status r = 0)
    | RejectedWith m \<Rightarrow> \<exists>ev reason. own_event h b st ev False \<and> m = failure_message reason)
    \<and> (promise st \<noteq> Pending \<longrightarrow> promise st' = promise st)"
  using listener_reachable_inv[OF assms(1)] promise_steps[OF assms(2)]
  by (cases "promise st") (auto simp: listener_inv_def)

theorem wait_reports_own_event_witness:
  "\<exists>ev ok. own_event ''0xaa'' (Inr 7) demo_resolved ev ok \<and> (ok \<or> rc_status demo_receipt = 0)"
  using wait_reports_own_event[OF demo_resolved_reachable rtranclp.rtrancl_refl] by (simp add: demo_resolved_eq)

text \<open>
  C32. A rejected response leaks its listener. Resolving removes the listener, and no later event
  starts work; but when the response is rejected with a revert reason it stays registered and
  unresolved, so that every later event of the EntryPoint starts another invocation.
\<close>

theorem rejection_leaks_listener:
  assumes "listener_reachable h b st" and "k < length (running st)" and "running st ! k = AwaitReasons ev r"
    and "\<not> resolved st"
  shows "listening (resume_listener h b k (GotReasons (m # ms)) st)
    \<and> length (running (deliver ev' (resume_listener h b k (GotReasons (m # ms)) st))) = length (running st)
    \<and> \<not> listening (resume_listener h b k (GotReasons []) st)
    \<and> running (deliver ev' (resume_listener h b k (GotReasons []) st)) = running (resume_listener h b k (GotReasons []) st)"
proof -
  have "listening st" using listener_reachable_inv[OF assms(1)] assms(4) by (simp add: listener_inv_def)
  then show ?thesis
    using assms(2-4)
    by (simp add: resume_listener_def drop_running_def settle_def resolve_with_def deliver_def)
qed

theorem rejection_leaks_listener_witness:
  "listening (resume_listener ''0xaa'' (Inr 7) 0 (GotReasons [''0x08'']) demo_reasons)
   \<and> length (running (deliver (demo_event True) (resume_listener ''0xaa'' (Inr 7) 0 (GotReasons [''0x08'']) demo_reasons))) = 1"
  using rejection_leaks_listener[OF demo_reasons_reachable, of 0 "demo_event False" "demo_receipt\<lparr>rc_status := 0\<rparr>"
      "''0x08''" "[]" "demo_event True"]
  by (simp add: demo_reasons_def start_listener_def)

end
