(* ===== verification/Gas_Collector.thy ===== *)
theory Gas_Collector
  imports Js_Base
begin

text \<open>
  \<open>GasCheckCollector\<close> of \<open>gascalc/GasChecker.ts\<close>: the shared collector of all gas checks. Its creation is
  asynchronous and may be requested by several checks before the first request has ended; its table
  takes one row per measured bundle and is written at the end.
\<close>

section \<open>The table\<close>

record gas_test_result =
  gr_title :: string
  gr_count :: nat
  gr_gasUsed :: int
  gr_accountEst :: int
  gr_gasDiff :: "js_num option"

datatype cell = Text string | Number js_num

definition newline :: string where "newline = [CHR 0x0A]"

definition table_headers :: "string list" where
  "table_headers =
     [''handleOps description         '', ''count'', ''total gasUsed'',
      ''per UserOp gas'' @ newline @ ''(delta for'' @ newline @ ''one UserOp)'',
      ''per UserOp overhead'' @ newline @ ''(compared to'' @ newline @ ''account.exec())'']"

record collector =
  c_entryPoint :: string
  c_beneficiary :: string
  tabRows :: "cell list list"

definition initTable :: "string list \<Rightarrow> collector \<Rightarrow> collector" where
  "initTable headers c = c\<lparr>tabRows := [map Text headers]\<rparr>"

text \<open>\<open>addRow\<close>: the total is hidden when there is a difference, the overhead shown only then.\<close>

definition row_cells :: "gas_test_result \<Rightarrow> cell list" where
  "row_cells res =
     [Text (gr_title res), Number (Num (int (gr_count res))),
      (case gr_gasDiff res of None \<Rightarrow> Number (Num (gr_gasUsed res)) | Some _ \<Rightarrow> Text ''''),
      (case gr_gasDiff res of None \<Rightarrow> Text '''' | Some d \<Rightarrow> Number d),
      (case gr_gasDiff res of None \<Rightarrow> Text '''' | Some d \<Rightarrow> Number (js_add d (- gr_accountEst res)))]"

definition addRow :: "gas_test_result \<Rightarrow> collector \<Rightarrow> collector" where
  "addRow res c = c\<lparr>tabRows := tabRows c @ [row_cells res]\<rparr>"

text \<open>
  \<open>doneTable\<close>: the pieces written to the console and the file, in order; \<open>table\<close> is the library's
  formatter.
\<close>

definition doneTable ::
  "(cell list list \<Rightarrow> string) \<Rightarrow> (string \<times> int) obj \<Rightarrow> collector \<Rightarrow> string list" where
  "doneTable table estimates c =
     [''== gas estimate of direct calling the account's \"execute\" method'',
      ''   the destination is \"account.entryPoint()\", which is known to be \"hot\" address used by this account'',
      ''   it little higher than EOA call: its an exec from entrypoint (or account owner) into account contract, verifying msg.sender and exec to target)'',
      table (map (\<lambda>(_, title, est). [Text (''gas estimate \"'' @ title @ ''\"''), Number (Num est)]) estimates),
      table (tabRows c)]"

section \<open>The singleton\<close>

text \<open>\<open>_init\<close> once its EntryPoint is known, with the default argument: the contents of the new object.\<close>

definition init_collector :: "string \<Rightarrow> string \<Rightarrow> collector" where
  "init_collector beneficiary entryPoint =
     initTable table_headers \<lparr>c_entryPoint = entryPoint, c_beneficiary = beneficiary, tabRows = []\<rparr>"

text \<open>
  \<open>init_promise\<close> is the state of the promise stored in \<open>initPromise\<close>; a collector object is named by
  the number of the call of \<open>_init\<close> that made it. \<open>awaiting\<close> is the number of calls of \<open>init\<close> stopped at
  their \<open>await\<close>, \<open>init_runs\<close> a history variable that counts the calls of \<open>_init\<close>, each of which deploys an
  EntryPoint.
\<close>

datatype init_promise = InitPending | InitDone nat | InitFailed js_error

record collector_class =
  inst :: "nat option"
  initPromise :: "init_promise option"
  awaiting :: nat
  init_runs :: nat

definition new_class :: collector_class where
  "new_class = \<lparr>inst = None, initPromise = None, awaiting = 0, init_runs = 0\<rparr>"

text \<open>A call of \<open>init\<close> up to its \<open>await\<close>, and the call after it.\<close>

definition collector_init :: "collector_class \<Rightarrow> collector_class" where
  "collector_init s =
     (if inst s \<noteq> None then s
      else if initPromise s = None
        then s\<lparr>initPromise := Some InitPending, init_runs := init_runs s + 1, awaiting := awaiting s + 1\<rparr>
        else s\<lparr>awaiting := awaiting s + 1\<rparr>)"

definition settled :: "init_promise option \<Rightarrow> bool" where
  "settled p = (case p of None \<Rightarrow> False | Some q \<Rightarrow> q \<noteq> InitPending)"

definition resume_init :: "collector_class \<Rightarrow> (js_error + unit) \<times> collector_class" where
  "resume_init s =
     (case initPromise s of
        Some (InitDone c) \<Rightarrow> (Inr (), s\<lparr>inst := Some c, awaiting := awaiting s - 1\<rparr>)
      | Some (InitFailed e) \<Rightarrow> (Inl e, s\<lparr>awaiting := awaiting s - 1\<rparr>)
      | _ \<Rightarrow> (Inl TypeError, s))"

text \<open>The steps: a call, the end of \<open>_init\<close>, and a call that goes on after its \<open>await\<close>.\<close>

inductive class_step :: "collector_class \<Rightarrow> collector_class \<Rightarrow> bool" where
  call: "class_step s (collector_init s)"
| deployed: "initPromise s = Some InitPending \<Longrightarrow>
    class_step s (s\<lparr>initPromise := Some (InitDone (init_runs s))\<rparr>)"
| failed: "initPromise s = Some InitPending \<Longrightarrow> class_step s (s\<lparr>initPromise := Some (InitFailed e)\<rparr>)"
| resume: "0 < awaiting s \<Longrightarrow> settled (initPromise s) \<Longrightarrow> class_step s (snd (resume_init s))"

inductive_cases class_stepE: "class_step s t"

definition class_reachable :: "collector_class \<Rightarrow> bool" where
  "class_reachable s = class_step\<^sup>*\<^sup>* new_class s"

definition class_inv :: "collector_class \<Rightarrow> bool" where
  "class_inv s \<longleftrightarrow> init_runs s = (if initPromise s = None then 0 else 1)
     \<and> (\<forall>c. initPromise s = Some (InitDone c) \<longrightarrow> c = 1)
     \<and> (\<forall>c. inst s = Some c \<longrightarrow> initPromise s = Some (InitDone c))"

lemma class_step_inv: "class_step s t \<Longrightarrow> class_inv s \<Longrightarrow> class_inv t"
  by (erule class_stepE)
    (auto simp: class_inv_def collector_init_def resume_init_def settled_def split: option.splits init_promise.splits)

lemma class_reachable_inv: "class_reachable s \<Longrightarrow> class_inv s"
  unfolding class_reachable_def
proof (induction rule: rtranclp_induct)
  case base
  then show ?case by (simp add: class_inv_def new_class_def)
qed (rule class_step_inv)

text \<open>Once settled, the promise stays; once set, so does the collector.\<close>

lemma class_step_stays:
  assumes "class_step s t" and "class_inv s"
  shows "(settled (initPromise s) \<longrightarrow> initPromise t = initPromise s) \<and> (inst s = Some c \<longrightarrow> inst t = Some c)"
  using assms
  by (auto elim!: class_stepE simp: class_inv_def collector_init_def resume_init_def settled_def
      split: option.splits init_promise.splits)

lemma class_steps_stay:
  "class_step\<^sup>*\<^sup>* s t \<Longrightarrow> class_inv s \<Longrightarrow>
    class_inv t \<and> (settled (initPromise s) \<longrightarrow> initPromise t = initPromise s) \<and> (inst s = Some c \<longrightarrow> inst t = Some c)"
proof (induction rule: rtranclp_induct)
  case (step t u)
  with class_step_stays[OF step.hyps(2), of c] class_step_inv[OF step.hyps(2)] show ?case by metis
qed simp

text \<open>
  C33. The collector is a singleton, and its failure is final. Whatever the interleaving of calls of
  \<open>init\<close>, at most one EntryPoint is deployed, and a collector once set is never replaced; but when that
  one deployment fails, the rejected promise is kept, so that every later \<open>init\<close> fails with the same
  error and there never is a collector.
\<close>

theorem collector_singleton:
  assumes "class_reachable s" and "class_step\<^sup>*\<^sup>* s t"
  shows "init_runs t \<le> 1 \<and> (inst s = Some c \<longrightarrow> inst t = Some c)
    \<and> (initPromise s = Some (InitFailed e) \<longrightarrow>
        inst t = None \<and> init_runs (collector_init t) = 1 \<and> fst (resume_init (collector_init t)) = Inl e)"
proof -
  note t = class_steps_stay[OF assms(2) class_reachable_inv[OF assms(1)], of c]
  have "inst t = None \<and> init_runs (collector_init t) = 1 \<and> fst (resume_init (collector_init t)) = Inl e"
    if "initPromise s = Some (InitFailed e)"
  proof -
    from that t have p: "initPromise t = Some (InitFailed e)" by (simp add: settled_def)
    with t have "inst t = None" "init_runs t = 1" by (cases "inst t"; auto simp: class_inv_def)+
    with p show ?thesis by (simp add: collector_init_def resume_init_def)
  qed
  then show ?thesis using t by (simp add: class_inv_def)
qed

text \<open>Two checks request the collector, and the deployment fails.\<close>

definition demo_class :: collector_class where
  "demo_class = \<lparr>inst = None, initPromise = Some (InitFailed (Rejected ''nonce too low'')), awaiting = Suc (Suc 0), init_runs = 1\<rparr>"

lemma demo_class_reachable: "class_reachable demo_class"
proof -
  let ?a = "collector_init new_class"
  let ?b = "collector_init ?a"
  have "class_step ?b (?b\<lparr>initPromise := Some (InitFailed (Rejected ''nonce too low''))\<rparr>)"
    by (rule class_step.failed) (simp add: collector_init_def new_class_def)
  then have "class_step ?b demo_class" by (simp add: demo_class_def collector_init_def new_class_def)
  moreover have "class_step\<^sup>*\<^sup>* new_class ?b"
    using class_step.call[of new_class] class_step.call[of ?a] by (rule rtranclp.rtrancl_into_rtrancl[OF r_into_rtranclp[of class_step]])
  ultimately show ?thesis unfolding class_reachable_def by (rule rtranclp.rtrancl_into_rtrancl[rotated])
qed

theorem collector_singleton_witness:
  "inst (snd (resume_init demo_class)) = None
   \<and> fst (resume_init (collector_init (snd (resume_init demo_class)))) = Inl (Rejected ''nonce too low'')"
proof -
  have "class_step demo_class (snd (resume_init demo_class))"
    by (rule class_step.resume) (simp_all add: demo_class_def settled_def)
  from collector_singleton[OF demo_class_reachable r_into_rtranclp[of class_step, OF this], of _ "Rejected ''nonce too low''"]
  show ?thesis by (simp add: demo_class_def)
qed

end
