(* ===== verification/Gas_Bundle.thy ===== *)
theory Gas_Bundle
  imports User_Op_Properties Gas_Collector
begin

text \<open>
  The concurrent part of \<open>runTest\<close> of \<open>gascalc/GasChecker.ts\<close>: one asynchronous function per account makes
  the operation of that account; \<open>Promise.all\<close> runs them interleaved. They share the cache of estimates,
  the variable \<open>accountEst\<close> and the flag \<open>locked\<close>, which a function polls before it signs.
\<close>

section \<open>Parameters of a test\<close>

record gas_test_info =
  gi_title :: string
  gi_diffLastGas :: bool
  gi_paymaster :: "string option"
  gi_count :: nat
  gi_dest :: string
  gi_destValue :: int
  gi_destCallData :: string
  gi_beneficiary :: "string option"
  gi_gasPrice :: int

record gas_test_params =
  gp_title :: string
  gp_count :: nat
  gp_diffLastGas :: bool
  gp_paymaster :: "string option"
  gp_dest :: "string option"
  gp_destValue :: "int option"
  gp_destCallData :: "string option"
  gp_beneficiary :: "string option"
  gp_gasPrice :: "int option"

text \<open>\<open>DefaultGasTestInfo\<close>, its beneficiary set by the collector, and the parameters spread over it.\<close>

definition default_destCallData :: string where "default_destCallData = ''0xb0d691fe''"

definition with_defaults :: "string option \<Rightarrow> gas_test_params \<Rightarrow> gas_test_info" where
  "with_defaults beneficiary params = \<lparr>
     gi_title = gp_title params, gi_diffLastGas = gp_diffLastGas params, gi_paymaster = gp_paymaster params,
     gi_count = gp_count params,
     gi_dest = or_default (gp_dest params) ''self'',
     gi_destValue = or_default (gp_destValue params) 0,
     gi_destCallData = or_default (gp_destCallData params) default_destCallData,
     gi_beneficiary = (case gp_beneficiary params of None \<Rightarrow> beneficiary | Some b \<Rightarrow> Some b),
     gi_gasPrice = or_default (gp_gasPrice params) 10000000000\<rparr>"

section \<open>The node\<close>

datatype bundle_event = UserOperationEvent bool | RevertReasonEvent string string | OtherEvent

record bundle_receipt =
  br_gasUsed :: int
  br_events :: "bundle_event list option"

record estimate_error =
  ee_data :: "string option"
  ee_error :: js_error

text \<open>
  What the checker asks of the chain and of library code: the node of \<open>Create2Factory\<close>, the factory's
  \<open>getAddress\<close>, balances, deposits, estimates, sending and mining a bundle, a random address, time, and
  the encodings of calls. The chain is a state that these functions read and change.
\<close>

record 'n gas_node =
  g_node :: "'n node"
  g_defaultSigner :: string
  g_addStake :: "string \<Rightarrow> int \<Rightarrow> int \<Rightarrow> ('n, unit) io"
  g_accountAddress :: "string \<Rightarrow> string \<Rightarrow> nat \<Rightarrow> 'n \<Rightarrow> js_error + string"
  g_balance :: "string \<Rightarrow> 'n \<Rightarrow> js_error + int"
  g_transfer :: "string \<Rightarrow> int \<Rightarrow> ('n, unit) io"
  g_depositOf :: "string \<Rightarrow> 'n \<Rightarrow> js_error + int"
  g_depositTo :: "string \<Rightarrow> int \<Rightarrow> ('n, unit) io"
  g_handleOps :: "PackedUserOp list \<Rightarrow> string option \<Rightarrow> int option \<Rightarrow> ('n, string) io"
  g_hasReceipt :: "string \<Rightarrow> 'n \<Rightarrow> js_error + bool"
  g_sleep :: "('n, unit) io"
  g_wait :: "string \<Rightarrow> ('n, bundle_receipt) io"
  g_estimateHandleOps :: "PackedUserOp list \<Rightarrow> string option \<Rightarrow> 'n \<Rightarrow> estimate_error + int"
  g_parseError :: "string \<Rightarrow> js_error + string \<times> string"
  g_estimateExec :: "string \<Rightarrow> string \<Rightarrow> 'n \<Rightarrow> js_error + int"
  g_createAddress :: "('n, string) io"
  g_executeData :: "string \<Rightarrow> int \<Rightarrow> string \<Rightarrow> string"
  g_createAccountData :: "string \<Rightarrow> nat \<Rightarrow> string"
  g_factoryBytecode :: string
  g_answers :: "'n \<Rightarrow> answers"
  g_chainId :: "'n \<Rightarrow> js_error + int"

text \<open>\<open>BigNumber.toNumber\<close> refuses what a JavaScript number cannot hold.\<close>

definition toNumber :: "int \<Rightarrow> js_error + int" where
  "toNumber v = (if \<bar>v\<bar> < 2 ^ 53 then Inr v else Inl (Rejected ''overflow''))"

section \<open>State\<close>

text \<open>The fields of the checker and the variables of the module, with the chain.\<close>

record 'n gas_state =
  accounts :: "string obj"
  createdAccounts :: "string list"
  locked :: bool
  gasEstimatePerExec :: "(string \<times> int) obj"
  lastGasUsed :: js_num
  col :: collector
  gas_chain :: 'n

definition on_gas_chain :: "('n, 'a) io \<Rightarrow> ('n gas_state, 'a) io" where
  "on_gas_chain m = (\<lambda>s. case m (gas_chain s) of (r, n) \<Rightarrow> (r, s\<lparr>gas_chain := n\<rparr>))"

definition read_gas :: "('n \<Rightarrow> js_error + 'a) \<Rightarrow> ('n gas_state, 'a) io" where
  "read_gas f = readIO (\<lambda>s. f (gas_chain s))"

lemma keeps_on_gas_chain [keeps_intros]: "(\<And>s n. f (s\<lparr>gas_chain := n\<rparr>) = f s) \<Longrightarrow> keeps f (on_gas_chain m)"
  by (auto simp: keeps_def on_gas_chain_def split: prod.splits)

lemma keeps_read_gas [keeps_intros]: "keeps f (read_gas g)"
  by (simp add: read_gas_def keeps_def)

section \<open>One operation\<close>

text \<open>\<open>accountExec\<close>, and the key of the cache: the call with a zero destination.\<close>

definition exec_data :: "'n gas_node \<Rightarrow> gas_test_info \<Rightarrow> string \<Rightarrow> string" where
  "exec_data N info dest = g_executeData N dest (gi_destValue info) (gi_destCallData info)"

definition estimateGasKey :: "'n gas_node \<Rightarrow> gas_test_info \<Rightarrow> string" where
  "estimateGasKey N info = exec_data N info AddressZero"

definition random_dest :: "'n gas_node \<Rightarrow> ('n, string) io" where
  "random_dest N =
     bindIO (g_createAddress N) (\<lambda>dest.
     bindIO (readIO (g_balance N dest)) (\<lambda>balance.
     bindIO (if balance = 0 then g_transfer N dest 1 else returnIO ()) (\<lambda>_. returnIO dest)))"

definition test_fields :: "gas_test_info \<Rightarrow> string \<Rightarrow> string \<Rightarrow> int \<Rightarrow> PartialUserOp" where
  "test_fields info account callData callGas = \<lparr>
     p_sender = Some account, p_nonce = None, p_initCode = None, p_callData = Some callData,
     p_callGasLimit = Some callGas, p_verificationGasLimit = Some 1000000, p_preVerificationGas = Some 1,
     p_maxFeePerGas = Some (gi_gasPrice info), p_maxPriorityFeePerGas = Some (gi_gasPrice info),
     p_paymaster = gi_paymaster info, p_paymasterVerificationGasLimit = Some 50000,
     p_paymasterPostOpGasLimit = Some 50000, p_paymasterData = None, p_signature = None\<rparr>"

text \<open>
  Where the function of an account has stopped: not started, at the await of a random destination, of
  an estimate, in the polling of the lock (with its call data), or of its signature (with the call data
  and the gas it was started with). The entry of an index beyond the accounts is \<open>undefined\<close>, whose
  destructuring fails.
\<close>

datatype task = NotStarted "string option" | AwaitDest string | AwaitEstimate string string
  | Polling string string | Signing string string int | Made PackedUserOp | FailedWith js_error

record 'n bundle_state =
  gs :: "'n gas_state"
  b_accountEst :: int
  b_rejected :: "js_error option"
  tasks :: "task list"

text \<open>The function continues with an estimate: it sets the shared variable, then tests the lock.\<close>

definition try_lock :: "string \<Rightarrow> string \<Rightarrow> nat \<Rightarrow> 'n bundle_state \<Rightarrow> 'n bundle_state" where
  "try_lock account callData k st =
     (if locked (gs st) then st\<lparr>tasks := (tasks st)[k := Polling account callData]\<rparr>
      else st\<lparr>gs := (gs st)\<lparr>locked := True\<rparr>, tasks := (tasks st)[k := Signing account callData (b_accountEst st)]\<rparr>)"

definition with_dest :: "'n gas_node \<Rightarrow> gas_test_info \<Rightarrow> string \<Rightarrow> string \<Rightarrow> nat \<Rightarrow> 'n bundle_state \<Rightarrow> 'n bundle_state" where
  "with_dest N info account dest k st =
     (let callData = exec_data N info dest in
      case obj_get (gasEstimatePerExec (gs st)) (estimateGasKey N info) of
        Some (_, est) \<Rightarrow> try_lock account callData k (st\<lparr>b_accountEst := est\<rparr>)
      | None \<Rightarrow> st\<lparr>tasks := (tasks st)[k := AwaitEstimate account callData]\<rparr>)"

definition with_estimate :: "'n gas_node \<Rightarrow> gas_test_info \<Rightarrow> string \<Rightarrow> string \<Rightarrow> int \<Rightarrow> nat \<Rightarrow> 'n bundle_state \<Rightarrow> 'n bundle_state" where
  "with_estimate N info account callData est k st =
     try_lock account callData k
       (st\<lparr>gs := (gs st)\<lparr>gasEstimatePerExec :=
              obj_set (gasEstimatePerExec (gs st)) (estimateGasKey N info) (gi_title info, est)\<rparr>,
           b_accountEst := est\<rparr>)"

text \<open>The first failure rejects the promise of \<open>Promise.all\<close>; the other tasks go on.\<close>

definition fail_task :: "js_error \<Rightarrow> nat \<Rightarrow> 'n bundle_state \<Rightarrow> 'n bundle_state" where
  "fail_task e k st = st\<lparr>tasks := (tasks st)[k := FailedWith e],
     b_rejected := (case b_rejected st of None \<Rightarrow> Some e | Some e0 \<Rightarrow> Some e0)\<rparr>"

text \<open>
  Task \<open>k\<close> continues from where it stopped, with the answer of the chain as it is now. The signature
  ends with the \<open>finally\<close> that clears the lock.
\<close>

definition step_task ::
  "ethers \<Rightarrow> (string \<Rightarrow> string) \<Rightarrow> eip712 \<Rightarrow> (string \<Rightarrow> int \<Rightarrow> PackedUserOp \<Rightarrow> js_error + string) \<Rightarrow> 'n gas_node
     \<Rightarrow> gas_test_info \<Rightarrow> nat \<Rightarrow> 'n bundle_state \<Rightarrow> 'n bundle_state" where
  "step_task E lower H signTyped N info k st =
     (if length (tasks st) \<le> k then st else
      case tasks st ! k of
        NotStarted None \<Rightarrow> fail_task TypeError k st
      | NotStarted (Some account) \<Rightarrow>
          if gi_dest info = ''self'' then with_dest N info account account k st
          else if gi_dest info = ''random'' then st\<lparr>tasks := (tasks st)[k := AwaitDest account]\<rparr>
          else with_dest N info account (gi_dest info) k st
      | AwaitDest account \<Rightarrow>
          (case on_gas_chain (random_dest N) (gs st) of
             (Inl e, g) \<Rightarrow> fail_task e k (st\<lparr>gs := g\<rparr>)
           | (Inr dest, g) \<Rightarrow> with_dest N info account dest k (st\<lparr>gs := g\<rparr>))
      | AwaitEstimate account callData \<Rightarrow>
          (case bindE (g_estimateExec N account callData (gas_chain (gs st))) toNumber of
             Inl e \<Rightarrow> fail_task e k st
           | Inr est \<Rightarrow> with_estimate N info account callData est k st)
      | Polling account callData \<Rightarrow> try_lock account callData k st
      | Signing account callData callGas \<Rightarrow>
          (let st' = st\<lparr>gs := (gs st)\<lparr>locked := False\<rparr>\<rparr> in
           case fillSignAndPack E lower H signTyped (test_fields info account callData callGas)
                  (Some (g_answers N (gas_chain (gs st)))) no_options of
             Inl e \<Rightarrow> fail_task e k st'
           | Inr p \<Rightarrow> st'\<lparr>tasks := (tasks st)[k := Made p]\<rparr>)
      | Made p \<Rightarrow> st
      | FailedWith e \<Rightarrow> st)"

section \<open>All operations\<close>

definition entry_keys :: "nat \<Rightarrow> string obj \<Rightarrow> string option list" where
  "entry_keys count accs = map (\<lambda>i. if i < length accs then Some (fst (accs ! i)) else None) [0..<count]"

definition start_bundle :: "gas_test_info \<Rightarrow> 'n gas_state \<Rightarrow> 'n bundle_state" where
  "start_bundle info g = \<lparr>gs = g, b_accountEst = 0, b_rejected = None,
     tasks = map NotStarted (entry_keys (gi_count info) (accounts g))\<rparr>"

text \<open>A schedule lists the tasks that continue, one after the other.\<close>

fun run_tasks ::
  "ethers \<Rightarrow> (string \<Rightarrow> string) \<Rightarrow> eip712 \<Rightarrow> (string \<Rightarrow> int \<Rightarrow> PackedUserOp \<Rightarrow> js_error + string) \<Rightarrow> 'n gas_node
     \<Rightarrow> gas_test_info \<Rightarrow> nat list \<Rightarrow> 'n bundle_state \<Rightarrow> 'n bundle_state" where
  "run_tasks E lower H signTyped N info [] st = st"
| "run_tasks E lower H signTyped N info (k # ks) st =
     run_tasks E lower H signTyped N info ks (step_task E lower H signTyped N info k st)"

text \<open>
  \<open>Promise.all\<close>: the operations in the order of the accounts, or an error. \<open>None\<close> while neither is there.
\<close>

fun all_made :: "task list \<Rightarrow> PackedUserOp list option" where
  "all_made [] = Some []"
| "all_made (Made p # ts) = (case all_made ts of None \<Rightarrow> None | Some ps \<Rightarrow> Some (p # ps))"
| "all_made (t # ts) = None"

definition promise_all :: "'n bundle_state \<Rightarrow> (js_error + PackedUserOp list) option" where
  "promise_all st =
     (case b_rejected st of Some e \<Rightarrow> Some (Inl e) | None \<Rightarrow> map_option Inr (all_made (tasks st)))"

end
