(* ===== verification/Gas_Checker.thy ===== *)
theory Gas_Checker
  imports Gas_Bundle Create2_Properties
begin

text \<open>
  \<open>GasChecker\<close> of \<open>gascalc/GasChecker.ts\<close>: the creation of the accounts under test, the measurement of one
  bundle, and the rows that the test files \<open>gascalc/*.gas.ts\<close> add to the report.
\<close>

section \<open>A checker\<close>

text \<open>
  The fixed parts: the libraries, the owner of the accounts with its two ways to sign, the signer that
  pays, the node.
\<close>

record 'n checker =
  ck_E :: ethers
  ck_lower :: "string \<Rightarrow> string"
  ck_H :: eip712
  ck_ecsign :: "string \<Rightarrow> js_error + string"
  ck_signTyped :: "string \<Rightarrow> int \<Rightarrow> PackedUserOp \<Rightarrow> js_error + string"
  ck_N :: "'n gas_node"
  accountOwner :: string
  globalSigner :: string

definition minDepositOrBalance :: int where "minDepositOrBalance = 100000000000000000"

section \<open>Signing with a wallet\<close>

text \<open>\<open>signUserOp\<close>: \<open>ecsign\<close> is the wallet's signature of a hash.\<close>

definition signUserOp ::
  "ethers \<Rightarrow> eip712 \<Rightarrow> (string \<Rightarrow> js_error + string) \<Rightarrow> UserOperation \<Rightarrow> string \<Rightarrow> int \<Rightarrow> string option \<Rightarrow> js_error + UserOperation" where
  "signUserOp E H ecsign op entryPoint chainId delegate =
     bindE (isEip7702InitCode E (Some (uo_initCode op))) (\<lambda>is7702.
     bindE (if is7702 then
              (case delegate of
                 None \<Rightarrow> Inl (Thrown ''Must have eip7702delegate to sign'')
               | Some d \<Rightarrow> bindE (updateUserOpForEip7702Hash E op d) (\<lambda>op1. getUserOpHash E H op1 entryPoint chainId))
            else getUserOpHash E H op entryPoint chainId) (\<lambda>message.
     bindE (ecsign message) (\<lambda>sig. Inr (op\<lparr>uo_signature := sig\<rparr>))))"

section \<open>Accounts\<close>

definition accountInitCode :: "'n checker \<Rightarrow> string \<Rightarrow> nat \<Rightarrow> js_error + string" where
  "accountInitCode C factory n = hexConcat (ck_E C) [factory, g_createAccountData (ck_N C) (accountOwner C) n]"

text \<open>The fields of the operation that creates an account; nothing is left to the node.\<close>

definition creation_fields :: "string \<Rightarrow> string \<Rightarrow> PartialUserOp" where
  "creation_fields addr initCode = \<lparr>
     p_sender = Some addr, p_nonce = Some 0, p_initCode = Some initCode, p_callData = None,
     p_callGasLimit = Some 30000, p_verificationGasLimit = Some 1000000, p_preVerificationGas = Some 1,
     p_maxFeePerGas = Some 0, p_maxPriorityFeePerGas = None, p_paymaster = None,
     p_paymasterVerificationGasLimit = None, p_paymasterPostOpGasLimit = None, p_paymasterData = None,
     p_signature = None\<rparr>"

definition creation_op :: "'n checker \<Rightarrow> string \<Rightarrow> string \<Rightarrow> string \<Rightarrow> int \<Rightarrow> js_error + PackedUserOp" where
  "creation_op C entryPoint addr initCode chainId =
     bindE (fillUserOp (ck_E C) (ck_lower C) (ck_H C) (creation_fields addr initCode) None no_options) (\<lambda>op.
     bindE (signUserOp (ck_E C) (ck_H C) (ck_ecsign C) op entryPoint chainId None) (packUserOp (ck_E C)))"

text \<open>The part of a round for an account that is not in \<open>createdAccounts\<close>.\<close>

definition create_if_missing :: "'n checker \<Rightarrow> string \<Rightarrow> string \<Rightarrow> nat \<Rightarrow> PackedUserOp list \<Rightarrow> ('n gas_state, PackedUserOp list) io" where
  "create_if_missing C factory addr n ops =
     bindIO (read_gas (getCode (g_node (ck_N C)) addr)) (\<lambda>code.
     bindIO (if length code = 2 then
               bindIO (liftIO (accountInitCode C factory n)) (\<lambda>initCode.
               bindIO (readIO (\<lambda>s. bindE (g_chainId (ck_N C) (gas_chain s))
                 (creation_op C (c_entryPoint (col s)) addr initCode))) (\<lambda>p.
               returnIO (ops @ [p])))
             else returnIO ops) (\<lambda>ops'.
     bindIO (modifyIO (\<lambda>s. s\<lparr>createdAccounts := addr # createdAccounts s\<rparr>)) (\<lambda>_. returnIO ops')))"

text \<open>One round of the loop: the operations collected so far with that for account \<open>n\<close>.\<close>

definition create_one :: "'n checker \<Rightarrow> string \<Rightarrow> nat \<Rightarrow> PackedUserOp list \<Rightarrow> ('n gas_state, PackedUserOp list) io" where
  "create_one C factory n ops =
     bindIO (read_gas (g_accountAddress (ck_N C) factory (accountOwner C) n)) (\<lambda>addr.
     bindIO (readIO (\<lambda>s. Inr (addr \<in> set (createdAccounts s)))) (\<lambda>known.
     bindIO (if known then returnIO ops else create_if_missing C factory addr n ops) (\<lambda>ops'.
     bindIO (modifyIO (\<lambda>s. s\<lparr>accounts := obj_set (accounts s) addr (accountOwner C)\<rparr>)) (\<lambda>_.
     bindIO (read_gas (g_depositOf (ck_N C) addr)) (\<lambda>balance.
     bindIO (if balance \<le> minDepositOrBalance
             then on_gas_chain (g_depositTo (ck_N C) addr (minDepositOrBalance * 5)) else returnIO ()) (\<lambda>_.
     returnIO ops'))))))"

fun create_loop :: "'n checker \<Rightarrow> string \<Rightarrow> nat list \<Rightarrow> PackedUserOp list \<Rightarrow> ('n gas_state, PackedUserOp list) io" where
  "create_loop C factory [] ops = returnIO ops"
| "create_loop C factory (n # ns) ops = bindIO (create_one C factory n ops) (create_loop C factory ns)"

text \<open>The factory is deployed by a fresh \<open>Create2Factory\<close>, with salt 0 and a given gas limit.\<close>

definition factory_init_code :: "'n checker \<Rightarrow> string \<Rightarrow> js_error + string" where
  "factory_init_code C entryPoint =
     bindE (abiEncode (ck_E C) [(''address'', AbiHex entryPoint)]) (\<lambda>arg.
     hexConcat (ck_E C) [g_factoryBytecode (ck_N C), arg])"

definition with_create2 :: "('n create2, 'a) io \<Rightarrow> ('n, 'a) io" where
  "with_create2 m = (\<lambda>n. case m \<lparr>factoryDeployed = False, chain_state = n\<rparr> of (r, c) \<Rightarrow> (r, chain_state c))"

definition deploy_account_factory :: "'n checker \<Rightarrow> ('n gas_state, string) io" where
  "deploy_account_factory C =
     bindIO (readIO (\<lambda>s. factory_init_code C (c_entryPoint (col s)))) (\<lambda>initCode.
     on_gas_chain (with_create2
       (deploy (ck_E C) (g_node (ck_N C)) (g_defaultSigner (ck_N C)) (InitHex initCode) (SaltNum 0) (GasGiven 2885201))))"

definition createAccounts1 :: "'n checker \<Rightarrow> nat \<Rightarrow> ('n gas_state, unit) io" where
  "createAccounts1 C count =
     bindIO (deploy_account_factory C) (\<lambda>factory.
     bindIO (create_loop C factory [0..<count] []) (\<lambda>creationOps.
     bindIO (on_gas_chain (g_handleOps (ck_N C) creationOps (Some (globalSigner C)) None)) (\<lambda>_. returnIO ())))"

section \<open>Measuring a bundle\<close>

text \<open>An estimate that fails with revert data throws the decoded error.\<close>

definition estimate_failure :: "'n gas_node \<Rightarrow> estimate_error \<Rightarrow> js_error" where
  "estimate_failure N e =
     (case ee_data e of
        None \<Rightarrow> ee_error e
      | Some d \<Rightarrow> (case g_parseError N d of
          Inl e' \<Rightarrow> e'
        | Inr (name, args) \<Rightarrow> Thrown (name @ ''('' @ args @ '')'')))"

definition estimate_bundle :: "'n gas_node \<Rightarrow> PackedUserOp list \<Rightarrow> string option \<Rightarrow> ('n gas_state, int) io" where
  "estimate_bundle N ops beneficiary = read_gas (\<lambda>n. case g_estimateHandleOps N ops beneficiary n of
     Inl e \<Rightarrow> Inl (estimate_failure N e) | Inr g \<Rightarrow> Inr g)"

text \<open>At most 100 looks for the receipt, with a pause after each that fails.\<close>

fun poll_receipt :: "nat \<Rightarrow> 'n gas_node \<Rightarrow> string \<Rightarrow> ('n, unit) io" where
  "poll_receipt 0 N h = returnIO ()"
| "poll_receipt (Suc n) N h =
     bindIO (readIO (g_hasReceipt N h)) (\<lambda>found.
     if found then returnIO () else bindIO (g_sleep N) (\<lambda>_. poll_receipt n N h))"

definition is_revert_event :: "bundle_event \<Rightarrow> bool" where
  "is_revert_event e = (case e of RevertReasonEvent _ _ \<Rightarrow> True | _ \<Rightarrow> False)"

text \<open>
  The checks of the receipt: a revert-reason event throws, and the number of successful operations
  must be that of the operations sent; without events it is \<open>undefined\<close>.
\<close>

definition check_receipt :: "nat \<Rightarrow> bundle_receipt \<Rightarrow> js_error + unit" where
  "check_receipt n rcpt =
     (case br_events rcpt of
        None \<Rightarrow> Inl (Thrown ''Some UserOps failed to execute (with no revert reason)'')
      | Some evs \<Rightarrow>
          (case filter is_revert_event evs of
             RevertReasonEvent name reason # _ \<Rightarrow> Inl (Thrown (name @ ''('' @ reason @ '')''))
           | _ \<Rightarrow>
             if length (filter (\<lambda>e. e = UserOperationEvent True) evs) = n then Inr ()
             else Inl (Thrown ''Some UserOps failed to execute (with no revert reason)'')))"

fun js_minus :: "int \<Rightarrow> js_num \<Rightarrow> js_num" where
  "js_minus a (Num b) = Num (a - b)"
| "js_minus a x = NaN"

text \<open>The gas used goes into the result and becomes the reference for the next difference.\<close>

definition test_result :: "gas_test_info \<Rightarrow> int \<Rightarrow> int \<Rightarrow> ('n gas_state, gas_test_result) io" where
  "test_result info accountEst gasUsed = (\<lambda>s.
     (Inr \<lparr>gr_title = gi_title info, gr_count = gi_count info, gr_gasUsed = gasUsed, gr_accountEst = accountEst,
           gr_gasDiff = (if gi_diffLastGas info then Some (js_minus gasUsed (lastGasUsed s)) else None)\<rparr>,
      s\<lparr>lastGasUsed := Num gasUsed\<rparr>))"

text \<open>The second half of \<open>runTest\<close>, once the operations are made.\<close>

definition send_bundle :: "'n checker \<Rightarrow> gas_test_info \<Rightarrow> PackedUserOp list \<Rightarrow> int \<Rightarrow> ('n gas_state, gas_test_result) io" where
  "send_bundle C info userOps accountEst =
     bindIO (estimate_bundle (ck_N C) userOps (gi_beneficiary info)) (\<lambda>gasEst.
     bindIO (on_gas_chain (g_handleOps (ck_N C) userOps (gi_beneficiary info) (Some (gasEst * 3 div 2)))) (\<lambda>h.
     bindIO (on_gas_chain (poll_receipt 100 (ck_N C) h)) (\<lambda>_.
     bindIO (on_gas_chain (g_wait (ck_N C) h)) (\<lambda>rcpt.
     bindIO (liftIO (toNumber (br_gasUsed rcpt))) (\<lambda>gasUsed.
     bindIO (liftIO (check_receipt (length userOps) rcpt)) (\<lambda>_.
     test_result info accountEst gasUsed))))))"

text \<open>
  \<open>runTest\<close>, for a schedule of the functions of the bundle; \<open>None\<close> when the schedule does not complete
  it.
\<close>

definition make_bundle :: "'n checker \<Rightarrow> gas_test_info \<Rightarrow> nat list \<Rightarrow> 'n gas_state \<Rightarrow> 'n bundle_state" where
  "make_bundle C info sched g =
     run_tasks (ck_E C) (ck_lower C) (ck_H C) (ck_signTyped C) (ck_N C) info sched (start_bundle info g)"

definition runTest ::
  "'n checker \<Rightarrow> nat list \<Rightarrow> gas_test_params \<Rightarrow> 'n gas_state \<Rightarrow> ((js_error + gas_test_result) \<times> 'n gas_state) option" where
  "runTest C sched params s =
     (let info = with_defaults (Some (c_beneficiary (col s))) params in
      case createAccounts1 C (gi_count info) s of
        (Inl e, s1) \<Rightarrow> Some (Inl e, s1)
      | (Inr _, s1) \<Rightarrow>
          (let b = make_bundle C info sched s1 in
           case promise_all b of
             None \<Rightarrow> None
           | Some (Inl e) \<Rightarrow> Some (Inl e, gs b)
           | Some (Inr userOps) \<Rightarrow> Some (send_bundle C info userOps (b_accountEst b) (gs b))))"

definition addTestRow ::
  "'n checker \<Rightarrow> nat list \<Rightarrow> gas_test_params \<Rightarrow> 'n gas_state \<Rightarrow> ((js_error + unit) \<times> 'n gas_state) option" where
  "addTestRow C sched params s =
     (case runTest C sched params s of
        None \<Rightarrow> None
      | Some (Inl e, s') \<Rightarrow> Some (Inl e, s')
      | Some (Inr res, s') \<Rightarrow> Some (Inr (), s'\<lparr>col := addRow res (col s')\<rparr>))"

section \<open>Test files\<close>

text \<open>A test is a list of rows to add; the long ones are skipped when \<open>SKIP_LONG\<close> is set.\<close>

record gas_test =
  gt_long :: bool
  gt_rows :: "gas_test_params list"

definition row :: "string \<Rightarrow> nat \<Rightarrow> bool \<Rightarrow> gas_test_params" where
  "row title count diff = \<lparr>gp_title = title, gp_count = count, gp_diffLastGas = diff, gp_paymaster = None,
     gp_dest = None, gp_destValue = None, gp_destCallData = None, gp_beneficiary = None, gp_gasPrice = None\<rparr>"

definition warmup :: gas_test_params where
  "warmup = row ''simple'' 1 False"

definition simple_tests :: "gas_test list" where
  "simple_tests =
     [\<lparr>gt_long = False, gt_rows = [row ''simple'' 1 False, row ''simple - diff from previous'' 2 True]\<rparr>,
      \<lparr>gt_long = True, gt_rows = [row ''simple'' 10 False, row ''simple - diff from previous'' 11 True]\<rparr>]"

definition paymaster_tests :: "string \<Rightarrow> gas_test list" where
  "paymaster_tests pm =
     [\<lparr>gt_long = False, gt_rows =
        [(row ''simple paymaster'' 1 False)\<lparr>gp_paymaster := Some pm\<rparr>,
         (row ''simple paymaster with diff'' 2 True)\<lparr>gp_paymaster := Some pm\<rparr>]\<rparr>,
      \<lparr>gt_long = True, gt_rows =
        [(row ''simple paymaster'' 10 False)\<lparr>gp_paymaster := Some pm\<rparr>,
         (row ''simple paymaster with diff'' 11 True)\<lparr>gp_paymaster := Some pm\<rparr>]\<rparr>]"

definition padEnd :: "nat \<Rightarrow> char \<Rightarrow> string \<Rightarrow> string" where
  "padEnd n c s = s @ replicate (n - length s) c"

definition huge :: string where
  "huge = padEnd 10240 (CHR ''f'') default_destCallData"

definition huge_tests :: "gas_test list" where
  "huge_tests =
     [\<lparr>gt_long = False, gt_rows =
        [(row ''big tx 5k'' 1 False)\<lparr>gp_destCallData := Some huge\<rparr>,
         (row ''big tx - diff from previous'' 2 True)\<lparr>gp_destCallData := Some huge\<rparr>]\<rparr>,
      \<lparr>gt_long = True, gt_rows =
        [(row ''big tx 5k'' 10 False)\<lparr>gp_destCallData := Some huge\<rparr>,
         (row ''big tx - diff from previous'' 11 True)\<lparr>gp_destCallData := Some huge\<rparr>]\<rparr>]"

definition postop_tests :: "string \<Rightarrow> gas_test list" where
  "postop_tests pm =
     [\<lparr>gt_long = False, gt_rows =
        [(row ''paymaster+postOp'' 1 False)\<lparr>gp_paymaster := Some pm\<rparr>,
         (row ''paymaster+postOp with diff'' 2 True)\<lparr>gp_paymaster := Some pm\<rparr>]\<rparr>,
      \<lparr>gt_long = True, gt_rows =
        [(row ''paymaster+postOp'' 10 False)\<lparr>gp_paymaster := Some pm\<rparr>,
         (row ''paymaster+postOp with diff'' 11 True)\<lparr>gp_paymaster := Some pm\<rparr>]\<rparr>]"

text \<open>
  The paymaster of a test file is deployed, staked with one wei and given a deposit of 10 ether;
  \<open>paymasterInit\<close> is the init code that its factory class makes for the EntryPoint.
\<close>

definition setup_paymaster :: "'n checker \<Rightarrow> (string \<Rightarrow> string) \<Rightarrow> ('n gas_state, string) io" where
  "setup_paymaster C paymasterInit = (\<lambda>s.
     bindIO (on_gas_chain (with_create2 (deploy (ck_E C) (g_node (ck_N C)) (g_defaultSigner (ck_N C))
       (InitHex (paymasterInit (c_entryPoint (col s)))) (SaltNum 0) GasDefault))) (\<lambda>paymaster.
     bindIO (on_gas_chain (g_addStake (ck_N C) paymaster 1 1)) (\<lambda>_.
     bindIO (on_gas_chain (g_depositTo (ck_N C) paymaster 10000000000000000000)) (\<lambda>_.
     returnIO paymaster))) s)"

text \<open>The rows of a test, each under its own schedule, until one throws.\<close>

fun add_rows ::
  "'n checker \<Rightarrow> (nat list \<times> gas_test_params) list \<Rightarrow> 'n gas_state \<Rightarrow> ((js_error + unit) \<times> 'n gas_state) option" where
  "add_rows C [] s = Some (Inr (), s)"
| "add_rows C ((sched, params) # rows) s =
     (case addTestRow C sched params s of
        None \<Rightarrow> None
      | Some (Inl e, s') \<Rightarrow> Some (Inl e, s')
      | Some (Inr _, s') \<Rightarrow> add_rows C rows s')"

definition run_gas_test ::
  "'n checker \<Rightarrow> bool \<Rightarrow> nat list list \<Rightarrow> gas_test \<Rightarrow> 'n gas_state \<Rightarrow> ((js_error + unit) \<times> 'n gas_state) option" where
  "run_gas_test C skipLong scheds t s =
     (if gt_long t \<and> skipLong then Some (Inr (), s)
      else if length scheds \<noteq> length (gt_rows t) then None
      else add_rows C (zip scheds (gt_rows t)) s)"

end
