(* ===== verification/Gas_Bundle_Properties.thy ===== *)
theory Gas_Bundle_Properties
  imports Gas_Bundle
begin

text \<open>
  The operations of a measured bundle under every interleaving: signing is exclusive, and each account
  gets its own operation.
\<close>

section \<open>Steps\<close>

inductive bundle_step ::
  "ethers \<Rightarrow> (string \<Rightarrow> string) \<Rightarrow> eip712 \<Rightarrow> (string \<Rightarrow> int \<Rightarrow> PackedUserOp \<Rightarrow> js_error + string) \<Rightarrow> 'n gas_node
     \<Rightarrow> gas_test_info \<Rightarrow> 'n bundle_state \<Rightarrow> 'n bundle_state \<Rightarrow> bool"
  for E lower H signTyped N info where
  go: "k < length (tasks st) \<Longrightarrow>
    bundle_step E lower H signTyped N info st (step_task E lower H signTyped N info k st)"

inductive_cases bundle_stepE: "bundle_step E lower H signTyped N info st st'"

lemma run_tasks_steps:
  "(bundle_step E lower H signTyped N info)\<^sup>*\<^sup>* st (run_tasks E lower H signTyped N info ks st)"
proof (induction ks arbitrary: st)
  case (Cons k ks)
  have "(bundle_step E lower H signTyped N info)\<^sup>*\<^sup>* st (step_task E lower H signTyped N info k st)"
  proof (cases "k < length (tasks st)")
    case True
    then show ?thesis by (intro r_into_rtranclp bundle_step.go)
  next
    case False
    then show ?thesis by (simp add: step_task_def)
  qed
  with Cons show ?case by (simp add: rtranclp_trans)
qed simp

lemma length_tasks_step [simp]:
  "length (tasks (step_task E lower H signTyped N info k st)) = length (tasks st)"
  by (auto simp: step_task_def fail_task_def with_dest_def with_estimate_def try_lock_def Let_def
      split: task.splits option.splits prod.splits sum.splits)

section \<open>The lock\<close>

definition is_signing :: "task \<Rightarrow> bool" where
  "is_signing t = (case t of Signing a cd g \<Rightarrow> True | _ \<Rightarrow> False)"

definition signing :: "task list \<Rightarrow> nat" where
  "signing ts = length (filter is_signing ts)"

lemma signing_update:
  "k < length ts \<Longrightarrow> signing (ts[k := t]) + (if is_signing (ts ! k) then 1 else 0)
     = signing ts + (if is_signing t then 1 else 0)"
proof (induction ts arbitrary: k)
  case (Cons u ts)
  then show ?case by (cases k) (auto simp: signing_def)
qed simp

lemma is_signing_simps [simp]:
  "\<not> is_signing (NotStarted a)" "\<not> is_signing (AwaitDest b)" "\<not> is_signing (AwaitEstimate b cd)"
  "\<not> is_signing (Polling b cd)" "is_signing (Signing b cd g)" "\<not> is_signing (Made p)" "\<not> is_signing (FailedWith e)"
  by (simp_all add: is_signing_def)

text \<open>What a segment of a task does to the lock, when the task was not signing.\<close>

definition lock_move :: "'n bundle_state \<Rightarrow> 'n bundle_state \<Rightarrow> bool" where
  "lock_move st st' \<longleftrightarrow>
     (locked (gs st') = locked (gs st) \<and> signing (tasks st') = signing (tasks st))
     \<or> (\<not> locked (gs st) \<and> locked (gs st') \<and> signing (tasks st') = Suc (signing (tasks st)))"

lemma lock_move_try:
  "k < length (tasks st) \<Longrightarrow> \<not> is_signing (tasks st ! k) \<Longrightarrow> lock_move st (try_lock a cd k st)"
  using signing_update[of k "tasks st"] by (simp add: lock_move_def try_lock_def)

lemma lock_move_frame:
  "lock_move st st' \<Longrightarrow> locked (gs s) = locked (gs st) \<Longrightarrow> tasks s = tasks st \<Longrightarrow> lock_move s st'"
  by (simp add: lock_move_def)

lemma lock_move_dest:
  assumes "k < length (tasks st)" "\<not> is_signing (tasks st ! k)"
  shows "lock_move st (with_dest N info a d k st)"
proof (cases "obj_get (gasEstimatePerExec (gs st)) (estimateGasKey N info)")
  case None
  with assms signing_update[OF assms(1), of "AwaitEstimate a (exec_data N info d)"]
  show ?thesis by (simp add: with_dest_def lock_move_def Let_def)
next
  case (Some te)
  have "lock_move st (try_lock a (exec_data N info d) k (st\<lparr>b_accountEst := snd te\<rparr>))"
    by (rule lock_move_frame[OF lock_move_try]) (use assms in auto)
  with Some show ?thesis by (cases te) (simp add: with_dest_def Let_def)
qed

lemma lock_move_estimate:
  assumes "k < length (tasks st)" "\<not> is_signing (tasks st ! k)"
  shows "lock_move st (with_estimate N info a cd est k st)"
  unfolding with_estimate_def by (rule lock_move_frame[OF lock_move_try]) (use assms in auto)

lemma lock_move_other:
  assumes "k < length (tasks st)" "\<not> is_signing (tasks st ! k)" "\<not> is_signing t"
  shows "lock_move st (st\<lparr>tasks := (tasks st)[k := t]\<rparr>)" "lock_move st (fail_task e k st)"
  using signing_update[OF assms(1), of t] signing_update[OF assms(1), of "FailedWith e"] assms(2,3)
  by (simp_all add: lock_move_def fail_task_def)

lemma step_lock:
  assumes k: "k < length (tasks st)" and st': "step_task E lower H signTyped N info k st = st'"
  shows "lock_move st st' \<or> \<not> locked (gs st') \<and> signing (tasks st) = Suc (signing (tasks st'))"
proof (cases "tasks st ! k")
  case (NotStarted account)
  with k st' show ?thesis
    by (auto simp: step_task_def intro!: lock_move_other(2)[of _ _ "FailedWith TypeError"] lock_move_other(1)
        lock_move_dest split: option.splits if_splits)
next
  case (AwaitDest account)
  obtain r g where rg: "on_gas_chain (random_dest N) (gs st) = (r, g)" by fastforce
  then have g: "locked g = locked (gs st)" by (auto simp: on_gas_chain_def split: prod.splits)
  let ?s = "st\<lparr>gs := g\<rparr>"
  have s: "k < length (tasks ?s)" "\<not> is_signing (tasks ?s ! k)" using k AwaitDest by simp_all
  have "lock_move st (fail_task e k ?s)" for e
    by (rule lock_move_frame[OF lock_move_other(2)[OF s, of "FailedWith e"]]) (simp_all add: g)
  moreover have "lock_move st (with_dest N info account d k ?s)" for d
    by (rule lock_move_frame[OF lock_move_dest[OF s]]) (simp_all add: g)
  ultimately show ?thesis using st' AwaitDest k rg by (auto simp: step_task_def split: sum.splits)
next
  case (AwaitEstimate account callData)
  then have n: "\<not> is_signing (tasks st ! k)" by simp
  from lock_move_estimate[OF k n] lock_move_other(2)[OF k n is_signing_simps(7)] AwaitEstimate k st' show ?thesis
    by (auto simp: step_task_def split: sum.splits)
next
  case (Polling account callData)
  with k st' show ?thesis by (auto simp: step_task_def intro!: lock_move_try)
next
  case (Signing account callData callGas)
  have "signing (tasks st) = Suc (signing ((tasks st)[k := t]))" if "\<not> is_signing t" for t
    using signing_update[OF k, of t] that Signing by simp
  with Signing k st' show ?thesis
    by (auto simp: step_task_def fail_task_def Let_def split: sum.splits)
qed (use k st' in \<open>auto simp: step_task_def lock_move_def\<close>)

interpretation sign_lock: exclusive "bundle_step E lower H signTyped N info"
    "start_bundle info (g\<lparr>locked := False\<rparr>)" "\<lambda>st. locked (gs st)" "\<lambda>st. signing (tasks st)"
  for E lower H signTyped N info g
proof
  show "signing (tasks (start_bundle info (g\<lparr>locked := False\<rparr>))) = 0"
    by (auto simp: start_bundle_def signing_def filter_empty_conv)
next
  fix st st'
  assume "bundle_step E lower H signTyped N info st st'"
  then show "(locked (gs st') = locked (gs st) \<and> signing (tasks st') = signing (tasks st))
    \<or> (\<not> locked (gs st) \<and> locked (gs st') \<and> signing (tasks st') = Suc (signing (tasks st)))
    \<or> (\<not> locked (gs st') \<and> signing (tasks st) = Suc (signing (tasks st')))"
    by (elim bundle_stepE) (drule step_lock[OF _ refl], auto simp: lock_move_def)
qed (simp add: start_bundle_def)

section \<open>Content\<close>

text \<open>
  The estimates that may be used: that of the cache at the start, or an answer of the node; and the
  call of an account, by the destination of the test.
\<close>

definition known_estimate :: "'n gas_node \<Rightarrow> gas_test_info \<Rightarrow> (string \<times> int) obj \<Rightarrow> int \<Rightarrow> bool" where
  "known_estimate N info cache est \<longleftrightarrow> (\<exists>t. obj_get cache (estimateGasKey N info) = Some (t, est))
     \<or> (\<exists>a cd n. bindE (g_estimateExec N a cd n) toNumber = Inr est)"

definition call_ok :: "'n gas_node \<Rightarrow> gas_test_info \<Rightarrow> string \<Rightarrow> string \<Rightarrow> bool" where
  "call_ok N info account callData \<longleftrightarrow> (\<exists>dest. callData = exec_data N info dest
     \<and> (gi_dest info = ''self'' \<longrightarrow> dest = account)
     \<and> (gi_dest info \<notin> {''self'', ''random''} \<longrightarrow> dest = gi_dest info))"

definition made_ok ::
  "ethers \<Rightarrow> (string \<Rightarrow> string) \<Rightarrow> eip712 \<Rightarrow> (string \<Rightarrow> int \<Rightarrow> PackedUserOp \<Rightarrow> js_error + string) \<Rightarrow> 'n gas_node
     \<Rightarrow> gas_test_info \<Rightarrow> (string \<times> int) obj \<Rightarrow> string option \<Rightarrow> PackedUserOp \<Rightarrow> bool" where
  "made_ok E lower H signTyped N info cache key p \<longleftrightarrow> (\<exists>a cd est A. key = Some a \<and> call_ok N info a cd
     \<and> known_estimate N info cache est
     \<and> fillSignAndPack E lower H signTyped (test_fields info a cd est) (Some A) no_options = Inr p)"

fun task_ok ::
  "(string option \<Rightarrow> PackedUserOp \<Rightarrow> bool) \<Rightarrow> (string \<Rightarrow> string \<Rightarrow> bool) \<Rightarrow> (int \<Rightarrow> bool) \<Rightarrow> bool \<Rightarrow> string option \<Rightarrow> task \<Rightarrow> bool" where
  "task_ok mk call est rnd key (NotStarted a) = (a = key)"
| "task_ok mk call est rnd key (AwaitDest a) = (key = Some a \<and> rnd)"
| "task_ok mk call est rnd key (AwaitEstimate a cd) = (key = Some a \<and> call a cd)"
| "task_ok mk call est rnd key (Polling a cd) = (key = Some a \<and> call a cd)"
| "task_ok mk call est rnd key (Signing a cd g) = (key = Some a \<and> call a cd \<and> est g)"
| "task_ok mk call est rnd key (Made p) = mk key p"
| "task_ok mk call est rnd key (FailedWith e) = True"

definition bundle_inv ::
  "(string option \<Rightarrow> PackedUserOp \<Rightarrow> bool) \<Rightarrow> (string \<Rightarrow> string \<Rightarrow> bool) \<Rightarrow> (int \<Rightarrow> bool) \<Rightarrow> bool \<Rightarrow> string \<Rightarrow> string option list
     \<Rightarrow> 'n bundle_state \<Rightarrow> bool" where
  "bundle_inv mk call est rnd gkey keys st \<longleftrightarrow>
     list_all2 (task_ok mk call est rnd) keys (tasks st)
   \<and> (\<forall>t g. obj_get (gasEstimatePerExec (gs st)) gkey = Some (t, g) \<longrightarrow> est g)
   \<and> ((\<exists>a cd. Polling a cd \<in> set (tasks st)) \<longrightarrow> est (b_accountEst st))
   \<and> ((\<exists>e. FailedWith e \<in> set (tasks st)) \<longrightarrow> b_rejected st \<noteq> None)"

text \<open>A task moves to a good stage.\<close>

lemma bundle_inv_move:
  assumes "bundle_inv mk call est rnd gkey keys st" and "k < length (tasks st)"
    and "task_ok mk call est rnd (keys ! k) t"
    and "tasks st' = (tasks st)[k := t]"
    and "gasEstimatePerExec (gs st') = gasEstimatePerExec (gs st) \<or>
      (\<exists>v. gasEstimatePerExec (gs st') = obj_set (gasEstimatePerExec (gs st)) gkey v \<and> est (snd v))"
    and "b_accountEst st' = b_accountEst st \<and> (\<forall>a cd. t = Polling a cd \<longrightarrow> est (b_accountEst st)) \<or> est (b_accountEst st')"
    and "if \<exists>e. t = FailedWith e then b_rejected st' \<noteq> None else b_rejected st' = b_rejected st"
  shows "bundle_inv mk call est rnd gkey keys st'"
proof -
  let ?ok = "task_ok mk call est rnd"
  have inv: "list_all2 ?ok keys (tasks st)" "\<And>t g. obj_get (gasEstimatePerExec (gs st)) gkey = Some (t, g) \<Longrightarrow> est g"
    "\<And>a cd. Polling a cd \<in> set (tasks st) \<Longrightarrow> est (b_accountEst st)"
    "\<And>e. FailedWith e \<in> set (tasks st) \<Longrightarrow> b_rejected st \<noteq> None"
    using assms(1) unfolding bundle_inv_def by blast+
  have "list_all2 ?ok (keys[k := keys ! k]) ((tasks st)[k := t])"
    using inv(1) assms(3) by (rule list_all2_update_cong)
  then have 1: "list_all2 ?ok keys (tasks st')" by (simp add: assms(4))
  have 2: "est g" if "obj_get (gasEstimatePerExec (gs st')) gkey = Some (u, g)" for u g
    using assms(5) that inv(2) by (auto simp: obj_get_set)
  have mem: "x \<in> set (tasks st) \<or> x = t" if "x \<in> set (tasks st')" for x
    using that set_update_subset_insert[of "tasks st" k t] assms(4) by auto
  have 3: "est (b_accountEst st')" if "Polling a cd \<in> set (tasks st')" for a cd
    using mem[OF that] inv(3) assms(6) by metis
  have 4: "b_rejected st' \<noteq> None" if "FailedWith e \<in> set (tasks st')" for e
    using mem[OF that] inv(4) assms(7) by (metis (no_types, lifting))
  from 1 2 3 4 show ?thesis unfolding bundle_inv_def by blast
qed

lemma bundle_inv_frame:
  "bundle_inv mk call est rnd gkey keys st \<Longrightarrow> tasks st' = tasks st \<Longrightarrow>
    gasEstimatePerExec (gs st') = gasEstimatePerExec (gs st) \<Longrightarrow> b_accountEst st' = b_accountEst st \<Longrightarrow>
    b_rejected st' = b_rejected st \<Longrightarrow> bundle_inv mk call est rnd gkey keys st'"
  unfolding bundle_inv_def by simp

lemma bundle_inv_fail:
  "bundle_inv mk call est rnd gkey keys st \<Longrightarrow> k < length (tasks st) \<Longrightarrow>
    bundle_inv mk call est rnd gkey keys (fail_task e k st)"
  by (rule bundle_inv_move[where st = st and k = k and t = "FailedWith e"]) (simp_all add: fail_task_def split: option.split)

text \<open>
  The lock is tested with a good estimate: the shared variable, just set or set before by whoever was
  polling.
\<close>

lemma bundle_inv_try_lock:
  assumes "bundle_inv mk call est rnd gkey keys st" and "k < length (tasks st)"
    and "keys ! k = Some a" "call a cd" and "est (b_accountEst st)"
  shows "bundle_inv mk call est rnd gkey keys (try_lock a cd k st)"
proof (cases "locked (gs st)")
  case True
  show ?thesis
    by (rule bundle_inv_move[OF assms(1,2), of "Polling a cd"]) (use assms(3-) True in \<open>simp_all add: try_lock_def\<close>)
next
  case False
  show ?thesis
    by (rule bundle_inv_move[OF assms(1,2), of "Signing a cd (b_accountEst st)"])
      (use assms(3-) False in \<open>simp_all add: try_lock_def\<close>)
qed

section \<open>The invariant of a bundle\<close>

text \<open>The conditions of the tasks over the model's own definitions, for accounts \<open>keys\<close> and the cache at the start.\<close>

definition tasks_inv ::
  "ethers \<Rightarrow> (string \<Rightarrow> string) \<Rightarrow> eip712 \<Rightarrow> (string \<Rightarrow> int \<Rightarrow> PackedUserOp \<Rightarrow> js_error + string) \<Rightarrow> 'n gas_node
     \<Rightarrow> gas_test_info \<Rightarrow> (string \<times> int) obj \<Rightarrow> string option list \<Rightarrow> 'n bundle_state \<Rightarrow> bool" where
  "tasks_inv E lower H signTyped N info cache keys =
     bundle_inv (made_ok E lower H signTyped N info cache) (call_ok N info) (known_estimate N info cache)
       (gi_dest info = ''random'') (estimateGasKey N info) keys"

lemmas tasks_inv_simps = tasks_inv_def[THEN fun_cong]

lemma tasks_inv_with_dest:
  assumes "tasks_inv E lower H signTyped N info cache keys st" and "k < length (tasks st)"
    and "keys ! k = Some a" "call_ok N info a (exec_data N info d)"
  shows "tasks_inv E lower H signTyped N info cache keys (with_dest N info a d k st)"
proof (cases "obj_get (gasEstimatePerExec (gs st)) (estimateGasKey N info)")
  case None
  then have "with_dest N info a d k st = st\<lparr>tasks := (tasks st)[k := AwaitEstimate a (exec_data N info d)]\<rparr>"
    by (simp add: with_dest_def Let_def)
  then show ?thesis
    using assms(3,4) unfolding tasks_inv_simps
    by - (rule bundle_inv_move[OF assms(1)[unfolded tasks_inv_simps] assms(2),
            of "AwaitEstimate a (exec_data N info d)"], simp_all)
next
  case (Some te)
  obtain t est where te: "te = (t, est)" by fastforce
  have known: "known_estimate N info cache est"
    using assms(1) Some te by (simp add: tasks_inv_simps bundle_inv_def)
  have "bundle_inv (made_ok E lower H signTyped N info cache) (call_ok N info) (known_estimate N info cache)
       (gi_dest info = ''random'') (estimateGasKey N info) keys (st\<lparr>b_accountEst := est\<rparr>)"
    using assms(1) known unfolding tasks_inv_simps bundle_inv_def by simp
  from bundle_inv_try_lock[where k = k, OF this _ assms(3,4)] assms(2) known
  show ?thesis using Some te by (simp add: tasks_inv_simps with_dest_def Let_def)
qed

lemma tasks_inv_with_estimate:
  assumes "tasks_inv E lower H signTyped N info cache keys st" and "k < length (tasks st)"
    and "keys ! k = Some a" "call_ok N info a cd" and "known_estimate N info cache est"
  shows "tasks_inv E lower H signTyped N info cache keys (with_estimate N info a cd est k st)"
proof -
  have "bundle_inv (made_ok E lower H signTyped N info cache) (call_ok N info) (known_estimate N info cache)
       (gi_dest info = ''random'') (estimateGasKey N info) keys
       (st\<lparr>gs := (gs st)\<lparr>gasEstimatePerExec :=
          obj_set (gasEstimatePerExec (gs st)) (estimateGasKey N info) (gi_title info, est)\<rparr>, b_accountEst := est\<rparr>)"
    using assms(1,5) unfolding tasks_inv_simps bundle_inv_def by (simp add: obj_get_set)
  from bundle_inv_try_lock[where k = k, OF this _ assms(3,4)] assms(2,5)
  show ?thesis by (simp add: tasks_inv_simps with_estimate_def)
qed

lemma tasks_inv_task:
  assumes "tasks_inv E lower H signTyped N info cache keys st" and "k < length (tasks st)"
  shows "task_ok (made_ok E lower H signTyped N info cache) (call_ok N info) (known_estimate N info cache)
    (gi_dest info = ''random'') (keys ! k) (tasks st ! k)"
  using assms by (auto simp: tasks_inv_simps bundle_inv_def list_all2_conv_all_nth)

lemma tasks_inv_step:
  assumes inv: "tasks_inv E lower H signTyped N info cache keys st" and k: "k < length (tasks st)"
  shows "tasks_inv E lower H signTyped N info cache keys (step_task E lower H signTyped N info k st)"
proof (cases "tasks st ! k")
  case (NotStarted key)
  with tasks_inv_task[OF inv k] have key: "key = keys ! k" by simp
  show ?thesis
  proof (cases key)
    case None
    with NotStarted k inv show ?thesis by (simp add: step_task_def tasks_inv_simps bundle_inv_fail)
  next
    case (Some a)
    have "tasks_inv E lower H signTyped N info cache keys (with_dest N info a d k st)"
      if "d = a \<and> gi_dest info = ''self'' \<or> d = gi_dest info \<and> gi_dest info \<notin> {''self'', ''random''}" for d
      by (rule tasks_inv_with_dest[OF inv k]) (use that key Some in \<open>auto simp: call_ok_def\<close>)
    moreover have "tasks_inv E lower H signTyped N info cache keys (st\<lparr>tasks := (tasks st)[k := AwaitDest a]\<rparr>)"
      if "gi_dest info = ''random''"
      using key Some that unfolding tasks_inv_simps
      by - (rule bundle_inv_move[OF inv[unfolded tasks_inv_simps] k, of "AwaitDest a"], simp_all)
    ultimately show ?thesis using NotStarted Some k by (simp add: step_task_def)
  qed
next
  case (AwaitDest a)
  with tasks_inv_task[OF inv k] have a: "keys ! k = Some a" "gi_dest info = ''random''" by simp_all
  obtain r g where rg: "on_gas_chain (random_dest N) (gs st) = (r, g)" by fastforce
  then have g: "gasEstimatePerExec g = gasEstimatePerExec (gs st)" by (auto simp: on_gas_chain_def split: prod.splits)
  have inv': "tasks_inv E lower H signTyped N info cache keys (st\<lparr>gs := g\<rparr>)"
    using inv unfolding tasks_inv_simps by (rule bundle_inv_frame) (simp_all add: g)
  have "tasks_inv E lower H signTyped N info cache keys (fail_task e k (st\<lparr>gs := g\<rparr>))" for e
    using inv' k unfolding tasks_inv_simps by (intro bundle_inv_fail) simp_all
  moreover have "tasks_inv E lower H signTyped N info cache keys (with_dest N info a d k (st\<lparr>gs := g\<rparr>))" for d
    by (rule tasks_inv_with_dest[OF inv']) (use k a in \<open>auto simp: call_ok_def\<close>)
  ultimately show ?thesis using AwaitDest k rg by (auto simp: step_task_def split: sum.splits)
next
  case (AwaitEstimate a cd)
  with tasks_inv_task[OF inv k] have a: "keys ! k = Some a" "call_ok N info a cd" by simp_all
  show ?thesis
  proof (cases "bindE (g_estimateExec N a cd (gas_chain (gs st))) toNumber")
    case (Inl e)
    with AwaitEstimate k inv show ?thesis by (simp add: step_task_def tasks_inv_simps bundle_inv_fail)
  next
    case (Inr est)
    then have "known_estimate N info cache est" unfolding known_estimate_def by blast
    with tasks_inv_with_estimate[OF inv k a] AwaitEstimate k Inr show ?thesis by (simp add: step_task_def)
  qed
next
  case (Polling a cd)
  with tasks_inv_task[OF inv k] have a: "keys ! k = Some a" "call_ok N info a cd" by simp_all
  from Polling k have "Polling a cd \<in> set (tasks st)" by (metis nth_mem)
  with inv have "known_estimate N info cache (b_accountEst st)" unfolding tasks_inv_simps bundle_inv_def by blast
  with bundle_inv_try_lock[OF inv[unfolded tasks_inv_simps] k a] Polling k show ?thesis
    by (simp add: step_task_def tasks_inv_simps)
next
  case (Signing a cd g)
  with tasks_inv_task[OF inv k] have a: "keys ! k = Some a" "call_ok N info a cd" "known_estimate N info cache g"
    by simp_all
  let ?st = "st\<lparr>gs := (gs st)\<lparr>locked := False\<rparr>\<rparr>"
  let ?A = "g_answers N (gas_chain (gs st))"
  have inv': "tasks_inv E lower H signTyped N info cache keys ?st"
    using inv unfolding tasks_inv_simps by (rule bundle_inv_frame) simp_all
  show ?thesis
  proof (cases "fillSignAndPack E lower H signTyped (test_fields info a cd g) (Some ?A) no_options")
    case (Inl e)
    have "tasks_inv E lower H signTyped N info cache keys (fail_task e k ?st)"
      using inv' k unfolding tasks_inv_simps by (intro bundle_inv_fail) simp_all
    with Inl Signing k show ?thesis by (simp add: step_task_def Let_def)
  next
    case (Inr p)
    with a have "made_ok E lower H signTyped N info cache (keys ! k) p" unfolding made_ok_def by blast
    with k have "tasks_inv E lower H signTyped N info cache keys (?st\<lparr>tasks := (tasks st)[k := Made p]\<rparr>)"
      unfolding tasks_inv_simps by - (rule bundle_inv_move[OF inv'[unfolded tasks_inv_simps], of k "Made p"], simp_all)
    with Inr Signing k show ?thesis by (simp add: step_task_def Let_def)
  qed
qed (use inv k in \<open>simp_all add: step_task_def\<close>)

lemma tasks_inv_start:
  "tasks_inv E lower H signTyped N info (gasEstimatePerExec g) (entry_keys (gi_count info) (accounts g)) (start_bundle info g)"
  by (auto simp: tasks_inv_simps bundle_inv_def start_bundle_def list_all2_conv_all_nth known_estimate_def)

lemma tasks_inv_run:
  "tasks_inv E lower H signTyped N info cache keys st \<Longrightarrow>
    tasks_inv E lower H signTyped N info cache keys (run_tasks E lower H signTyped N info ks st)"
proof (induction ks arbitrary: st)
  case (Cons k ks)
  show ?case
  proof (cases "k < length (tasks st)")
    case True
    with Cons tasks_inv_step[OF Cons.prems True] show ?thesis by simp
  next
    case False
    then have "step_task E lower H signTyped N info k st = st" by (simp add: step_task_def)
    with Cons show ?thesis by simp
  qed
qed simp

end
