(* ===== verification/Gas_Bundle_Run.thy ===== *)
theory Gas_Bundle_Run
  imports Gas_Bundle_Properties
begin

text \<open>
  Complete runs of a bundle: under a fair schedule they end, with the lock free, and the operations
  they give are those of the accounts.
\<close>

section \<open>Progress\<close>

text \<open>The segments that a task still has to run, at most; polling does not count.\<close>

fun stage :: "task \<Rightarrow> nat" where
  "stage (NotStarted key) = 5"
| "stage (AwaitDest a) = 4"
| "stage (AwaitEstimate a cd) = 3"
| "stage (Polling a cd) = 2"
| "stage (Signing a cd g) = 1"
| "stage (Made p) = 0"
| "stage (FailedWith e) = 0"

definition work :: "task list \<Rightarrow> nat" where
  "work ts = sum_list (map stage ts)"

lemma work_update: "k < length ts \<Longrightarrow> work (ts[k := t]) + stage (ts ! k) = work ts + stage t"
proof (induction ts arbitrary: k)
  case (Cons u ts)
  then show ?case by (cases k) (auto simp: work_def)
qed simp

lemma work_0: "work ts = 0 \<longleftrightarrow> (\<forall>t \<in> set ts. stage t = 0)"
  by (simp add: work_def)

text \<open>A segment replaces its task by one of a lower stage, or changes nothing.\<close>

definition advances :: "nat \<Rightarrow> nat \<Rightarrow> 'n bundle_state \<Rightarrow> 'n bundle_state \<Rightarrow> bool" where
  "advances k n st st' \<longleftrightarrow> (\<exists>t. tasks st' = (tasks st)[k := t] \<and> stage t < n)"

lemma advances_try: "2 < n \<Longrightarrow> advances k n st (try_lock a cd k st)"
  by (auto simp: advances_def try_lock_def intro: exI[of _ "Polling a cd"] exI[of _ "Signing a cd (b_accountEst st)"])

lemma advances_dest: "3 < n \<Longrightarrow> advances k n st (with_dest N info a d k st)"
  using advances_try[of n k "st\<lparr>b_accountEst := e\<rparr>" a "exec_data N info d" for e]
  by (auto simp: advances_def with_dest_def Let_def intro: exI[of _ "AwaitEstimate a (exec_data N info d)"]
      split: option.split)

lemma advances_estimate: "2 < n \<Longrightarrow> advances k n st (with_estimate N info a cd e k st)"
  using advances_try[of n k "st\<lparr>gs := (gs st)\<lparr>gasEstimatePerExec := c\<rparr>, b_accountEst := e\<rparr>" a cd for c]
  by (simp add: advances_def with_estimate_def)

lemma advances_set: "stage t < n \<Longrightarrow> advances k n st (st\<lparr>tasks := (tasks st)[k := t]\<rparr>)"
  by (auto simp: advances_def)

lemma advances_fail: "0 < n \<Longrightarrow> advances k n st (fail_task e k st)"
  by (auto simp: advances_def fail_task_def intro: exI[of _ "FailedWith e"])

lemma advances_frame: "advances k n st' u \<Longrightarrow> tasks st' = tasks st \<Longrightarrow> advances k n st u"
  by (simp add: advances_def)

text \<open>A task is held up only by the lock.\<close>

definition held_up :: "'n bundle_state \<Rightarrow> nat \<Rightarrow> bool" where
  "held_up st k \<longleftrightarrow> stage (tasks st ! k) = 0 \<or> (stage (tasks st ! k) = 2 \<and> locked (gs st))"

lemma step_advances:
  assumes k: "k < length (tasks st)" and st': "step_task E lower H signTyped N info k st = st'"
  shows "if held_up st k then st' = st else advances k (stage (tasks st ! k)) st st'"
proof (cases "tasks st ! k")
  case (NotStarted key)
  with k st' show ?thesis
    by (auto simp: held_up_def step_task_def intro: advances_fail advances_dest advances_set split: option.splits if_splits)
next
  case (AwaitDest a)
  obtain r g where rg: "on_gas_chain (random_dest N) (gs st) = (r, g)" by fastforce
  have "advances k 4 st (fail_task e k (st\<lparr>gs := g\<rparr>))" "advances k 4 st (with_dest N info a d k (st\<lparr>gs := g\<rparr>))" for e d
    by (rule advances_frame[OF advances_fail], simp, simp, rule advances_frame[OF advances_dest], simp, simp)
  with AwaitDest k rg st' show ?thesis by (auto simp: held_up_def step_task_def split: sum.splits)
next
  case (AwaitEstimate a cd)
  with k st' show ?thesis
    by (auto simp: held_up_def step_task_def intro: advances_fail advances_estimate split: sum.splits)
next
  case (Polling a cd)
  have same: "(tasks st)[k := Polling a cd] = tasks st" using Polling by (metis list_update_id)
  show ?thesis
  proof (cases "locked (gs st)")
    case True
    with Polling k st' same show ?thesis by (auto simp: held_up_def step_task_def try_lock_def)
  next
    case False
    then have "try_lock a cd k st = st\<lparr>gs := (gs st)\<lparr>locked := True\<rparr>, tasks := (tasks st)[k := Signing a cd (b_accountEst st)]\<rparr>"
      by (simp add: try_lock_def)
    then have "advances k 2 st (try_lock a cd k st)" by (auto simp: advances_def)
    with Polling False k st' show ?thesis by (simp add: held_up_def step_task_def)
  qed
next
  case (Signing a cd g)
  let ?s = "st\<lparr>gs := (gs st)\<lparr>locked := False\<rparr>\<rparr>"
  have "advances k 1 st (fail_task e k ?s)" "advances k 1 st (?s\<lparr>tasks := (tasks st)[k := Made p]\<rparr>)" for e p
    by (rule advances_frame[OF advances_fail], simp, simp) (auto simp: advances_def intro: exI[of _ "Made p"])
  with Signing k st' show ?thesis by (auto simp: held_up_def step_task_def Let_def split: sum.splits)
qed (use k st' in \<open>auto simp: held_up_def step_task_def\<close>)

lemma advances_work:
  "k < length (tasks st) \<Longrightarrow> advances k (stage (tasks st ! k)) st st' \<Longrightarrow> work (tasks st') < work (tasks st)"
  using work_update[of k "tasks st"] by (auto simp: advances_def) (metis add_less_cancel_left add.commute)

lemma run_work: "work (tasks (run_tasks E lower H signTyped N info ks st)) \<le> work (tasks st)"
proof (induction ks arbitrary: st)
  case (Cons k ks)
  have "work (tasks (step_task E lower H signTyped N info k st)) \<le> work (tasks st)"
  proof (cases "k < length (tasks st)")
    case True
    with step_advances[OF True refl, of E lower H signTyped N info] advances_work[OF True] show ?thesis
      by (metis less_imp_le order_refl)
  qed (simp add: step_task_def)
  with Cons show ?case by (metis order_trans run_tasks.simps(2))
qed simp

text \<open>A round in which a task that is not held up has its turn makes progress.\<close>

lemma round_progress:
  assumes "k \<in> set ks" "k < length (tasks st)" "\<not> held_up st k"
  shows "work (tasks (run_tasks E lower H signTyped N info ks st)) < work (tasks st)"
  using assms
proof (induction ks)
  case (Cons j js)
  let ?st' = "step_task E lower H signTyped N info j st"
  show ?case
  proof (cases "j < length (tasks st) \<and> \<not> held_up st j")
    case True
    with step_advances[of j st] advances_work have "work (tasks ?st') < work (tasks st)" by metis
    with run_work[of E lower H signTyped N info js ?st'] show ?thesis by simp
  next
    case False
    then have "?st' = st" using step_advances[of j st] by (metis not_less step_task_def)
    moreover from False Cons.prems have "k \<in> set js" by auto
    ultimately show ?thesis using Cons.IH Cons.prems(2,3) by simp
  qed
qed simp

text \<open>While work is left, some task is not held up: the one that signs, or any other when none does.\<close>

lemma some_task_free:
  assumes lock: "signing (tasks st) = (if locked (gs st) then 1 else 0)" and work: "0 < work (tasks st)"
  shows "\<exists>k < length (tasks st). \<not> held_up st k"
proof (cases "locked (gs st)")
  case True
  with lock have "filter is_signing (tasks st) \<noteq> []" by (auto simp: signing_def)
  then obtain t where "t \<in> set (tasks st)" "is_signing t" by (auto simp: filter_empty_conv)
  then have "t \<in> set (tasks st)" "stage t = 1" by (auto simp: is_signing_def split: task.splits)
  then show ?thesis by (auto simp: in_set_conv_nth held_up_def)
next
  case False
  from work obtain t where "t \<in> set (tasks st)" "stage t \<noteq> 0" using work_0[of "tasks st"] by auto
  with False show ?thesis by (auto simp: in_set_conv_nth held_up_def)
qed

lemma run_tasks_append:
  "run_tasks E lower H signTyped N info (ks @ ls) st
    = run_tasks E lower H signTyped N info ls (run_tasks E lower H signTyped N info ks st)"
  by (induction ks arbitrary: st) simp_all

lemma length_tasks_run [simp]:
  "length (tasks (run_tasks E lower H signTyped N info ks st)) = length (tasks st)"
  by (induction ks arbitrary: st) simp_all

lemma unlocked_id: "\<not> locked g \<Longrightarrow> g\<lparr>locked := False\<rparr> = g"
  by simp

lemma bundle_lock:
  assumes "\<not> locked g" and "(bundle_step E lower H signTyped N info)\<^sup>*\<^sup>* (start_bundle info g) st"
  shows "signing (tasks st) = (if locked (gs st) then 1 else 0)"
  using sign_lock.inside_iff_flag[of E lower H signTyped N info g st] assms(2) unfolding unlocked_id[OF assms(1)] .

lemma rounds_finish:
  assumes "\<not> locked g" and "(bundle_step E lower H signTyped N info)\<^sup>*\<^sup>* (start_bundle info g) st"
    and "\<forall>r \<in> set rounds. {..<length (tasks st)} \<subseteq> set r" and "work (tasks st) \<le> length rounds"
  shows "work (tasks (run_tasks E lower H signTyped N info (concat rounds) st)) = 0"
  using assms(2-)
proof (induction rounds arbitrary: st)
  case (Cons r rounds)
  let ?st' = "run_tasks E lower H signTyped N info r st"
  have "work (tasks ?st') \<le> length rounds"
  proof (cases "work (tasks st) = 0")
    case True
    then show ?thesis using run_work[of E lower H signTyped N info r st] by simp
  next
    case False
    then obtain k where "k < length (tasks st)" "\<not> held_up st k"
      using some_task_free[OF bundle_lock[OF assms(1) Cons.prems(1)]] by auto
    moreover from this have "k \<in> set r" using Cons.prems(2) by auto
    ultimately show ?thesis using round_progress[of k r st E lower H signTyped N info] Cons.prems(3) by simp
  qed
  moreover have "(bundle_step E lower H signTyped N info)\<^sup>*\<^sup>* (start_bundle info g) ?st'"
    using Cons.prems(1) run_tasks_steps by (rule rtranclp_trans)
  ultimately show ?case using Cons.IH[of ?st'] Cons.prems(2) by (simp add: run_tasks_append)
qed simp

section \<open>The operations\<close>

lemma all_made_map: "all_made ts = Some ps \<longleftrightarrow> ts = map Made ps"
proof
  show "all_made ts = Some ps \<Longrightarrow> ts = map Made ps"
    by (induction ts arbitrary: ps rule: all_made.induct) (auto split: option.splits)
next
  have "all_made (map Made ps) = Some ps" by (induction ps) simp_all
  then show "ts = map Made ps \<Longrightarrow> all_made ts = Some ps" by simp
qed

lemma all_made_finished: "\<forall>t \<in> set ts. stage t = 0 \<Longrightarrow> \<forall>e. FailedWith e \<notin> set ts \<Longrightarrow> \<exists>ps. all_made ts = Some ps"
proof (induction ts)
  case (Cons t ts)
  then obtain ps where "all_made ts = Some ps" by auto
  with Cons.prems show ?case by (cases t) auto
qed simp

text \<open>What a test's operation holds once filled, signed and packed.\<close>

lemma test_operation:
  assumes "fillSignAndPack E lower H signTyped (test_fields info a cd est) ep opts = Inr p"
  shows "pu_sender p = a" "pu_callData p = cd" "pu_initCode p = ''0x''" "pu_preVerificationGas p = 1"
    "packAccountGasLimits E 1000000 est = Inr (pu_accountGasLimits p)"
    "packAccountGasLimits E (gi_gasPrice info) (gi_gasPrice info) = Inr (pu_gasFees p)"
proof -
  from assms obtain f sig where f: "fillUserOp E lower H (test_fields info a cd est) ep opts = Inr f"
    and p: "packUserOp E (f\<lparr>uo_signature := sig\<rparr>) = Inr p"
    by (auto simp: fillSignAndPack_def fillAndSign_def result_simps)
  obtain op' pvg where op': "extends (test_fields info a cd est) op'"
    "f = (fillUserOpDefaults op' DefaultsForUserOp)\<lparr>uo_preVerificationGas := pvg\<rparr>" "pvg = 1"
    using f by (rule fillUserOp_extends) (auto simp: test_fields_def)
  then have "uo_sender f = a" "uo_callData f = cd" "uo_initCode f = ''0x''" "uo_preVerificationGas f = 1"
    "uo_verificationGasLimit f = 1000000" "uo_callGasLimit f = est"
    "uo_maxFeePerGas f = gi_gasPrice info" "uo_maxPriorityFeePerGas f = gi_gasPrice info"
    by (auto simp: extends_def fillUserOpDefaults_def test_fields_def DefaultsForUserOp_def)
  with p show "pu_sender p = a" "pu_callData p = cd" "pu_initCode p = ''0x''" "pu_preVerificationGas p = 1"
    "packAccountGasLimits E 1000000 est = Inr (pu_accountGasLimits p)"
    "packAccountGasLimits E (gi_gasPrice info) (gi_gasPrice info) = Inr (pu_gasFees p)"
    by (auto simp: packUserOp_def result_simps)
qed

lemma length_entry_keys [simp]: "length (entry_keys n accs) = n"
  by (simp add: entry_keys_def)

lemma entry_keys_nth: "k < n \<Longrightarrow> entry_keys n accs ! k = (if k < length accs then Some (fst (accs ! k)) else None)"
  by (simp add: entry_keys_def)

lemma length_start [simp]: "length (tasks (start_bundle info g)) = gi_count info"
  by (simp add: start_bundle_def)

lemma work_start: "work (tasks (start_bundle info g)) = 5 * gi_count info"
proof -
  have "work (map NotStarted ks) = 5 * length ks" for ks by (induction ks) (auto simp: work_def)
  then show ?thesis by (simp add: start_bundle_def)
qed

lemma resolved_operation:
  assumes run: "promise_all (run_tasks E lower H signTyped N info ks (start_bundle info g)) = Some (Inr ops)"
  shows "length ops = gi_count info"
    and "k < gi_count info \<Longrightarrow> made_ok E lower H signTyped N info (gasEstimatePerExec g)
      (entry_keys (gi_count info) (accounts g) ! k) (ops ! k)"
proof -
  let ?st = "run_tasks E lower H signTyped N info ks (start_bundle info g)"
  have t: "tasks ?st = map Made ops"
    using run by (auto simp: promise_all_def all_made_map split: option.splits)
  then show l: "length ops = gi_count info"
    by (metis length_map length_start length_tasks_run)
  show "made_ok E lower H signTyped N info (gasEstimatePerExec g)
      (entry_keys (gi_count info) (accounts g) ! k) (ops ! k)" if "k < gi_count info"
    using tasks_inv_task[OF tasks_inv_run[OF tasks_inv_start], of k E lower H signTyped N info ks g] that t l by simp
qed

text \<open>
  Under any schedule in which every function has its turn in each of \<open>5 * count\<close> rounds, the functions
  end: \<open>Promise.all\<close> is settled and the lock is free.
\<close>

lemma bundle_finishes:
  assumes "\<not> locked g" and "\<forall>r \<in> set rounds. {..<gi_count info} \<subseteq> set r"
    and "5 * gi_count info \<le> length rounds"
  shows "promise_all (run_tasks E lower H signTyped N info (concat rounds) (start_bundle info g)) \<noteq> None
    \<and> \<not> locked (gs (run_tasks E lower H signTyped N info (concat rounds) (start_bundle info g)))"
proof -
  let ?st = "run_tasks E lower H signTyped N info (concat rounds) (start_bundle info g)"
  have "work (tasks ?st) = 0"
    by (rule rounds_finish[OF assms(1)]) (use assms(2,3) in \<open>simp_all add: work_start\<close>)
  then have fin: "\<forall>t \<in> set (tasks ?st). stage t = 0" by (simp add: work_0)
  from fin have "signing (tasks ?st) = 0" by (auto simp: signing_def filter_empty_conv is_signing_def split: task.splits)
  then have "\<not> locked (gs ?st)" using bundle_lock[OF assms(1) run_tasks_steps] by (metis zero_neq_one)
  moreover have "promise_all ?st \<noteq> None"
  proof (cases "\<exists>e. FailedWith e \<in> set (tasks ?st)")
    case True
    then have "b_rejected ?st \<noteq> None"
      using tasks_inv_run[OF tasks_inv_start, of E lower H signTyped N info g "concat rounds"]
      unfolding tasks_inv_simps bundle_inv_def by blast
    then show ?thesis by (auto simp: promise_all_def)
  next
    case False
    with all_made_finished[OF fin] show ?thesis by (auto simp: promise_all_def split: option.split)
  qed
  ultimately show ?thesis by blast
qed

section \<open>Properties\<close>

text \<open>
  C34. Signing is exclusive. Whatever the interleaving of the functions of a bundle, at most one of them
  is between its acquisition of the lock and the end of its signature, and the lock is set exactly
  while one is.
\<close>

theorem signing_exclusive:
  assumes "\<not> locked g" and "(bundle_step E lower H signTyped N info)\<^sup>*\<^sup>* (start_bundle info g) st"
  shows "signing (tasks st) \<le> 1 \<and> (locked (gs st) \<longleftrightarrow> signing (tasks st) = 1)"
  using bundle_lock[OF assms] by simp

text \<open>
  The operations of a bundle. When \<open>Promise.all\<close> gives operations, there is one for each of the first
  \<open>count\<close> accounts, in their order, whatever the interleaving: it has that account as its sender, calls
  what the test asks for, creates no account, and its packed limits are the fixed verification gas and
  an estimate for this kind of call that the node or the cache gave, although the variable that carries
  it is shared.
\<close>

theorem bundle_operations:
  assumes "promise_all (run_tasks E lower H signTyped N info ks (start_bundle info g)) = Some (Inr ops)"
    and "k < gi_count info"
  shows "length ops = gi_count info \<and> k < length (accounts g) \<and> pu_sender (ops ! k) = fst (accounts g ! k)
    \<and> call_ok N info (pu_sender (ops ! k)) (pu_callData (ops ! k)) \<and> pu_initCode (ops ! k) = ''0x''
    \<and> (\<exists>est. known_estimate N info (gasEstimatePerExec g) est
          \<and> packAccountGasLimits E 1000000 est = Inr (pu_accountGasLimits (ops ! k)))"
proof -
  from resolved_operation(2)[OF assms] obtain a cd est A where
    o: "entry_keys (gi_count info) (accounts g) ! k = Some a" "call_ok N info a cd"
      "known_estimate N info (gasEstimatePerExec g) est"
      "fillSignAndPack E lower H signTyped (test_fields info a cd est) (Some A) no_options = Inr (ops ! k)"
    unfolding made_ok_def by blast
  from o(1) assms(2) have "k < length (accounts g)" "fst (accounts g ! k) = a"
    by (auto simp: entry_keys_nth split: if_splits)
  with o(2,3) test_operation[OF o(4)] resolved_operation(1)[OF assms(1)] show ?thesis by auto
qed

end
