(* ===== verification/Gas_Checker_Properties.thy ===== *)
theory Gas_Checker_Properties
  imports Gas_Checker Gas_Bundle_Run
begin

text \<open>
  The properties of the gas checker: which accounts it creates, that a test always ends, and what its
  rows measure.
\<close>

section \<open>What the parts keep\<close>

text \<open>The creation of accounts touches neither the lock, the last gas used nor the report.\<close>

definition kept :: "'n gas_state \<Rightarrow> bool \<times> js_num \<times> collector" where
  "kept s = (locked s, lastGasUsed s, col s)"

lemma kept_update [simp]:
  "kept (s\<lparr>accounts := a\<rparr>) = kept s" "kept (s\<lparr>createdAccounts := c\<rparr>) = kept s" "kept (s\<lparr>gas_chain := n\<rparr>) = kept s"
  "kept (s\<lparr>gasEstimatePerExec := e\<rparr>) = kept s"
  by (simp_all add: kept_def)

lemma kept_create_if_missing [keeps_intros]: "keeps kept (create_if_missing C factory addr n ops)"
  unfolding create_if_missing_def by (intro keeps_intros) simp_all

lemma kept_create_one [keeps_intros]: "keeps kept (create_one C factory n ops)"
  unfolding create_one_def by (intro keeps_intros) simp_all

lemma kept_create_loop [keeps_intros]: "keeps kept (create_loop C factory ns ops)"
  by (induction ns arbitrary: ops) (simp_all add: keeps_intros)

lemma kept_deploy [keeps_intros]: "keeps kept (deploy_account_factory C)"
  unfolding deploy_account_factory_def by (intro keeps_intros) simp_all

lemma kept_createAccounts [keeps_intros]: "keeps kept (createAccounts1 C count)"
  unfolding createAccounts1_def by (intro keeps_intros) simp_all

text \<open>The functions of a bundle touch neither the last gas used nor the report.\<close>

lemma step_task_keeps:
  "lastGasUsed (gs (step_task E lower H signTyped N info k st)) = lastGasUsed (gs st)
   \<and> col (gs (step_task E lower H signTyped N info k st)) = col (gs st)"
  by (auto simp: step_task_def fail_task_def with_dest_def with_estimate_def try_lock_def on_gas_chain_def Let_def
      split: task.splits option.splits sum.splits prod.splits if_splits)

lemma run_tasks_keeps:
  "lastGasUsed (gs (run_tasks E lower H signTyped N info ks st)) = lastGasUsed (gs st)
   \<and> col (gs (run_tasks E lower H signTyped N info ks st)) = col (gs st)"
  by (induction ks arbitrary: st) (simp_all add: step_task_keeps)

text \<open>The inversion of a test that gave a result.\<close>

lemma runTest_Inr:
  assumes "runTest C sched params s = Some (Inr res, s')"
  defines "info \<equiv> with_defaults (Some (c_beneficiary (col s))) params"
  obtains s1 b ops where "createAccounts1 C (gi_count info) s = (Inr (), s1)" and "b = make_bundle C info sched s1"
    and "promise_all b = Some (Inr ops)" and "send_bundle C info ops (b_accountEst b) (gs b) = (Inr res, s')"
    and "kept s1 = kept s" "lastGasUsed (gs b) = lastGasUsed s" "col (gs b) = col s"
proof -
  obtain r s1 where c: "createAccounts1 C (gi_count info) s = (r, s1)" by fastforce
  have k: "kept s1 = kept s" by (rule keepsD[OF kept_createAccounts c])
  from assms(1) c obtain ops where *: "r = Inr ()" "promise_all (make_bundle C info sched s1) = Some (Inr ops)"
    "send_bundle C info ops (b_accountEst (make_bundle C info sched s1)) (gs (make_bundle C info sched s1)) = (Inr res, s')"
    unfolding runTest_def info_def[symmetric] by (auto simp: Let_def split: sum.splits option.splits)
  have "lastGasUsed (gs (make_bundle C info sched s1)) = lastGasUsed s" "col (gs (make_bundle C info sched s1)) = col s"
    using k by (simp_all add: make_bundle_def run_tasks_keeps start_bundle_def kept_def)
  with that[OF _ refl *(2,3) k] c *(1) show thesis by simp
qed

section \<open>Accounts\<close>

text \<open>The first \<open>k\<close> accounts of the factory: distinct addresses that do not change with the chain.\<close>

definition factory_accounts :: "'n checker \<Rightarrow> string \<Rightarrow> (nat \<Rightarrow> string) \<Rightarrow> nat \<Rightarrow> bool" where
  "factory_accounts C factory addr k \<longleftrightarrow> inj_on addr {..<k}
     \<and> (\<forall>n < k. \<forall>chain. g_accountAddress (ck_N C) factory (accountOwner C) n chain = Inr (addr n))"

lemma create_if_missing_Inr:
  assumes "create_if_missing C factory addr n ops s = (Inr ops', s')"
  shows "accounts s' = accounts s \<and> createdAccounts s' = addr # createdAccounts s"
  using assms by (auto simp: create_if_missing_def read_gas_def bindIO_Inr split: if_splits)

lemma create_one_Inr:
  assumes "factory_accounts C factory addr k" "n < k" and "create_one C factory n ops s = (Inr ops', s')"
  shows "accounts s' = obj_set (accounts s) (addr n) (accountOwner C)"
    and "createdAccounts s' = (if addr n \<in> set (createdAccounts s) then createdAccounts s else addr n # createdAccounts s)"
    and "addr n \<in> set (createdAccounts s) \<Longrightarrow> ops' = ops"
proof -
  have a: "g_accountAddress (ck_N C) factory (accountOwner C) n chain = Inr (addr n)" for chain
    using assms(1,2) by (simp add: factory_accounts_def)
  let ?known = "addr n \<in> set (createdAccounts s)"
  from assms(3) obtain s1 u s2 where
    1: "(if ?known then returnIO ops else create_if_missing C factory (addr n) n ops) s = (Inr ops', s1)"
    and 2: "s2 = s1\<lparr>accounts := obj_set (accounts s1) (addr n) (accountOwner C)\<rparr>"
    and 3: "(if u \<le> minDepositOrBalance
             then on_gas_chain (g_depositTo (ck_N C) (addr n) (minDepositOrBalance * 5)) else returnIO ()) s2 = (Inr (), s')"
    unfolding create_one_def by (auto simp: bindIO_Inr read_gas_def a)
  have s': "accounts s' = accounts s2" "createdAccounts s' = createdAccounts s2"
    using 3 by (auto simp: on_gas_chain_def split: if_splits prod.splits)
  show "accounts s' = obj_set (accounts s) (addr n) (accountOwner C)"
    "createdAccounts s' = (if ?known then createdAccounts s else addr n # createdAccounts s)"
    "?known \<Longrightarrow> ops' = ops"
    using 1 2 s' by (auto split: if_splits dest: create_if_missing_Inr)
qed

text \<open>The keys of an object after further assignments.\<close>

definition add_key :: "string \<Rightarrow> string list \<Rightarrow> string list" where
  "add_key k ks = (if k \<in> set ks then ks else ks @ [k])"

lemma add_keys_prefix:
  "inj_on addr {..<n} \<Longrightarrow> fold add_key (map addr [0..<n]) (map addr [0..<m]) = map addr [0..<max m n]"
proof (induction n)
  case (Suc n)
  have "add_key (addr n) (map addr [0..<max m n]) = map addr [0..<max m (Suc n)]"
  proof (cases "n < m")
    case True
    then have "max m n = m" "max m (Suc n) = m" by auto
    with True show ?thesis by (simp add: add_key_def)
  next
    case False
    with Suc.prems have "addr n \<notin> set (map addr [0..<n])" by (auto dest!: inj_onD)
    with False show ?thesis by (simp add: add_key_def max_def)
  qed
  moreover have "inj_on addr {..<n}" using Suc.prems by (rule inj_on_subset) auto
  ultimately show ?case using Suc.IH by simp
qed simp

lemma create_loop_Inr:
  assumes "factory_accounts C factory addr k" "set ns \<subseteq> {..<k}" and "create_loop C factory ns ops s = (Inr ops', s')"
  shows "obj_keys (accounts s') = fold add_key (map addr ns) (obj_keys (accounts s))"
    and "set (createdAccounts s') = set (createdAccounts s) \<union> addr ` set ns"
    and "addr ` set ns \<subseteq> set (createdAccounts s) \<Longrightarrow> ops' = ops"
  using assms(2,3)
proof (induction ns arbitrary: ops s)
  case (Cons n ns)
  {
    case 1
    then have n: "n < k" "set ns \<subseteq> {..<k}" by auto
    from 1 obtain ops1 s1 where c: "create_one C factory n ops s = (Inr ops1, s1)" "create_loop C factory ns ops1 s1 = (Inr ops', s')"
      by (auto elim: bindIO_InrE)
    with Cons.IH(1)[OF n(2) c(2)] create_one_Inr(1)[OF assms(1) n(1) c(1)] show ?case by (simp add: obj_keys_set add_key_def)
  next
    case 2
    then have n: "n < k" "set ns \<subseteq> {..<k}" by auto
    from 2 obtain ops1 s1 where c: "create_one C factory n ops s = (Inr ops1, s1)" "create_loop C factory ns ops1 s1 = (Inr ops', s')"
      by (auto elim: bindIO_InrE)
    with Cons.IH(2)[OF n(2) c(2)] create_one_Inr(2)[OF assms(1) n(1) c(1)] show ?case by auto
  next
    case 3
    then have n: "n < k" "set ns \<subseteq> {..<k}" by auto
    from 3 obtain ops1 s1 where c: "create_one C factory n ops s = (Inr ops1, s1)" "create_loop C factory ns ops1 s1 = (Inr ops', s')"
      by (auto elim: bindIO_InrE)
    from 3(1) create_one_Inr(2)[OF assms(1) n(1) c(1)] have "addr ` set ns \<subseteq> set (createdAccounts s1)" by auto
    with Cons.IH(3)[OF _ n(2) c(2)] create_one_Inr(3)[OF assms(1) n(1) c(1)] 3(1) show ?case by simp
  }
qed simp_all

text \<open>The factory's address is the \<open>CREATE2\<close> address of its code.\<close>

definition factory_address :: "'n checker \<Rightarrow> string \<Rightarrow> js_error + string" where
  "factory_address C entryPoint =
     bindE (factory_init_code C entryPoint) (\<lambda>code. getDeployedAddress (ck_E C) code (SaltNum 0))"

lemma deploy_account_factory_Inr:
  assumes "deploy_account_factory C s = (Inr factory, s')"
  shows "factory_address C (c_entryPoint (col s)) = Inr factory" "accounts s' = accounts s"
    "createdAccounts s' = createdAccounts s"
proof -
  from assms obtain ic c where ic: "factory_init_code C (c_entryPoint (col s)) = Inr ic"
    and d: "deploy (ck_E C) (g_node (ck_N C)) (g_defaultSigner (ck_N C)) (InitHex ic) (SaltNum 0) (GasGiven 2885201)
      \<lparr>factoryDeployed = False, chain_state = gas_chain s\<rparr> = (Inr factory, c)"
    by (auto simp: deploy_account_factory_def bindIO_Inr on_gas_chain_def with_create2_def split: prod.splits)
  from d show "factory_address C (c_entryPoint (col s)) = Inr factory"
    by (rule deploy_Inr) (simp add: factory_address_def ic init_code_hex_def)
  have "keeps accounts (deploy_account_factory C)" "keeps createdAccounts (deploy_account_factory C)"
    unfolding deploy_account_factory_def by (intro keeps_intros, simp)+
  then show "accounts s' = accounts s" "createdAccounts s' = createdAccounts s"
    using assms by (auto dest: keepsD)
qed

lemma createAccounts1_loop:
  assumes "createAccounts1 C count s = (r, s')"
  obtains (factory) e where "deploy_account_factory C s = (Inl e, s')" and "r = Inl e"
    | (loop) factory s1 e where "deploy_account_factory C s = (Inr factory, s1)"
        and "create_loop C factory [0..<count] [] s1 = (Inl e, s')" and "r = Inl e"
    | (sent) factory s1 ops s2 q where "deploy_account_factory C s = (Inr factory, s1)"
        and "create_loop C factory [0..<count] [] s1 = (Inr ops, s2)"
        and "accounts s' = accounts s2" "createdAccounts s' = createdAccounts s2"
        and "g_handleOps (ck_N C) ops (Some (globalSigner C)) None (gas_chain s2) = (q, gas_chain s')"
        and "r = (case q of Inl e \<Rightarrow> Inl e | Inr h \<Rightarrow> Inr ())"
  using assms
  by (auto simp: createAccounts1_def bindIO_run on_gas_chain_def split: prod.splits sum.splits)

text \<open>
  The accounts of a checker. From a checker whose accounts are the first \<open>m\<close> of the factory, also
  a fresh one, a successful \<open>createAccounts1\<close> ends with exactly the first \<open>max m count\<close>, in order, all of
  them noted as created; so the bundle of a test of \<open>count\<close> operations uses accounts \<open>0\<close> to \<open>count - 1\<close>.
\<close>

theorem accounts_in_order:
  assumes "factory_address C (c_entryPoint (col s)) = Inr factory" and "factory_accounts C factory addr count"
    and "obj_keys (accounts s) = map addr [0..<m]" and "createAccounts1 C count s = (Inr (), s')"
  shows "obj_keys (accounts s') = map addr [0..<max m count]
    \<and> entry_keys count (accounts s') = map (\<lambda>n. Some (addr n)) [0..<count]
    \<and> addr ` {..<count} \<subseteq> set (createdAccounts s')"
  using assms(4)
proof (cases rule: createAccounts1_loop)
  case (sent factory' s1 ops s2 q)
  have f: "factory' = factory" "accounts s1 = accounts s"
    using deploy_account_factory_Inr[OF sent(1)] assms(1) by simp_all
  note loop = create_loop_Inr[OF assms(2) _ sent(2)[unfolded f(1)]]
  have keys: "obj_keys (accounts s') = map addr [0..<max m count]"
    using loop(1) add_keys_prefix[of addr count m] assms(2,3) sent(3) f(2)
    by (simp add: factory_accounts_def lessThan_atLeast0)
  have "entry_keys count (accounts s') = map (\<lambda>n. Some (addr n)) [0..<count]"
  proof (rule nth_equalityI)
    fix i
    assume "i < length (entry_keys count (accounts s'))"
    then have i: "i < count" "i < length (accounts s')" using arg_cong[OF keys, of length] by (simp_all add: obj_keys_def)
    from i have "obj_keys (accounts s') ! i = addr i" unfolding keys by simp
    with i show "entry_keys count (accounts s') ! i = map (\<lambda>n. Some (addr n)) [0..<count] ! i"
      by (simp add: entry_keys_nth obj_keys_def)
  qed simp
  with keys loop(2) sent(4) show ?thesis by (auto simp: lessThan_atLeast0)
qed simp_all

text \<open>
  A failed creation is never repeated. The accounts are noted as created before the bundle that
  creates them is sent: once sending it has failed, no later call, whatever happened on the chain
  since, makes a creation operation for any of them.
\<close>

theorem creation_never_retried:
  assumes "factory_accounts C factory addr count"
    and "deploy_account_factory C s = (Inr factory, s1)" "create_loop C factory [0..<count] [] s1 = (Inr ops, s2)"
    and "createAccounts1 C count s = (Inl e, s')"
    and "createdAccounts t = createdAccounts s'" "n \<le> count" "create_loop C factory [0..<n] [] t = (Inr ops', t')"
  shows "ops' = []"
  using assms(4)
proof (cases rule: createAccounts1_loop)
  case (sent factory' t1 ops2 t2 q)
  then have "t1 = s1" "factory' = factory" using assms(2) by simp_all
  with sent(2) assms(3) have "t2 = s2" by simp
  have "addr ` set [0..<n] \<subseteq> set (createdAccounts t)"
    using create_loop_Inr(2)[OF assms(1) _ assms(3)] sent(4) \<open>t2 = s2\<close> assms(5,6)
    by (auto simp: lessThan_atLeast0)
  then show ?thesis using create_loop_Inr(3)[OF assms(1) _ assms(7)] assms(6)
    by (auto simp: lessThan_atLeast0)
qed (use assms(2,3) in auto)

section \<open>Tests\<close>

lemma send_bundle_lock: "locked (snd (send_bundle C info ops est s)) = locked s"
proof -
  have "keeps locked (test_result info est g)" for g by (simp add: keeps_def test_result_def)
  moreover have "keeps locked (estimate_bundle (ck_N C) ops b)" for b
    unfolding estimate_bundle_def by (intro keeps_intros)
  ultimately have "keeps locked (send_bundle C info ops est)"
    unfolding send_bundle_def by (intro keeps_intros) simp_all
  then show ?thesis by (simp add: keeps_def)
qed

lemma runTest_ends:
  assumes "\<not> locked s" and "\<forall>r \<in> set rounds. {..<gp_count params} \<subseteq> set r" and "5 * gp_count params \<le> length rounds"
  shows "\<exists>r s'. runTest C (concat rounds) params s = Some (r, s') \<and> \<not> locked s'"
proof -
  let ?info = "with_defaults (Some (c_beneficiary (col s))) params"
  have n: "gi_count ?info = gp_count params" by (simp add: with_defaults_def)
  obtain r s1 where c: "createAccounts1 C (gi_count ?info) s = (r, s1)" by fastforce
  then have l: "\<not> locked s1" using keepsD[OF kept_createAccounts c] assms(1) by (simp add: kept_def)
  show ?thesis
  proof (cases r)
    case (Inl e)
    with c l show ?thesis by (simp add: runTest_def Let_def)
  next
    case (Inr u)
    let ?b = "make_bundle C ?info (concat rounds) s1"
    have b: "promise_all ?b \<noteq> None" "\<not> locked (gs ?b)"
      unfolding make_bundle_def using bundle_finishes[OF l, of rounds ?info] assms(2,3) n by simp_all
    then obtain p where p: "promise_all ?b = Some p" by auto
    show ?thesis
    proof (cases p)
      case (Inl e)
      with c Inr p b(2) show ?thesis by (simp add: runTest_def Let_def)
    next
      case (Inr ops)
      obtain q s' where q: "send_bundle C ?info ops (b_accountEst ?b) (gs ?b) = (q, s')" by fastforce
      then have "\<not> locked s'" using send_bundle_lock[of C ?info ops "b_accountEst ?b" "gs ?b"] b(2) by simp
      with c \<open>r = Inr u\<close> p Inr q show ?thesis by (simp add: runTest_def Let_def)
    qed
  qed
qed

text \<open>
  C35. A test always ends. When every function of the bundle has its turn in each of \<open>5 * count\<close> rounds,
  \<open>runTest\<close> returns a result or throws, whatever the node and the wallet answer, and the lock of the
  checker, free before, is free again.
\<close>

theorem runTest_completes:
  assumes "\<not> locked s" and "\<forall>r \<in> set rounds. {..<gp_count params} \<subseteq> set r" and "5 * gp_count params \<le> length rounds"
  shows "\<exists>r s'. runTest C (concat rounds) params s = Some (r, s') \<and> \<not> locked s'"
  using assms by (rule runTest_ends)

text \<open>The number of successful operations that a receipt reports.\<close>

definition successes :: "bundle_receipt \<Rightarrow> nat" where
  "successes rcpt = (case br_events rcpt of None \<Rightarrow> 0 | Some evs \<Rightarrow> length (filter (\<lambda>e. e = UserOperationEvent True) evs))"

lemma filter_revert_head: "filter is_revert_event evs = e # es \<Longrightarrow> \<exists>name reason. e = RevertReasonEvent name reason"
  by (auto simp: filter_eq_Cons_iff is_revert_event_def split: bundle_event.splits)

lemma check_receipt_Inr: "check_receipt n rcpt = Inr u \<Longrightarrow> successes rcpt = n"
  by (auto simp: check_receipt_def successes_def dest: filter_revert_head
      split: option.splits list.splits bundle_event.splits if_splits)

definition test_files :: "string \<Rightarrow> string \<Rightarrow> gas_test list" where
  "test_files pm1 pm2 = simple_tests @ paymaster_tests pm1 @ huge_tests @ postop_tests pm2"

definition same_kind :: "gas_test_params \<Rightarrow> gas_test_params \<Rightarrow> bool" where
  "same_kind p q \<longleftrightarrow> q\<lparr>gp_title := gp_title p, gp_count := gp_count p, gp_diffLastGas := gp_diffLastGas p\<rparr> = p"

lemma test_files_pairs:
  assumes "t \<in> set (test_files pm1 pm2)"
  obtains p q where "gt_rows t = [p, q]" "same_kind p q" "gp_count q = Suc (gp_count p)"
    "\<not> gp_diffLastGas p" "gp_diffLastGas q"
proof -
  define good where "good u \<longleftrightarrow> (case gt_rows u of [p, q] \<Rightarrow> same_kind p q \<and> gp_count q = Suc (gp_count p)
      \<and> \<not> gp_diffLastGas p \<and> gp_diffLastGas q | _ \<Rightarrow> False)" for u :: gas_test
  have "list_all good (test_files pm1 pm2)"
    by (simp add: good_def test_files_def simple_tests_def paymaster_tests_def huge_tests_def postop_tests_def row_def
        same_kind_def)
  with assms have "good t" by (auto simp: list_all_iff)
  then show thesis using that by (auto simp: good_def split: list.splits)
qed

end
