(* ===== verification/Gas_Demo.thy ===== *)
theory Gas_Demo
  imports Gas_Checker_Properties Eip7702_Support
begin

text \<open>
  A concrete checker, node and chain, on which the properties of the gas checker are instantiated. The
  chain is the number of operations of the last bundle; all contracts are deployed already, and a
  bundle of \<open>n\<close> operations uses \<open>20000 + 30000 n\<close> gas.
\<close>

definition demo_addr :: "nat \<Rightarrow> string" where
  "demo_addr n = hx (be_bytes 20 (n + 1))"

definition demo_gas_answers :: answers where
  "demo_gas_answers = \<lparr>a_entryPoint = hx (replicate 20 9), a_chainId = Inr 1337, a_getCode = (\<lambda>a. Inr ''0x60''),
     a_getTransactionCount = (\<lambda>a. Inr 0), a_estimateGas = (\<lambda>f t d. Inr 40000), a_view = (\<lambda>c f. Inr 5),
     a_getSenderAddress = (\<lambda>i. Inr ''0x''), a_senderCreator = Inr ''0x'', a_baseFeePerGas = Inr (Some 1)\<rparr>"

definition demo_gas_node :: "nat gas_node" where
  "demo_gas_node = \<lparr>
     g_node = \<lparr>getCode = (\<lambda>a n. Inr ''0x60''), estimateGas = (\<lambda>tx n. Inr 0),
       signerSend = (\<lambda>s tx n. (Inr (), n)), sendRaw = (\<lambda>r n. (Inr (), n))\<rparr>,
     g_defaultSigner = ''signer'', g_addStake = (\<lambda>a d v n. (Inr (), n)),
     g_accountAddress = (\<lambda>f w i n. Inr (demo_addr i)),
     g_balance = (\<lambda>a n. Inr 0), g_transfer = (\<lambda>a v n. (Inr (), n)),
     g_depositOf = (\<lambda>a n. Inr 0), g_depositTo = (\<lambda>a v n. (Inr (), n)),
     g_handleOps = (\<lambda>ops b g n. (Inr ''0x77'', length ops)), g_hasReceipt = (\<lambda>h n. Inr True),
     g_sleep = (\<lambda>n. (Inr (), n)),
     g_wait = (\<lambda>h n. (Inr \<lparr>br_gasUsed = 20000 + 30000 * int n, br_events = Some (replicate n (UserOperationEvent True))\<rparr>, n)),
     g_estimateHandleOps = (\<lambda>ops b n. Inr 100000), g_parseError = (\<lambda>d. Inr (''FailedOp'', d)),
     g_estimateExec = (\<lambda>a d n. Inr 21000), g_createAddress = (\<lambda>n. (Inr ''0x88'', n)),
     g_executeData = (\<lambda>d v c. ''0xb61d27f6''), g_createAccountData = (\<lambda>w i. ''0x''),
     g_factoryBytecode = hx [0x60], g_answers = (\<lambda>n. demo_gas_answers), g_chainId = (\<lambda>n. Inr 1337)\<rparr>"

definition demo_checker :: "nat checker" where
  "demo_checker = \<lparr>ck_E = demo_ethers, ck_lower = id,
     ck_H = \<lparr>op_typehash = ''0x'', domain_typehash = ''0x'', name_hash = ''0x'', version_hash = ''0x''\<rparr>,
     ck_ecsign = (\<lambda>h. Inr ''0x99''), ck_signTyped = (\<lambda>ep c p. Inr ''0x99''), ck_N = demo_gas_node,
     accountOwner = ''0x51'', globalSigner = ''0x52''\<rparr>"

definition demo_gas_state :: "nat gas_state" where
  "demo_gas_state = \<lparr>accounts = [], createdAccounts = [], locked = False, gasEstimatePerExec = [],
     lastGasUsed = Undefined, col = init_collector ''0xbe'' (hx (replicate 20 9)), gas_chain = 0\<rparr>"

lemmas demo_defs = demo_gas_node_def demo_checker_def demo_gas_state_def init_collector_def initTable_def

section \<open>Signing\<close>

definition demo_info :: "nat \<Rightarrow> gas_test_info" where
  "demo_info n = with_defaults (Some ''0xbe'') (row ''simple'' n False)"

text \<open>The operation of the demo test for an account.\<close>

definition demo_packed :: "string \<Rightarrow> PackedUserOp" where
  "demo_packed a = \<lparr>pu_sender = a, pu_nonce = 5, pu_initCode = ''0x'', pu_callData = ''0xb61d27f6'',
     pu_accountGasLimits = hx (be_bytes 16 1000000 @ be_bytes 16 21000), pu_preVerificationGas = 1,
     pu_gasFees = hx (be_bytes 16 10000000000 @ be_bytes 16 10000000000),
     pu_paymasterAndData = ''0x'', pu_signature = ''0x99''\<rparr>"

lemma demo_no_initCode: "isEip7702InitCode demo_ethers (Some ''0x'') = Inr False"
  using ethers_hexlifyData[OF demo_ethers_ok, of "[]"]
  by (simp add: isEip7702InitCode_def hx_Nil startsWith_def INITCODE_EIP7702_MARKER_def)

text \<open>Tests without paymaster, at the default gas price.\<close>

definition plain_info :: "gas_test_info \<Rightarrow> bool" where
  "plain_info info \<longleftrightarrow> gi_paymaster info = None \<and> gi_gasPrice info = 10000000000"

lemma demo_sign:
  assumes "plain_info info"
  shows "fillSignAndPack demo_ethers id H (\<lambda>ep c p. Inr ''0x99'') (test_fields info a ''0xb61d27f6'' 21000)
    (Some demo_gas_answers) no_options = Inr (demo_packed a)"
proof -
  let ?f = "test_fields info a ''0xb61d27f6'' 21000"
  define op where "op = DefaultsForUserOp\<lparr>uo_sender := a, uo_nonce := 5, uo_callData := ''0xb61d27f6'',
     uo_callGasLimit := 21000, uo_verificationGasLimit := 1000000, uo_preVerificationGas := 1,
     uo_maxFeePerGas := 10000000000, uo_maxPriorityFeePerGas := 10000000000,
     uo_paymasterVerificationGasLimit := 50000, uo_paymasterPostOpGasLimit := 50000\<rparr>"
  have part: "?f = \<lparr>p_sender = Some a, p_nonce = None, p_initCode = None, p_callData = Some ''0xb61d27f6'',
     p_callGasLimit = Some 21000, p_verificationGasLimit = Some 1000000, p_preVerificationGas = Some 1,
     p_maxFeePerGas = Some 10000000000, p_maxPriorityFeePerGas = Some 10000000000,
     p_paymaster = None, p_paymasterVerificationGasLimit = Some 50000,
     p_paymasterPostOpGasLimit = Some 50000, p_paymasterData = None, p_signature = None\<rparr>"
    using assms by (simp add: test_fields_def plain_info_def)
  have fill: "fillUserOp demo_ethers id H ?f (Some demo_gas_answers) no_options = Inr op"
    unfolding part fillUserOp_def op_def
    by (simp add: fill_initCode_def fill_nonce_def require_some_def demo_gas_answers_def fill_callGas_def fill_paymaster_def
        fill_fees_def fillUserOpDefaults_def DefaultsForUserOp_def)
  have pack: "packAccountGasLimits demo_ethers 1000000 21000 = Inr (hx (be_bytes 16 1000000 @ be_bytes 16 21000))"
    "packAccountGasLimits demo_ethers 10000000000 10000000000 = Inr (hx (be_bytes 16 10000000000 @ be_bytes 16 10000000000))"
    using packAccountGasLimits_ok[OF demo_ethers_ok] by simp_all
  have zero: "uo_paymaster op = AddressZero" "uo_initCode op = ''0x''"
    by (simp_all add: op_def DefaultsForUserOp_def)
  have packed: "packUserOp demo_ethers (op\<lparr>uo_signature := s\<rparr>) = Inr ((demo_packed a)\<lparr>pu_signature := s\<rparr>)" for s
    using pack zero by (simp add: packUserOp_def) (simp add: op_def demo_packed_def DefaultsForUserOp_def)
  have "op\<lparr>uo_signature := uo_signature op\<rparr> = op" by simp
  with packed[of "uo_signature op"] have "\<exists>p. packUserOp demo_ethers op = Inr p" by metis
  then have "asyncSignUserOp demo_ethers (\<lambda>ep c p. Inr ''0x99'') op (Some demo_gas_answers) no_options = Inr ''0x99''"
    using zero demo_no_initCode by (auto simp: asyncSignUserOp_def demo_gas_answers_def)
  then show ?thesis by (simp add: fillSignAndPack_def fillAndSign_def fill packed) (simp add: demo_packed_def)
qed

section \<open>Runs\<close>

definition demo_factory :: string where
  "demo_factory = hx (create2_address (ethers_keccak demo_ethers) (be_bytes 32 0) (0x60 # be_bytes 32 (be_val (replicate 20 9))))"

lemma demo_factory_code: "factory_init_code demo_checker (hx (replicate 20 9)) = Inr (hx (0x60 # be_bytes 32 (be_val (replicate 20 9))))"
proof -
  have "abiEncode demo_ethers [(''address'', AbiHex (hx (replicate 20 9)))] = Inr (hx (be_bytes 32 (be_val (replicate 20 9))))"
    by (simp add: demo_ethers_def on_data_def del: be_bytes.simps)
  then show ?thesis
    using ethers_hexConcat2[OF demo_ethers_ok, of "[0x60]"]
    by (simp add: factory_init_code_def demo_checker_def demo_gas_node_def del: be_bytes.simps)
qed

lemma demo_deploy_factory:
  assumes "c_entryPoint (col s) = hx (replicate 20 9)"
  shows "deploy_account_factory demo_checker s = (Inr demo_factory, s)"
proof -
  have "getDeployedAddress demo_ethers (hx (0x60 # be_bytes 32 (be_val (replicate 20 9)))) (SaltNum 0) = Inr demo_factory"
    using getDeployedAddress_ok[OF demo_ethers_ok, of "SaltNum 0" "be_bytes 32 0"]
    by (simp add: demo_factory_def del: be_bytes.simps)
  then show ?thesis
    using assms demo_factory_code
    by (simp add: deploy_account_factory_def bindIO_run on_gas_chain_def with_create2_def deploy_def deployFactory_def
        isFactoryDeployed_def init_code_hex_def demo_checker_def demo_gas_node_def)
qed

lemma demo_create_one:
  "create_one demo_checker f n ops s = (Inr ops, s\<lparr>accounts := obj_set (accounts s) (demo_addr n) ''0x51'',
     createdAccounts := (if demo_addr n \<in> set (createdAccounts s) then createdAccounts s else demo_addr n # createdAccounts s)\<rparr>)"
  by (simp add: create_one_def create_if_missing_def bindIO_run read_gas_def on_gas_chain_def demo_checker_def
      demo_gas_node_def minDepositOrBalance_def)

lemma demo_addr_inj: "n < 100 \<Longrightarrow> m < 100 \<Longrightarrow> demo_addr n = demo_addr m \<longleftrightarrow> n = m"
proof -
  assume "n < 100" "m < 100"
  then have "n + 1 < 256 ^ 20" "m + 1 < 256 ^ 20" by simp_all
  then have "be_val (be_bytes 20 (n + 1)) = n + 1" "be_val (be_bytes 20 (m + 1)) = m + 1" by (simp_all only: be_val_be_bytes mod_less)
  then show ?thesis unfolding demo_addr_def hx_inject by (metis add_right_cancel)
qed

lemma demo_factory_accounts: "n \<le> 100 \<Longrightarrow> factory_accounts demo_checker f demo_addr n"
  by (auto simp: factory_accounts_def inj_on_def demo_addr_inj demo_checker_def demo_gas_node_def)

text \<open>The state after the first and after the second row of the simple test.\<close>

definition demo_after :: "nat \<Rightarrow> cell list list \<Rightarrow> nat gas_state" where
  "demo_after n rows = demo_gas_state\<lparr>accounts := map (\<lambda>i. (demo_addr i, ''0x51'')) [0..<n],
     createdAccounts := map demo_addr (rev [0..<n]), gasEstimatePerExec := [(''0xb61d27f6'', ''simple'', 21000)],
     lastGasUsed := Num (20000 + 30000 * int n), gas_chain := n,
     col := (col demo_gas_state)\<lparr>tabRows := tabRows (col demo_gas_state) @ rows\<rparr>\<rparr>"

definition demo_row1 :: "cell list" where
  "demo_row1 = [Text ''simple'', Number (Num 1), Number (Num 50000), Text '''', Text '''']"

definition demo_row2 :: "cell list" where
  "demo_row2 = [Text ''simple - diff from previous'', Number (Num 2), Text '''', Number (Num 30000), Number (Num 9000)]"

lemma demo_col: "c_entryPoint (col demo_gas_state) = hx (replicate 20 9)" "c_beneficiary (col demo_gas_state) = ''0xbe''"
  by (simp_all add: demo_gas_state_def init_collector_def initTable_def)

lemma demo_create_1:
  "createAccounts1 demo_checker 1 demo_gas_state = (Inr (), demo_gas_state\<lparr>accounts := [(demo_addr 0, ''0x51'')], createdAccounts := [demo_addr 0]\<rparr>)"
  using demo_col
  by (simp add: createAccounts1_def bindIO_run demo_deploy_factory demo_create_one on_gas_chain_def)
    (simp add: demo_checker_def demo_gas_node_def demo_gas_state_def)

lemmas demo_step_defs = step_task_def with_dest_def with_estimate_def try_lock_def exec_data_def estimateGasKey_def Let_def

lemma demo_make_bundle_1:
  assumes "plain_info info" "gi_dest info = ''self''" "gi_count info = 1" "gi_title info = ''simple''"
    and "s = demo_gas_state\<lparr>accounts := [(demo_addr 0, ''0x51'')], createdAccounts := [demo_addr 0]\<rparr>"
  shows "make_bundle demo_checker info [0, 0, 0] s =
    \<lparr>gs = s\<lparr>gasEstimatePerExec := [(''0xb61d27f6'', ''simple'', 21000)]\<rparr>, b_accountEst = 21000, b_rejected = None,
     tasks = [Made (demo_packed (demo_addr 0))]\<rparr>"
proof -
  let ?st = "start_bundle info s"
  have start: "?st = \<lparr>gs = s, b_accountEst = 0, b_rejected = None, tasks = [NotStarted (Some (demo_addr 0))]\<rparr>"
    using assms by (simp add: start_bundle_def entry_keys_def)
  show ?thesis
    using assms(2,4) demo_sign[OF assms(1)] unfolding make_bundle_def start
    by (simp add: demo_step_defs demo_checker_def demo_gas_node_def assms(5) demo_gas_state_def toNumber_def)
qed

lemma demo_send:
  assumes "length ops < 100"
  shows "send_bundle demo_checker info ops 21000 s =
    (Inr \<lparr>gr_title = gi_title info, gr_count = gi_count info, gr_gasUsed = 20000 + 30000 * int (length ops), gr_accountEst = 21000,
       gr_gasDiff = (if gi_diffLastGas info then Some (js_minus (20000 + 30000 * int (length ops)) (lastGasUsed s)) else None)\<rparr>,
     s\<lparr>gas_chain := length ops, lastGasUsed := Num (20000 + 30000 * int (length ops))\<rparr>)"
proof -
  have "toNumber (20000 + 30000 * int (length ops)) = Inr (20000 + 30000 * int (length ops))"
    using assms by (simp add: toNumber_def)
  moreover have "check_receipt n \<lparr>br_gasUsed = g, br_events = Some (replicate n (UserOperationEvent True))\<rparr> = Inr ()" for g n
    by (simp add: check_receipt_def is_revert_event_def)
  ultimately show ?thesis
    by (simp add: send_bundle_def bindIO_run estimate_bundle_def read_gas_def on_gas_chain_def demo_checker_def
        demo_gas_node_def numeral_eq_Suc test_result_def)
qed

definition demo_params2 :: gas_test_params where
  "demo_params2 = row ''simple - diff from previous'' 2 True"

lemma upto_2: "[0..<2] = [0, 1 :: nat]"
  by (simp add: upt_rec)

lemma demo_create_2:
  "createAccounts1 demo_checker 2 (demo_after 1 rows) = (Inr (), (demo_after 1 rows)\<lparr>
     accounts := [(demo_addr 0, ''0x51''), (demo_addr 1, ''0x51'')], createdAccounts := [demo_addr 1, demo_addr 0], gas_chain := 0\<rparr>)"
proof -
  have "c_entryPoint (col (demo_after 1 rows)) = hx (replicate 20 9)" using demo_col by (simp add: demo_after_def)
  then show ?thesis
    using upto_2 demo_addr_inj[of 0 1] demo_addr_inj[of 1 0]
    by (simp add: createAccounts1_def bindIO_run demo_deploy_factory demo_create_one on_gas_chain_def)
      (simp add: demo_checker_def demo_gas_node_def demo_after_def)
qed

lemma demo_make_bundle_2:
  assumes "plain_info info" "gi_dest info = ''self''" "gi_count info = 2"
    and "accounts s = [(demo_addr 0, ''0x51''), (demo_addr 1, ''0x51'')]"
    and "gasEstimatePerExec s = [(''0xb61d27f6'', ''simple'', 21000)]" "\<not> locked s"
  shows "make_bundle demo_checker info [0, 1, 0, 1, 1] s =
    \<lparr>gs = s, b_accountEst = 21000, b_rejected = None, tasks = [Made (demo_packed (demo_addr 0)), Made (demo_packed (demo_addr 1))]\<rparr>"
proof -
  define st where "st lk t0 t1 = \<lparr>gs = s\<lparr>locked := lk\<rparr>, b_accountEst = 21000, b_rejected = None, tasks = [t0, t1]\<rparr>" for lk t0 t1
  let ?step = "step_task demo_ethers id (ck_H demo_checker) (\<lambda>ep c p. Inr ''0x99'') demo_gas_node info"
  let ?d = "''0xb61d27f6''" and ?a = "demo_addr 0" and ?b = "demo_addr 1"
  have exec: "exec_data demo_gas_node info d = ?d" for d by (simp add: exec_data_def demo_gas_node_def)
  have answers: "g_answers demo_gas_node n = demo_gas_answers" for n by (simp add: demo_gas_node_def)
  have cache: "obj_get [(?d, t, e)] (estimateGasKey demo_gas_node info) = Some (t, e)" for t :: string and e :: int
    by (simp add: estimateGasKey_def exec obj_get_def)
  have s1: "?step 0 (start_bundle info s) = st True (Signing ?a ?d 21000) (NotStarted (Some ?b))"
    using assms(2-6) by (simp add: start_bundle_def entry_keys_def upto_2 step_task_def with_dest_def exec cache try_lock_def st_def)
  have s2: "?step 1 (st True x (NotStarted (Some ?b))) = st True x (Polling ?b ?d)" for x
    using assms(2,5) by (simp add: step_task_def with_dest_def exec cache try_lock_def st_def)
  have s3: "?step 0 (st True (Signing ?a ?d 21000) x) = st False (Made (demo_packed ?a)) x" for x
    using demo_sign[OF assms(1)] by (simp add: step_task_def st_def answers)
  have s4: "?step 1 (st False x (Polling ?b ?d)) = st True x (Signing ?b ?d 21000)" for x
    by (simp add: step_task_def try_lock_def st_def)
  have s5: "?step 1 (st True x (Signing ?b ?d 21000)) = st False x (Made (demo_packed ?b))" for x
    using demo_sign[OF assms(1)] by (simp add: step_task_def st_def answers)
  have ck: "ck_E demo_checker = demo_ethers" "ck_lower demo_checker = id" "ck_signTyped demo_checker = (\<lambda>ep c p. Inr ''0x99'')"
    "ck_N demo_checker = demo_gas_node" by (simp_all add: demo_checker_def)
  show ?thesis
    unfolding make_bundle_def ck run_tasks.simps s1 s2 s3 s4 s5 by (simp add: st_def unlocked_id[OF assms(6)])
qed

lemma demo_row_2:
  "addTestRow demo_checker [0, 1, 0, 1, 1] demo_params2 (demo_after 1 [demo_row1])
    = Some (Inr (), demo_after 2 [demo_row1, demo_row2])"
proof -
  let ?s = "(demo_after 1 [demo_row1])\<lparr>accounts := [(demo_addr 0, ''0x51''), (demo_addr 1, ''0x51'')],
           createdAccounts := [demo_addr 1, demo_addr 0], gas_chain := 0\<rparr>"
  let ?info = "with_defaults (Some ''0xbe'') demo_params2"
  have info: "plain_info ?info" "gi_dest ?info = ''self''" "gi_count ?info = 2" "gi_title ?info = gp_title demo_params2"
    "gi_diffLastGas ?info"
    by (simp_all add: with_defaults_def row_def plain_info_def demo_params2_def)
  have b: "make_bundle demo_checker ?info [0, 1, 0, 1, 1] ?s = \<lparr>gs = ?s, b_accountEst = 21000, b_rejected = None,
      tasks = [Made (demo_packed (demo_addr 0)), Made (demo_packed (demo_addr 1))]\<rparr>"
    by (rule demo_make_bundle_2[OF info(1-3)]) (simp_all add: demo_after_def demo_gas_state_def)
  note send = demo_send[of "[demo_packed (demo_addr 0), demo_packed (demo_addr 1)]" ?info ?s]
  have col: "c_beneficiary (col (demo_after 1 [demo_row1])) = ''0xbe''" using demo_col by (simp add: demo_after_def)
  show ?thesis
    using b send demo_create_2[of "[demo_row1]"] info col
    by (simp add: addTestRow_def runTest_def Let_def promise_all_def)
      (simp add: demo_after_def demo_gas_state_def addRow_def row_cells_def demo_row2_def demo_params2_def row_def upto_2)
qed

section \<open>Instances of the properties\<close>

theorem runTest_completes_witness:
  "\<exists>r s'. runTest demo_checker (concat (replicate 10 [1, 0])) (row ''simple'' 2 False) demo_gas_state = Some (r, s') \<and> \<not> locked s'"
  by (rule runTest_completes) (auto simp: demo_gas_state_def row_def)

theorem accounts_in_order_witness:
  "obj_keys (accounts (demo_after 1 [])) = map demo_addr [0..<1]
   \<and> entry_keys 2 (accounts (snd (createAccounts1 demo_checker 2 (demo_after 1 [])))) = [Some (demo_addr 0), Some (demo_addr 1)]"
proof -
  have f: "factory_address demo_checker (c_entryPoint (col (demo_after 1 []))) = Inr demo_factory"
    using deploy_account_factory_Inr(1)[OF demo_deploy_factory, of "demo_after 1 []"] demo_col by (simp add: demo_after_def)
  have k: "obj_keys (accounts (demo_after 1 [])) = map demo_addr [0..<1]" by (simp add: demo_after_def obj_keys_def)
  from accounts_in_order[OF f demo_factory_accounts k demo_create_2] k demo_create_2[of "[]"]
  show ?thesis by (simp add: upto_2)
qed

text \<open>
  A chain on which the second account has no code, and whose node refuses the bundle that creates it.
  The hash and the encoder of this instance are constant.
\<close>

definition const_ethers :: ethers where
  "const_ethers = demo_ethers\<lparr>keccak256 := (\<lambda>s. Inr (hx (replicate 32 7))), abiEncode := (\<lambda>vs. Inr (hx [1]))\<rparr>"

lemma const_ethers_ok: "ethers_ok const_ethers"
  using demo_ethers_ok unfolding ethers_ok_def const_ethers_def by auto

definition failing_checker :: "nat checker" where
  "failing_checker = demo_checker\<lparr>ck_E := const_ethers, ck_N := demo_gas_node\<lparr>
     g_node := (g_node demo_gas_node)\<lparr>getCode := (\<lambda>a n. Inr (if n = 1 then ''0x'' else ''0x60''))\<rparr>,
     g_depositTo := (\<lambda>a v n. (Inr (), n + 1)),
     g_handleOps := (\<lambda>ops b g n. (Inl (Rejected ''underpriced''), n))\<rparr>\<rparr>"

definition failing_factory :: string where "failing_factory = hx (replicate 20 7)"

lemma const_keccak: "ethers_keccak const_ethers bs = replicate 32 7"
  by (simp add: ethers_keccak_def const_ethers_def)

lemma failing_deploy: "deploy_account_factory failing_checker demo_gas_state = (Inr failing_factory, demo_gas_state)"
proof -
  have code: "hexConcat const_ethers [hx [96], hx [1]] = Inr (hx [96, 1])"
    using ethers_hexConcat2[OF const_ethers_ok, of "[96]" "[1]"] by simp
  have addr: "getDeployedAddress const_ethers (hx [96, 1]) (SaltNum 0) = Inr failing_factory"
    using getDeployedAddress_ok[OF const_ethers_ok, of "SaltNum 0" "be_bytes 32 0" "[96, 1]"]
    by (simp add: create2_address_def const_keccak failing_factory_def)
  have abi: "abiEncode const_ethers vs = Inr (hx [1])" for vs by (simp add: const_ethers_def)
  show ?thesis
    by (simp add: deploy_account_factory_def factory_init_code_def bindIO_run on_gas_chain_def with_create2_def deploy_def
        deployFactory_def isFactoryDeployed_def init_code_hex_def failing_checker_def demo_checker_def demo_gas_node_def
        code addr abi)
      (simp add: demo_gas_state_def)
qed

lemma failing_not_7702: "isEip7702InitCode const_ethers (Some (hx (replicate 20 7))) = Inr False"
proof -
  have "take 2 (replicate 20 7) = [7, 7 :: 8 word]" by (simp add: numeral_eq_Suc)
  then show ?thesis by (simp only: client_marker[OF const_ethers_ok]) simp
qed

lemma failing_creation_op: "\<exists>p. creation_op failing_checker ep (demo_addr 1) (hx (replicate 20 7)) 1337 = Inr p"
proof -
  let ?f = "creation_fields (demo_addr 1) (hx (replicate 20 7))"
  obtain op where fill: "fillUserOp const_ethers id H ?f None no_options = Inr op"
    and op: "uo_initCode op = hx (replicate 20 7)" "uo_verificationGasLimit op = 1000000" "uo_callGasLimit op = 30000"
      "uo_maxFeePerGas op = 0" "uo_maxPriorityFeePerGas op = 1000000000" "uo_paymaster op = AddressZero"
      "uo_callData op = ''0x''" for H
    using failing_not_7702
    by (simp add: fillUserOp_def creation_fields_def fill_initCode_def fill_factory_def ethers_hexDataSlice[OF const_ethers_ok]
        fill_sender_def fill_verificationGas_def fill_nonce_def fill_callGas_def fill_paymaster_def fill_fees_def
        fillUserOpDefaults_def DefaultsForUserOp_def)
  have pack: "packAccountGasLimits const_ethers 1000000 30000 = Inr (hx (be_bytes 16 1000000 @ be_bytes 16 30000))"
    "packAccountGasLimits const_ethers 1000000000 0 = Inr (hx (be_bytes 16 1000000000 @ be_bytes 16 0))"
    using packAccountGasLimits_ok[OF const_ethers_ok] by simp_all
  have packed: "\<exists>p. packUserOp const_ethers (op\<lparr>uo_signature := s\<rparr>) = Inr p" for s
    using pack op by (simp add: packUserOp_def)
  have "op\<lparr>uo_signature := uo_signature op\<rparr> = op" by simp
  with packed[of "uo_signature op"] obtain p where "packUserOp const_ethers op = Inr p" by metis
  moreover have "''0x1901'' = hx [0x19, 1]" by (simp add: hx_def hex_byte_def hexdigit_def)
  moreover have "hexConcat const_ethers [hx [0x19, 1], hx a, hx b] = Inr (hx ([0x19, 1] @ a @ b))" for a b
    using ethers_hexConcat[OF const_ethers_ok, of "[[0x19, 1], a, b]"] by simp
  moreover have "keccak256 const_ethers s = Inr (hx (replicate 32 7))" "abiEncode const_ethers vs = Inr (hx [1])" for s vs
    by (simp_all add: const_ethers_def)
  ultimately have "\<exists>h. getUserOpHash const_ethers H op ep 1337 = Inr h" for H
    by (simp add: getUserOpHash_def encodeUserOp_def getDomainSeparator_def)
  then obtain h where "getUserOpHash const_ethers (ck_H demo_checker) op ep 1337 = Inr h" by blast
  then show ?thesis
    using fill failing_not_7702 packed[of "''0x99''"] op(1)
    by (simp add: creation_op_def signUserOp_def failing_checker_def demo_checker_def)
qed

lemma failing_create_one:
  assumes "gas_chain s \<noteq> 1"
  shows "create_one failing_checker failing_factory n ops s =
    (Inr ops, s\<lparr>accounts := obj_set (accounts s) (demo_addr n) ''0x51'',
       createdAccounts := (if demo_addr n \<in> set (createdAccounts s) then createdAccounts s else demo_addr n # createdAccounts s),
       gas_chain := gas_chain s + 1\<rparr>)"
  using assms
  by (simp add: create_one_def create_if_missing_def bindIO_run read_gas_def on_gas_chain_def failing_checker_def
      demo_checker_def demo_gas_node_def minDepositOrBalance_def)

lemma failing_create_missing:
  assumes "gas_chain s = 1" "demo_addr 1 \<notin> set (createdAccounts s)" "c_entryPoint (col s) = ep"
    and "creation_op failing_checker ep (demo_addr 1) failing_factory 1337 = Inr p"
  shows "create_one failing_checker failing_factory 1 ops s =
    (Inr (ops @ [p]), s\<lparr>accounts := obj_set (accounts s) (demo_addr 1) ''0x51'',
       createdAccounts := demo_addr 1 # createdAccounts s, gas_chain := 2\<rparr>)"
proof -
  have "accountInitCode failing_checker failing_factory 1 = Inr failing_factory"
    using ethers_hexConcat2[OF const_ethers_ok, of "replicate 20 7" "[]"]
    by (simp add: accountInitCode_def failing_checker_def demo_checker_def demo_gas_node_def failing_factory_def hx_Nil)
  moreover have "g_accountAddress (ck_N failing_checker) f w n c = Inr (demo_addr n)"
    "getCode (g_node (ck_N failing_checker)) a 1 = Inr ''0x''" "g_chainId (ck_N failing_checker) c = Inr 1337"
    "g_depositOf (ck_N failing_checker) a c = Inr 0" "g_depositTo (ck_N failing_checker) a v c = (Inr (), c + 1)"
    "accountOwner failing_checker = ''0x51''" for f w n c a v
    by (simp_all add: failing_checker_def demo_checker_def demo_gas_node_def)
  ultimately show ?thesis
    using assms
    by (simp add: create_one_def create_if_missing_def bindIO_run read_gas_def on_gas_chain_def minDepositOrBalance_def
        del: One_nat_def)
qed

text \<open>The first attempt makes a creation operation and fails; the second makes none.\<close>

theorem creation_never_retried_witness:
  "\<exists>p s1 s2 e. create_loop failing_checker failing_factory [0..<2] [] demo_gas_state = (Inr [p], s1)
    \<and> createAccounts1 failing_checker 2 demo_gas_state = (Inl e, s2)
    \<and> (\<forall>ops t'. create_loop failing_checker failing_factory [0..<2] [] (s2\<lparr>gas_chain := 0\<rparr>) = (Inr ops, t') \<longrightarrow> ops = [])"
proof -
  obtain p where p: "creation_op failing_checker (hx (replicate 20 9)) (demo_addr 1) failing_factory 1337 = Inr p"
    using failing_creation_op unfolding failing_factory_def by blast
  let ?s = "demo_gas_state\<lparr>accounts := [(demo_addr 0, ''0x51'')], createdAccounts := [demo_addr 0], gas_chain := 1\<rparr>"
  have one: "create_one failing_checker failing_factory 0 [] demo_gas_state = (Inr [], ?s)"
    using failing_create_one[of demo_gas_state 0 "[]"] by (simp add: demo_gas_state_def)
  have "demo_addr 1 \<notin> set (createdAccounts ?s)" using demo_addr_inj[of 1 0] by simp
  from failing_create_missing[OF _ this _ p, of "[]"] demo_col
  obtain s1 where two: "create_one failing_checker failing_factory 1 [] ?s = (Inr [p], s1)" by simp
  from one two have loop: "create_loop failing_checker failing_factory [0..<2] [] demo_gas_state = (Inr [p], s1)"
    unfolding upto_2 by (simp add: bindIO_run)
  with failing_deploy obtain s2 where fail: "createAccounts1 failing_checker 2 demo_gas_state = (Inl (Rejected ''underpriced''), s2)"
    by (simp add: createAccounts1_def bindIO_run on_gas_chain_def) (simp add: failing_checker_def)
  have fa: "factory_accounts failing_checker failing_factory demo_addr 2"
    using demo_factory_accounts[of 2] by (simp add: factory_accounts_def failing_checker_def demo_checker_def demo_gas_node_def)
  have "ops = []" if "create_loop failing_checker failing_factory [0..<2] [] (s2\<lparr>gas_chain := 0\<rparr>) = (Inr ops, t')" for ops t'
    by (rule creation_never_retried[OF fa failing_deploy loop fail _ order_refl that]) simp
  with loop fail show ?thesis by blast
qed

section \<open>Instances for one bundle\<close>

text \<open>The bundle of two accounts in the middle of a run: one function signs, the other polls.\<close>

definition demo_two :: "nat gas_state" where
  "demo_two = demo_gas_state\<lparr>accounts := [(demo_addr 0, ''0x51''), (demo_addr 1, ''0x51'')],
     gasEstimatePerExec := [(''0xb61d27f6'', ''simple'', 21000)]\<rparr>"

definition demo_run :: "nat list \<Rightarrow> nat bundle_state" where
  "demo_run ks = run_tasks demo_ethers id (ck_H demo_checker) (\<lambda>ep c p. Inr ''0x99'') demo_gas_node (demo_info 2) ks
     (start_bundle (demo_info 2) demo_two)"

theorem signing_exclusive_witness:
  "signing (tasks (demo_run [0, 1])) \<le> 1 \<and> locked (gs (demo_run [0, 1])) \<and> signing (tasks (demo_run [0, 1])) = 1"
proof -
  have "\<not> locked demo_two" by (simp add: demo_two_def demo_gas_state_def)
  from signing_exclusive[OF this run_tasks_steps, of demo_ethers id "ck_H demo_checker" "\<lambda>ep c p. Inr ''0x99''"
      demo_gas_node "demo_info 2" "[0, 1]"]
  have x: "signing (tasks (demo_run [0, 1])) \<le> 1 \<and> (locked (gs (demo_run [0, 1])) \<longleftrightarrow> signing (tasks (demo_run [0, 1])) = 1)"
    by (simp only: demo_run_def)
  have "locked (gs (demo_run [0, 1]))"
    by (simp add: demo_run_def demo_two_def demo_info_def with_defaults_def row_def start_bundle_def entry_keys_def upto_2
        step_task_def with_dest_def exec_data_def estimateGasKey_def demo_gas_node_def obj_get_def try_lock_def demo_gas_state_def)
  with x show ?thesis by simp
qed

lemma demo_run_2: "promise_all (demo_run [0, 1, 0, 1, 1]) = Some (Inr [demo_packed (demo_addr 0), demo_packed (demo_addr 1)])"
proof -
  have i: "plain_info (demo_info 2)" "gi_dest (demo_info 2) = ''self''" "gi_count (demo_info 2) = 2"
    by (simp_all add: demo_info_def plain_info_def with_defaults_def row_def)
  have "make_bundle demo_checker (demo_info 2) [0, 1, 0, 1, 1] demo_two = \<lparr>gs = demo_two, b_accountEst = 21000,
      b_rejected = None, tasks = [Made (demo_packed (demo_addr 0)), Made (demo_packed (demo_addr 1))]\<rparr>"
    by (rule demo_make_bundle_2[OF i]) (simp_all add: demo_two_def demo_gas_state_def)
  moreover have "make_bundle demo_checker (demo_info 2) [0, 1, 0, 1, 1] demo_two = demo_run [0, 1, 0, 1, 1]"
    by (simp only: make_bundle_def demo_run_def) (simp add: demo_checker_def)
  ultimately have r: "demo_run [0, 1, 0, 1, 1] = \<lparr>gs = demo_two, b_accountEst = 21000,
      b_rejected = None, tasks = [Made (demo_packed (demo_addr 0)), Made (demo_packed (demo_addr 1))]\<rparr>" by (simp only:)
  show ?thesis unfolding r promise_all_def by simp
qed

theorem bundle_operations_witness:
  "call_ok demo_gas_node (demo_info 2) (demo_addr 1) ''0xb61d27f6''
    \<and> (\<exists>est. known_estimate demo_gas_node (demo_info 2) (gasEstimatePerExec demo_two) est
        \<and> packAccountGasLimits demo_ethers 1000000 est = Inr (pu_accountGasLimits (demo_packed (demo_addr 1))))"
proof -
  have c: "1 < gi_count (demo_info 2)" by (simp add: demo_info_def with_defaults_def row_def)
  have n: "[demo_packed (demo_addr 0), demo_packed (demo_addr 1)] ! 1 = demo_packed (demo_addr 1)" by simp
  have pu: "pu_sender (demo_packed (demo_addr 1)) = demo_addr 1" "pu_callData (demo_packed (demo_addr 1)) = ''0xb61d27f6''"
    by (simp_all add: demo_packed_def)
  show ?thesis using bundle_operations[OF demo_run_2[unfolded demo_run_def] c, unfolded n pu] by blast
qed

end
