(* ===== verification/Stake_Manager.thy ===== *)
theory Stake_Manager
  imports UserOperation_Lib
begin

text \<open>
  The deposits, stakes and nonces of the EntryPoint: \<open>contracts/core/StakeManager.sol\<close> and
  \<open>contracts/core/NonceManager.sol\<close>. What any contract can do to them is the relation \<open>ep_step\<close>, and the
  EntryPoint is solvent when its ether covers all deposits and stakes.
\<close>

section \<open>State\<close>

record deposit_info =
  di_deposit :: uint256
  di_staked :: bool
  di_stake :: "112 word"
  di_unstakeDelaySec :: "32 word"
  di_withdrawTime :: "48 word"

datatype ep_event =
    Deposited address uint256
  | Withdrawn address address uint256
  | StakeLocked address uint256 "32 word"
  | StakeUnlocked address "48 word"
  | StakeWithdrawn address address uint256
  | AccountDeployed uint256 address address address
  | BeforeExecution
  | SignatureAggregatorChanged address
  | UserOperationEvent uint256 address address uint256 bool uint256 uint256
  | UserOperationRevertReason uint256 address uint256 bytes
  | PostOpRevertReason uint256 address uint256 bytes
  | UserOperationPrefundTooLow uint256 address uint256

text \<open>
  \<open>ep_locked\<close> is the transient flag of \<open>nonReentrant\<close>, \<open>ep_balance\<close> the ether that the contract holds, and
  \<open>ep_world\<close> the storage of all other contracts.
\<close>

record 'w ep_state =
  deposits :: "address \<Rightarrow> deposit_info"
  nonceSequenceNumber :: "address \<Rightarrow> 192 word \<Rightarrow> uint256"
  ep_locked :: bool
  ep_balance :: uint256
  ep_events :: "ep_event list"
  ep_world :: 'w

definition emit :: "ep_event \<Rightarrow> 'w ep_state \<Rightarrow> 'w ep_state" where
  "emit ev st = st\<lparr>ep_events := ep_events st @ [ev]\<rparr>"

section \<open>Deposits\<close>

definition set_info :: "address \<Rightarrow> deposit_info \<Rightarrow> 'w ep_state \<Rightarrow> 'w ep_state" where
  "set_info a info st = st\<lparr>deposits := (deposits st)(a := info)\<rparr>"

definition balanceOf :: "'w ep_state \<Rightarrow> address \<Rightarrow> uint256" where
  "balanceOf st account = di_deposit (deposits st account)"

definition incrementDeposit :: "address \<Rightarrow> uint256 \<Rightarrow> 'w ep_state \<Rightarrow> 'w ep_state" where
  "incrementDeposit account amount st =
     (let info = deposits st account in set_info account (info\<lparr>di_deposit := di_deposit info + amount\<rparr>) st)"

definition tryDecrementDeposit :: "address \<Rightarrow> uint256 \<Rightarrow> 'w ep_state \<Rightarrow> bool \<times> 'w ep_state" where
  "tryDecrementDeposit account amount st =
     (let info = deposits st account in
      if di_deposit info < amount then (False, st)
      else (True, set_info account (info\<lparr>di_deposit := di_deposit info - amount\<rparr>) st))"

text \<open>A payable function runs with its value already in the balance.\<close>

definition depositTo :: "address \<Rightarrow> uint256 \<Rightarrow> 'w ep_state \<Rightarrow> 'w ep_state" where
  "depositTo account msgValue st =
     (let st1 = incrementDeposit account msgValue st in emit (Deposited account (balanceOf st1 account)) st1)"

definition withdrawTo :: "address \<Rightarrow> address \<Rightarrow> uint256 \<Rightarrow> 'w ep_state \<Rightarrow> sol_error + 'w ep_state" where
  "withdrawTo sender withdrawAddress withdrawAmount st =
     (let info = deposits st sender in
      if di_deposit info < withdrawAmount then Inl (RequireFailed ''Withdraw amount too large'')
      else Inr (emit (Withdrawn sender withdrawAddress withdrawAmount)
             (set_info sender (info\<lparr>di_deposit := di_deposit info - withdrawAmount\<rparr>) st)))"

section \<open>Stakes\<close>

definition addStake :: "address \<Rightarrow> uint256 \<Rightarrow> 32 word \<Rightarrow> 'w ep_state \<Rightarrow> sol_error + 'w ep_state" where
  "addStake sender msgValue unstakeDelaySec st =
     (let info = deposits st sender in
      if unstakeDelaySec = 0 then Inl (RequireFailed ''must specify unstake delay'')
      else if unstakeDelaySec < di_unstakeDelaySec info then Inl (RequireFailed ''cannot decrease unstake time'')
      else bindE (add256 (ucast (di_stake info)) msgValue) (\<lambda>stake.
        if stake = 0 then Inl (RequireFailed ''no stake specified'')
        else if 2 ^ 112 - 1 < stake then Inl (RequireFailed ''stake overflow'')
        else Inr (emit (StakeLocked sender stake unstakeDelaySec)
          (set_info sender \<lparr>di_deposit = di_deposit info, di_staked = True, di_stake = ucast stake,
             di_unstakeDelaySec = unstakeDelaySec, di_withdrawTime = 0\<rparr> st))))"

definition unlockStake :: "address \<Rightarrow> uint256 \<Rightarrow> 'w ep_state \<Rightarrow> sol_error + 'w ep_state" where
  "unlockStake sender timestamp st =
     (let info = deposits st sender in
      if di_unstakeDelaySec info = 0 then Inl (RequireFailed ''not staked'')
      else if \<not> di_staked info then Inl (RequireFailed ''already unstaking'')
      else let now48 = (ucast timestamp :: 48 word); delay = (ucast (di_unstakeDelaySec info) :: 48 word) in
        if 2 ^ 48 \<le> unat now48 + unat delay then Inl (Panic 0x11)
        else Inr (emit (StakeUnlocked sender (now48 + delay))
          (set_info sender (info\<lparr>di_withdrawTime := now48 + delay, di_staked := False\<rparr>) st)))"

definition withdrawStake :: "address \<Rightarrow> uint256 \<Rightarrow> address \<Rightarrow> 'w ep_state \<Rightarrow> sol_error + uint256 \<times> 'w ep_state" where
  "withdrawStake sender timestamp withdrawAddress st =
     (let info = deposits st sender; stake = (ucast (di_stake info) :: uint256) in
      if stake = 0 then Inl (RequireFailed ''No stake to withdraw'')
      else if di_withdrawTime info = 0 then Inl (RequireFailed ''must call unlockStake() first'')
      else if timestamp < ucast (di_withdrawTime info) then Inl (RequireFailed ''Stake withdrawal is not due'')
      else Inr (stake, emit (StakeWithdrawn sender withdrawAddress stake)
        (set_info sender (info\<lparr>di_unstakeDelaySec := 0, di_withdrawTime := 0, di_stake := 0\<rparr>) st)))"

section \<open>Nonces\<close>

definition nonce_key :: "uint256 \<Rightarrow> 192 word" where
  "nonce_key nonce = ucast (drop_bit 64 nonce)"

definition nonce_seq :: "uint256 \<Rightarrow> 64 word" where
  "nonce_seq nonce = ucast nonce"

definition getNonce :: "'w ep_state \<Rightarrow> address \<Rightarrow> 192 word \<Rightarrow> uint256" where
  "getNonce st sender key = or (nonceSequenceNumber st sender key) (push_bit 64 (ucast key))"

definition set_nonce :: "address \<Rightarrow> 192 word \<Rightarrow> uint256 \<Rightarrow> 'w ep_state \<Rightarrow> 'w ep_state" where
  "set_nonce a key n st =
     st\<lparr>nonceSequenceNumber := (nonceSequenceNumber st)(a := (nonceSequenceNumber st a)(key := n))\<rparr>"

definition incrementNonce :: "address \<Rightarrow> 192 word \<Rightarrow> 'w ep_state \<Rightarrow> sol_error + 'w ep_state" where
  "incrementNonce sender key st =
     bindE (add256 (nonceSequenceNumber st sender key) 1) (\<lambda>n. Inr (set_nonce sender key n st))"

definition validateAndUpdateNonce :: "address \<Rightarrow> uint256 \<Rightarrow> 'w ep_state \<Rightarrow> sol_error + bool \<times> 'w ep_state" where
  "validateAndUpdateNonce sender nonce st =
     (let key = nonce_key nonce; seq = nonce_seq nonce; cur = nonceSequenceNumber st sender key in
      bindE (incrementNonce sender key st) (\<lambda>st1. Inr (cur = ucast seq, st1)))"

section \<open>What other contracts can do\<close>

text \<open>
  One call of an external function of the EntryPoint, with its value, by any contract at any time; ether
  that arrives without a call; and anything that happens elsewhere. A withdrawal pays before the code of
  its recipient runs, which is then further steps; when the payment fails it reverts and is no step.
  \<open>handleOps\<close> is not among them: \<open>nonReentrant\<close> refuses it while a bundle is being handled.
\<close>

definition receive_ether :: "uint256 \<Rightarrow> 'w ep_state \<Rightarrow> 'w ep_state" where
  "receive_ether v st = st\<lparr>ep_balance := ep_balance st + v\<rparr>"

definition pay_out :: "uint256 \<Rightarrow> 'w ep_state \<Rightarrow> 'w ep_state" where
  "pay_out v st = st\<lparr>ep_balance := ep_balance st - v\<rparr>"

inductive ep_step :: "'w ep_state \<Rightarrow> 'w ep_state \<Rightarrow> bool" where
  deposit: "unat (ep_balance st) + unat v < 2 ^ 256 \<Longrightarrow> ep_step st (depositTo a v (receive_ether v st))"
| withdraw: "withdrawTo s to v st = Inr st' \<Longrightarrow> v \<le> ep_balance st \<Longrightarrow> ep_step st (pay_out v st')"
| stake: "unat (ep_balance st) + unat v < 2 ^ 256 \<Longrightarrow> addStake s v d (receive_ether v st) = Inr st' \<Longrightarrow> ep_step st st'"
| unlock: "unlockStake s t st = Inr st' \<Longrightarrow> ep_step st st'"
| withdraw_stake: "withdrawStake s t to st = Inr (v, st') \<Longrightarrow> v \<le> ep_balance st \<Longrightarrow> ep_step st (pay_out v st')"
| nonce: "incrementNonce s k st = Inr st' \<Longrightarrow> ep_step st st'"
| ether: "unat (ep_balance st) + unat v < 2 ^ 256 \<Longrightarrow> ep_step st (receive_ether v st)"
| elsewhere: "ep_step st (st\<lparr>ep_world := w\<rparr>)"

section \<open>Solvency\<close>

definition owed :: "deposit_info \<Rightarrow> nat" where
  "owed info = unat (di_deposit info) + unat (di_stake info)"

text \<open>All deposits and stakes. There are finitely many addresses.\<close>

definition total :: "'w ep_state \<Rightarrow> nat" where
  "total st = (\<Sum>a \<in> UNIV. owed (deposits st a))"

text \<open>The ether covers all deposits and stakes, and \<open>R\<close> more that is reserved.\<close>

definition solvent :: "nat \<Rightarrow> 'w ep_state \<Rightarrow> bool" where
  "solvent R st \<longleftrightarrow> total st + R \<le> unat (ep_balance st)"

lemma total_set_info: "total (set_info a info st) + owed (deposits st a) = total st + owed info"
proof -
  have fin: "finite (UNIV :: address set)" by simp
  have "(\<Sum>b \<in> UNIV. owed (deposits (set_info a info st) b)) = owed info + (\<Sum>b \<in> UNIV - {a}. owed (deposits st b))"
    by (subst sum.remove[OF fin, of a]) (auto simp: set_info_def intro!: sum.cong)
  moreover have "(\<Sum>b \<in> UNIV. owed (deposits st b)) = owed (deposits st a) + (\<Sum>b \<in> UNIV - {a}. owed (deposits st b))"
    by (rule sum.remove[OF fin]) simp
  ultimately show ?thesis by (simp add: total_def)
qed

lemma owed_le_total: "owed (deposits st a) \<le> total st"
  unfolding total_def by (rule member_le_sum) simp_all

lemma total_fields [simp]:
  "total (emit ev st) = total st" "total (receive_ether v st) = total st" "total (pay_out v st) = total st"
  "total (set_nonce s k n st) = total st" "total (st\<lparr>ep_world := w\<rparr>) = total st" "total (st\<lparr>ep_locked := b\<rparr>) = total st"
  "total (st\<lparr>ep_balance := n\<rparr>) = total st"
  by (simp_all add: total_def emit_def receive_ether_def pay_out_def set_nonce_def)

lemma state_fields [simp]:
  "ep_balance (emit ev st) = ep_balance st" "ep_balance (set_info a info st) = ep_balance st"
  "ep_balance (set_nonce s k n st) = ep_balance st"
  "deposits (emit ev st) = deposits st" "deposits (receive_ether v st) = deposits st" "deposits (pay_out v st) = deposits st"
  "ep_locked (emit ev st) = ep_locked st" "ep_locked (set_info a info st) = ep_locked st"
  "ep_locked (receive_ether v st) = ep_locked st" "ep_locked (pay_out v st) = ep_locked st"
  "ep_locked (set_nonce s k n st) = ep_locked st"
  "nonceSequenceNumber (emit ev st) = nonceSequenceNumber st"
  "nonceSequenceNumber (set_info a info st) = nonceSequenceNumber st"
  "nonceSequenceNumber (receive_ether v st) = nonceSequenceNumber st"
  "nonceSequenceNumber (pay_out v st) = nonceSequenceNumber st"
  by (simp_all add: emit_def set_info_def receive_ether_def pay_out_def set_nonce_def)

lemma solvent_fields [simp]:
  "solvent R (emit ev st) = solvent R st" "solvent R (set_nonce s k n st) = solvent R st"
  "solvent R (st\<lparr>ep_world := w\<rparr>) = solvent R st" "solvent R (st\<lparr>ep_locked := b\<rparr>) = solvent R st"
  by (simp_all add: solvent_def)

lemma solvent_mono: "solvent R st \<Longrightarrow> R' \<le> R \<Longrightarrow> solvent R' st"
  by (simp add: solvent_def)

text \<open>Ether that is not reserved for anybody else can be credited without wrapping around.\<close>

lemma incrementDeposit_total:
  assumes "solvent (R + unat v) st"
  shows "total (incrementDeposit a v st) = total st + unat v" "solvent R (incrementDeposit a v st)"
proof -
  let ?i = "deposits st a"
  have "unat (di_deposit ?i) + unat v < 2 ^ 256"
    using assms owed_le_total[of st a] unat_lt_256[of "ep_balance st"] by (simp add: solvent_def owed_def)
  then have "owed (?i\<lparr>di_deposit := di_deposit ?i + v\<rparr>) = owed ?i + unat v" by (simp add: owed_def unat_add256)
  then show t: "total (incrementDeposit a v st) = total st + unat v"
    using total_set_info[of a "?i\<lparr>di_deposit := di_deposit ?i + v\<rparr>" st] by (simp add: incrementDeposit_def Let_def)
  then show "solvent R (incrementDeposit a v st)"
    using assms by (simp add: solvent_def incrementDeposit_def Let_def)
qed

lemma debit_total:
  assumes "v \<le> di_deposit (deposits st a)"
  shows "total (set_info a ((deposits st a)\<lparr>di_deposit := di_deposit (deposits st a) - v\<rparr>) st) + unat v = total st"
proof -
  let ?i = "deposits st a"
  have "owed (?i\<lparr>di_deposit := di_deposit ?i - v\<rparr>) + unat v = owed ?i"
    using assms by (simp add: owed_def unat_sub_if_size word_le_nat_alt)
  with total_set_info[of a "?i\<lparr>di_deposit := di_deposit ?i - v\<rparr>" st] show ?thesis by linarith
qed

lemma tryDecrementDeposit_solvent:
  assumes "tryDecrementDeposit a v st = (True, st')" and "solvent R st"
  shows "solvent (R + unat v) st'"
proof -
  have le: "v \<le> di_deposit (deposits st a)"
    and st': "st' = set_info a ((deposits st a)\<lparr>di_deposit := di_deposit (deposits st a) - v\<rparr>) st"
    using assms(1) by (auto simp: tryDecrementDeposit_def Let_def split: if_splits)
  from debit_total[OF le] assms(2) show ?thesis by (simp add: st' solvent_def)
qed

lemma unat_ucast_112 [simp]: "unat (ucast (x :: 112 word) :: uint256) = unat x"
proof -
  have "unat x < 2 ^ 112" using unsigned_less[of x] by simp
  then show ?thesis by (simp add: unsigned_ucast_eq take_bit_nat_eq_self)
qed

lemma addStake_solvent:
  assumes "addStake s v d st = Inr st'" and "solvent (R + unat v) st"
  shows "solvent R st'"
proof -
  let ?i = "deposits st s"
  obtain stake where stake: "add256 (ucast (di_stake ?i)) v = Inr stake" "\<not> 2 ^ 112 - 1 < stake"
    and st': "st' = emit (StakeLocked s stake d) (set_info s \<lparr>di_deposit = di_deposit ?i, di_staked = True, di_stake = ucast stake,
      di_unstakeDelaySec = d, di_withdrawTime = 0\<rparr> st)"
    using assms(1) by (auto simp: addStake_def Let_def bindE_Inr_iff split: if_splits)
  have "unat stake < 2 ^ 112" using stake(2) by (simp add: word_less_nat_alt)
  then have "unat (ucast stake :: 112 word) = unat stake" by (simp add: unsigned_ucast_eq take_bit_nat_eq_self)
  moreover have "unat stake = unat (di_stake ?i) + unat v" using add256_unat[OF stake(1)] by simp
  ultimately show ?thesis
    using assms(2) total_set_info[of s "\<lparr>di_deposit = di_deposit ?i, di_staked = True, di_stake = ucast stake,
      di_unstakeDelaySec = d, di_withdrawTime = 0\<rparr>" st]
    by (simp add: st' solvent_def owed_def)
qed

lemma unlockStake_solvent: "unlockStake s t st = Inr st' \<Longrightarrow> solvent R st \<Longrightarrow> solvent R st'"
proof -
  assume u: "unlockStake s t st = Inr st'" and R: "solvent R st"
  let ?i = "deposits st s" and ?t = "(ucast t :: 48 word) + ucast (di_unstakeDelaySec (deposits st s))"
  from u have "st' = emit (StakeUnlocked s ?t) (set_info s (?i\<lparr>di_withdrawTime := ?t, di_staked := False\<rparr>) st)"
    by (auto simp: unlockStake_def Let_def split: if_splits)
  with R total_set_info[of s "?i\<lparr>di_withdrawTime := ?t, di_staked := False\<rparr>" st] show "solvent R st'"
    by (simp add: solvent_def owed_def)
qed

lemma withdrawStake_solvent:
  assumes "withdrawStake s t to st = Inr (v, st')" and "solvent R st"
  shows "solvent (R + unat v) st'"
proof -
  let ?i = "deposits st s"
  have v: "unat v = unat (di_stake ?i)"
    and st': "st' = emit (StakeWithdrawn s to v) (set_info s (?i\<lparr>di_unstakeDelaySec := 0, di_withdrawTime := 0, di_stake := 0\<rparr>) st)"
    using assms(1) by (auto simp: withdrawStake_def Let_def split: if_splits)
  then show ?thesis
    using assms(2) total_set_info[of s "?i\<lparr>di_unstakeDelaySec := 0, di_withdrawTime := 0, di_stake := 0\<rparr>" st]
    by (simp add: solvent_def owed_def)
qed

lemma pay_out_solvent:
  assumes "solvent (R + unat v) st"
  shows "v \<le> ep_balance st" "solvent R (pay_out v st)"
proof -
  show le: "v \<le> ep_balance st" using assms by (simp add: solvent_def word_le_nat_alt)
  then show "solvent R (pay_out v st)"
    using assms by (simp add: solvent_def pay_out_def unat_sub)
qed

lemma receive_solvent:
  assumes "unat (ep_balance st) + unat v < 2 ^ 256" and "solvent R st"
  shows "solvent (R + unat v) (receive_ether v st)"
  using assms by (simp add: solvent_def receive_ether_def unat_add256)

text \<open>No contract can make the EntryPoint insolvent, whatever is reserved.\<close>

lemma ep_step_solvent:
  assumes "ep_step st st'" and "solvent R st"
  shows "solvent R st'"
  using assms
proof (cases rule: ep_step.cases)
  case (deposit v a)
  then show ?thesis
    using incrementDeposit_total(2)[OF receive_solvent[OF _ assms(2)]] by (simp add: depositTo_def Let_def)
next
  case (withdraw s to v st1)
  then have le: "v \<le> di_deposit (deposits st s)" and st1: "st1 = emit (Withdrawn s to v)
      (set_info s ((deposits st s)\<lparr>di_deposit := di_deposit (deposits st s) - v\<rparr>) st)"
    by (auto simp: withdrawTo_def Let_def split: if_splits)
  from debit_total[OF le] assms(2) have "solvent (R + unat v) st1" by (simp add: st1 solvent_def)
  with withdraw show ?thesis using pay_out_solvent by blast
next
  case (stake v s d)
  then show ?thesis using addStake_solvent[OF _ receive_solvent[OF _ assms(2)]] by blast
next
  case (unlock s t)
  then show ?thesis using unlockStake_solvent assms(2) by blast
next
  case (withdraw_stake s t to v st1)
  then show ?thesis using withdrawStake_solvent[OF _ assms(2)] pay_out_solvent by blast
next
  case (nonce s k)
  then show ?thesis using assms(2) by (auto simp: incrementNonce_def bindE_Inr_iff)
next
  case (ether v)
  then show ?thesis using solvent_mono[OF receive_solvent[OF ether(2) assms(2)]] by simp
next
  case (elsewhere w)
  then show ?thesis using assms(2) by simp
qed

text \<open>Nor can it give a nonce back, or unlock the EntryPoint.\<close>

lemma incrementNonce_Inr:
  "incrementNonce a k st = Inr st' \<longleftrightarrow>
     unat (nonceSequenceNumber st a k) + 1 < 2 ^ 256 \<and> st' = set_nonce a k (nonceSequenceNumber st a k + 1) st"
  by (auto simp: incrementNonce_def bindE_Inr_iff add256_Inr)

lemma set_nonce_apply:
  "nonceSequenceNumber (set_nonce a k n st) b l = (if b = a \<and> l = k then n else nonceSequenceNumber st b l)"
  by (simp add: set_nonce_def)

lemma incrementNonce_grows:
  assumes "incrementNonce a k st = Inr st'"
  shows "unat (nonceSequenceNumber st b l) \<le> unat (nonceSequenceNumber st' b l)"
proof -
  have "unat (nonceSequenceNumber st a k) + unat (1 :: uint256) < 2 ^ 256" using assms by (simp add: incrementNonce_Inr)
  from unat_add256[OF this] show ?thesis using assms by (auto simp: incrementNonce_Inr set_nonce_apply)
qed

lemma ep_step_nonce:
  assumes "ep_step st st'"
  shows "unat (nonceSequenceNumber st a k) \<le> unat (nonceSequenceNumber st' a k)" "ep_locked st' = ep_locked st"
  using assms
proof (induction rule: ep_step.induct)
  case (withdraw s to v st st')
  { case 1 from withdraw show ?case by (auto simp: withdrawTo_def Let_def split: if_splits) }
  { case 2 from withdraw show ?case by (auto simp: withdrawTo_def Let_def split: if_splits) }
next
  case (stake st v s d st')
  { case 1 from stake show ?case by (auto simp: addStake_def Let_def bindE_Inr_iff split: if_splits) }
  { case 2 from stake show ?case by (auto simp: addStake_def Let_def bindE_Inr_iff split: if_splits) }
next
  case (unlock s t st st')
  { case 1 from unlock show ?case by (auto simp: unlockStake_def Let_def split: if_splits) }
  { case 2 from unlock show ?case by (auto simp: unlockStake_def Let_def split: if_splits) }
next
  case (withdraw_stake s t to st v st')
  { case 1 from withdraw_stake show ?case by (auto simp: withdrawStake_def Let_def split: if_splits) }
  { case 2 from withdraw_stake show ?case by (auto simp: withdrawStake_def Let_def split: if_splits) }
next
  case (nonce s l st st')
  { case 1 from nonce show ?case by (rule incrementNonce_grows) }
  { case 2 from nonce show ?case by (auto simp: incrementNonce_Inr) }
qed (simp_all add: depositTo_def incrementDeposit_def Let_def)

lemma ep_steps_keep:
  assumes "rtranclp ep_step st st'"
  shows "solvent R st \<Longrightarrow> solvent R st'"
    and "unat (nonceSequenceNumber st a k) \<le> unat (nonceSequenceNumber st' a k)" and "ep_locked st' = ep_locked st"
  using assms
  by (induction rule: rtranclp_induct) (auto intro: ep_step_solvent order_trans ep_step_nonce(1) simp: ep_step_nonce(2))

text \<open>A nonce that is accepted was never accepted before, and never will be again.\<close>

lemma validateAndUpdateNonce_seq:
  assumes "validateAndUpdateNonce a nonce st = Inr (True, st')"
  shows "unat (nonceSequenceNumber st a (nonce_key nonce)) = unat (nonce_seq nonce)"
    and "unat (nonceSequenceNumber st' a (nonce_key nonce)) = unat (nonce_seq nonce) + 1"
    and "unat (nonceSequenceNumber st b k) \<le> unat (nonceSequenceNumber st' b k)"
    and "solvent R st' = solvent R st" and "ep_locked st' = ep_locked st"
proof -
  let ?k = "nonce_key nonce"
  have i: "incrementNonce a ?k st = Inr st'" and c: "nonceSequenceNumber st a ?k = ucast (nonce_seq nonce)"
    using assms by (auto simp: validateAndUpdateNonce_def Let_def bindE_Inr_iff)
  have "unat (nonce_seq nonce) < 2 ^ 64" using unsigned_less[of "nonce_seq nonce"] by simp
  with c show s: "unat (nonceSequenceNumber st a ?k) = unat (nonce_seq nonce)"
    by (simp add: unsigned_ucast_eq take_bit_nat_eq_self)
  have "unat (nonceSequenceNumber st a ?k) + unat (1 :: uint256) < 2 ^ 256" using i by (simp add: incrementNonce_Inr)
  from unat_add256[OF this] s i show "unat (nonceSequenceNumber st' a ?k) = unat (nonce_seq nonce) + 1"
    by (simp add: incrementNonce_Inr set_nonce_apply)
  show "unat (nonceSequenceNumber st b k) \<le> unat (nonceSequenceNumber st' b k)" by (rule incrementNonce_grows[OF i])
  show "solvent R st' = solvent R st" "ep_locked st' = ep_locked st" using i by (auto simp: incrementNonce_Inr)
qed

end
