(* ===== verification/Spending_Paymaster.thy ===== *)
theory Spending_Paymaster
  imports Spending_Account
begin

text \<open>
  The paymaster of \<open>src/src/SpendingPaymaster.sol\<close> on its base contract \<open>core/BasePaymaster.sol\<close>, and the
  factory of \<open>src/src/SpendingAccountFactory.sol\<close>. Both meet the account: the paymaster charges it in
  USDC after an operation, the factory creates it at a predicted address.
\<close>

section \<open>The paymaster\<close>

record paymaster =
  pm_this :: address
  pm_entryPoint :: address
  pm_owner :: address
  pm_usdcPerEth :: uint256

definition MAX_COST_CAP :: uint256 where "MAX_COST_CAP = 10000000000000000"

definition MIN_POSTOP_GAS :: uint256 where "MIN_POSTOP_GAS = 100000"

definition requireFromEntryPoint :: "msg_ctx \<Rightarrow> paymaster \<Rightarrow> sol_error + unit" where
  "requireFromEntryPoint ctx pm =
     (if msg_sender ctx = pm_entryPoint pm then Inr () else Inl (RequireFailed ''Sender not EntryPoint''))"

text \<open>\<open>costWithPremium\<close> and \<open>costInUsdc\<close>, with the paymaster's own rate.\<close>

definition costInUsdc :: "paymaster \<Rightarrow> uint256 \<Rightarrow> sol_error + uint256" where
  "costInUsdc pm cost = withPremiumInUsdc (pm_usdcPerEth pm) cost"

definition usdcBalanceOf :: "'w evm \<Rightarrow> address \<Rightarrow> 'w chain \<Rightarrow> sol_error + uint256" where
  "usdcBalanceOf evm owner ch =
     (case x_static evm USDC (balanceOf_selector @ be_bytes 32 (unat owner)) ch of
        Inl ret \<Rightarrow> Inl (Reverted ret) | Inr ret \<Rightarrow> uint_at ret 0)"

definition checkPostOpGas :: "PackedUserOperation \<Rightarrow> sol_error + unit" where
  "checkPostOpGas userOp =
     (if PAYMASTER_DATA_OFFSET \<le> length (po_paymasterAndData userOp) then
        bindE (unpackPostOpGasLimit userOp) (\<lambda>postOpGasLimit.
        if postOpGasLimit < MIN_POSTOP_GAS then Inl (PostOpGasTooLow postOpGasLimit MIN_POSTOP_GAS) else Inr ())
      else Inr ())"

definition validatePaymasterUserOp_internal ::
  "'w evm \<Rightarrow> paymaster \<Rightarrow> PackedUserOperation \<Rightarrow> uint256 \<Rightarrow> 'w chain \<Rightarrow> sol_error + bytes \<times> uint256" where
  "validatePaymasterUserOp_internal evm pm userOp maxCost ch =
     bindE (checkPostOpGas userOp) (\<lambda>_.
     bindE (if MAX_COST_CAP < maxCost then Inl (CostCapExceeded maxCost MAX_COST_CAP) else Inr ()) (\<lambda>_.
     bindE (costInUsdc pm maxCost) (\<lambda>cost.
     bindE (usdcBalanceOf evm (po_sender userOp) ch) (\<lambda>balance.
     if balance < cost then Inl (InsufficientUsdcBalance (po_sender userOp) cost)
     else Inr (be_bytes 32 (unat (po_sender userOp)), SIG_VALIDATION_SUCCESS)))))"

definition validatePaymasterUserOp ::
  "'w evm \<Rightarrow> paymaster \<Rightarrow> msg_ctx \<Rightarrow> PackedUserOperation \<Rightarrow> uint256 \<Rightarrow> uint256 \<Rightarrow> 'w chain \<Rightarrow> sol_error + bytes \<times> uint256" where
  "validatePaymasterUserOp evm pm ctx userOp userOpHash maxCost ch =
     bindE (requireFromEntryPoint ctx pm) (\<lambda>_. validatePaymasterUserOp_internal evm pm userOp maxCost ch)"

text \<open>
  \<open>postOp\<close>: the context is decoded, the charge computed, and \<open>payForGasInUsdc\<close> called on the account; a
  revert of that call is passed on. \<open>pay\<close> is that call. The mode and the fee are ignored.
\<close>

datatype post_op_mode = OpSucceeded | OpReverted | PostOpReverted

definition postOp_internal ::
  "paymaster \<Rightarrow> (address \<Rightarrow> uint256 \<Rightarrow> 'c \<Rightarrow> sol_error + 'c) \<Rightarrow> bytes \<Rightarrow> uint256 \<Rightarrow> 'c \<Rightarrow> sol_error + 'c" where
  "postOp_internal pm pay context actualGasCost ch =
     bindE (address_at context 0) (\<lambda>account.
     bindE (costInUsdc pm actualGasCost) (\<lambda>cost. pay account cost ch))"

definition postOp ::
  "paymaster \<Rightarrow> (address \<Rightarrow> uint256 \<Rightarrow> 'c \<Rightarrow> sol_error + 'c) \<Rightarrow> msg_ctx \<Rightarrow> post_op_mode \<Rightarrow> bytes \<Rightarrow> uint256 \<Rightarrow> uint256
     \<Rightarrow> 'c \<Rightarrow> sol_error + 'c" where
  "postOp pm pay ctx mode context actualGasCost actualUserOpFeePerGas ch =
     bindE (requireFromEntryPoint ctx pm) (\<lambda>_. postOp_internal pm pay context actualGasCost ch)"

text \<open>
  The call when the account of the chain is the callee: the paymaster is the sender, and \<open>g\<close> is the gas
  that the call is left with. A call of any other address is \<open>other\<close>.
\<close>

definition pay_account ::
  "'w evm \<Rightarrow> paymaster \<Rightarrow> msg_ctx \<Rightarrow> uint256 \<Rightarrow> (address \<Rightarrow> uint256 \<Rightarrow> 'w chain \<Rightarrow> sol_error + 'w chain)
     \<Rightarrow> address \<Rightarrow> uint256 \<Rightarrow> 'w chain \<Rightarrow> sol_error + 'w chain" where
  "pay_account evm pm ctx g other account amount ch =
     (if account = this_addr (acct ch)
      then dispatch evm (ctx\<lparr>msg_sender := pm_this pm, gasleft := g\<rparr>) (PayForGasInUsdc amount) ch
      else other account amount ch)"

section \<open>The deposit of the paymaster\<close>

text \<open>
  The functions of \<open>BasePaymaster\<close> that forward to the EntryPoint: the call they make, or the revert of
  \<open>onlyOwner\<close>, which is the library's.
\<close>

datatype entry_point_call = DepositTo address uint256 | WithdrawTo address uint256 | AddStake "32 word" uint256
  | UnlockStake | WithdrawStake address | BalanceOf address

definition only_owner :: "sol_error \<Rightarrow> msg_ctx \<Rightarrow> paymaster \<Rightarrow> 'a \<Rightarrow> sol_error + 'a" where
  "only_owner unauthorized ctx pm r = (if msg_sender ctx = pm_owner pm then Inr r else Inl unauthorized)"

definition pm_deposit :: "paymaster \<Rightarrow> uint256 \<Rightarrow> entry_point_call" where
  "pm_deposit pm msgValue = DepositTo (pm_this pm) msgValue"

definition pm_withdrawTo :: "sol_error \<Rightarrow> msg_ctx \<Rightarrow> paymaster \<Rightarrow> address \<Rightarrow> uint256 \<Rightarrow> sol_error + entry_point_call" where
  "pm_withdrawTo un ctx pm to amount = only_owner un ctx pm (WithdrawTo to amount)"

definition pm_addStake :: "sol_error \<Rightarrow> msg_ctx \<Rightarrow> paymaster \<Rightarrow> 32 word \<Rightarrow> uint256 \<Rightarrow> sol_error + entry_point_call" where
  "pm_addStake un ctx pm unstakeDelaySec msgValue = only_owner un ctx pm (AddStake unstakeDelaySec msgValue)"

definition pm_getDeposit :: "paymaster \<Rightarrow> entry_point_call" where
  "pm_getDeposit pm = BalanceOf (pm_this pm)"

definition pm_unlockStake :: "sol_error \<Rightarrow> msg_ctx \<Rightarrow> paymaster \<Rightarrow> sol_error + entry_point_call" where
  "pm_unlockStake un ctx pm = only_owner un ctx pm UnlockStake"

definition pm_withdrawStake :: "sol_error \<Rightarrow> msg_ctx \<Rightarrow> paymaster \<Rightarrow> address \<Rightarrow> sol_error + entry_point_call" where
  "pm_withdrawStake un ctx pm to = only_owner un ctx pm (WithdrawStake to)"

section \<open>The factory\<close>

record factory =
  f_this :: address
  f_entryPoint :: address
  f_paymaster :: address
  f_usdcPerEth :: uint256

text \<open>The arguments of an account: its owner and limits.\<close>

record account_args =
  aa_owner :: address
  aa_dailyEth :: uint256
  aa_monthlyEth :: uint256
  aa_dailyUsdc :: uint256
  aa_monthlyUsdc :: uint256

definition constructor_args :: "factory \<Rightarrow> account_args \<Rightarrow> bytes" where
  "constructor_args f x =
     be_bytes 32 (unat (f_entryPoint f)) @ be_bytes 32 (unat (aa_owner x)) @ be_bytes 32 (unat (f_paymaster f))
     @ be_bytes 32 (unat (f_usdcPerEth f)) @ be_bytes 32 (unat (aa_dailyEth x)) @ be_bytes 32 (unat (aa_monthlyEth x))
     @ be_bytes 32 (unat (aa_dailyUsdc x)) @ be_bytes 32 (unat (aa_monthlyUsdc x))"

text \<open>
  \<open>Create2.computeAddress\<close> of the library, with the calling contract as deployer, and the address that the
  EVM gives to a contract created with a salt.
\<close>

definition computeAddress :: "(bytes \<Rightarrow> bytes) \<Rightarrow> address \<Rightarrow> bytes \<Rightarrow> bytes \<Rightarrow> address" where
  "computeAddress keccak deployer salt bytecodeHash =
     of_nat (be_val (drop 12 (keccak ([0xff] @ be_bytes 20 (unat deployer) @ salt @ bytecodeHash))))"

definition getAddress_sol :: "(bytes \<Rightarrow> bytes) \<Rightarrow> bytes \<Rightarrow> factory \<Rightarrow> account_args \<Rightarrow> bytes \<Rightarrow> address" where
  "getAddress_sol keccak creationCode f x salt =
     computeAddress keccak (f_this f) salt (keccak (creationCode @ constructor_args f x))"

text \<open>
  The contracts on the chain by address. \<open>new\<close> with a salt runs the constructor on the decoded arguments
  and fails where there is a contract already.
\<close>

definition evm_create2 ::
  "(bytes \<Rightarrow> bytes) \<Rightarrow> address \<Rightarrow> bytes \<Rightarrow> bytes \<Rightarrow> (address \<Rightarrow> 'a) \<Rightarrow> (address \<rightharpoonup> 'a) \<Rightarrow> sol_error + address \<times> (address \<rightharpoonup> 'a)" where
  "evm_create2 keccak deployer salt initCode construct accts =
     (let a = of_nat (be_val (drop 12 (keccak ([0xff] @ be_bytes 20 (unat deployer) @ salt @ keccak initCode)))) in
      if accts a \<noteq> None then Inl EmptyRevert else Inr (a, accts(a \<mapsto> construct a)))"

definition createAccount ::
  "(bytes \<Rightarrow> bytes) \<Rightarrow> bytes \<Rightarrow> msg_ctx \<Rightarrow> factory \<Rightarrow> account_args \<Rightarrow> bytes \<Rightarrow> (address \<rightharpoonup> account) \<Rightarrow> sol_error + address \<times> (address \<rightharpoonup> account)" where
  "createAccount keccak creationCode ctx f x salt accts =
     evm_create2 keccak (f_this f) salt (creationCode @ constructor_args f x)
       (\<lambda>a. constructor ctx a (f_entryPoint f) (aa_owner x) (f_paymaster f) (f_usdcPerEth f)
              (aa_dailyEth x) (aa_monthlyEth x) (aa_dailyUsdc x) (aa_monthlyUsdc x)) accts"

section \<open>Charges\<close>

text \<open>A smaller cost never overflows where a larger one does not, and is charged no more.\<close>

lemma withPremiumInUsdc_mono:
  assumes "withPremiumInUsdc rate cost = Inr u" and "cost' \<le> cost"
  obtains u' where "withPremiumInUsdc rate cost' = Inr u'" and "u' \<le> u"
proof -
  from assms(1) obtain p c x where *: "mul256 cost PREMIUM_BPS = Inr p" "add256 cost (p div 10000) = Inr c"
    "mul256 c rate = Inr x" "u = x div 1000000000000000000"
    by (auto simp: withPremiumInUsdc_def result_simps simp del: mul256_Inr add256_Inr)
  obtain p' where p': "mul256 cost' PREMIUM_BPS = Inr p'" "p' \<le> p"
    by (rule mul256_mono[OF *(1) assms(2) order_refl])
  obtain c' where c': "add256 cost' (p' div 10000) = Inr c'" "c' \<le> c"
    by (rule add256_mono[OF *(2) assms(2) div256_mono[OF p'(2)]])
  obtain x' where x': "mul256 c' rate = Inr x'" "x' \<le> x"
    by (rule mul256_mono[OF *(3) c'(2) order_refl])
  show thesis
    by (rule that[of "x' div 1000000000000000000"]) (simp_all add: withPremiumInUsdc_def p' c' x' *(4) div256_mono)
qed

lemma validatePaymaster_Inr:
  assumes "validatePaymasterUserOp evm pm ctx userOp h maxCost ch = Inr (context, vd)"
  obtains cost balance where "msg_sender ctx = pm_entryPoint pm" and "maxCost \<le> MAX_COST_CAP"
    and "costInUsdc pm maxCost = Inr cost" and "usdcBalanceOf evm (po_sender userOp) ch = Inr balance"
    and "cost \<le> balance" and "context = be_bytes 32 (unat (po_sender userOp))" and "vd = SIG_VALIDATION_SUCCESS"
  using assms
  by (auto simp: validatePaymasterUserOp_def validatePaymasterUserOp_internal_def requireFromEntryPoint_def result_simps
      split: if_splits)

lemma address_at_context: "address_at (be_bytes 32 (unat (a :: address))) 0 = Inr a"
proof -
  have "unat a < 2 ^ 160" using unsigned_less[of a] by simp
  then show ?thesis by (simp add: address_at_def word_at_def)
qed

end
