(* ===== verification/Entry_Point.thy ===== *)
theory Entry_Point
  imports Stake_Manager Spending_Paymaster Eip7702_Support
begin

text \<open>
  The handling of a bundle by the EntryPoint, \<open>handleOps\<close> of \<open>contracts/core/EntryPoint.sol\<close>, with the
  \<open>SenderCreator\<close> and the validation data of \<open>contracts/core/Helpers.sol\<close>. The accounts, paymasters, factories
  and the beneficiary are other contracts, which may call back.
\<close>

section \<open>Calls\<close>

text \<open>
  What an operation may fail with: the errors of the EntryPoint, and of its inner call.
\<close>

datatype ep_error =
    FailedOp nat string
  | FailedOpWithRevert nat string bytes
  | SignatureValidationFailed address
  | ReentrancyGuardReentrantCall
  | EpRevert sol_error

datatype inner_error = InnerOutOfGas | InnerRevertLowPrefund | PostOpRevertedError bytes | NotInternalCall | NoGasLeft

definition sol :: "sol_error + 'a \<Rightarrow> ep_error + 'a" where
  "sol r = (case r of Inl e \<Rightarrow> Inl (EpRevert e) | Inr x \<Rightarrow> Inr x)"

text \<open>
  The other contracts: a call fails with return data and no effect, or succeeds with return data and a
  new state. Calls by name stand for the calls with the encoded arguments. \<open>w_memory\<close> is the memory behind
  the return data of a paymaster, which the assembly may read, \<open>w_hash\<close> the Keccak hash, \<open>w_typed\<close> the
  typed-data hash of the EIP-712 library.
\<close>

type_synonym 'w call_result = "bytes + bytes \<times> 'w ep_state"

record 'w ep_callees =
  w_this :: address
  w_code :: "address \<Rightarrow> 'w ep_state \<Rightarrow> bytes"
  w_hash :: "bytes \<Rightarrow> uint256"
  w_typehash :: uint256
  w_typed :: "uint256 \<Rightarrow> uint256"
  w_memory :: bytes
  w_timestamp :: uint256
  w_basefee :: uint256
  w_factory :: "address \<Rightarrow> bytes \<Rightarrow> 'w ep_state \<Rightarrow> 'w call_result"
  w_initSender :: "address \<Rightarrow> bytes \<Rightarrow> 'w ep_state \<Rightarrow> 'w call_result"
  w_validateUserOp :: "address \<Rightarrow> uint256 \<Rightarrow> PackedUserOperation \<Rightarrow> uint256 \<Rightarrow> uint256 \<Rightarrow> 'w ep_state \<Rightarrow> 'w call_result"
  w_validatePaymasterUserOp :: "address \<Rightarrow> uint256 \<Rightarrow> PackedUserOperation \<Rightarrow> uint256 \<Rightarrow> uint256 \<Rightarrow> 'w ep_state \<Rightarrow> 'w call_result"
  w_exec :: "address \<Rightarrow> bytes \<Rightarrow> uint256 \<Rightarrow> 'w ep_state \<Rightarrow> 'w call_result"
  w_executeUserOp :: "address \<Rightarrow> PackedUserOperation \<Rightarrow> uint256 \<Rightarrow> uint256 \<Rightarrow> 'w ep_state \<Rightarrow> 'w call_result"
  w_postOp :: "address \<Rightarrow> uint256 \<Rightarrow> post_op_mode \<Rightarrow> bytes \<Rightarrow> uint256 \<Rightarrow> uint256 \<Rightarrow> 'w ep_state \<Rightarrow> 'w call_result"
  w_receive :: "address \<Rightarrow> uint256 \<Rightarrow> 'w ep_state \<Rightarrow> 'w call_result"
  w_validateSignatures :: "address \<Rightarrow> PackedUserOperation list \<Rightarrow> bytes \<Rightarrow> 'w ep_state \<Rightarrow> bool"

definition REVERT_REASON_MAX_LEN :: nat where "REVERT_REASON_MAX_LEN = 2048"

definition getReturnData :: "bytes \<Rightarrow> bytes" where
  "getReturnData ret = take REVERT_REASON_MAX_LEN ret"

text \<open>A call with value: the payment comes before the code of the recipient.\<close>

definition send_value :: "'w ep_callees \<Rightarrow> address \<Rightarrow> uint256 \<Rightarrow> 'w ep_state \<Rightarrow> 'w call_result" where
  "send_value W to v st = (if ep_balance st < v then Inl [] else w_receive W to v (pay_out v st))"

text \<open>The two withdrawals with their payment, whose failure reverts them.\<close>

definition withdrawTo_ext ::
  "'w ep_callees \<Rightarrow> address \<Rightarrow> address \<Rightarrow> uint256 \<Rightarrow> 'w ep_state \<Rightarrow> sol_error + 'w ep_state" where
  "withdrawTo_ext W sender withdrawAddress withdrawAmount st =
     bindE (withdrawTo sender withdrawAddress withdrawAmount st) (\<lambda>st1.
     case send_value W withdrawAddress withdrawAmount st1 of
       Inl _ \<Rightarrow> Inl (RequireFailed ''failed to withdraw'') | Inr (_, st2) \<Rightarrow> Inr st2)"

definition withdrawStake_ext ::
  "'w ep_callees \<Rightarrow> address \<Rightarrow> address \<Rightarrow> 'w ep_state \<Rightarrow> sol_error + 'w ep_state" where
  "withdrawStake_ext W sender withdrawAddress st =
     bindE (withdrawStake sender (w_timestamp W) withdrawAddress st) (\<lambda>(stake, st1).
     case send_value W withdrawAddress stake st1 of
       Inl _ \<Rightarrow> Inl (RequireFailed ''failed to withdraw stake'') | Inr (_, st2) \<Rightarrow> Inr st2)"

section \<open>Gas\<close>

text \<open>The differences of \<open>gasleft()\<close> that one operation reads; \<open>og_inner_fails\<close> when the inner call itself runs out of gas.\<close>

record op_gas =
  og_account :: uint256
  og_paymaster :: uint256
  og_preOp :: uint256
  og_inner_left :: uint256
  og_inner_fails :: bool
  og_exec :: uint256
  og_postOp :: uint256
  og_post :: uint256
  og_outer :: uint256
  og_outer_postOp :: uint256
  og_outer_post :: uint256

definition INNER_GAS_OVERHEAD :: uint256 where "INNER_GAS_OVERHEAD = 10000"

definition UNUSED_GAS_PENALTY_PERCENT :: uint256 where "UNUSED_GAS_PENALTY_PERCENT = 10"

definition PENALTY_GAS_THRESHOLD :: uint256 where "PENALTY_GAS_THRESHOLD = 40000"

definition getUnusedGasPenalty :: "uint256 \<Rightarrow> uint256 \<Rightarrow> uint256" where
  "getUnusedGasPenalty gasUsed gasLimit =
     (if gasLimit \<le> gasUsed + PENALTY_GAS_THRESHOLD then 0
      else (gasLimit - gasUsed) * UNUSED_GAS_PENALTY_PERCENT div 100)"

section \<open>Operations in memory\<close>

record MemoryUserOp =
  m_sender :: address
  m_nonce :: uint256
  m_verificationGasLimit :: uint256
  m_callGasLimit :: uint256
  m_paymasterVerificationGasLimit :: uint256
  m_paymasterPostOpGasLimit :: uint256
  m_preVerificationGas :: uint256
  m_paymaster :: address
  m_maxFeePerGas :: uint256
  m_maxPriorityFeePerGas :: uint256

text \<open>The context itself stands for its offset.\<close>

record UserOpInfo =
  i_mUserOp :: MemoryUserOp
  i_userOpHash :: uint256
  i_prefund :: uint256
  i_context :: bytes
  i_preOpGas :: uint256

definition copyUserOpToMemory :: "PackedUserOperation \<Rightarrow> sol_error + MemoryUserOp" where
  "copyUserOpToMemory op =
     (let pmd = po_paymasterAndData op in
      bindE (if pmd = [] then Inr (0, 0, 0)
             else if length pmd < PAYMASTER_DATA_OFFSET then Inl (RequireFailed ''AA93 invalid paymasterAndData'')
             else bindE (unpackPaymasterStaticFields pmd) (\<lambda>(pm, vg, pg).
               if pm = 0 then Inl (RequireFailed ''AA98 invalid paymaster'') else Inr (pm, vg, pg))) (\<lambda>(pm, vg, pg).
      Inr \<lparr>m_sender = po_sender op, m_nonce = po_nonce op,
           m_verificationGasLimit = fst (unpackUints (po_accountGasLimits op)),
           m_callGasLimit = snd (unpackUints (po_accountGasLimits op)),
           m_paymasterVerificationGasLimit = vg, m_paymasterPostOpGasLimit = pg,
           m_preVerificationGas = po_preVerificationGas op, m_paymaster = pm,
           m_maxFeePerGas = snd (unpackUints (po_gasFees op)),
           m_maxPriorityFeePerGas = fst (unpackUints (po_gasFees op))\<rparr>))"

definition getRequiredPrefund :: "MemoryUserOp \<Rightarrow> uint256" where
  "getRequiredPrefund m =
     (m_verificationGasLimit m + m_callGasLimit m + m_paymasterVerificationGasLimit m
      + m_paymasterPostOpGasLimit m + m_preVerificationGas m) * m_maxFeePerGas m"

definition getUserOpGasPrice :: "uint256 \<Rightarrow> MemoryUserOp \<Rightarrow> uint256" where
  "getUserOpGasPrice basefee m = min256 (m_maxFeePerGas m) (m_maxPriorityFeePerGas m + basefee)"

definition getUserOpHash_sol :: "'w ep_callees \<Rightarrow> PackedUserOperation \<Rightarrow> 'w ep_state \<Rightarrow> sol_error + uint256" where
  "getUserOpHash_sol W op st =
     bindE (getEip7702InitCodeHashOverride (w_hash W) (w_code W (po_sender op) st) (po_initCode op)) (\<lambda>ov.
     Inr (w_typed W (hash (w_hash W) (w_typehash W) op ov)))"

section \<open>Validation data\<close>

record ValidationData =
  vd_aggregator :: address
  vd_validAfter :: "48 word"
  vd_validUntil :: "48 word"

definition parseValidationData :: "uint256 \<Rightarrow> ValidationData" where
  "parseValidationData validationData =
     (let validUntil = (ucast (drop_bit 160 validationData) :: 48 word) in
      \<lparr>vd_aggregator = ucast validationData, vd_validAfter = ucast (drop_bit (48 + 160) validationData),
       vd_validUntil = (if validUntil = 0 then - 1 else validUntil)\<rparr>)"

definition packValidationData :: "ValidationData \<Rightarrow> uint256" where
  "packValidationData d =
     or (or (ucast (vd_aggregator d)) (push_bit 160 (ucast (vd_validUntil d)))) (push_bit (160 + 48) (ucast (vd_validAfter d)))"

text \<open>Parsing is inverse to packing, but for a time limit of 0, which stands for none.\<close>

lemma parse_packValidationData:
  "parseValidationData (packValidationData d) = d\<lparr>vd_validUntil := if vd_validUntil d = 0 then - 1 else vd_validUntil d\<rparr>"
proof -
  have "ucast (packValidationData d) = vd_aggregator d"
    by (rule bit_word_eqI) (auto simp: packValidationData_def bit_simps)
  moreover have "ucast (drop_bit 160 (packValidationData d)) = vd_validUntil d"
    by (rule bit_word_eqI) (auto simp: packValidationData_def bit_simps dest: bit_imp_le_length)
  moreover have "ucast (drop_bit 208 (packValidationData d)) = vd_validAfter d"
    by (rule bit_word_eqI) (auto simp: packValidationData_def bit_simps dest: bit_imp_le_length)
  ultimately show ?thesis by (simp add: parseValidationData_def Let_def)
qed

definition getValidationData :: "uint256 \<Rightarrow> uint256 \<Rightarrow> address \<times> bool" where
  "getValidationData timestamp validationData =
     (if validationData = 0 then (0, False)
      else let d = parseValidationData validationData in
        (vd_aggregator d, ucast (vd_validUntil d) < timestamp \<or> timestamp \<le> ucast (vd_validAfter d)))"

definition validateAccountAndPaymasterValidationData ::
  "nat \<Rightarrow> uint256 \<Rightarrow> uint256 \<Rightarrow> uint256 \<Rightarrow> address \<Rightarrow> ep_error + unit" where
  "validateAccountAndPaymasterValidationData opIndex timestamp validationData paymasterValidationData expectedAggregator =
     (let (aggregator, outOfTimeRange) = getValidationData timestamp validationData;
          (pmAggregator, pmOutOfTimeRange) = getValidationData timestamp paymasterValidationData in
      if expectedAggregator \<noteq> aggregator then Inl (FailedOp opIndex ''AA24 signature error'')
      else if outOfTimeRange then Inl (FailedOp opIndex ''AA22 expired or not due'')
      else if pmAggregator \<noteq> 0 then Inl (FailedOp opIndex ''AA34 signature error'')
      else if pmOutOfTimeRange then Inl (FailedOp opIndex ''AA32 paymaster expired or not due'')
      else Inr ())"

section \<open>Validation\<close>

text \<open>\<open>SenderCreator\<close>: the factory's answer, or address zero when it fails.\<close>

definition createSender :: "'w ep_callees \<Rightarrow> bytes \<Rightarrow> 'w ep_state \<Rightarrow> address \<times> 'w ep_state" where
  "createSender W initCode st =
     (case w_factory W (of_nat (be_val (take 20 initCode))) (drop 20 initCode) st of
        Inl _ \<Rightarrow> (0, st)
      | Inr (ret, st') \<Rightarrow> (of_nat (be_val (take 32 (ret @ w_memory W))), st'))"

definition initEip7702Sender :: "'w ep_callees \<Rightarrow> address \<Rightarrow> bytes \<Rightarrow> 'w ep_state \<Rightarrow> ep_error + 'w ep_state" where
  "initEip7702Sender W sender initCallData st =
     (case w_initSender W sender initCallData st of
        Inl ret \<Rightarrow> Inl (FailedOpWithRevert 0 ''AA13 EIP7702 sender init failed'' (getReturnData ret))
      | Inr (_, st') \<Rightarrow> Inr st')"

definition createSenderIfNeeded :: "'w ep_callees \<Rightarrow> nat \<Rightarrow> UserOpInfo \<Rightarrow> bytes \<Rightarrow> 'w ep_state \<Rightarrow> ep_error + 'w ep_state" where
  "createSenderIfNeeded W opIndex info initCode st =
     (let sender = m_sender (i_mUserOp info) in
      if initCode = [] then Inr st
      else if isEip7702InitCode_sol initCode then
        (if 20 < length initCode then initEip7702Sender W sender (drop 20 initCode) st else Inr st)
      else if w_code W sender st \<noteq> [] then Inl (FailedOp opIndex ''AA10 sender already constructed'')
      else if length initCode < 20 then Inl (FailedOp opIndex ''AA99 initCode too small'')
      else
        (let (sender1, st1) = createSender W initCode st in
         if sender1 = 0 then Inl (FailedOp opIndex ''AA13 initCode failed or OOG'')
         else if sender1 \<noteq> sender then Inl (FailedOp opIndex ''AA14 initCode must return sender'')
         else if w_code W sender1 st1 = [] then Inl (FailedOp opIndex ''AA15 initCode must create sender'')
         else Inr (emit (AccountDeployed (i_userOpHash info) sender (of_nat (be_val (take 20 initCode)))
                      (m_paymaster (i_mUserOp info))) st1)))"

text \<open>
  Return data of any length other than 32 counts as a failure. The code of the sender is read after the call; a call
  that reverted has left the state as it was.
\<close>

definition callValidateUserOp ::
  "'w ep_callees \<Rightarrow> nat \<Rightarrow> PackedUserOperation \<Rightarrow> UserOpInfo \<Rightarrow> uint256 \<Rightarrow> 'w ep_state \<Rightarrow> ep_error + uint256 \<times> 'w ep_state" where
  "callValidateUserOp W opIndex op info missingAccountFunds st =
     (let m = i_mUserOp info;
          failed = (\<lambda>ret st0. if w_code W (m_sender m) st0 = [] then Inl (FailedOp opIndex ''AA20 account not deployed'')
                          else Inl (FailedOpWithRevert opIndex ''AA23 reverted'' (getReturnData ret))) in
      case w_validateUserOp W (m_sender m) (m_verificationGasLimit m) op (i_userOpHash info) missingAccountFunds st of
        Inl ret \<Rightarrow> failed ret st
      | Inr (ret, st') \<Rightarrow> if length ret \<noteq> 32 then failed ret st' else Inr (of_nat (be_val ret), st'))"

definition validateAccountPrepayment ::
  "'w ep_callees \<Rightarrow> nat \<Rightarrow> PackedUserOperation \<Rightarrow> UserOpInfo \<Rightarrow> uint256 \<Rightarrow> 'w ep_state \<Rightarrow> ep_error + uint256 \<times> 'w ep_state" where
  "validateAccountPrepayment W opIndex op info requiredPrefund st =
     (let m = i_mUserOp info; sender = m_sender m in
      bindE (createSenderIfNeeded W opIndex info (po_initCode op) st) (\<lambda>st1.
      let missingAccountFunds = (if m_paymaster m \<noteq> 0 then 0
            else let bal = balanceOf st1 sender in if requiredPrefund < bal then 0 else requiredPrefund - bal) in
      bindE (callValidateUserOp W opIndex op info missingAccountFunds st1) (\<lambda>(validationData, st2).
      if m_paymaster m \<noteq> 0 then Inr (validationData, st2)
      else let (paid, st3) = tryDecrementDeposit sender requiredPrefund st2 in
        if paid then Inr (validationData, st3) else Inl (FailedOp opIndex ''AA21 didn't pay prefund''))))"

text \<open>
  The answer of a paymaster is read from memory: the offset of the context, which must be 64, the
  validation data, the length of the context and the context.
\<close>

definition memory_word :: "bytes \<Rightarrow> nat \<Rightarrow> uint256" where
  "memory_word mem i = of_nat (be_val (take 32 (drop i mem @ replicate 32 0)))"

definition callValidatePaymasterUserOp ::
  "'w ep_callees \<Rightarrow> nat \<Rightarrow> PackedUserOperation \<Rightarrow> UserOpInfo \<Rightarrow> 'w ep_state \<Rightarrow> ep_error + (bytes \<times> uint256) \<times> 'w ep_state" where
  "callValidatePaymasterUserOp W opIndex op info st =
     (let m = i_mUserOp info;
          failed = (\<lambda>ret. Inl (FailedOpWithRevert opIndex ''AA33 reverted'' (getReturnData ret))) in
      case w_validatePaymasterUserOp W (m_paymaster m) (m_paymasterVerificationGasLimit m) op (i_userOpHash info) (i_prefund info) st of
        Inl ret \<Rightarrow> failed ret
      | Inr (ret, st') \<Rightarrow>
          (let mem = ret @ w_memory W; len = (of_nat (length ret) :: uint256); contextLength = memory_word mem 64 in
           if memory_word mem 0 \<noteq> 64 \<or> contextLength + 31 < len - 96 then failed ret
           else Inr ((take (unat contextLength) (drop 96 mem), memory_word mem 32), st')))"

definition validatePaymasterPrepayment ::
  "'w ep_callees \<Rightarrow> op_gas \<Rightarrow> nat \<Rightarrow> PackedUserOperation \<Rightarrow> UserOpInfo \<Rightarrow> 'w ep_state \<Rightarrow> ep_error + (bytes \<times> uint256) \<times> 'w ep_state" where
  "validatePaymasterPrepayment W g opIndex op info st =
     (let m = i_mUserOp info; (paid, st1) = tryDecrementDeposit (m_paymaster m) (i_prefund info) st in
      if \<not> paid then Inl (FailedOp opIndex ''AA31 paymaster deposit too low'')
      else bindE (callValidatePaymasterUserOp W opIndex op info st1) (\<lambda>(r, st2).
        if m_paymasterVerificationGasLimit m < og_paymaster g
        then Inl (FailedOp opIndex ''AA36 over paymasterVerificationGasLimit'') else Inr (r, st2)))"

definition maxGasValues :: "MemoryUserOp \<Rightarrow> uint256" where
  "maxGasValues m =
     or (m_preVerificationGas m) (or (m_verificationGasLimit m) (or (m_callGasLimit m)
       (or (m_paymasterVerificationGasLimit m) (or (m_paymasterPostOpGasLimit m)
         (or (m_maxFeePerGas m) (m_maxPriorityFeePerGas m))))))"

definition validatePrepayment ::
  "'w ep_callees \<Rightarrow> op_gas \<Rightarrow> nat \<Rightarrow> PackedUserOperation \<Rightarrow> 'w ep_state
     \<Rightarrow> ep_error + (uint256 \<times> uint256 \<times> UserOpInfo) \<times> 'w ep_state" where
  "validatePrepayment W g opIndex op st =
     bindE (sol (copyUserOpToMemory op)) (\<lambda>m.
     bindE (sol (getUserOpHash_sol W op st)) (\<lambda>h.
     if 2 ^ 120 - 1 < maxGasValues m then Inl (FailedOp opIndex ''AA94 gas values overflow'')
     else
      let info = \<lparr>i_mUserOp = m, i_userOpHash = h, i_prefund = getRequiredPrefund m, i_context = [], i_preOpGas = 0\<rparr> in
      bindE (validateAccountPrepayment W opIndex op info (i_prefund info) st) (\<lambda>(validationData, st1).
      bindE (sol (validateAndUpdateNonce (m_sender m) (m_nonce m) st1)) (\<lambda>(fresh, st2).
      if \<not> fresh then Inl (FailedOp opIndex ''AA25 invalid account nonce'')
      else if m_verificationGasLimit m < og_account g then Inl (FailedOp opIndex ''AA26 over verificationGasLimit'')
      else
        bindE (if m_paymaster m \<noteq> 0 then validatePaymasterPrepayment W g opIndex op info st2 else Inr (([], 0), st2))
          (\<lambda>((context, paymasterValidationData), st3).
        Inr ((validationData, paymasterValidationData,
              info\<lparr>i_context := context, i_preOpGas := og_preOp g + po_preVerificationGas op\<rparr>), st3))))))"

fun iterateValidationPhase ::
  "'w ep_callees \<Rightarrow> nat \<Rightarrow> (PackedUserOperation \<times> op_gas) list \<Rightarrow> address \<Rightarrow> 'w ep_state
     \<Rightarrow> ep_error + (PackedUserOperation \<times> op_gas \<times> UserOpInfo) list \<times> 'w ep_state" where
  "iterateValidationPhase W i [] expectedAggregator st = Inr ([], st)"
| "iterateValidationPhase W i ((op, g) # ops) expectedAggregator st =
     bindE (validatePrepayment W g i op st) (\<lambda>((validationData, pmValidationData, info), st1).
     bindE (validateAccountAndPaymasterValidationData i (w_timestamp W) validationData pmValidationData expectedAggregator) (\<lambda>_.
     bindE (iterateValidationPhase W (Suc i) ops expectedAggregator st1) (\<lambda>(infos, st2).
     Inr ((op, g, info) # infos, st2))))"

section \<open>Execution\<close>

definition emitUserOperationEvent :: "UserOpInfo \<Rightarrow> bool \<Rightarrow> uint256 \<Rightarrow> uint256 \<Rightarrow> 'w ep_state \<Rightarrow> 'w ep_state" where
  "emitUserOperationEvent info success actualGasCost actualGas =
     (let m = i_mUserOp info in
      emit (UserOperationEvent (i_userOpHash info) (m_sender m) (m_paymaster m) (m_nonce m) success actualGasCost actualGas))"

definition emitPrefundTooLow :: "UserOpInfo \<Rightarrow> 'w ep_state \<Rightarrow> 'w ep_state" where
  "emitPrefundTooLow info =
     (let m = i_mUserOp info in emit (UserOperationPrefundTooLow (i_userOpHash info) (m_sender m) (m_nonce m)))"

text \<open>\<open>postOpUsed\<close> and \<open>used\<close> are the gas that \<open>postOp\<close> and the whole function take.\<close>

definition postExecution ::
  "'w ep_callees \<Rightarrow> post_op_mode \<Rightarrow> UserOpInfo \<Rightarrow> bytes \<Rightarrow> uint256 \<Rightarrow> uint256 \<Rightarrow> uint256 \<Rightarrow> 'w ep_state
     \<Rightarrow> inner_error + uint256 \<times> 'w ep_state" where
  "postExecution W mode info context actualGas0 postOpUsed used st =
     (let m = i_mUserOp info;
          gasPrice = getUserOpGasPrice (w_basefee W) m;
          paymaster = m_paymaster m;
          actualGas1 = actualGas0 + getUnusedGasPenalty (actualGas0 - i_preOpGas info) (m_callGasLimit m);
          refundAddress = (if paymaster = 0 then m_sender m else paymaster) in
      bindE (if paymaster \<noteq> 0 \<and> context \<noteq> [] then
               bindE (if mode = PostOpReverted then Inr st
                      else (case w_postOp W paymaster (m_paymasterPostOpGasLimit m) mode context (actualGas1 * gasPrice) gasPrice st of
                          Inl ret \<Rightarrow> Inl (PostOpRevertedError (getReturnData ret))
                        | Inr (_, st') \<Rightarrow> Inr st')) (\<lambda>st'.
               Inr (getUnusedGasPenalty postOpUsed (m_paymasterPostOpGasLimit m), st'))
             else Inr (0, st)) (\<lambda>(postOpUnusedGasPenalty, st1).
      let actualGas = actualGas1 + used + postOpUnusedGasPenalty;
          actualGasCost = actualGas * gasPrice;
          prefund = i_prefund info in
      if prefund < actualGasCost then
        (if mode = PostOpReverted
         then Inr (prefund, emitUserOperationEvent info False prefund actualGas (emitPrefundTooLow info st1))
         else Inl InnerRevertLowPrefund)
      else
        Inr (actualGasCost, emitUserOperationEvent info (mode = OpSucceeded) actualGasCost actualGas
               (incrementDeposit refundAddress (prefund - actualGasCost) st1))))"

text \<open>The call of the operation: its call data, or \<open>executeUserOp\<close> of the account with the operation.\<close>

definition executeUserOp_selector :: bytes where "executeUserOp_selector = [0x8d, 0xd7, 0x71, 0x2f]"

definition exec_call_op :: "'w ep_callees \<Rightarrow> PackedUserOperation \<Rightarrow> UserOpInfo \<Rightarrow> 'w ep_state \<Rightarrow> 'w call_result" where
  "exec_call_op W op info st =
     (let m = i_mUserOp info in
      if take 4 (po_callData op) = executeUserOp_selector
      then w_executeUserOp W (m_sender m) op (i_userOpHash info) (m_callGasLimit m) st
      else w_exec W (m_sender m) (po_callData op) (m_callGasLimit m) st)"

definition innerHandleOp ::
  "'w ep_callees \<Rightarrow> op_gas \<Rightarrow> address \<Rightarrow> PackedUserOperation \<Rightarrow> UserOpInfo \<Rightarrow> 'w ep_state \<Rightarrow> inner_error + uint256 \<times> 'w ep_state" where
  "innerHandleOp W g msgSender op info st =
     (let m = i_mUserOp info in
      if og_inner_fails g then Inl NoGasLeft
      else if msgSender \<noteq> w_this W then Inl NotInternalCall
      else if og_inner_left g * 63 div 64 < m_callGasLimit m + m_paymasterPostOpGasLimit m + INNER_GAS_OVERHEAD
      then Inl InnerOutOfGas
      else
        let (mode, st1) =
          (if po_callData op = [] then (OpSucceeded, st)
           else case exec_call_op W op info st of
               Inr (_, st') \<Rightarrow> (OpSucceeded, st')
             | Inl ret \<Rightarrow> (OpReverted,
                 if ret = [] then st
                 else emit (UserOperationRevertReason (i_userOpHash info) (m_sender m) (m_nonce m) (getReturnData ret)) st)) in
        postExecution W mode info (i_context info) (og_exec g + i_preOpGas info) (og_postOp g) (og_post g) st1)"

text \<open>The encoding of the custom error \<open>PostOpReverted(bytes)\<close>; no other error of the inner call carries a reason (the check for an internal call never fails here).\<close>

definition PostOpReverted_selector :: bytes where "PostOpReverted_selector = [0xad, 0x79, 0x54, 0xbc]"

definition encode_bytes :: "bytes \<Rightarrow> bytes" where
  "encode_bytes bs = be_bytes 32 32 @ be_bytes 32 (length bs) @ bs @ replicate ((32 - length bs mod 32) mod 32) 0"

fun inner_return_data :: "inner_error \<Rightarrow> bytes" where
  "inner_return_data (PostOpRevertedError reason) = PostOpReverted_selector @ encode_bytes reason"
| "inner_return_data _ = []"

text \<open>
  When the inner call fails its effects are undone, and what is left to do is done with the mode
  \<open>PostOpReverted\<close>, in which \<open>postExecution\<close> never fails.
\<close>

definition executeUserOp ::
  "'w ep_callees \<Rightarrow> op_gas \<Rightarrow> nat \<Rightarrow> PackedUserOperation \<Rightarrow> UserOpInfo \<Rightarrow> 'w ep_state \<Rightarrow> ep_error + uint256 \<times> 'w ep_state" where
  "executeUserOp W g opIndex op info st =
     (let m = i_mUserOp info; actualGas = og_outer g + i_preOpGas info in
      case innerHandleOp W g (w_this W) op info st of
        Inr (collected, st') \<Rightarrow> Inr (collected, st')
      | Inl InnerOutOfGas \<Rightarrow> Inl (FailedOp opIndex ''AA95 out of gas'')
      | Inl InnerRevertLowPrefund \<Rightarrow>
          Inr (i_prefund info, emitUserOperationEvent info False (i_prefund info) actualGas (emitPrefundTooLow info st))
      | Inl e \<Rightarrow>
          (let st1 = emit (PostOpRevertReason (i_userOpHash info) (m_sender m) (m_nonce m) (getReturnData (inner_return_data e))) st in
           case postExecution W PostOpReverted info (i_context info) actualGas (og_outer_postOp g) (og_outer_post g) st1 of
             Inr r \<Rightarrow> Inr r
           | Inl _ \<Rightarrow> Inl (EpRevert EmptyRevert)))"

fun execute_all ::
  "'w ep_callees \<Rightarrow> nat \<Rightarrow> (PackedUserOperation \<times> op_gas \<times> UserOpInfo) list \<Rightarrow> uint256 \<Rightarrow> 'w ep_state \<Rightarrow> ep_error + uint256 \<times> 'w ep_state" where
  "execute_all W i [] collected st = Inr (collected, st)"
| "execute_all W i ((op, g, info) # ops) collected st =
     bindE (executeUserOp W g i op info st) (\<lambda>(c, st1). execute_all W (Suc i) ops (collected + c) st1)"

definition compensate :: "'w ep_callees \<Rightarrow> address \<Rightarrow> uint256 \<Rightarrow> 'w ep_state \<Rightarrow> ep_error + 'w ep_state" where
  "compensate W beneficiary amount st =
     (if beneficiary = 0 then Inl (EpRevert (RequireFailed ''AA90 invalid beneficiary''))
      else case send_value W beneficiary amount st of
          Inl _ \<Rightarrow> Inl (EpRevert (RequireFailed ''AA91 failed send to beneficiary''))
        | Inr (_, st') \<Rightarrow> Inr st')"

definition handleOps ::
  "'w ep_callees \<Rightarrow> (PackedUserOperation \<times> op_gas) list \<Rightarrow> address \<Rightarrow> 'w ep_state \<Rightarrow> ep_error + 'w ep_state" where
  "handleOps W ops beneficiary st =
     (if ep_locked st then Inl ReentrancyGuardReentrantCall
      else
        bindE (iterateValidationPhase W 0 ops 0 (st\<lparr>ep_locked := True\<rparr>)) (\<lambda>(infos, st1).
        bindE (execute_all W 0 infos 0 (emit BeforeExecution st1)) (\<lambda>(collected, st2).
        bindE (compensate W beneficiary collected st2) (\<lambda>st3.
        Inr (st3\<lparr>ep_locked := False\<rparr>)))))"

section \<open>Aggregated operations\<close>

text \<open>The operations of one aggregator; \<open>validateSignatures\<close> is a view call.\<close>

record UserOpsPerAggregator =
  a_userOps :: "(PackedUserOperation \<times> op_gas) list"
  a_aggregator :: address
  a_signature :: bytes

fun checkAggregators :: "'w ep_callees \<Rightarrow> UserOpsPerAggregator list \<Rightarrow> 'w ep_state \<Rightarrow> ep_error + unit" where
  "checkAggregators W [] st = Inr ()"
| "checkAggregators W (opa # opas) st =
     (if a_aggregator opa = 1 then Inl (SignatureValidationFailed 1)
      else if a_aggregator opa \<noteq> 0 \<and> \<not> w_validateSignatures W (a_aggregator opa) (map fst (a_userOps opa)) (a_signature opa) st
      then Inl (SignatureValidationFailed (a_aggregator opa))
      else checkAggregators W opas st)"

fun validateGroups ::
  "'w ep_callees \<Rightarrow> nat \<Rightarrow> UserOpsPerAggregator list \<Rightarrow> 'w ep_state
     \<Rightarrow> ep_error + (address \<times> (PackedUserOperation \<times> op_gas \<times> UserOpInfo) list) list \<times> 'w ep_state" where
  "validateGroups W opIndex [] st = Inr ([], st)"
| "validateGroups W opIndex (opa # opas) st =
     bindE (iterateValidationPhase W opIndex (a_userOps opa) (a_aggregator opa) st) (\<lambda>(infos, st1).
     bindE (validateGroups W (opIndex + length (a_userOps opa)) opas st1) (\<lambda>(groups, st2).
     Inr ((a_aggregator opa, infos) # groups, st2)))"

fun executeGroups ::
  "'w ep_callees \<Rightarrow> nat \<Rightarrow> (address \<times> (PackedUserOperation \<times> op_gas \<times> UserOpInfo) list) list \<Rightarrow> uint256 \<Rightarrow> 'w ep_state
     \<Rightarrow> ep_error + uint256 \<times> 'w ep_state" where
  "executeGroups W opIndex [] collected st = Inr (collected, st)"
| "executeGroups W opIndex ((aggregator, infos) # groups) collected st =
     bindE (execute_all W opIndex infos collected (emit (SignatureAggregatorChanged aggregator) st)) (\<lambda>(c, st1).
     executeGroups W (opIndex + length infos) groups c st1)"

definition handleAggregatedOps ::
  "'w ep_callees \<Rightarrow> UserOpsPerAggregator list \<Rightarrow> address \<Rightarrow> 'w ep_state \<Rightarrow> ep_error + 'w ep_state" where
  "handleAggregatedOps W opas beneficiary st =
     (if ep_locked st then Inl ReentrancyGuardReentrantCall
      else
        let st0 = st\<lparr>ep_locked := True\<rparr> in
        bindE (checkAggregators W opas st0) (\<lambda>_.
        bindE (validateGroups W 0 opas st0) (\<lambda>(groups, st1).
        bindE (executeGroups W 0 groups 0 (emit BeforeExecution st1)) (\<lambda>(collected, st2).
        bindE (compensate W beneficiary collected st2) (\<lambda>st3.
        Inr (st3\<lparr>ep_locked := False\<rparr>))))))"

end
