(* ===== verification/Entry_Point_Properties.thy ===== *)
theory Entry_Point_Properties
  imports Entry_Point
begin

text \<open>
  The EntryPoint pays its debts and executes no operation twice, whatever the accounts, paymasters,
  factories and beneficiaries do when they are called.
\<close>

section \<open>Other contracts\<close>

text \<open>
  The one hypothesis on a called contract: while a bundle is handled, it changes the EntryPoint only by
  calling its external functions.
\<close>

definition calls_back :: "('w ep_state \<Rightarrow> 'w call_result) \<Rightarrow> bool" where
  "calls_back f \<longleftrightarrow> (\<forall>st r st'. ep_locked st \<longrightarrow> f st = Inr (r, st') \<longrightarrow> rtranclp ep_step st st')"

definition honest :: "'w ep_callees \<Rightarrow> bool" where
  "honest W \<longleftrightarrow> (\<forall>a d. calls_back (w_factory W a d)) \<and> (\<forall>a d. calls_back (w_initSender W a d))
     \<and> (\<forall>a g op h m. calls_back (w_validateUserOp W a g op h m))
     \<and> (\<forall>a g op h m. calls_back (w_validatePaymasterUserOp W a g op h m))
     \<and> (\<forall>a d g. calls_back (w_exec W a d g)) \<and> (\<forall>a op h g. calls_back (w_executeUserOp W a op h g))
     \<and> (\<forall>a g mode c cost p. calls_back (w_postOp W a g mode c cost p)) \<and> (\<forall>a v. calls_back (w_receive W a v))"

text \<open>The withdrawals with their payments are such steps, so the relation leaves none of their effects out.\<close>

lemma withdrawals_are_steps:
  assumes "honest W" and "ep_locked st"
  shows "withdrawTo_ext W s to v st = Inr st' \<Longrightarrow> rtranclp ep_step st st'"
    and "withdrawStake_ext W s to st = Inr st' \<Longrightarrow> rtranclp ep_step st st'"
proof -
  have paid: "rtranclp ep_step (pay_out u st1) st'" "u \<le> ep_balance st1"
    if "send_value W to u st1 = Inr (r, st')" "ep_locked st1" for u st1 r
    using that assms(1) by (auto simp: send_value_def honest_def calls_back_def split: if_splits)
  show "rtranclp ep_step st st'" if e: "withdrawTo_ext W s to v st = Inr st'"
  proof -
    obtain st1 r where 1: "withdrawTo s to v st = Inr st1" "send_value W to v st1 = Inr (r, st')"
      using e[unfolded withdrawTo_ext_def] by (rule bindE_InrE) (auto split: sum.split_asm)
    have f: "ep_locked st1 = ep_locked st" "ep_balance st1 = ep_balance st"
      using 1(1) by (auto simp: withdrawTo_def Let_def split: if_splits)
    note p = paid[OF 1(2)]
    have "ep_step st (pay_out v st1)" using ep_step.withdraw[OF 1(1)] p f assms(2) by simp
    with p f assms(2) show ?thesis by (simp add: converse_rtranclp_into_rtranclp)
  qed
  show "rtranclp ep_step st st'" if e: "withdrawStake_ext W s to st = Inr st'"
  proof -
    obtain u st1 r where 1: "withdrawStake s (w_timestamp W) to st = Inr (u, st1)" "send_value W to u st1 = Inr (r, st')"
      using e[unfolded withdrawStake_ext_def] by (rule bindE_InrE2) (auto split: sum.split_asm)
    have f: "ep_locked st1 = ep_locked st" "ep_balance st1 = ep_balance st"
      using 1(1) by (auto simp: withdrawStake_def Let_def split: if_splits)
    note p = paid[OF 1(2)]
    have "ep_step st (pay_out u st1)" using ep_step.withdraw_stake[OF 1(1)] p f assms(2) by simp
    with p f assms(2) show ?thesis by (simp add: converse_rtranclp_into_rtranclp)
  qed
qed

section \<open>Reserves\<close>

text \<open>
  A piece of the code that starts with \<open>m\<close> wei set aside and ends with \<open>n\<close>: whatever else is reserved stays
  covered. The lock is kept and no nonce is given back.
\<close>

definition safe :: "nat \<Rightarrow> nat \<Rightarrow> 'w ep_state \<Rightarrow> 'w ep_state \<Rightarrow> bool" where
  "safe m n st st' \<longleftrightarrow> ep_locked st' = ep_locked st
     \<and> (\<forall>a k. unat (nonceSequenceNumber st a k) \<le> unat (nonceSequenceNumber st' a k))
     \<and> (\<forall>R. solvent (R + m) st \<longrightarrow> solvent (R + n) st')"

named_theorems safe_intros \<open>pieces of the code and their reserves\<close>

lemma safe_trans [trans]: "safe l m s t \<Longrightarrow> safe m n t u \<Longrightarrow> safe l n s u"
proof -
  assume 1: "safe l m s t" and 2: "safe m n t u"
  have "unat (nonceSequenceNumber s a k) \<le> unat (nonceSequenceNumber u a k)" for a k
    using 1 2 le_trans unfolding safe_def by blast
  with 1 2 show "safe l n s u" by (simp add: safe_def)
qed

lemma safe_frame: "safe m n s t \<Longrightarrow> safe (m + r) (n + r) s t"
proof -
  have "R + (k + r) = (R + r) + k" for R k :: nat by simp
  then show "safe m n s t \<Longrightarrow> safe (m + r) (n + r) s t" unfolding safe_def by metis
qed

lemma safe_frame0: "safe 0 0 s t \<Longrightarrow> safe r r s t"
  using safe_frame[of 0 0 s t r] by simp

lemma safe_refl [safe_intros]: "safe m m st st"
  by (simp add: safe_def)

lemma safe_emit [safe_intros]: "safe m m st (emit ev st)"
  by (simp add: safe_def)

lemma safe_events [safe_intros]:
  "safe m m st (emitUserOperationEvent info b c g st)" "safe m m st (emitPrefundTooLow info st)"
  by (simp_all add: emitUserOperationEvent_def emitPrefundTooLow_def Let_def safe_emit)

lemma safe_steps: "rtranclp ep_step st st' \<Longrightarrow> safe m m st st'"
  by (auto simp: safe_def ep_steps_keep)

lemma safe_call: "calls_back f \<Longrightarrow> ep_locked st \<Longrightarrow> f st = Inr (r, st') \<Longrightarrow> safe m m st st'"
  unfolding calls_back_def by (rule safe_steps) blast

lemma honest_safe:
  assumes "honest W" and "ep_locked st"
  shows "w_factory W a d st = Inr (r, st') \<Longrightarrow> safe m m st st'"
    and "w_initSender W a d st = Inr (r, st') \<Longrightarrow> safe m m st st'"
    and "w_validateUserOp W a g op h v st = Inr (r, st') \<Longrightarrow> safe m m st st'"
    and "w_validatePaymasterUserOp W a g op h v st = Inr (r, st') \<Longrightarrow> safe m m st st'"
    and "w_exec W a d g st = Inr (r, st') \<Longrightarrow> safe m m st st'"
    and "w_executeUserOp W a op h g st = Inr (r, st') \<Longrightarrow> safe m m st st'"
    and "w_postOp W a g mode c cost p st = Inr (r, st') \<Longrightarrow> safe m m st st'"
    and "w_receive W a v st = Inr (r, st') \<Longrightarrow> safe m m st st'"
  by (erule safe_call[OF _ assms(2), rotated], use assms(1) in \<open>simp add: honest_def\<close>)+

lemma safe_locked: "safe m n st st' \<Longrightarrow> ep_locked st \<Longrightarrow> ep_locked st'"
  by (simp add: safe_def)

lemma safe_decrement: "tryDecrementDeposit a v st = (True, st') \<Longrightarrow> safe 0 (unat v) st st'"
  using tryDecrementDeposit_solvent[of a v st st']
  by (auto simp: safe_def tryDecrementDeposit_def Let_def split: if_splits)

lemma safe_increment: "safe (unat v) 0 st (incrementDeposit a v st)"
  using incrementDeposit_total(2)[of _ v st a] by (auto simp: safe_def incrementDeposit_def Let_def)

lemma safe_pay_out: "safe (unat v) 0 st (pay_out v st)"
  using pay_out_solvent(2)[of _ v st] by (auto simp: safe_def)

lemma safe_nonce: "validateAndUpdateNonce a n st = Inr (True, st') \<Longrightarrow> safe m m st st'"
  by (auto simp: safe_def validateAndUpdateNonce_seq)

section \<open>Validation\<close>

lemma createSenderIfNeeded_safe:
  assumes "honest W" and "ep_locked st" and "createSenderIfNeeded W i info initCode st = Inr st'"
  shows "safe m m st st'"
proof -
  have f: "createSender W initCode st = (a, s) \<Longrightarrow> safe m m st s" for a s
    using honest_safe(1)[OF assms(1,2)] by (auto simp: createSender_def safe_refl split: sum.splits)
  have g: "w_initSender W a d st = Inr (r, s) \<Longrightarrow> safe m m st s" for a d r s
    by (rule honest_safe(2)[OF assms(1,2)])
  show ?thesis
    using assms(3) f g
    by (auto simp: createSenderIfNeeded_def initEip7702Sender_def Let_def safe_refl
        split: if_splits sum.splits prod.splits intro: safe_trans[OF _ safe_emit])
qed

lemma callValidateUserOp_safe:
  assumes "honest W" and "ep_locked st" and "callValidateUserOp W i op info v st = Inr (d, st')"
  shows "safe m m st st'"
  using assms(3) honest_safe(3)[OF assms(1,2)] by (auto simp: callValidateUserOp_def Let_def split: if_splits sum.splits)

lemma validateAccountPrepayment_safe:
  assumes W: "honest W" and l: "ep_locked st" and v: "validateAccountPrepayment W i op info p st = Inr (d, st')"
  shows "safe 0 (if m_paymaster (i_mUserOp info) = 0 then unat p else 0) st st'"
proof -
  note s0 = v[unfolded validateAccountPrepayment_def Let_def]
  obtain st1 where c: "createSenderIfNeeded W i info (po_initCode op) st = Inr st1"
    using s0 by (rule bindE_InrE) (rule that)
  note 1 = createSenderIfNeeded_safe[OF W l c]
  have l1: "ep_locked st1" using 1 l by (rule safe_locked)
  note s1 = s0[unfolded c bindE_simps]
  obtain d0 f st2 where v: "callValidateUserOp W i op info f st1 = Inr (d0, st2)"
    and r0: "(if m_paymaster (i_mUserOp info) \<noteq> 0 then Inr (d0, st2)
      else case tryDecrementDeposit (m_sender (i_mUserOp info)) p st2 of
        (paid, st3) \<Rightarrow> if paid then Inr (d0, st3) else Inl (FailedOp i ''AA21 didn't pay prefund'')) = Inr (d, st')"
    by (rule bindE_InrE2[OF s1]) (auto intro: that)
  have rest: "if m_paymaster (i_mUserOp info) \<noteq> 0 then st' = st2
      else tryDecrementDeposit (m_sender (i_mUserOp info)) p st2 = (True, st')"
    using r0 by (cases "tryDecrementDeposit (m_sender (i_mUserOp info)) p st2") (auto split: if_splits)
  have "safe 0 0 st st2" using safe_trans[OF 1 callValidateUserOp_safe[OF W l1 v]] .
  with rest show ?thesis by (auto intro: safe_trans[OF _ safe_decrement] split: if_splits)
qed

lemma validatePaymasterPrepayment_safe:
  assumes W: "honest W" and l: "ep_locked st" and v: "validatePaymasterPrepayment W g i op info st = Inr (r, st')"
  shows "safe 0 (unat (i_prefund info)) st st'"
proof -
  from v obtain st1 where d: "tryDecrementDeposit (m_paymaster (i_mUserOp info)) (i_prefund info) st = (True, st1)"
    and c: "callValidatePaymasterUserOp W i op info st1 = Inr (r, st')"
    by (auto simp: validatePaymasterPrepayment_def Let_def bindE_Inr_iff split: prod.splits if_splits)
  note 1 = safe_decrement[OF d]
  have l1: "ep_locked st1" using 1 l by (rule safe_locked)
  have "safe (unat (i_prefund info)) (unat (i_prefund info)) st1 st'"
    using c honest_safe(4)[OF W l1] by (auto simp: callValidatePaymasterUserOp_def Let_def split: if_splits sum.splits)
  with 1 show ?thesis by (rule safe_trans)
qed

text \<open>What the operation's own fields become.\<close>

lemma copyUserOpToMemory_fields:
  "copyUserOpToMemory op = Inr m \<Longrightarrow> m_sender m = po_sender op \<and> m_nonce m = po_nonce op"
  by (auto simp: copyUserOpToMemory_def Let_def bindE_Inr_iff)

definition seq_of :: "PackedUserOperation \<Rightarrow> nat" where
  "seq_of op = unat (nonce_seq (po_nonce op))"

definition next_seq :: "'w ep_state \<Rightarrow> PackedUserOperation \<Rightarrow> nat" where
  "next_seq st op = unat (nonceSequenceNumber st (po_sender op) (nonce_key (po_nonce op)))"

lemma safe_next_seq: "safe m n st st' \<Longrightarrow> next_seq st op \<le> next_seq st' op"
  by (simp add: safe_def next_seq_def)

lemma sol_Inr [simp]: "sol r = Inr x \<longleftrightarrow> r = Inr x"
  by (cases r) (auto simp: sol_def)

lemma validatePrepayment_safe:
  assumes W: "honest W" and l: "ep_locked st" and v: "validatePrepayment W g i op st = Inr ((vd, pvd, info), st')"
  shows "safe 0 (unat (i_prefund info)) st st'" and "next_seq st op \<le> seq_of op" and "seq_of op < next_seq st' op"
proof -
  obtain m h where m: "copyUserOpToMemory op = Inr m"
    and s0: "(let info = \<lparr>i_mUserOp = m, i_userOpHash = h, i_prefund = getRequiredPrefund m, i_context = [], i_preOpGas = 0\<rparr> in
      bindE (validateAccountPrepayment W i op info (i_prefund info) st) (\<lambda>(validationData, st1).
      bindE (sol (validateAndUpdateNonce (m_sender m) (m_nonce m) st1)) (\<lambda>(fresh, st2).
      if \<not> fresh then Inl (FailedOp i ''AA25 invalid account nonce'')
      else if m_verificationGasLimit m < og_account g then Inl (FailedOp i ''AA26 over verificationGasLimit'')
      else
        bindE (if m_paymaster m \<noteq> 0 then validatePaymasterPrepayment W g i op info st2 else Inr (([], 0), st2))
          (\<lambda>((context, paymasterValidationData), st3).
        Inr ((validationData, paymasterValidationData,
              info\<lparr>i_context := context, i_preOpGas := og_preOp g + po_preVerificationGas op\<rparr>), st3)))))
      = Inr ((vd, pvd, info), st')"
    using v by (auto simp: validatePrepayment_def bindE_Inr_iff split: if_splits)
  define info0 where "info0 = \<lparr>i_mUserOp = m, i_userOpHash = h, i_prefund = getRequiredPrefund m, i_context = [], i_preOpGas = 0\<rparr>"
  obtain d st1 st2 r where a: "validateAccountPrepayment W i op info0 (i_prefund info0) st = Inr (d, st1)"
    and n: "validateAndUpdateNonce (m_sender m) (m_nonce m) st1 = Inr (True, st2)"
    and p: "if m_paymaster m \<noteq> 0 then validatePaymasterPrepayment W g i op info0 st2 = Inr (r, st') else st' = st2"
    and i: "i_prefund info = i_prefund info0"
    using s0 unfolding Let_def info0_def[symmetric] by (auto simp: bindE_Inr_iff split: if_splits)
  have mi: "i_mUserOp info0 = m" by (simp add: info0_def)
  note 1 = validateAccountPrepayment_safe[OF W l a, unfolded mi]
  have l2: "ep_locked st2" using safe_locked[OF 1 l] validateAndUpdateNonce_seq(5)[OF n] by simp
  have 2: "safe 0 (if m_paymaster m = 0 then unat (i_prefund info) else 0) st st2"
    using safe_trans[OF 1 safe_nonce[OF n]] i by (simp split: if_splits)
  have 3: "safe (if m_paymaster m = 0 then unat (i_prefund info) else 0) (unat (i_prefund info)) st2 st'"
    using p i validatePaymasterPrepayment_safe[OF W l2, of g i op info0 r st'] by (auto simp: safe_refl)
  show "safe 0 (unat (i_prefund info)) st st'" using 2 3 by (rule safe_trans)
  have f: "m_sender m = po_sender op" "m_nonce m = po_nonce op" using copyUserOpToMemory_fields[OF m] by simp_all
  note ns = validateAndUpdateNonce_seq[OF n, unfolded f]
  show "next_seq st op \<le> seq_of op"
    using safe_next_seq[OF 1, of op] ns(1) by (simp add: next_seq_def seq_of_def)
  show "seq_of op < next_seq st' op"
    using safe_next_seq[OF 3, of op] ns(2) by (simp add: next_seq_def seq_of_def)
qed

lemma iterateValidationPhase_safe:
  assumes "honest W" and "ep_locked st" and "iterateValidationPhase W i ops ag st = Inr (infos, st')"
  shows "safe 0 (\<Sum>(op, g, info) \<leftarrow> infos. unat (i_prefund info)) st st'"
    and "\<forall>op \<in> fst ` set ops. next_seq st op \<le> seq_of op \<and> seq_of op < next_seq st' op"
    and "distinct (map (\<lambda>(op, g). (po_sender op, po_nonce op)) ops)"
proof -
  have "safe 0 (\<Sum>(op, g, info) \<leftarrow> infos. unat (i_prefund info)) st st'
    \<and> (\<forall>op \<in> fst ` set ops. next_seq st op \<le> seq_of op \<and> seq_of op < next_seq st' op)
    \<and> distinct (map (\<lambda>(op, g). (po_sender op, po_nonce op)) ops)"
    using assms(2,3)
  proof (induction ops arbitrary: i st infos)
    case Nil
    then show ?case by (simp add: safe_refl)
  next
    case (Cons x ops)
    obtain op g where x: "x = (op, g)" by (cases x)
    from Cons.prems(2) obtain vd pvd info st1 infos1 where v: "validatePrepayment W g i op st = Inr ((vd, pvd, info), st1)"
      and r: "iterateValidationPhase W (Suc i) ops ag st1 = Inr (infos1, st')" and infos: "infos = (op, g, info) # infos1"
      unfolding x by (auto simp: bindE_Inr_iff)
    note 1 = validatePrepayment_safe[OF assms(1) Cons.prems(1) v]
    note 2 = Cons.IH[OF safe_locked[OF 1(1) Cons.prems(1)] r]
    have 3: "safe (unat (i_prefund info)) (\<Sum>(op, g, info) \<leftarrow> infos. unat (i_prefund info)) st1 st'"
      using safe_frame[OF conjunct1[OF 2], of "unat (i_prefund info)"] by (simp add: infos add.commute)
    have fresh: "po_sender o' = po_sender op \<Longrightarrow> po_nonce o' = po_nonce op \<Longrightarrow> o' \<notin> fst ` set ops" for o'
    proof
      assume e: "po_sender o' = po_sender op" "po_nonce o' = po_nonce op" and "o' \<in> fst ` set ops"
      then have "next_seq st1 o' \<le> seq_of o'" using 2 by blast
      with 1(3) e show False by (simp add: next_seq_def seq_of_def)
    qed
    have "\<forall>o' \<in> fst ` set ops. next_seq st o' \<le> seq_of o' \<and> seq_of o' < next_seq st' o'"
      using 2 safe_next_seq[OF 1(1)] le_trans by blast
    moreover have "seq_of op < next_seq st' op" using 1(3) safe_next_seq[OF 3, of op] by simp
    moreover have "(po_sender op, po_nonce op) \<notin> set (map (\<lambda>(op, g). (po_sender op, po_nonce op)) ops)"
      using fresh by force
    ultimately show ?case using safe_trans[OF 1(1) 3] 1(2) 2 by (simp add: x)
  qed
  then show "safe 0 (\<Sum>(op, g, info) \<leftarrow> infos. unat (i_prefund info)) st st'"
    and "\<forall>op \<in> fst ` set ops. next_seq st op \<le> seq_of op \<and> seq_of op < next_seq st' op"
    and "distinct (map (\<lambda>(op, g). (po_sender op, po_nonce op)) ops)" by simp_all
qed

section \<open>Execution\<close>

lemma postExecution_safe:
  assumes W: "honest W" and l: "ep_locked st" and p: "postExecution W mode info ctx ag pu u st = Inr (c, st')"
  shows "safe (unat (i_prefund info)) (unat c) st st'"
proof -
  let ?p = "i_prefund info" and ?m = "i_mUserOp info"
  obtain pen st1 where 1: "(if m_paymaster ?m \<noteq> 0 \<and> ctx \<noteq> [] then
        bindE (if mode = PostOpReverted then Inr st
          else (case w_postOp W (m_paymaster ?m) (m_paymasterPostOpGasLimit ?m) mode ctx
              ((ag + getUnusedGasPenalty (ag - i_preOpGas info) (m_callGasLimit ?m)) * getUserOpGasPrice (w_basefee W) ?m)
              (getUserOpGasPrice (w_basefee W) ?m) st of
            Inl ret \<Rightarrow> Inl (PostOpRevertedError (getReturnData ret)) | Inr (_, st') \<Rightarrow> Inr st')) (\<lambda>st'.
        Inr (getUnusedGasPenalty pu (m_paymasterPostOpGasLimit ?m), st')) else Inr (0, st)) = Inr (pen, st1)"
    and r: "(let actualGas = ag + getUnusedGasPenalty (ag - i_preOpGas info) (m_callGasLimit ?m) + u + pen;
          cost = actualGas * getUserOpGasPrice (w_basefee W) ?m in
        if ?p < cost then
          (if mode = PostOpReverted
           then Inr (?p, emitUserOperationEvent info False ?p actualGas (emitPrefundTooLow info st1)) else Inl InnerRevertLowPrefund)
        else Inr (cost, emitUserOperationEvent info (mode = OpSucceeded) cost actualGas
          (incrementDeposit (if m_paymaster ?m = 0 then m_sender ?m else m_paymaster ?m) (?p - cost) st1))) = Inr (c, st')"
    by (rule bindE_InrE2[OF p[unfolded postExecution_def Let_def]]) (rule that, assumption, simp only: prod.case Let_def)
  have "safe (unat ?p) (unat ?p) st st1"
    using 1 honest_safe(7)[OF W l] by (auto simp: bindE_Inr_iff safe_refl split: if_splits sum.splits)
  moreover have "safe (unat ?p) (unat c) st1 st'"
  proof (cases "c \<le> ?p \<and> (\<exists>b n a. st' = emitUserOperationEvent info b c n (incrementDeposit a (?p - c) st1))")
    case True
    then have "unat (?p - c) + unat c = unat ?p" by (simp add: unat_sub word_le_nat_alt)
    with True show ?thesis
      using safe_trans[OF safe_frame[OF safe_increment, of "?p - c" "unat c" st1] safe_events(1)] by auto
  next
    case False
    with r obtain n where "c = ?p" "st' = emitUserOperationEvent info False ?p n (emitPrefundTooLow info st1)"
      by (auto simp: Let_def not_less split: if_splits)
    then show ?thesis using safe_trans[OF safe_events(2) safe_events(1)] by simp
  qed
  ultimately show ?thesis by (rule safe_trans)
qed

lemma exec_call_op_safe:
  assumes "honest W" and "ep_locked st" and "exec_call_op W op info st = Inr (r, st')"
  shows "safe m m st st'"
  using assms(3) honest_safe(5,6)[OF assms(1,2)] by (auto simp: exec_call_op_def Let_def split: if_splits)

lemma innerHandleOp_safe:
  assumes W: "honest W" and l: "ep_locked st" and h: "innerHandleOp W g s op info st = Inr (c, st')"
  shows "safe (unat (i_prefund info)) (unat c) st st'"
proof -
  obtain mode st1 where 1: "(if po_callData op = [] then (OpSucceeded, st)
      else case exec_call_op W op info st of
          Inr (_, st') \<Rightarrow> (OpSucceeded, st')
        | Inl ret \<Rightarrow> (OpReverted, if ret = [] then st
            else emit (UserOperationRevertReason (i_userOpHash info) (m_sender (i_mUserOp info)) (m_nonce (i_mUserOp info))
              (getReturnData ret)) st)) = (mode, st1)"
    and p: "postExecution W mode info (i_context info) (og_exec g + i_preOpGas info) (og_postOp g) (og_post g) st1 = Inr (c, st')"
    using h by (auto simp: innerHandleOp_def Let_def split: if_splits prod.splits)
  have s: "safe (unat (i_prefund info)) (unat (i_prefund info)) st st1"
    using 1 exec_call_op_safe[OF W l] by (auto simp: safe_refl safe_emit split: if_splits sum.splits)
  show ?thesis using safe_trans[OF s postExecution_safe[OF W safe_locked[OF s l] p]] .
qed

lemma executeUserOp_safe:
  assumes W: "honest W" and l: "ep_locked st" and x: "executeUserOp W g i op info st = Inr (c, st')"
  shows "safe (unat (i_prefund info)) (unat c) st st'"
proof (cases "innerHandleOp W g (w_this W) op info st")
  case (Inr r)
  with x have "innerHandleOp W g (w_this W) op info st = Inr (c, st')" by (cases r) (simp add: executeUserOp_def Let_def)
  then show ?thesis by (rule innerHandleOp_safe[OF W l])
next
  case (Inl e)
  have low: ?thesis if "c = i_prefund info"
      "st' = emitUserOperationEvent info False c n (emitPrefundTooLow info st)" for n
    using that safe_trans[OF safe_events(2) safe_events(1)] by simp
  have post: ?thesis if "postExecution W PostOpReverted info ctx ag pu u (emit ev st) = Inr (c, st')" for ctx ag pu u ev
    using safe_trans[OF safe_emit postExecution_safe[OF W _ that]] l by simp
  show ?thesis
    using x Inl low post by (cases e) (auto simp: executeUserOp_def Let_def split: sum.splits)
qed

text \<open>The sum of what is collected is unchecked, but ether does not run out of words.\<close>

lemma execute_all_safe:
  assumes "honest W" and "ep_locked st" and "execute_all W i infos c0 st = Inr (c, st')"
    and "solvent (R + (\<Sum>(op, g, info) \<leftarrow> infos. unat (i_prefund info)) + unat c0) st"
  shows "solvent (R + unat c) st' \<and> ep_locked st' \<and> (\<forall>op. next_seq st op \<le> next_seq st' op)"
  using assms(2-)
proof (induction infos arbitrary: i st c0)
  case Nil
  then show ?case by simp
next
  case (Cons x infos)
  obtain op g info where x: "x = (op, g, info)" by (cases x)
  let ?S = "\<Sum>(op, g, info) \<leftarrow> infos. unat (i_prefund info)"
  from Cons.prems(2) obtain c1 st1 where e: "executeUserOp W g i op info st = Inr (c1, st1)"
    and r: "execute_all W (Suc i) infos (c0 + c1) st1 = Inr (c, st')"
    unfolding x by (auto simp: bindE_Inr_iff)
  note 1 = executeUserOp_safe[OF assms(1) Cons.prems(1) e]
  have "solvent ((R + ?S + unat c0) + unat (i_prefund info)) st" using Cons.prems(3) by (simp add: x ac_simps)
  with 1 have s1: "solvent ((R + ?S + unat c0) + unat c1) st1" unfolding safe_def by blast
  then have "unat c0 + unat c1 < 2 ^ 256" using unat_lt_256[of "ep_balance st1"] by (simp add: solvent_def)
  with s1 have "solvent (R + ?S + unat (c0 + c1)) st1" by (simp add: unat_add256 ac_simps)
  from Cons.IH[OF safe_locked[OF 1 Cons.prems(1)] r this] show ?case
    using safe_next_seq[OF 1] le_trans by blast
qed

lemma compensate_safe:
  assumes W: "honest W" and l: "ep_locked st" and c: "compensate W b v st = Inr st'"
  shows "safe (unat v) 0 st st'"
proof -
  obtain r where "w_receive W b v (pay_out v st) = Inr (r, st')"
    using c by (auto simp: compensate_def send_value_def split: if_splits sum.splits)
  from safe_trans[OF safe_pay_out honest_safe(8)[OF W _ this]] l show ?thesis by simp
qed

definition op_id :: "PackedUserOperation \<Rightarrow> address \<times> uint256" where
  "op_id op = (po_sender op, po_nonce op)"

lemma ids_fst: "map op_id (map fst ops) = map (\<lambda>(op, g). (po_sender op, po_nonce op)) ops"
  by (simp add: op_id_def comp_def case_prod_beta)

text \<open>What every bundle comes to: validated with all prefunds reserved, executed, and its fees paid out.\<close>

definition handled_well :: "PackedUserOperation list \<Rightarrow> 'w ep_state \<Rightarrow> 'w ep_state \<Rightarrow> bool" where
  "handled_well ops st st' \<longleftrightarrow> ep_locked st' = ep_locked st \<and> distinct (map op_id ops)
     \<and> (\<forall>R. solvent R st \<longrightarrow> solvent R st')
     \<and> (solvent 0 st \<longrightarrow> (\<forall>op. next_seq st op \<le> next_seq st' op)
          \<and> (\<forall>op \<in> set ops. next_seq st op \<le> seq_of op \<and> seq_of op < next_seq st' op))"

lemma handled_wellI:
  assumes "honest W" and "\<not> ep_locked st" and "safe 0 S (st\<lparr>ep_locked := True\<rparr>) st1"
    and "\<forall>op \<in> set ops. next_seq st op \<le> seq_of op \<and> seq_of op < next_seq st1 op"
    and "distinct (map op_id ops)"
    and "\<And>R. solvent (R + S) st1 \<Longrightarrow> solvent (R + unat c) st2 \<and> ep_locked st2 \<and> (\<forall>op. next_seq st1 op \<le> next_seq st2 op)"
    and "compensate W b c st2 = Inr st3"
  shows "handled_well ops st (st3\<lparr>ep_locked := False\<rparr>)"
proof -
  have run: "solvent R st3 \<and> (\<forall>op. next_seq st1 op \<le> next_seq st3 op)" if "solvent R st" for R
  proof -
    have "solvent (R + S) st1" using assms(3) that by (auto simp: safe_def)
    from assms(6)[OF this] have 2: "solvent (R + unat c) st2" "ep_locked st2" "next_seq st1 op \<le> next_seq st2 op" for op by auto
    note 3 = compensate_safe[OF assms(1) 2(2) assms(7)]
    have "solvent (R + 0) st3" using 3 2(1) unfolding safe_def by blast
    moreover have "next_seq st1 op \<le> next_seq st3 op" for op using 2(3)[of op] safe_next_seq[OF 3, of op] by simp
    ultimately show ?thesis by simp
  qed
  have n: "next_seq (st3\<lparr>ep_locked := False\<rparr>) op = next_seq st3 op" for op by (simp add: next_seq_def)
  have "next_seq st op \<le> next_seq st1 op" for op
    using safe_next_seq[OF assms(3), of op] by (simp add: next_seq_def)
  then show ?thesis
    using run assms(2,4,5) unfolding handled_well_def n by (auto intro: le_trans less_le_trans)
qed

lemma handleOps_ok:
  assumes W: "honest W" and h: "handleOps W ops b st = Inr st'"
  shows "handled_well (map fst ops) st st'"
proof -
  let ?st = "st\<lparr>ep_locked := True\<rparr>"
  obtain infos st1 c st2 st3 where u: "\<not> ep_locked st" and i: "iterateValidationPhase W 0 ops 0 ?st = Inr (infos, st1)"
    and x: "execute_all W 0 infos 0 (emit BeforeExecution st1) = Inr (c, st2)" and c: "compensate W b c st2 = Inr st3"
    and st': "st' = st3\<lparr>ep_locked := False\<rparr>"
    using h by (auto simp: handleOps_def bindE_Inr_iff split: if_splits)
  have "ep_locked ?st" by simp
  note 1 = iterateValidationPhase_safe[OF W this i]
  have l1: "ep_locked (emit BeforeExecution st1)" using safe_locked[OF 1(1)] by simp
  show ?thesis unfolding st'
  proof (rule handled_wellI[OF W u 1(1) _ _ _ c])
    show "\<forall>op \<in> set (map fst ops). next_seq st op \<le> seq_of op \<and> seq_of op < next_seq st1 op"
      using 1(2) by (simp add: next_seq_def)
    show "distinct (map op_id (map fst ops))" unfolding ids_fst by (rule 1(3))
    show "solvent (R + unat c) st2 \<and> ep_locked st2 \<and> (\<forall>op. next_seq st1 op \<le> next_seq st2 op)"
      if "solvent (R + (\<Sum>(op, g, info) \<leftarrow> infos. unat (i_prefund info))) st1" for R
      using execute_all_safe[OF W l1 x, of R] that by (simp add: next_seq_def)
  qed
qed

lemma validateGroups_safe:
  assumes "honest W" and "ep_locked st" and "validateGroups W i opas st = Inr (groups, st')"
  shows "safe 0 (\<Sum>(a, infos) \<leftarrow> groups. \<Sum>(op, g, info) \<leftarrow> infos. unat (i_prefund info)) st st'
    \<and> (\<forall>op \<in> fst ` set (concat (map a_userOps opas)). next_seq st op \<le> seq_of op \<and> seq_of op < next_seq st' op)
    \<and> distinct (map (\<lambda>(op, g). (po_sender op, po_nonce op)) (concat (map a_userOps opas)))"
  using assms(2,3)
proof (induction opas arbitrary: i st groups)
  case Nil
  then show ?case by (simp add: safe_refl)
next
  case (Cons opa opas)
  from Cons.prems(2) obtain infos st1 groups1 where i: "iterateValidationPhase W i (a_userOps opa) (a_aggregator opa) st = Inr (infos, st1)"
    and r: "validateGroups W (i + length (a_userOps opa)) opas st1 = Inr (groups1, st')" and g: "groups = (a_aggregator opa, infos) # groups1"
    by (auto simp: bindE_Inr_iff)
  note 1 = iterateValidationPhase_safe[OF assms(1) Cons.prems(1) i]
  note 2 = Cons.IH[OF safe_locked[OF 1(1) Cons.prems(1)] r]
  have 3: "safe (\<Sum>(op, g, info) \<leftarrow> infos. unat (i_prefund info))
      (\<Sum>(a, infos) \<leftarrow> groups. \<Sum>(op, g, info) \<leftarrow> infos. unat (i_prefund info)) st1 st'"
    using safe_frame[OF conjunct1[OF 2], of "\<Sum>(op, g, info) \<leftarrow> infos. unat (i_prefund info)"] by (simp add: g add.commute)
  let ?id = "\<lambda>(op :: PackedUserOperation, g :: op_gas). (po_sender op, po_nonce op)"
  have "?id x \<noteq> ?id y" if "x \<in> set (a_userOps opa)" "y \<in> set (concat (map a_userOps opas))" for x y
  proof
    assume e: "?id x = ?id y"
    obtain o1 g1 o2 g2 where xy: "x = (o1, g1)" "y = (o2, g2)" by (cases x, cases y)
    have "seq_of o1 < next_seq st1 o1" using 1(2) that(1) xy by force
    moreover have "next_seq st1 o2 \<le> seq_of o2" using conjunct1[OF conjunct2[OF 2]] that(2) xy by force
    ultimately show False using e xy by (simp add: next_seq_def seq_of_def)
  qed
  then have "set (map ?id (a_userOps opa)) \<inter> set (map ?id (concat (map a_userOps opas))) = {}"
    unfolding set_map by blast
  moreover have "\<forall>op \<in> fst ` set (concat (map a_userOps (opa # opas))). next_seq st op \<le> seq_of op \<and> seq_of op < next_seq st' op"
  proof
    fix op assume "op \<in> fst ` set (concat (map a_userOps (opa # opas)))"
    then consider (first) "op \<in> fst ` set (a_userOps opa)" | (later) "op \<in> fst ` set (concat (map a_userOps opas))" by auto
    then show "next_seq st op \<le> seq_of op \<and> seq_of op < next_seq st' op"
    proof cases
      case first
      with 1(2) safe_next_seq[OF 3, of op] show ?thesis by (auto intro: less_le_trans)
    next
      case later
      with 2 safe_next_seq[OF 1(1), of op] show ?thesis by (auto intro: le_trans)
    qed
  qed
  ultimately show ?case using safe_trans[OF 1(1) 3] 1(3) 2 by simp
qed

lemma executeGroups_safe:
  assumes "honest W" and "ep_locked st" and "executeGroups W i groups c0 st = Inr (c, st')"
    and "solvent (R + (\<Sum>(a, infos) \<leftarrow> groups. \<Sum>(op, g, info) \<leftarrow> infos. unat (i_prefund info)) + unat c0) st"
  shows "solvent (R + unat c) st' \<and> ep_locked st' \<and> (\<forall>op. next_seq st op \<le> next_seq st' op)"
  using assms(2-)
proof (induction groups arbitrary: i st c0)
  case Nil
  then show ?case by simp
next
  case (Cons x groups)
  obtain a infos where x: "x = (a, infos)" by (cases x)
  let ?S = "\<Sum>(a, infos) \<leftarrow> groups. \<Sum>(op, g, info) \<leftarrow> infos. unat (i_prefund info)"
  from Cons.prems(2) obtain c1 st1 where e: "execute_all W i infos c0 (emit (SignatureAggregatorChanged a) st) = Inr (c1, st1)"
    and r: "executeGroups W (i + length infos) groups c1 st1 = Inr (c, st')"
    unfolding x by (auto simp: bindE_Inr_iff)
  have "solvent ((R + ?S) + (\<Sum>(op, g, info) \<leftarrow> infos. unat (i_prefund info)) + unat c0) (emit (SignatureAggregatorChanged a) st)"
    using Cons.prems(3) by (simp add: x ac_simps)
  from execute_all_safe[OF assms(1) _ e this] Cons.prems(1)
  have 1: "solvent (R + ?S + unat c1) st1" "ep_locked st1" "next_seq st op \<le> next_seq st1 op" for op
    by (auto simp: next_seq_def)
  from Cons.IH[OF 1(2) r 1(1)] 1(3) show ?case using le_trans by blast
qed

lemma handleAggregatedOps_ok:
  assumes W: "honest W" and h: "handleAggregatedOps W opas b st = Inr st'"
  shows "handled_well (map fst (concat (map a_userOps opas))) st st'"
proof -
  let ?st = "st\<lparr>ep_locked := True\<rparr>"
  obtain groups st1 c st2 st3 where u: "\<not> ep_locked st" and i: "validateGroups W 0 opas ?st = Inr (groups, st1)"
    and x: "executeGroups W 0 groups 0 (emit BeforeExecution st1) = Inr (c, st2)" and c: "compensate W b c st2 = Inr st3"
    and st': "st' = st3\<lparr>ep_locked := False\<rparr>"
    using h by (auto simp: handleAggregatedOps_def Let_def bindE_Inr_iff split: if_splits)
  have "ep_locked ?st" by simp
  note 1 = validateGroups_safe[OF W this i]
  have l1: "ep_locked (emit BeforeExecution st1)" using safe_locked[OF conjunct1[OF 1]] by simp
  show ?thesis unfolding st'
  proof (rule handled_wellI[OF W u conjunct1[OF 1] _ _ _ c])
    show "\<forall>op \<in> set (map fst (concat (map a_userOps opas))). next_seq st op \<le> seq_of op \<and> seq_of op < next_seq st1 op"
      using conjunct1[OF conjunct2[OF 1]] by (simp add: next_seq_def)
    show "distinct (map op_id (map fst (concat (map a_userOps opas))))"
      unfolding ids_fst using 1 by blast
    show "solvent (R + unat c) st2 \<and> ep_locked st2 \<and> (\<forall>op. next_seq st1 op \<le> next_seq st2 op)"
      if "solvent (R + (\<Sum>(a, infos) \<leftarrow> groups. \<Sum>(op, g, info) \<leftarrow> infos. unat (i_prefund info))) st1" for R
      using executeGroups_safe[OF W l1 x, of R] that by (simp add: next_seq_def)
  qed
qed

section \<open>Histories\<close>

text \<open>
  What happens to an EntryPoint over time: calls of its other functions by anyone, and bundles, each with
  contracts that behave in their own way. The log has the sender and the nonce of every handled operation.
\<close>

inductive ep_run :: "(address \<times> uint256) list \<Rightarrow> 'w ep_state \<Rightarrow> 'w ep_state \<Rightarrow> bool" where
  start: "ep_run [] st st"
| call: "ep_run log st st1 \<Longrightarrow> ep_step st1 st2 \<Longrightarrow> ep_run log st st2"
| handled: "ep_run log st st1 \<Longrightarrow> honest W \<Longrightarrow> handleOps W ops b st1 = Inr st2
    \<Longrightarrow> ep_run (log @ map op_id (map fst ops)) st st2"
| aggregated: "ep_run log st st1 \<Longrightarrow> honest W \<Longrightarrow> handleAggregatedOps W opas b st1 = Inr st2
    \<Longrightarrow> ep_run (log @ map op_id (map fst (concat (map a_userOps opas)))) st st2"

lemma ep_run_solvent:
  assumes "ep_run log st st'"
  shows "solvent R st \<Longrightarrow> solvent R st'" and "ep_locked st' = ep_locked st"
  using assms
proof (induction rule: ep_run.induct)
  case (call log st st1 st2)
  { case 1 with call show ?case by (auto intro: ep_step_solvent) }
  { case 2 from call show ?case by (simp add: ep_step_nonce(2)) }
next
  case (handled log st st1 W ops b st2)
  note ok = handleOps_ok[OF handled.hyps(2,3), unfolded handled_well_def]
  { case 1 with handled.IH ok show ?case by blast }
  { case 2 from handled.IH ok show ?case by simp }
next
  case (aggregated log st st1 W opas b st2)
  note ok = handleAggregatedOps_ok[OF aggregated.hyps(2,3), unfolded handled_well_def]
  { case 1 with aggregated.IH ok show ?case by blast }
  { case 2 from aggregated.IH ok show ?case by simp }
qed simp_all

text \<open>The nonces of the log are used up.\<close>

definition used_up :: "(address \<times> uint256) list \<Rightarrow> 'w ep_state \<Rightarrow> bool" where
  "used_up log st \<longleftrightarrow> distinct log
     \<and> (\<forall>(a, n) \<in> set log. unat (nonce_seq n) < unat (nonceSequenceNumber st a (nonce_key n)))"

definition op_at :: "address \<Rightarrow> uint256 \<Rightarrow> PackedUserOperation" where
  "op_at a n = \<lparr>po_sender = a, po_nonce = n, po_initCode = [], po_callData = [], po_accountGasLimits = 0,
     po_preVerificationGas = 0, po_gasFees = 0, po_paymasterAndData = [], po_signature = []\<rparr>"

lemma used_up_handled:
  assumes u: "used_up log st" and s: "solvent 0 st" and h: "handled_well ops st st'"
  shows "used_up (log @ map op_id ops) st'"
proof -
  have grow: "unat (nonceSequenceNumber st a (nonce_key n)) \<le> unat (nonceSequenceNumber st' a (nonce_key n))" for a n
  proof -
    have "next_seq st (op_at a n) \<le> next_seq st' (op_at a n)" using h s unfolding handled_well_def by blast
    then show ?thesis by (simp add: next_seq_def op_at_def)
  qed
  have new: "next_seq st op \<le> seq_of op" "seq_of op < next_seq st' op" if "op \<in> set ops" for op
    using h s that unfolding handled_well_def by blast+
  have "op_id op \<notin> set log" if "op \<in> set ops" for op
    using u new(1)[OF that] by (auto simp: used_up_def op_id_def next_seq_def seq_of_def)
  then have "distinct (log @ map op_id ops)" using u h by (auto simp: used_up_def handled_well_def op_id_def)
  moreover have "\<forall>(a, n) \<in> set log. unat (nonce_seq n) < unat (nonceSequenceNumber st' a (nonce_key n))"
    using u grow less_le_trans by (fastforce simp: used_up_def)
  moreover have "\<forall>(a, n) \<in> set (map op_id ops). unat (nonce_seq n) < unat (nonceSequenceNumber st' a (nonce_key n))"
    using new(2) by (auto simp: op_id_def next_seq_def seq_of_def)
  ultimately show ?thesis by (auto simp: used_up_def)
qed

lemma ep_run_used_up: "ep_run log st st' \<Longrightarrow> solvent 0 st \<Longrightarrow> used_up log st'"
proof (induction rule: ep_run.induct)
  case (start st)
  then show ?case by (simp add: used_up_def)
next
  case (call log st st1 st2)
  have "unat (nonceSequenceNumber st1 a k) \<le> unat (nonceSequenceNumber st2 a k)" for a k
    by (rule ep_step_nonce(1)[OF call.hyps(2)])
  with call show ?case using less_le_trans by (fastforce simp: used_up_def)
next
  case (handled log st st1 W ops b st2)
  then show ?case using used_up_handled handleOps_ok ep_run_solvent(1) by blast
next
  case (aggregated log st st1 W opas b st2)
  then show ?case using used_up_handled handleAggregatedOps_ok ep_run_solvent(1) by blast
qed

lemma used_up_refused:
  assumes "used_up log st" and "solvent 0 st" and "op \<in> set ops" and "op_id op \<in> set log"
  shows "\<not> handled_well ops st st'"
proof
  assume "handled_well ops st st'"
  with assms(2,3) have "next_seq st op \<le> seq_of op" unfolding handled_well_def by blast
  with assms(1,4) show False by (auto simp: used_up_def op_id_def next_seq_def seq_of_def)
qed

section \<open>Properties\<close>

text \<open>
  C7. The EntryPoint is solvent. However accounts, paymasters, factories, aggregators, beneficiaries and
  strangers call it, re-enter it while a bundle is handled, deposit, stake and withdraw: after any history
  its ether covers all deposits and stakes, and whatever else was covered before, if it did so at the start;
  and no bundle leaves it locked.
\<close>

theorem entry_point_solvent:
  assumes "ep_run log st st'" and "total st + R \<le> unat (ep_balance st)"
  shows "total st' + R \<le> unat (ep_balance st') \<and> ep_locked st' = ep_locked st"
  using ep_run_solvent[OF assms(1)] assms(2) by (simp add: solvent_def)

text \<open>
  C8. No operation is executed twice. Over any history no two handled operations have the same sender and
  nonce, and a bundle with an operation that was handled before is refused, aggregated or not.
\<close>

theorem entry_point_no_replay:
  assumes "ep_run log st st'" and "total st \<le> unat (ep_balance st)"
  shows "distinct log \<and> (\<forall>W ops b op g. honest W \<and> (op, g) \<in> set ops \<and> (po_sender op, po_nonce op) \<in> set log
      \<longrightarrow> (\<exists>e. handleOps W ops b st' = Inl e)
        \<and> (\<forall>opas. ops = concat (map a_userOps opas) \<longrightarrow> (\<exists>e. handleAggregatedOps W opas b st' = Inl e)))"
proof -
  have s: "solvent 0 st" using assms(2) by (simp add: solvent_def)
  note u = ep_run_used_up[OF assms(1) s] and s' = ep_run_solvent(1)[OF assms(1) s]
  have "(\<exists>e. handleOps W ops b st' = Inl e)
      \<and> (\<forall>opas. ops = concat (map a_userOps opas) \<longrightarrow> (\<exists>e. handleAggregatedOps W opas b st' = Inl e))"
    if "honest W" "(op, g) \<in> set ops" "(po_sender op, po_nonce op) \<in> set log" for W ops b op g
  proof -
    have "op \<in> set (map fst ops)" "op_id op \<in> set log" using that(2,3) by (force, simp add: op_id_def)
    from used_up_refused[OF u s' this] show ?thesis
      using handleOps_ok[OF that(1)] handleAggregatedOps_ok[OF that(1)] by (metis sum.exhaust_sel)
  qed
  with u show ?thesis unfolding used_up_def by blast
qed

end
