(* ===== verification/Paymaster_Properties.thy ===== *)
theory Paymaster_Properties
  imports Spending_Paymaster Account_Properties
begin

text \<open>
  The properties of the paymaster and the factory, both about their meeting with the account.
\<close>

section \<open>Gas\<close>

text \<open>The gas that an operation may use at most, with its paymaster's part, as a natural number.\<close>

definition requiredGas :: "PackedUserOperation \<Rightarrow> nat" where
  "requiredGas userOp = unat (po_preVerificationGas userOp) + unat (unpackVerificationGasLimit userOp)
     + unat (unpackCallGasLimit userOp) + be_val (take 16 (drop 20 (po_paymasterAndData userOp)))
     + be_val (take 16 (drop 36 (po_paymasterAndData userOp)))"

lemma be_val_16: "length bs \<le> 16 \<Longrightarrow> unat (of_nat (be_val bs) :: uint256) = be_val bs"
proof -
  assume "length bs \<le> 16"
  then have "(256 :: nat) ^ length bs \<le> 256 ^ 16" by (rule power_increasing) simp
  then have "be_val bs < 2 ^ 256" using be_val_less[of bs] by simp
  then show ?thesis by (rule unat_of_nat_256)
qed

definition uses_paymaster :: "account \<Rightarrow> PackedUserOperation \<Rightarrow> bool" where
  "uses_paymaster a userOp \<longleftrightarrow> 52 \<le> length (po_paymasterAndData userOp)
     \<and> of_nat (be_val (take 20 (po_paymasterAndData userOp))) = paymasterAddress a"

text \<open>The account's preflight counts a charge for all the gas that the operation may use.\<close>

lemma preflight_gas_charge:
  assumes "getUsdcGasCostIfPaymaster ctx a userOp = Inr q" and "uses_paymaster a userOp"
  obtains m where "unat m = requiredGas userOp * unat (gasPrice ctx userOp)" and "withPremiumInUsdc (usdcPerEth a) m = Inr q"
proof -
  let ?pmd = "po_paymasterAndData userOp"
  from assms obtain g1 g2 g3 g4 m where g: "add256 (po_preVerificationGas userOp) (unpackVerificationGasLimit userOp) = Inr g1"
      "add256 g1 (unpackCallGasLimit userOp) = Inr g2" "add256 g2 (of_nat (be_val (take 16 (drop 20 ?pmd)))) = Inr g3"
      "add256 g3 (of_nat (be_val (take 16 (drop 36 ?pmd)))) = Inr g4" "mul256 g4 (gasPrice ctx userOp) = Inr m"
    and q: "withPremiumInUsdc (usdcPerEth a) m = Inr q"
    by (auto simp: getUsdcGasCostIfPaymaster_def uses_paymaster_def Let_def bindE_Inr_iff simp del: mul256_Inr add256_Inr)
  have "unat g4 = requiredGas userOp"
    using g(1-4)[THEN add256_unat] by (simp add: requiredGas_def be_val_16)
  with mul256_unat[OF g(5)] q that show thesis by simp
qed

lemma withPremiumInUsdc_unat:
  assumes "withPremiumInUsdc rate cost = Inr u"
  shows "unat u = (unat cost + unat cost * 500 div 10000) * unat rate div 10 ^ 18"
proof -
  from assms obtain p c x where *: "mul256 cost PREMIUM_BPS = Inr p" "add256 cost (p div 10000) = Inr c"
    "mul256 c rate = Inr x" "u = x div 1000000000000000000"
    by (auto simp: withPremiumInUsdc_def bindE_Inr_iff simp del: mul256_Inr add256_Inr)
  show ?thesis
    using mul256_unat[OF *(1)] add256_unat[OF *(2)] mul256_unat[OF *(3)] *(4)
    by (simp add: unat_div256 PREMIUM_BPS_def)
qed

lemma charge_cap:
  assumes "withPremiumInUsdc rate cost = Inr u" and "cost \<le> MAX_COST_CAP"
  shows "unat u \<le> 10500000000000000 * unat rate div 10 ^ 18"
proof -
  have c: "unat cost \<le> 10000000000000000" using assms(2) by (simp add: MAX_COST_CAP_def word_le_nat_alt)
  then have "unat cost * 500 div 10000 \<le> 500000000000000" by (auto intro: order_trans[OF div_le_mono[of _ "10000000000000000 * 500"]])
  with c have "unat cost + unat cost * 500 div 10000 \<le> 10500000000000000" by linarith
  then show ?thesis unfolding withPremiumInUsdc_unat[OF assms(1)] by (intro div_le_mono mult_le_mono1)
qed

section \<open>Properties\<close>

text \<open>
  C14. What the paymaster charges. Once it has validated an operation for a maximal cost, its charge for
  any actual cost up to that never overflows, is within the USDC balance the account had at
  validation and within the cap of 0.01 ether with the premium; \<open>postOp\<close> is then exactly the account's
  \<open>payForGasInUsdc\<close> of that charge. Where both contracts have the same rate and the cost is within the
  operation's gas limits at its gas price, the charge is also within what the account's own preflight
  has counted for gas.
\<close>

theorem paymaster_charge:
  assumes "validatePaymasterUserOp evm pm ctx userOp h maxCost ch0 = Inr (context, vd)"
    and "actualGasCost \<le> maxCost" and "msg_sender ctx' = pm_entryPoint pm"
    and "po_sender userOp = this_addr (acct ch)"
  shows "\<exists>charge balance. usdcBalanceOf evm (po_sender userOp) ch0 = Inr balance \<and> charge \<le> balance
    \<and> unat charge \<le> 10500000000000000 * unat (pm_usdcPerEth pm) div 10 ^ 18
    \<and> postOp pm (pay_account evm pm ctx' g other) ctx' mode context actualGasCost fee ch
        = dispatch evm (ctx'\<lparr>msg_sender := pm_this pm, gasleft := g\<rparr>) (PayForGasInUsdc charge) ch
    \<and> (\<forall>c a q. getUsdcGasCostIfPaymaster c a userOp = Inr q \<and> uses_paymaster a userOp \<and> usdcPerEth a = pm_usdcPerEth pm
          \<and> unat actualGasCost \<le> requiredGas userOp * unat (gasPrice c userOp) \<longrightarrow> charge \<le> q)"
proof -
  obtain cost balance where v: "maxCost \<le> MAX_COST_CAP" "costInUsdc pm maxCost = Inr cost"
    "usdcBalanceOf evm (po_sender userOp) ch0 = Inr balance" "cost \<le> balance" "context = be_bytes 32 (unat (po_sender userOp))"
    using assms(1) by (rule validatePaymaster_Inr)
  obtain charge where c: "withPremiumInUsdc (pm_usdcPerEth pm) actualGasCost = Inr charge" "charge \<le> cost"
    using withPremiumInUsdc_mono[OF v(2)[unfolded costInUsdc_def] assms(2)] .
  have post: "postOp pm (pay_account evm pm ctx' g other) ctx' mode context actualGasCost fee ch
      = dispatch evm (ctx'\<lparr>msg_sender := pm_this pm, gasleft := g\<rparr>) (PayForGasInUsdc charge) ch"
    using assms(3,4) v(5) c(1)
    by (simp add: postOp_def postOp_internal_def requireFromEntryPoint_def costInUsdc_def address_at_context pay_account_def)
  have "charge \<le> q" if q: "getUsdcGasCostIfPaymaster x a userOp = Inr q" "uses_paymaster a userOp"
      "usdcPerEth a = pm_usdcPerEth pm" "unat actualGasCost \<le> requiredGas userOp * unat (gasPrice x userOp)" for x a q
  proof -
    obtain m where m: "unat m = requiredGas userOp * unat (gasPrice x userOp)" "withPremiumInUsdc (usdcPerEth a) m = Inr q"
      using preflight_gas_charge[OF q(1,2)] .
    from q(4) m(1) have "actualGasCost \<le> m" by (simp add: word_le_nat_alt)
    from withPremiumInUsdc_mono[OF m(2) this] c(1) q(3) show ?thesis by auto
  qed
  moreover have "actualGasCost \<le> MAX_COST_CAP" using assms(2) v(1) by (rule order_trans)
  ultimately show ?thesis
    using v(3,4) c(2) post charge_cap[OF c(1)] by (intro exI[of _ charge] exI[of _ balance]) (auto intro: order_trans)
qed

text \<open>
  The factory creates the account that it predicts. A successful \<open>createAccount\<close> returns the address
  of \<open>getAddress\<close> for the same arguments, where no account was before, and leaves there a fresh account
  with exactly these parameters, nothing spent and no withdrawal requested; all other accounts are as
  before. Creating it again reverts, it does not return the existing address.
\<close>

theorem factory_creates_predicted:
  assumes "createAccount keccak creationCode ctx f x salt accts = Inr (a, accts')"
  shows "a = getAddress_sol keccak creationCode f x salt \<and> accts a = None \<and> (\<forall>b. b \<noteq> a \<longrightarrow> accts' b = accts b)
    \<and> (\<exists>acc. accts' a = Some acc \<and> this_addr acc = a \<and> entryPointContract acc = f_entryPoint f
        \<and> vaultOwner acc = aa_owner x \<and> paymasterAddress acc = f_paymaster f \<and> usdcPerEth acc = f_usdcPerEth f
        \<and> (dailyEthLimit acc, monthlyEthLimit acc, dailyUsdcLimit acc, monthlyUsdcLimit acc)
            = (aa_dailyEth x, aa_monthlyEth x, aa_dailyUsdc x, aa_monthlyUsdc x)
        \<and> (dailyEthSpent acc, monthlyEthSpent acc, dailyUsdcSpent acc, monthlyUsdcSpent acc) = (0, 0, 0, 0)
        \<and> emergencyWithdrawRequestTime acc = 0 \<and> lastLargeSpendTime acc = 0)
    \<and> createAccount keccak creationCode ctx' f x salt accts' = Inl EmptyRevert"
  using assms
  by (auto simp: createAccount_def evm_create2_def getAddress_sol_def computeAddress_def Let_def constructor_def
      split: if_splits)

section \<open>Instances\<close>

definition demo_paymaster :: paymaster where
  "demo_paymaster = \<lparr>pm_this = 0xFA, pm_entryPoint = 0xE7, pm_owner = 0x0B, pm_usdcPerEth = 2000000000\<rparr>"

text \<open>A token that reports 50 USDC for everyone, and an operation with enough gas for \<open>postOp\<close>.\<close>

definition rich_evm :: "unit evm" where
  "rich_evm = demo_evm\<lparr>x_static := (\<lambda>to d ch. Inr (be_bytes 32 50000000))\<rparr>"

definition demo_pm_op :: PackedUserOperation where
  "demo_pm_op = (demo_op [])\<lparr>po_sender := 0xACC,
     po_paymasterAndData := be_bytes 20 0xFA @ be_bytes 16 50000 @ be_bytes 16 150000\<rparr>"

lemma demo_pm_gas: "checkPostOpGas demo_pm_op = Inr ()"
  by (simp add: checkPostOpGas_def demo_pm_op_def unpackPostOpGasLimit_def slice_def PAYMASTER_DATA_OFFSET_def
      PAYMASTER_POSTOP_GAS_OFFSET_def MIN_POSTOP_GAS_def del: be_bytes.simps)

lemma demo_pm_valid:
  "validatePaymasterUserOp rich_evm demo_paymaster (demo_ctx 0xE7 1700000000) demo_pm_op 0 5000000000000000 demo_chain
    = Inr (be_bytes 32 0xACC, SIG_VALIDATION_SUCCESS)"
proof -
  have "costInUsdc demo_paymaster 5000000000000000 = Inr 10500000"
    by (simp add: costInUsdc_def withPremiumInUsdc_def mul256_def add256_def PREMIUM_BPS_def demo_paymaster_def)
  moreover have "usdcBalanceOf rich_evm a demo_chain = Inr 50000000" for a
    by (simp add: usdcBalanceOf_def rich_evm_def demo_evm_def uint_at_def word_at_def del: be_bytes.simps)
  ultimately show ?thesis
    using demo_pm_gas
    by (simp add: validatePaymasterUserOp_def validatePaymasterUserOp_internal_def requireFromEntryPoint_def MAX_COST_CAP_def
        demo_ctx_def demo_paymaster_def demo_pm_op_def del: be_bytes.simps)
qed

theorem paymaster_charge_witness:
  "\<exists>charge balance. usdcBalanceOf rich_evm 0xACC demo_chain = Inr balance \<and> charge \<le> balance
    \<and> postOp demo_paymaster (pay_account rich_evm demo_paymaster (demo_ctx 0xE7 1700000000) 90000 (\<lambda>a u. Inr))
        (demo_ctx 0xE7 1700000000) OpSucceeded (be_bytes 32 0xACC) 4000000000000000 0 demo_chain
      = dispatch rich_evm ((demo_ctx 0xE7 1700000000)\<lparr>msg_sender := 0xFA, gasleft := 90000\<rparr>) (PayForGasInUsdc charge) demo_chain"
proof -
  have 1: "(4000000000000000 :: uint256) \<le> 5000000000000000" by simp
  have 2: "msg_sender (demo_ctx 0xE7 1700000000) = pm_entryPoint demo_paymaster" by (simp add: demo_ctx_def demo_paymaster_def)
  have s: "po_sender demo_pm_op = 0xACC" "pm_this demo_paymaster = 0xFA" by (simp_all add: demo_pm_op_def demo_paymaster_def)
  then have 3: "po_sender demo_pm_op = this_addr (acct demo_chain)" by (simp add: demo_chain_def demo_account_def constructor_def)
  show ?thesis
    using paymaster_charge[OF demo_pm_valid 1 2 3, unfolded s, of 90000 "\<lambda>a u. Inr" OpSucceeded 0] by blast
qed

theorem factory_creates_predicted_witness:
  "\<exists>a acc. createAccount (\<lambda>bs. be_bytes 32 (length bs)) [0x60] (demo_ctx 1 5) \<lparr>f_this = 7, f_entryPoint = 8, f_paymaster = 9, f_usdcPerEth = 2\<rparr>
       \<lparr>aa_owner = 3, aa_dailyEth = 10, aa_monthlyEth = 20, aa_dailyUsdc = 30, aa_monthlyUsdc = 40\<rparr> (replicate 32 0) Map.empty
     = Inr (a, [a \<mapsto> acc]) \<and> vaultOwner acc = 3 \<and> monthlyUsdcLimit acc = 40"
proof -
  let ?create = "createAccount (\<lambda>bs. be_bytes 32 (length bs)) [0x60] (demo_ctx 1 5) \<lparr>f_this = 7, f_entryPoint = 8, f_paymaster = 9, f_usdcPerEth = 2\<rparr>
       \<lparr>aa_owner = 3, aa_dailyEth = 10, aa_monthlyEth = 20, aa_dailyUsdc = 30, aa_monthlyUsdc = 40\<rparr> (replicate 32 0) Map.empty"
  obtain a acc where c: "?create = Inr (a, [a \<mapsto> acc])"
    by (simp add: createAccount_def evm_create2_def Let_def del: be_bytes.simps)
  from factory_creates_predicted[OF c] c show ?thesis by auto
qed

end
