(* ===== verification/Entry_Point_Account.thy ===== *)
theory Entry_Point_Account
  imports Entry_Point_Properties Paymaster_Properties
begin

text \<open>
  The account and its paymaster under the EntryPoint: an operation whose gas the account may not pay for any
  more. The world of the EntryPoint is the chain of the account.
\<close>

section \<open>The paymaster as a callee\<close>

text \<open>
  The calls of \<open>postOp\<close> at the paymaster's address run its code, with the EntryPoint as the sender. \<open>left\<close> is
  the gas that remains for the account's \<open>payForGasInUsdc\<close>, \<open>enc\<close> the encoding of a revert.
\<close>

definition runs_paymaster ::
  "'v evm \<Rightarrow> paymaster \<Rightarrow> msg_ctx \<Rightarrow> (uint256 \<Rightarrow> uint256) \<Rightarrow> (sol_error \<Rightarrow> bytes)
     \<Rightarrow> (address \<Rightarrow> uint256 \<Rightarrow> 'v chain \<Rightarrow> sol_error + 'v chain) \<Rightarrow> 'v chain ep_callees \<Rightarrow> bool" where
  "runs_paymaster evm pm ctx left enc other W \<longleftrightarrow> (\<forall>g mode context cost fee st.
     w_postOp W (pm_this pm) g mode context cost fee st =
       (case postOp pm (pay_account evm pm ctx (left g) other) (ctx\<lparr>msg_sender := pm_entryPoint pm\<rparr>) mode context cost fee (ep_world st) of
          Inl e \<Rightarrow> Inl (enc e)
        | Inr ch \<Rightarrow> Inr ([], st\<lparr>ep_world := ch\<rparr>)))"

text \<open>What any call does to the account is a run of its accounting machine, as \<open>dispatch_moves\<close> shows of its code.\<close>

definition runs_account :: "'v chain ep_callees \<Rightarrow> bool" where
  "runs_account W \<longleftrightarrow>
     (\<forall>a d g st r st'. w_exec W a d g st = Inr (r, st') \<longrightarrow> (\<exists>now. moves now 0 0 (acct (ep_world st)) (acct (ep_world st'))))
   \<and> (\<forall>a op h g st r st'. w_executeUserOp W a op h g st = Inr (r, st') \<longrightarrow> (\<exists>now. moves now 0 0 (acct (ep_world st)) (acct (ep_world st'))))"

section \<open>An exhausted account\<close>

definition exhausted :: "account \<Rightarrow> bool" where
  "exhausted a \<longleftrightarrow> dailyUsdcSpent a = dailyUsdcLimit a"

lemma exhausted_moves:
  assumes "moves now 0 0 a a'" and "exhausted a"
  shows "exhausted a'" "this_addr a' = this_addr a"
proof -
  obtain evs where run: "foldE acct_apply evs a = Inr a'" using assms(1) by (auto simp: moves_def)
  show "exhausted a'"
  proof (rule foldE_invariant[where P = exhausted, OF _ assms(2) run])
    fix ev b b' assume e: "exhausted b" "acct_apply ev b = Inr b'"
    obtain t who act where "ev = (t, who, act)" by (cases ev)
    with e(2) have p: "perform t act b = Inr b'" by (auto split: if_splits)
    have "usdc_amount act = 0"
      using perform_step(4,6)[OF p] e(1) by (cases "usdc_amount act") (auto simp: exhausted_def)
    with perform_step(1,4)[OF p] e(1) show "exhausted b'"
      by (simp add: exhausted_def limits_of_def word_unat_eq_iff)
  qed
  show "this_addr a' = this_addr a" using acct_run_immutables[OF run] by (simp add: immutables_def)
qed

lemma exhausted_refuses:
  assumes "exhausted a" and "0 < u"
  shows "\<exists>e. applyUsdcSpend a now u = Inl e"
proof (cases "applyUsdcSpend a now u")
  case (Inr r)
  then have p: "perform now (PayGas u) a = Inr (fst r)" by (cases r) simp
  have "0 < unat u" using assms(2) by (simp add: unat_gt_0 word_gt_0)
  with perform_step(4,6)[OF p] assms(1) show ?thesis by (auto simp: exhausted_def)
qed simp

lemma exhausted_postOp:
  assumes "exhausted (acct ch)" and "costInUsdc pm cost \<noteq> Inr 0"
    and "context = be_bytes 32 (unat (this_addr (acct ch)))"
  shows "\<exists>e. postOp pm (pay_account evm pm ctx g other) ctx' mode context cost fee ch = Inl e"
proof (cases "costInUsdc pm cost")
  case (Inr u)
  with assms(2) have u: "0 < u" by (simp add: word_gt_0)
  obtain e where "applyUsdcSpend (acct ch) (block_timestamp ctx) u = Inl e" using exhausted_refuses[OF assms(1) u] by blast
  then have "\<exists>e. dispatch evm (ctx\<lparr>msg_sender := pm_this pm, gasleft := g\<rparr>) (PayForGasInUsdc u) ch = Inl e"
    by (simp add: payForGasInUsdc_def)
  then show ?thesis
    using Inr by (auto simp: postOp_def postOp_internal_def requireFromEntryPoint_def assms(3) address_at_context pay_account_def)
qed (auto simp: postOp_def postOp_internal_def requireFromEntryPoint_def assms(3) address_at_context)

section \<open>The operation\<close>

text \<open>The cost that the EntryPoint passes to \<open>postOp\<close> after the execution.\<close>

definition charged_cost :: "'w ep_callees \<Rightarrow> op_gas \<Rightarrow> UserOpInfo \<Rightarrow> uint256" where
  "charged_cost W g info =
     (let m = i_mUserOp info; actualGas = og_exec g + i_preOpGas info in
      (actualGas + getUnusedGasPenalty (actualGas - i_preOpGas info) (m_callGasLimit m)) * getUserOpGasPrice (w_basefee W) m)"

lemma inner_fails_when_exhausted:
  assumes "runs_paymaster evm pm ctx left enc other W" and "runs_account W"
    and "exhausted (acct (ep_world st))" and "i_context info = be_bytes 32 (unat (this_addr (acct (ep_world st))))"
    and "m_paymaster (i_mUserOp info) = pm_this pm" and "pm_this pm \<noteq> 0" and "costInUsdc pm (charged_cost W g info) \<noteq> Inr 0"
  shows "\<exists>e. innerHandleOp W g s op info st = Inl e"
proof -
  let ?m = "i_mUserOp info"
  have ne: "i_context info \<noteq> []" using assms(4) by (metis length_be_bytes list.size(3) zero_neq_numeral)
  have post: "\<exists>e. postExecution W mode info (i_context info) (og_exec g + i_preOpGas info) pu u st1 = Inl e"
    if ex: "exhausted (acct (ep_world st1))" "this_addr (acct (ep_world st1)) = this_addr (acct (ep_world st))"
      and mode: "mode \<noteq> PostOpReverted" for mode pu u st1
  proof -
    obtain e where "postOp pm (pay_account evm pm ctx (left (m_paymasterPostOpGasLimit ?m)) other)
        (ctx\<lparr>msg_sender := pm_entryPoint pm\<rparr>) mode (i_context info) (charged_cost W g info) (getUserOpGasPrice (w_basefee W) ?m)
        (ep_world st1) = Inl e"
      using exhausted_postOp[OF ex(1) assms(7)] assms(4) ex(2) by metis
    then have "w_postOp W (pm_this pm) (m_paymasterPostOpGasLimit ?m) mode (i_context info) (charged_cost W g info)
        (getUserOpGasPrice (w_basefee W) ?m) st1 = Inl (enc e)"
      using assms(1) by (simp add: runs_paymaster_def)
    then show ?thesis using assms(5,6) ne mode by (simp add: postExecution_def Let_def charged_cost_def)
  qed
  have "exhausted (acct (ep_world st1)) \<and> this_addr (acct (ep_world st1)) = this_addr (acct (ep_world st))"
    if x: "exec_call_op W op info st = Inr (r, st1)" for r st1
  proof -
    have "\<exists>now. moves now 0 0 (acct (ep_world st)) (acct (ep_world st1))"
    proof (cases "take 4 (po_callData op) = executeUserOp_selector")
      case True
      with x have "w_executeUserOp W (m_sender ?m) op (i_userOpHash info) (m_callGasLimit ?m) st = Inr (r, st1)"
        by (simp add: exec_call_op_def Let_def)
      with assms(2) show ?thesis unfolding runs_account_def by blast
    next
      case False
      with x have "w_exec W (m_sender ?m) (po_callData op) (m_callGasLimit ?m) st = Inr (r, st1)"
        by (simp add: exec_call_op_def Let_def)
      with assms(2) show ?thesis unfolding runs_account_def by blast
    qed
    then obtain now where "moves now 0 0 (acct (ep_world st)) (acct (ep_world st1))" ..
    from exhausted_moves[OF this assms(3)] show ?thesis by simp
  qed
  then show ?thesis
    using post assms(3) by (auto simp: innerHandleOp_def Let_def emit_def split: sum.splits)
qed

lemma postExecution_cleanup:
  assumes "postExecution W PostOpReverted info ctx ag pu u st = Inr (c, st')"
  shows "ep_world st' = ep_world st"
    and "\<exists>to. deposits st' = deposits (incrementDeposit (if m_paymaster (i_mUserOp info) = 0 then m_sender (i_mUserOp info)
      else m_paymaster (i_mUserOp info)) (i_prefund info - c) st) \<and> c \<le> i_prefund info \<or> deposits st' = deposits st \<and> c = i_prefund info"
  using assms
  by (auto simp: postExecution_def Let_def emit_def emitUserOperationEvent_def emitPrefundTooLow_def incrementDeposit_def
      set_info_def not_less split: if_splits)

lemma executeUserOp_returns:
  assumes "\<not> og_inner_left g * 63 div 64 < m_callGasLimit (i_mUserOp info) + m_paymasterPostOpGasLimit (i_mUserOp info) + INNER_GAS_OVERHEAD"
  obtains c st' where "executeUserOp W g i op info st = Inr (c, st')"
proof -
  have post: "postExecution W PostOpReverted info ctx ag pu u st1 \<noteq> Inl x" for ctx ag pu u st1 x
    by (simp add: postExecution_def Let_def)
  have "innerHandleOp W g (w_this W) op info st \<noteq> Inl InnerOutOfGas"
    using assms by (auto simp: innerHandleOp_def postExecution_def Let_def bindE_Inl_iff split: prod.splits if_splits sum.splits)
  then have "\<exists>r. executeUserOp W g i op info st = Inr r"
    using post by (auto simp: executeUserOp_def Let_def split: sum.splits inner_error.splits)
  then show thesis using that by (metis surj_pair)
qed

text \<open>
  C18. An account that has used up its USDC is served at the paymaster's expense. Once the daily USDC counter
  is at its limit, however long ago, an operation through the paymaster with any charge is undone after its
  execution: the account and everything else outside the EntryPoint are as before it, no USDC is paid, and
  the EntryPoint collects the gas from the paymaster's deposit, which gets back only what is left of the prefund.
\<close>

theorem exhausted_account_costs_paymaster:
  assumes "runs_paymaster evm pm ctx left enc other W" and "runs_account W"
    and "dailyUsdcSpent (acct (ep_world st)) = dailyUsdcLimit (acct (ep_world st))"
    and "i_context info = be_bytes 32 (unat (this_addr (acct (ep_world st))))"
    and "m_paymaster (i_mUserOp info) = pm_this pm" and "pm_this pm \<noteq> 0" and "costInUsdc pm (charged_cost W g info) \<noteq> Inr 0"
    and "total st + unat (i_prefund info) \<le> unat (ep_balance st)"
    and "\<not> og_inner_left g * 63 div 64 < m_callGasLimit (i_mUserOp info) + m_paymasterPostOpGasLimit (i_mUserOp info) + INNER_GAS_OVERHEAD"
  shows "\<exists>c st'. executeUserOp W g i op info st = Inr (c, st') \<and> ep_world st' = ep_world st \<and> c \<le> i_prefund info
    \<and> unat (balanceOf st' (pm_this pm)) + unat c = unat (balanceOf st (pm_this pm)) + unat (i_prefund info)
    \<and> (\<forall>a. a \<noteq> pm_this pm \<longrightarrow> deposits st' a = deposits st a)"
proof -
  let ?p = "i_prefund info" and ?a = "pm_this pm"
  obtain c st' where x: "executeUserOp W g i op info st = Inr (c, st')" using executeUserOp_returns[OF assms(9)] .
  obtain e where "innerHandleOp W g (w_this W) op info st = Inl e"
    using inner_fails_when_exhausted[OF assms(1,2) _ assms(4-7)] assms(3) by (auto simp: exhausted_def)
  then have "(\<exists>n. c = ?p \<and> st' = emitUserOperationEvent info False ?p n (emitPrefundTooLow info st))
      \<or> (\<exists>ev ctx ag pu u. postExecution W PostOpReverted info ctx ag pu u (emit ev st) = Inr (c, st'))"
    using x by (cases e) (auto simp: executeUserOp_def Let_def split: sum.splits)
  then have w: "ep_world st' = ep_world st" and d: "deposits st' = deposits (incrementDeposit ?a (?p - c) st) \<and> c \<le> ?p
      \<or> deposits st' = deposits st \<and> c = ?p"
    using assms(5,6) postExecution_cleanup[of W info _ _ _ _ "emit _ st" c st']
    by (auto simp: emitUserOperationEvent_def emitPrefundTooLow_def emit_def incrementDeposit_def set_info_def Let_def)
  have "unat (balanceOf st' ?a) + unat c = unat (balanceOf st ?a) + unat ?p \<and> (\<forall>a. a \<noteq> ?a \<longrightarrow> deposits st' a = deposits st a)"
    if d: "deposits st' = deposits (incrementDeposit ?a (?p - c) st)" "c \<le> ?p"
  proof -
    have s: "unat (?p - c) + unat c = unat ?p" using d(2) by (simp add: unat_sub word_le_nat_alt)
    have "unat (di_deposit (deposits st ?a)) + unat (?p - c) < 2 ^ 256"
      using assms(8) s owed_le_total[of st ?a] unat_lt_256[of "ep_balance st"] by (simp add: owed_def)
    from unat_add256[OF this] s d(1) show ?thesis
      by (simp add: balanceOf_def incrementDeposit_def set_info_def Let_def)
  qed
  with w d x show ?thesis by (intro exI[of _ c] exI[of _ st']) (auto simp: balanceOf_def)
qed

section \<open>Instances\<close>

text \<open>
  An EntryPoint at 0xE7 with 10 ether, 1 of them deposited by the paymaster 0xFA and 1 by the account 0xACC. The
  account validates with its own code, others do not; the paymaster answers with the account as context, and all
  other calls succeed.
\<close>

definition demo_W :: "unit chain ep_callees" where
  "demo_W = \<lparr>w_this = 0xE7, w_code = (\<lambda>a st. [0x60]), w_hash = (\<lambda>bs. 0), w_typehash = 0, w_typed = id, w_memory = [],
     w_timestamp = 1800000000, w_basefee = 1, w_factory = (\<lambda>a d st. Inl []), w_initSender = (\<lambda>a d st. Inl []),
     w_validateUserOp = (\<lambda>a g op h m st. if a \<noteq> 0xACC then Inl [] else
       case validateUserOp demo_evm (demo_ctx 0xE7 1800000000) op h m (ep_world st) of
         Inl e \<Rightarrow> Inl [] | Inr (d, ch) \<Rightarrow> Inr (be_bytes 32 (unat d), st\<lparr>ep_world := ch\<rparr>)),
     w_validatePaymasterUserOp = (\<lambda>a g op h m st. Inr (be_bytes 32 64 @ be_bytes 32 0 @ be_bytes 32 32 @ be_bytes 32 0xACC, st)),
     w_exec = (\<lambda>a d g st. Inr ([], st)), w_executeUserOp = (\<lambda>a op h g st. Inl []),
     w_postOp = (\<lambda>a g mode context cost fee st.
       case postOp demo_paymaster (pay_account demo_evm demo_paymaster (demo_ctx 0xE7 1800000000) 90000 (\<lambda>a u. Inr))
           ((demo_ctx 0xE7 1800000000)\<lparr>msg_sender := 0xE7\<rparr>) mode context cost fee (ep_world st) of
         Inl e \<Rightarrow> Inl [] | Inr ch \<Rightarrow> Inr ([], st\<lparr>ep_world := ch\<rparr>)),
     w_receive = (\<lambda>a v st. Inr ([], st)), w_validateSignatures = (\<lambda>a ops sg st. True)\<rparr>"

definition no_deposit :: deposit_info where
  "no_deposit = \<lparr>di_deposit = 0, di_staked = False, di_stake = 0, di_unstakeDelaySec = 0, di_withdrawTime = 0\<rparr>"

definition demo_empty :: "account \<Rightarrow> unit chain ep_state" where
  "demo_empty a = \<lparr>deposits = (\<lambda>b. no_deposit), nonceSequenceNumber = (\<lambda>b k. 0), ep_locked = False,
     ep_balance = 10000000000000000000, ep_events = [], ep_world = demo_chain\<lparr>acct := a\<rparr>\<rparr>"

definition demo_ep :: "account \<Rightarrow> unit chain ep_state" where
  "demo_ep a = set_info 0xFA (no_deposit\<lparr>di_deposit := 1000000000000000000\<rparr>)
     (set_info 0xACC (no_deposit\<lparr>di_deposit := 1000000000000000000\<rparr>) (demo_empty a))"

lemma demo_ep_total: "total (demo_ep a) = 2000000000000000000"
proof -
  have "total (demo_empty a) = 0" by (simp add: total_def demo_empty_def owed_def no_deposit_def)
  then have "total (set_info 0xACC (no_deposit\<lparr>di_deposit := 1000000000000000000\<rparr>) (demo_empty a)) = 1000000000000000000"
    using total_set_info[of "0xACC" "no_deposit\<lparr>di_deposit := 1000000000000000000\<rparr>" "demo_empty a"]
    by (simp add: demo_empty_def owed_def no_deposit_def)
  then show ?thesis
    using total_set_info[of "0xFA" "no_deposit\<lparr>di_deposit := 1000000000000000000\<rparr>"
        "set_info 0xACC (no_deposit\<lparr>di_deposit := 1000000000000000000\<rparr>) (demo_empty a)"]
    by (simp add: demo_ep_def demo_empty_def owed_def no_deposit_def set_info_def)
qed

lemma demo_W_honest: "honest demo_W"
  by (auto simp: honest_def calls_back_def demo_W_def split: sum.splits intro: r_into_rtranclp ep_step.elsewhere)

lemma demo_W_runs: "runs_paymaster demo_evm demo_paymaster (demo_ctx 0xE7 1800000000) (\<lambda>g. 90000) (\<lambda>e. []) (\<lambda>a u. Inr) demo_W"
  by (simp add: runs_paymaster_def demo_W_def demo_paymaster_def)

lemma demo_W_account: "runs_account demo_W"
  by (auto simp: runs_account_def demo_W_def intro: moves_refl)

text \<open>A bundle of one operation that sends 1 wei and pays for itself.\<close>

definition demo_gas :: op_gas where
  "demo_gas = \<lparr>og_account = 30000, og_paymaster = 20000, og_preOp = 40000, og_inner_left = 1000000, og_inner_fails = False,
     og_exec = 30000, og_postOp = 60000, og_post = 5000, og_outer = 90000, og_outer_postOp = 60000, og_outer_post = 5000\<rparr>"

definition demo_bundled :: PackedUserOperation where
  "demo_bundled = (demo_op (execute_selector @ abi_encode_call 0xB0B 1 []))\<lparr>po_accountGasLimits := 34028236692093846346337460743176821145650000, po_preVerificationGas := 1000,
     po_gasFees := 680564733841876926926749214863536422922\<rparr>"

definition demo_mem :: MemoryUserOp where
  "demo_mem = \<lparr>m_sender = 0xACC, m_nonce = 0, m_verificationGasLimit = 100000, m_callGasLimit = 50000,
     m_paymasterVerificationGasLimit = 0, m_paymasterPostOpGasLimit = 0, m_preVerificationGas = 1000, m_paymaster = 0,
     m_maxFeePerGas = 10, m_maxPriorityFeePerGas = 2\<rparr>"

lemma demo_unpack: "unpackUints 34028236692093846346337460743176821145650000 = (100000, 50000)" "unpackUints 680564733841876926926749214863536422922 = (2, 10)"
  by (simp_all add: unpackUints_def word_unat_eq_iff unat_unpackHigh128 unat_unpackLow128)

lemma demo_copy: "copyUserOpToMemory demo_bundled = Inr demo_mem"
  by (simp add: copyUserOpToMemory_def demo_bundled_def demo_op_def demo_mem_def demo_unpack Let_def)

lemma demo_max: "maxGasValues demo_mem \<le> 2 ^ 120 - 1"
  by (simp add: maxGasValues_def demo_mem_def)

lemma demo_ep_prefund: "getRequiredPrefund demo_mem = 1510000"
  by (simp add: getRequiredPrefund_def demo_mem_def)

lemma demo_hash: "getUserOpHash_sol demo_W demo_bundled st = Inr 0"
  by (simp add: getUserOpHash_sol_def getEip7702InitCodeHashOverride_def isEip7702InitCode_sol_def demo_bundled_def demo_op_def
      demo_W_def hash_def)

definition demo_paid :: "account \<Rightarrow> unit chain ep_state" where
  "demo_paid a = set_info 0xACC (no_deposit\<lparr>di_deposit := 999999999998490000\<rparr>) ((demo_ep a)\<lparr>ep_locked := True\<rparr>)"

lemma be_bytes_zero: "be_bytes n 0 = replicate n 0"
  by (induction n) (simp_all add: replicate_append_same)

lemma demo_account_validates:
  "validateUserOp demo_evm (demo_ctx 0xE7 1800000000) demo_bundled h 0 demo_chain = Inr (0, demo_chain)"
proof -
  have p: "parseSpendAmountsFromCallData (po_callData demo_bundled) = Inr (1, 0)"
    using abi_execute_roundtrip[of "[]" "0xB0B" 1]
    by (simp add: parseSpendAmountsFromCallData_def parseSpendAmounts_def demo_bundled_def demo_op_def execute_selector_def USDC_def
        abi_encode_call_def)
  have l: "validatePreflightLimits demo_account 1800000000 1 0 = Inr demo_account"
    by (simp add: demo_defs validatePreflightLimits_def checkAndUpdatePanicCooldown_def getUsdValue_def maybeResetWindows_def
        DAILY_WINDOW_def MONTHLY_WINDOW_def validateEthSpend_def add256_def mul256_def PANIC_THRESHOLD_BPS_def)
  have c: "acct demo_chain = demo_account" "demo_chain\<lparr>acct := demo_account\<rparr> = demo_chain" by (simp_all add: demo_chain_def)
  have s: "validateSignature demo_evm demo_account demo_bundled h = Inr 0"
    by (simp add: validateSignature_def demo_defs SIG_VALIDATION_SUCCESS_def)
  have g: "getUsdcGasCostIfPaymaster (demo_ctx 0xE7 1800000000) demo_account demo_bundled = Inr 0"
    by (simp add: getUsdcGasCostIfPaymaster_def demo_bundled_def demo_op_def)
  have e: "msg_sender (demo_ctx 0xE7 1800000000) = entryPointContract demo_account" "block_timestamp (demo_ctx 0xE7 1800000000) = 1800000000"
    by (simp_all add: demo_defs)
  show ?thesis by (simp add: validateUserOp_def c s g p l e payPrefund_def)
qed

lemma demo_account_part:
  assumes "i_mUserOp info = demo_mem"
  shows "validateAccountPrepayment demo_W 0 demo_bundled info 1510000 ((demo_ep demo_account)\<lparr>ep_locked := True\<rparr>) = Inr (0, demo_paid demo_account)"
proof -
  have d: "deposits (demo_ep demo_account) 0xACC = no_deposit\<lparr>di_deposit := 1000000000000000000\<rparr>"
    by (simp add: demo_ep_def set_info_def)
  have c: "createSenderIfNeeded demo_W 0 info [] st = Inr st" for st by (simp add: createSenderIfNeeded_def Let_def)
  have v: "callValidateUserOp demo_W 0 demo_bundled info 0 st = Inr (0, st)" if "ep_world st = demo_chain" for st
    using that demo_account_validates[of "i_userOpHash info"] assms by (simp add: callValidateUserOp_def demo_mem_def demo_W_def Let_def be_val_be_bytes)
  have w: "ep_world ((demo_ep demo_account)\<lparr>ep_locked := True\<rparr>) = demo_chain"
    by (simp add: demo_ep_def demo_empty_def set_info_def demo_chain_def)
  have t: "tryDecrementDeposit 0xACC 1510000 ((demo_ep demo_account)\<lparr>ep_locked := True\<rparr>) = (True, demo_paid demo_account)"
    by (simp add: tryDecrementDeposit_def d Let_def demo_paid_def no_deposit_def)
  have "po_initCode demo_bundled = []" by (simp add: demo_bundled_def demo_op_def)
  with d v[OF w] t c assms show ?thesis
    by (simp add: validateAccountPrepayment_def Let_def demo_mem_def balanceOf_def)
qed

lemma demo_nonce: "validateAndUpdateNonce 0xACC 0 (demo_paid demo_account) = Inr (True, set_nonce 0xACC 0 1 (demo_paid demo_account))"
  by (simp add: validateAndUpdateNonce_def incrementNonce_def Let_def nonce_key_def nonce_seq_def demo_paid_def demo_ep_def
      set_info_def demo_empty_def)

definition demo_info :: UserOpInfo where
  "demo_info = \<lparr>i_mUserOp = demo_mem, i_userOpHash = 0, i_prefund = 1510000, i_context = [], i_preOpGas = 41000\<rparr>"

lemma demo_validate:
  "validatePrepayment demo_W demo_gas 0 demo_bundled ((demo_ep demo_account)\<lparr>ep_locked := True\<rparr>)
    = Inr ((0, 0, demo_info), set_nonce 0xACC 0 1 (demo_paid demo_account))"
proof -
  have "\<not> 2 ^ 120 - 1 < maxGasValues demo_mem" using demo_max by simp
  then show ?thesis
    using demo_account_part demo_nonce
    by (simp add: validatePrepayment_def demo_copy demo_hash demo_ep_prefund sol_def Let_def, simp add: demo_mem_def demo_gas_def demo_info_def
        demo_bundled_def)
qed

text \<open>It is handled: the rest of the bundle follows from the lemmas on reserves.\<close>

lemma demo_handled: "\<exists>st'. handleOps demo_W [(demo_bundled, demo_gas)] 0xB0B (demo_ep demo_account) = Inr st'"
proof -
  let ?st = "(demo_ep demo_account)\<lparr>ep_locked := True\<rparr>" and ?s1 = "emit BeforeExecution (set_nonce 0xACC 0 1 (demo_paid demo_account))"
  have i: "iterateValidationPhase demo_W 0 [(demo_bundled, demo_gas)] 0 ?st
      = Inr ([(demo_bundled, demo_gas, demo_info)], set_nonce 0xACC 0 1 (demo_paid demo_account))"
    by (simp add: demo_validate validateAccountAndPaymasterValidationData_def getValidationData_def)
  have l1: "ep_locked ?s1" by (simp add: demo_paid_def)
  have "\<not> og_inner_left demo_gas * 63 div 64 < m_callGasLimit (i_mUserOp demo_info)
      + m_paymasterPostOpGasLimit (i_mUserOp demo_info) + INNER_GAS_OVERHEAD"
    by (simp add: demo_gas_def demo_info_def demo_mem_def INNER_GAS_OVERHEAD_def)
  then obtain c st2 where x: "executeUserOp demo_W demo_gas 0 demo_bundled demo_info ?s1 = Inr (c, st2)"
    by (rule executeUserOp_returns)
  note s = executeUserOp_safe[OF demo_W_honest l1 x]
  have "solvent 0 ?st" using demo_ep_total by (simp add: solvent_def demo_ep_def demo_empty_def)
  with iterateValidationPhase_safe(1)[OF demo_W_honest _ i] have "solvent (0 + unat (i_prefund demo_info)) ?s1"
    by (auto simp: safe_def)
  with s have "solvent (0 + unat c) st2" unfolding safe_def by blast
  then have "\<not> ep_balance st2 < c" by (simp add: solvent_def word_less_nat_alt)
  then have "\<exists>st3. compensate demo_W 0xB0B c st2 = Inr st3" by (simp add: compensate_def send_value_def demo_W_def)
  with x i show ?thesis by (auto simp: handleOps_def demo_ep_def demo_empty_def)
qed

lemma demo_run_ep: "\<exists>st'. ep_run [(0xACC, 0)] (demo_ep demo_account) st'"
proof -
  obtain st' where "handleOps demo_W [(demo_bundled, demo_gas)] 0xB0B (demo_ep demo_account) = Inr st'" using demo_handled by blast
  from ep_run.handled[OF ep_run.start demo_W_honest this] show ?thesis
    by (auto simp: op_id_def demo_bundled_def demo_op_def)
qed

theorem entry_point_solvent_witness:
  "\<exists>st'. ep_run [(0xACC, 0)] (demo_ep demo_account) st' \<and> total st' + 8000000000000000000 \<le> unat (ep_balance st')"
proof -
  obtain st' where r: "ep_run [(0xACC, 0)] (demo_ep demo_account) st'" using demo_run_ep by blast
  have "total (demo_ep demo_account) + 8000000000000000000 \<le> unat (ep_balance (demo_ep demo_account))"
    by (simp add: demo_ep_total) (simp add: demo_ep_def demo_empty_def)
  from entry_point_solvent[OF r this] r show ?thesis by blast
qed

text \<open>The same operation is refused when it is sent again.\<close>

theorem entry_point_no_replay_witness:
  "\<exists>st' e. ep_run [(0xACC, 0)] (demo_ep demo_account) st' \<and> handleOps demo_W [(demo_bundled, demo_gas)] 0xB0B st' = Inl e"
proof -
  obtain st' where r: "ep_run [(0xACC, 0)] (demo_ep demo_account) st'" using demo_run_ep by blast
  have s: "total (demo_ep demo_account) \<le> unat (ep_balance (demo_ep demo_account))"
    by (simp add: demo_ep_total) (simp add: demo_ep_def demo_empty_def)
  have "(po_sender demo_bundled, po_nonce demo_bundled) \<in> set [(0xACC, 0)]" by (simp add: demo_bundled_def demo_op_def)
  with entry_point_no_replay[OF r s] demo_W_honest r show ?thesis by (metis list.set_intros(1))
qed

text \<open>An account at its daily limit, and an operation of it that runs long enough to be charged.\<close>

definition demo_pm_info :: UserOpInfo where
  "demo_pm_info = demo_info\<lparr>i_mUserOp := demo_mem\<lparr>m_paymaster := 0xFA, m_paymasterVerificationGasLimit := 50000,
     m_paymasterPostOpGasLimit := 150000\<rparr>, i_prefund := 3510000, i_context := be_bytes 32 0xACC\<rparr>"

theorem exhausted_account_costs_paymaster_witness:
  "\<exists>c st'. executeUserOp demo_W (demo_gas\<lparr>og_exec := 1000000000000\<rparr>) 0 demo_bundled demo_pm_info (demo_ep demo_spent) = Inr (c, st')
    \<and> ep_world st' = ep_world (demo_ep demo_spent)
    \<and> unat (balanceOf st' 0xFA) + unat c = 1000000000003510000"
proof -
  let ?g = "demo_gas\<lparr>og_exec := 1000000000000\<rparr>"
  have w: "ep_world (demo_ep demo_spent) = demo_chain\<lparr>acct := demo_spent\<rparr>"
    by (simp add: demo_ep_def demo_empty_def set_info_def)
  have a: "this_addr demo_spent = 0xACC" "dailyUsdcSpent demo_spent = dailyUsdcLimit demo_spent"
    by (simp_all add: demo_spent_def demo_account_def constructor_def)
  have i: "i_mUserOp demo_pm_info = demo_mem\<lparr>m_paymaster := 0xFA, m_paymasterVerificationGasLimit := 50000,
      m_paymasterPostOpGasLimit := 150000\<rparr>" "i_prefund demo_pm_info = 3510000" "i_preOpGas demo_pm_info = 41000"
      "i_context demo_pm_info = be_bytes 32 0xACC"
    by (simp_all add: demo_pm_info_def demo_info_def)
  have "charged_cost demo_W ?g demo_pm_info = 3000000123000"
    by (simp add: charged_cost_def i demo_gas_def demo_mem_def getUnusedGasPenalty_def PENALTY_GAS_THRESHOLD_def
        getUserOpGasPrice_def min256_def demo_W_def Let_def)
  then have c: "costInUsdc demo_paymaster (charged_cost demo_W ?g demo_pm_info) \<noteq> Inr 0"
    by (simp add: costInUsdc_def withPremiumInUsdc_def mul256_def add256_def PREMIUM_BPS_def demo_paymaster_def)
  have b: "balanceOf (demo_ep demo_spent) 0xFA = 1000000000000000000"
    by (simp add: balanceOf_def demo_ep_def set_info_def)
  have "\<exists>c st'. executeUserOp demo_W ?g 0 demo_bundled demo_pm_info (demo_ep demo_spent) = Inr (c, st')
      \<and> ep_world st' = ep_world (demo_ep demo_spent) \<and> c \<le> i_prefund demo_pm_info
      \<and> unat (balanceOf st' (pm_this demo_paymaster)) + unat c
          = unat (balanceOf (demo_ep demo_spent) (pm_this demo_paymaster)) + unat (i_prefund demo_pm_info)
      \<and> (\<forall>a. a \<noteq> pm_this demo_paymaster \<longrightarrow> deposits st' a = deposits (demo_ep demo_spent) a)"
    by (rule exhausted_account_costs_paymaster[OF demo_W_runs demo_W_account _ _ _ _ c])
      (simp_all add: w a i demo_paymaster_def demo_ep_total demo_gas_def demo_mem_def INNER_GAS_OVERHEAD_def,
       simp add: demo_ep_def demo_empty_def)
  then show ?thesis by (auto simp: b i demo_paymaster_def)
qed

end
