(* ===== verification/Run_Scripts.thy ===== *)
theory Run_Scripts
  imports AA_Signer Gas_Bundle Interface_Id
begin

text \<open>
  The scripts around the tooling: the deployment scripts \<open>deploy/*.ts\<close>, the network configuration of
  \<open>hardhat.config.ts\<close>, and the preparation of the account in \<open>src/runop.ts\<close>. Hardhat, its deployment plugin
  and the node are parameters.
\<close>

section \<open>Configuration\<close>

definition DEFAULT_SALT :: string where
  "DEFAULT_SALT = ''0x0a59dbff790c23c976a548690c27297883cc66b4c67024f9117b0238995e35e9''"

text \<open>\<open>process.env.SALT\<close> after the configuration has run.\<close>

definition env_salt :: "string option \<Rightarrow> string" where
  "env_salt salt = or_default salt DEFAULT_SALT"

text \<open>The mnemonic is that of the file when it exists.\<close>

definition mnemonic :: "string option \<Rightarrow> string" where
  "mnemonic file = or_default file (concat (replicate 11 ''test '') @ ''junk'')"

record network =
  n_url :: string
  n_mnemonic :: string

definition getNetwork1 :: "string \<Rightarrow> string \<Rightarrow> network" where
  "getNetwork1 mnem url = \<lparr>n_url = url, n_mnemonic = mnem\<rparr>"

text \<open>An unset \<open>INFURA_ID\<close> is written as \<open>undefined\<close>.\<close>

definition getNetwork :: "string \<Rightarrow> string option \<Rightarrow> string \<Rightarrow> network" where
  "getNetwork mnem infuraId name =
     getNetwork1 mnem (''https://'' @ name @ ''.infura.io/v3/'' @ or_default infuraId ''undefined'')"

text \<open>Compiler settings; with \<open>COVERAGE\<close> set only the first compiler is left, without the overrides.\<close>

record compiler =
  c_version :: string
  c_evmVersion :: string
  c_viaIR :: bool
  c_optimizer :: bool
  c_runs :: int

definition optimizedCompilerSettings :: compiler where
  "optimizedCompilerSettings = \<lparr>c_version = ''0.8.28'', c_evmVersion = ''cancun'', c_viaIR = True, c_optimizer = True, c_runs = 1000000\<rparr>"

datatype solidity_config = Compilers "compiler list" "compiler obj" | OneCompiler compiler

datatype network_config = UrlOnly string | WithAccounts network

record hardhat_config =
  hc_solidity :: solidity_config
  hc_networks :: "network_config obj"
  hc_mocha_timeout :: int

definition solidity_compiler :: compiler where
  "solidity_compiler = \<lparr>c_version = ''0.8.28'', c_evmVersion = ''cancun'', c_viaIR = True, c_optimizer = True, c_runs = 1000000\<rparr>"

definition networks :: "string \<Rightarrow> string option \<Rightarrow> network_config obj" where
  "networks mnem infuraId =
     [(''dev'', UrlOnly ''http://localhost:8545''),
      (''localgeth'', UrlOnly ''http://localgeth:8545''),
      (''sepolia'', WithAccounts (getNetwork mnem infuraId ''sepolia'')),
      (''proxy'', WithAccounts (getNetwork1 mnem ''http://localhost:8545''))]"

definition config :: "string option \<Rightarrow> string option \<Rightarrow> string option \<Rightarrow> hardhat_config" where
  "config mnemonicFile infuraId coverage =
     \<lparr>hc_solidity = (case coverage of
         Some _ \<Rightarrow> OneCompiler solidity_compiler
       | None \<Rightarrow> Compilers [solidity_compiler]
           [(''contracts/core/EntryPoint.sol'', optimizedCompilerSettings),
            (''contracts/core/EntryPointSimulations.sol'', optimizedCompilerSettings),
            (''contracts/accounts/SimpleAccount.sol'', optimizedCompilerSettings)]),
      hc_networks = networks (mnemonic mnemonicFile) infuraId,
      hc_mocha_timeout = 10000\<rparr>"

text \<open>The compiler that a file is built with: its override, else the first of the list.\<close>

definition compiler_of :: "solidity_config \<Rightarrow> string \<Rightarrow> compiler option" where
  "compiler_of sc file = (case sc of
     OneCompiler c \<Rightarrow> Some c
   | Compilers cs ov \<Rightarrow> (case obj_get ov file of Some c \<Rightarrow> Some c | None \<Rightarrow> (case cs of [] \<Rightarrow> None | c # _ \<Rightarrow> Some c)))"

text \<open>The overrides and the coverage branch make no difference to any file: all settings are equal.\<close>

lemma config_one_compiler:
  "compiler_of (hc_solidity (config mf infuraId coverage)) file = Some optimizedCompilerSettings"
  by (cases coverage) (auto simp: config_def compiler_of_def obj_get_def solidity_compiler_def optimizedCompilerSettings_def)

text \<open>The wallet of the gas checker uses the same words as the default.\<close>

lemma default_mnemonic: "mnemonic None = ''test test test test test test test test test test test junk''"
  by (simp add: mnemonic_def numeral_eq_Suc)

section \<open>Deployment scripts\<close>

datatype deterministic = NotDeterministic | Deterministic | WithSalt string

record deployment =
  d_name :: string
  d_from :: string
  d_args :: "string list"
  d_gasLimit :: "int option"
  d_deterministic :: deterministic

text \<open>The signer, the network, \<open>hre.deployments.get\<close> and \<open>hre.deployments.deploy\<close>, which returns an address.\<close>

record 'n hre =
  h_signer :: "'n \<Rightarrow> js_error + string"
  h_chainId :: "'n \<Rightarrow> js_error + int"
  h_get :: "string \<Rightarrow> 'n \<Rightarrow> js_error + string"
  h_deploy :: "deployment \<Rightarrow> ('n, string) io"

definition deployEntryPoint :: "'n hre \<Rightarrow> string option \<Rightarrow> ('n, unit) io" where
  "deployEntryPoint R salt =
     bindIO (readIO (h_signer R)) (\<lambda>from.
     bindIO (h_deploy R \<lparr>d_name = ''EntryPoint'', d_from = from, d_args = [], d_gasLimit = Some 6000000,
       d_deterministic = (case salt of None \<Rightarrow> Deterministic | Some s \<Rightarrow> WithSalt s)\<rparr>) (\<lambda>_. returnIO ()))"

fun contains :: "string \<Rightarrow> string \<Rightarrow> bool" where
  "contains p [] = (p = [])"
| "contains p (c # s) = (startsWith (c # s) p \<or> contains p s)"

fun join :: "string list \<Rightarrow> string" where
  "join [] = ''''"
| "join [s] = s"
| "join (s # ss) = s @ '' '' @ join ss"

definition forceDeployFactory :: "string list \<Rightarrow> bool" where
  "forceDeployFactory argv = contains ''simple-account-factory'' (join argv)"

definition deploySimpleAccountFactory :: "'n hre \<Rightarrow> string list \<Rightarrow> ('n, unit) io" where
  "deploySimpleAccountFactory R argv =
     bindIO (readIO (h_signer R)) (\<lambda>from.
     bindIO (readIO (h_chainId R)) (\<lambda>chainId.
     if \<not> forceDeployFactory argv \<and> chainId \<noteq> 31337 \<and> chainId \<noteq> 1337 then returnIO ()
     else
       bindIO (readIO (h_get R ''EntryPoint'')) (\<lambda>entrypoint.
       bindIO (h_deploy R \<lparr>d_name = ''SimpleAccountFactory'', d_from = from, d_args = [entrypoint], d_gasLimit = Some 6000000,
         d_deterministic = Deterministic\<rparr>) (\<lambda>_.
       bindIO (h_deploy R \<lparr>d_name = ''TestCounter'', d_from = from, d_args = [], d_gasLimit = None,
         d_deterministic = Deterministic\<rparr>) (\<lambda>_. returnIO ())))))"

definition deploySimple7702Account :: "'n hre \<Rightarrow> ('n, unit) io" where
  "deploySimple7702Account R =
     bindIO (readIO (h_signer R)) (\<lambda>from.
     bindIO (h_deploy R \<lparr>d_name = ''Simple7702Account'', d_from = from, d_args = [], d_gasLimit = Some 6000000,
       d_deterministic = Deterministic\<rparr>) (\<lambda>_. returnIO ()))"

text \<open>The plugin runs the scripts in the order of their file names.\<close>

definition deploy_all :: "'n hre \<Rightarrow> string option \<Rightarrow> string list \<Rightarrow> ('n, unit) io" where
  "deploy_all R salt argv =
     bindIO (deployEntryPoint R salt) (\<lambda>_.
     bindIO (deploySimpleAccountFactory R argv) (\<lambda>_. deploySimple7702Account R))"

text \<open>
  On a chain that is not local, without the flag, the EntryPoint and the EIP-7702 account are deployed and
  nothing else.
\<close>

lemma deploy_all_public:
  assumes "h_signer R s = Inr from" and "h_deploy R \<lparr>d_name = ''EntryPoint'', d_from = from, d_args = [],
      d_gasLimit = Some 6000000, d_deterministic = WithSalt (env_salt salt)\<rparr> s = (Inr a, s1)"
    and "h_signer R s1 = Inr from" and "h_chainId R s1 = Inr c" and "c \<notin> {1337, 31337}" and "\<not> forceDeployFactory argv"
  shows "deploy_all R (Some (env_salt salt)) argv s
    = bindIO (h_deploy R \<lparr>d_name = ''Simple7702Account'', d_from = from, d_args = [], d_gasLimit = Some 6000000,
        d_deterministic = Deterministic\<rparr>) (\<lambda>_. returnIO ()) s1"
  using assms by (simp add: deploy_all_def deployEntryPoint_def deploySimpleAccountFactory_def deploySimple7702Account_def bindIO_run)

section \<open>Running one operation\<close>

text \<open>
  \<open>a < b\<close> on two \<open>BigNumber\<close> objects: the class has no \<open>valueOf\<close>, so both become their decimal strings, which
  are compared as strings, character by character.
\<close>

definition dec_digit :: "nat \<Rightarrow> char" where "dec_digit d = char_of (48 + d)"

fun dec :: "nat \<Rightarrow> string" where
  "dec n = (if n < 10 then [dec_digit n] else dec (n div 10) @ [dec_digit (n mod 10)])"

declare dec.simps [simp del]

fun str_less :: "string \<Rightarrow> string \<Rightarrow> bool" where
  "str_less s [] = False"
| "str_less [] (d # t) = True"
| "str_less (c # s) (d # t) =
     (if c = d then str_less s t else (of_char c :: nat) < of_char d)"

definition bignum_less :: "nat \<Rightarrow> nat \<Rightarrow> bool" where
  "bignum_less a b = str_less (dec a) (dec b)"

definition prefund_threshold :: nat where "prefund_threshold = 10000000000000000"

definition deposit_threshold :: nat where "deposit_threshold = 5000000000000000"

record op_event =
  oe_nonce :: int
  oe_actualGasUsed :: int

record op_receipt =
  rc_blockNumber :: int
  rc_gasUsed :: int

text \<open>
  What the script calls: the deployment tasks, the node at \<open>AA_URL\<close>, the first signer and its provider, the
  deposits of the EntryPoint, and the signer of \<open>AASigner.ts\<close> with the contract connected to it.
\<close>

datatype op_sender = RpcSender string string | LocalSender string

record 'n run_node =
  r_deploy :: "('n, unit) io"
  r_verify :: "('n, unit) io"
  r_getChainId :: "'n \<Rightarrow> js_error + string"
  r_deployment :: "string \<Rightarrow> 'n \<Rightarrow> js_error + string"
  r_signer :: "'n \<Rightarrow> js_error + string"
  r_supportedEntryPoints :: "string \<Rightarrow> 'n \<Rightarrow> js_error + string list"
  r_account :: "op_sender \<Rightarrow> string \<Rightarrow> int \<Rightarrow> ('n, string) io"
  r_getBalance :: "string \<Rightarrow> 'n \<Rightarrow> js_error + nat"
  r_send :: "string \<Rightarrow> nat \<Rightarrow> ('n, unit) io"
  r_depositOf :: "string \<Rightarrow> 'n \<Rightarrow> js_error + nat"
  r_depositTo :: "string \<Rightarrow> nat \<Rightarrow> ('n, unit) io"
  r_estimate :: "string \<Rightarrow> 'n \<Rightarrow> js_error + int"
  r_justemit :: "string \<Rightarrow> ('n, string) io"
  r_wait :: "string \<Rightarrow> ('n, op_receipt) io"
  r_network :: "'n \<Rightarrow> js_error + string"
  r_logs :: "int \<Rightarrow> 'n \<Rightarrow> js_error + unit"
  r_op_events :: "int \<Rightarrow> 'n \<Rightarrow> js_error + op_event list"

text \<open>The contracts are deployed first, unless a node or \<open>FORCE_DEPLOY\<close> (not empty) is given.\<close>

definition deploy_if_local :: "'n run_node \<Rightarrow> string option \<Rightarrow> string option \<Rightarrow> ('n, unit) io" where
  "deploy_if_local N aa_url force_deploy =
     (if aa_url = None \<and> (force_deploy = None \<or> force_deploy = Some '''') then
        bindIO (r_deploy N) (\<lambda>_.
        bindIO (readIO (r_getChainId N)) (\<lambda>chainId.
        if contains ''1337'' chainId then returnIO () else r_verify N))
      else returnIO ())"

text \<open>A node that does not support the EntryPoint is only reported.\<close>

definition choose_sender :: "'n run_node \<Rightarrow> string option \<Rightarrow> string \<Rightarrow> ('n, op_sender) io" where
  "choose_sender N aa_url entryPoint =
     (case aa_url of
        Some url \<Rightarrow> bindIO (readIO (r_supportedEntryPoints N url)) (\<lambda>_. returnIO (RpcSender url entryPoint))
      | None \<Rightarrow> returnIO (LocalSender entryPoint))"

definition prefund_account :: "'n run_node \<Rightarrow> string \<Rightarrow> ('n, unit) io" where
  "prefund_account N myAddress =
     bindIO (readIO (r_getBalance N myAddress)) (\<lambda>balance.
     if bignum_less balance prefund_threshold then r_send N myAddress prefund_threshold else returnIO ())"

text \<open>The deposit is compared with \<open>lte\<close>; the value after a top-up is read again.\<close>

definition deposit_for_account :: "'n run_node \<Rightarrow> string \<Rightarrow> ('n, nat) io" where
  "deposit_for_account N myAddress =
     bindIO (readIO (r_depositOf N myAddress)) (\<lambda>preDeposit.
     bindIO (readIO (r_getBalance N myAddress)) (\<lambda>_.
     if preDeposit \<le> deposit_threshold then
       bindIO (r_depositTo N myAddress 10000000000000000) (\<lambda>_. readIO (r_depositOf N myAddress))
     else returnIO preDeposit))"

definition prepare_account :: "'n run_node \<Rightarrow> string \<Rightarrow> ('n, nat) io" where
  "prepare_account N myAddress = bindIO (prefund_account N myAddress) (\<lambda>_. deposit_for_account N myAddress)"

text \<open>\<open>evInfo\<close>: what the script prints of the operations in a block. \<open>gasPaid\<close> is a constant of the script.\<close>

record op_info =
  oi_nonce :: int
  oi_gasPaid :: int
  oi_gasUsed :: int
  oi_diff :: int

definition event_info :: "int \<Rightarrow> op_receipt \<Rightarrow> op_event \<Rightarrow> js_error + op_info" where
  "event_info gasPaid rcpt e =
     bindE (toNumber (rc_gasUsed rcpt)) (\<lambda>gasUsed.
     bindE (toNumber (oe_nonce e)) (\<lambda>nonce.
     bindE (toNumber (oe_actualGasUsed e)) (\<lambda>actual.
     Inr \<lparr>oi_nonce = nonce, oi_gasPaid = gasPaid, oi_gasUsed = gasUsed, oi_diff = gasUsed - actual\<rparr>)))"

definition evInfo :: "'n run_node \<Rightarrow> int \<Rightarrow> op_receipt \<Rightarrow> ('n, op_info list) io" where
  "evInfo N gasPaid rcpt =
     bindIO (readIO (r_op_events N (rc_blockNumber rcpt))) (\<lambda>ev. liftIO (mapE (event_info gasPaid rcpt) ev))"

text \<open>One call of the counter through the account, until it is mined.\<close>

definition emit_and_wait :: "'n run_node \<Rightarrow> string \<Rightarrow> ('n, op_receipt) io" where
  "emit_and_wait N counter = bindIO (r_justemit N counter) (\<lambda>h. r_wait N h)"

record run_report =
  rr_gasPaid :: int
  rr_depositPaid :: int
  rr_first :: "op_info list"
  rr_second :: "op_info list"

text \<open>The calls with their measurement; the numbers that the script prints are its result.\<close>

definition measure_calls :: "'n run_node \<Rightarrow> string \<Rightarrow> string \<Rightarrow> nat \<Rightarrow> ('n, run_report) io" where
  "measure_calls N myAddress counter preDeposit =
     bindIO (readIO (r_getBalance N myAddress)) (\<lambda>prebalance.
     bindIO (readIO (\<lambda>s. bindE (r_estimate N counter s) toNumber)) (\<lambda>_.
     bindIO (emit_and_wait N counter) (\<lambda>rcpt.
     bindIO (readIO (r_network N)) (\<lambda>_.
     bindIO (readIO (r_getBalance N myAddress)) (\<lambda>balance.
     bindIO (readIO (r_depositOf N myAddress)) (\<lambda>deposit.
     bindIO (liftIO (toNumber (int prebalance - int balance))) (\<lambda>gasPaid.
     bindIO (readIO (r_logs N (rc_blockNumber rcpt))) (\<lambda>_.
     bindIO (evInfo N gasPaid rcpt) (\<lambda>first.
     bindIO (emit_and_wait N counter) (\<lambda>rcpt2.
     bindIO (evInfo N gasPaid rcpt2) (\<lambda>second.
     returnIO \<lparr>rr_gasPaid = gasPaid, rr_depositPaid = int preDeposit - int deposit,
       rr_first = first, rr_second = second\<rparr>)))))))))))"

definition runop :: "'n run_node \<Rightarrow> string option \<Rightarrow> string option \<Rightarrow> int \<Rightarrow> ('n, run_report) io" where
  "runop N aa_url force_deploy index =
     bindIO (deploy_if_local N aa_url force_deploy) (\<lambda>_.
     bindIO (readIO (r_deployment N ''EntryPoint'')) (\<lambda>entryPoint.
     bindIO (readIO (r_deployment N ''TestCounter'')) (\<lambda>counter.
     bindIO (readIO (r_deployment N ''SimpleAccountFactory'')) (\<lambda>factory.
     bindIO (readIO (r_signer N)) (\<lambda>funder.
     bindIO (readIO (r_getBalance N funder)) (\<lambda>_.
     bindIO (choose_sender N aa_url entryPoint) (\<lambda>sender.
     bindIO (r_account N sender factory index) (\<lambda>myAddress.
     bindIO (prepare_account N myAddress) (\<lambda>preDeposit.
     measure_calls N myAddress counter preDeposit)))))))))"

section \<open>Decimal strings\<close>

fun dec_val :: "nat \<Rightarrow> string \<Rightarrow> nat" where
  "dec_val acc [] = acc"
| "dec_val acc (c # s) = dec_val (10 * acc + (of_char c - 48)) s"

lemma of_char_dec_digit [simp]: "d < 10 \<Longrightarrow> (of_char (dec_digit d) :: nat) = 48 + d"
  by (simp add: dec_digit_def)

lemma dec_digit_zero: "d < 10 \<Longrightarrow> dec_digit d = CHR ''0'' \<longleftrightarrow> d = 0"
  using of_char_dec_digit[of d] by (auto simp: of_char_eq_iff[of _ "CHR ''0''", where ?'a = nat, symmetric] simp del: of_char_dec_digit)

lemma dec_digit_0 [simp]: "dec_digit 0 = CHR ''0''"
  by (simp add: dec_digit_zero)

lemma dec_one: "dec 1 = ''1''"
proof -
  have "(of_char (dec_digit 1) :: nat) = of_char CHR ''1''" by simp
  then have "dec_digit 1 = CHR ''1''" by (simp only: of_char_eq_iff)
  then show ?thesis by (simp add: dec.simps[of 1] del: One_nat_def)
qed

lemma dec_val_snoc: "dec_val acc (s @ [c]) = 10 * dec_val acc s + (of_char c - 48)"
  by (induction s arbitrary: acc) simp_all

lemma dec_val_dec: "dec_val 0 (dec n) = n"
proof (induction n rule: dec.induct)
  case (1 n)
  show ?case
  proof (cases "n < 10")
    case True
    then show ?thesis by (simp add: dec.simps[of n])
  next
    case False
    have "n mod 10 < 10" by simp
    with 1[OF False] False show ?thesis by (simp add: dec.simps[of n] dec_val_snoc)
  qed
qed

lemma dec_inject: "dec n = dec m \<longleftrightarrow> n = m"
  using dec_val_dec by metis

lemma dec_chars: "c \<in> set (dec n) \<Longrightarrow> CHR ''0'' = c \<or> (of_char CHR ''0'' :: nat) < of_char c"
proof (induction n rule: dec.induct)
  case (1 n)
  have digit: "CHR ''0'' = dec_digit d \<or> (of_char CHR ''0'' :: nat) < of_char (dec_digit d)" if "d < 10" for d
    using that dec_digit_zero[OF that] by (cases "d = 0") (auto simp: eq_commute[of "CHR ''0''"])
  show ?case
  proof (cases "n < 10")
    case True
    with 1(2) digit[OF True] show ?thesis by (simp add: dec.simps[of n])
  next
    case False
    have "n mod 10 < 10" by simp
    with 1 False digit show ?thesis by (auto simp: dec.simps[of n])
  qed
qed

lemma dec_nonempty: "dec n \<noteq> []"
  by (simp add: dec.simps[of n])

lemma hd_dec: "hd (dec n) = CHR ''0'' \<longleftrightarrow> n = 0"
proof (induction n rule: dec.induct)
  case (1 n)
  show ?case
  proof (cases "n < 10")
    case True
    with dec_digit_zero[OF True] show ?thesis by (simp add: dec.simps[of n])
  next
    case False
    with 1 show ?thesis using dec_nonempty[of "n div 10"] by (simp add: dec.simps[of n] div_eq_0_iff)
  qed
qed

lemma dec_power: "dec (10 ^ k) = CHR ''1'' # replicate k CHR ''0''"
proof (induction k)
  case 0
  show ?case by (simp add: dec_one del: One_nat_def)
next
  case (Suc k)
  have "\<not> (10 :: nat) ^ Suc k < 10" by simp
  then have "dec (10 ^ Suc k) = dec (10 ^ k) @ [dec_digit 0]" by (subst dec.simps) simp
  with Suc show ?case by (simp add: replicate_append_same)
qed

text \<open>Only shorter runs of zeros are below a run of zeros.\<close>

lemma str_less_zeros:
  assumes "\<forall>c \<in> set s. CHR ''0'' = c \<or> (of_char CHR ''0'' :: nat) < of_char c"
  shows "str_less s (replicate k CHR ''0'') \<longleftrightarrow> (\<exists>j < k. s = replicate j CHR ''0'')"
  using assms
proof (induction s arbitrary: k)
  case Nil
  show ?case by (cases k) auto
next
  case (Cons c s)
  show ?case
  proof (cases k)
    case 0
    then show ?thesis by simp
  next
    case (Suc k')
    have "(\<exists>j < Suc k'. c # s = replicate j CHR ''0'') \<longleftrightarrow> c = CHR ''0'' \<and> (\<exists>j < k'. s = replicate j CHR ''0'')"
      by (auto simp: Cons_replicate_eq less_Suc_eq_0_disj)
    with Cons Suc show ?thesis by (auto simp del: of_char_of)
  qed
qed

lemma below_prefund: "bignum_less b prefund_threshold \<longleftrightarrow> b = 0 \<or> (\<exists>k < 16. b = 10 ^ k)"
proof -
  have t: "dec prefund_threshold = CHR ''1'' # replicate 16 CHR ''0''"
    using dec_power[of 16] by (simp add: prefund_threshold_def)
  obtain c s where cs: "dec b = c # s" using dec_nonempty by (meson neq_Nil_conv)
  have zeros: "str_less s (replicate 16 CHR ''0'') \<longleftrightarrow> (\<exists>j < 16. s = replicate j CHR ''0'')"
    using dec_chars[of _ b] cs by (intro str_less_zeros) auto
  have "(c = CHR ''1'' \<and> (\<exists>j < 16. s = replicate j CHR ''0'')) \<longleftrightarrow> (\<exists>k < 16. b = 10 ^ k)"
    using cs dec_power dec_inject by (metis list.inject)
  moreover have "c = CHR ''0'' \<longleftrightarrow> b = 0" using hd_dec[of b] cs by simp
  moreover have "c \<noteq> CHR ''1'' \<Longrightarrow> (of_char c :: nat) < of_char CHR ''1'' \<longleftrightarrow> c = CHR ''0''"
    using dec_chars[of c b] cs by auto
  ultimately show ?thesis using zeros by (auto simp: bignum_less_def t cs)
qed

text \<open>
  C36. The script tops up almost no account. Because the balance is compared with 0.01 ether as a string,
  the prefund is sent exactly to accounts whose balance is zero or a power of ten below that amount;
  any other balance, such as 2 wei, is taken to be enough. The deposit, compared as a number, is topped
  up whenever it is at most 0.005 ether.
\<close>

theorem prefund_compares_strings:
  assumes "r_getBalance N a s = Inr b" and "prefund_account N a s = (Inr (), s1)"
    and "r_depositOf N a s1 = Inr d" and "r_getBalance N a s1 = Inr b1"
  shows "(if b = 0 \<or> (\<exists>k < 16. b = 10 ^ k) then r_send N a prefund_threshold s = (Inr (), s1) else s1 = s)
    \<and> prepare_account N a s =
        (if d \<le> deposit_threshold
         then bindIO (r_depositTo N a 10000000000000000) (\<lambda>_. readIO (r_depositOf N a)) s1 else (Inr d, s1))"
proof -
  have p: "prefund_account N a s = (if bignum_less b prefund_threshold then r_send N a prefund_threshold s else (Inr (), s))"
    using assms(1) by (simp add: prefund_account_def bindIO_run)
  have "prepare_account N a s = (if d \<le> deposit_threshold
      then bindIO (r_depositTo N a 10000000000000000) (\<lambda>_. readIO (r_depositOf N a)) s1 else (Inr d, s1))"
    using assms(2-) by (simp add: prepare_account_def deposit_for_account_def bindIO_run)
  with p assms(2) below_prefund[of b] show ?thesis by auto
qed

section \<open>The report\<close>

lemma readIO_InrE: "readIO f s = (Inr x, s') \<Longrightarrow> f s = Inr x \<and> s' = s"
  by (auto simp: readIO_def split: prod.splits sum.splits)

lemma liftIO_InrE: "liftIO r s = (Inr x, s') \<Longrightarrow> r = Inr x \<and> s' = s"
  by (auto simp: liftIO_def)

lemma evInfo_payment:
  assumes "evInfo N paid rcpt s = (Inr is, s')"
  shows "s' = s" "i \<in> set is \<Longrightarrow> oi_gasPaid i = paid"
proof -
  obtain ev where "mapE (event_info paid rcpt) ev = Inr is" and "s' = s"
    using assms unfolding evInfo_def by (elim bindIO_InrE) (auto dest!: readIO_InrE liftIO_InrE)
  then have "map (event_info paid rcpt) ev = map Inr is" and "s' = s" by (simp_all add: mapE_Inr)
  moreover have "event_info paid rcpt e = Inr i \<Longrightarrow> oi_gasPaid i = paid" for e i
    by (auto simp: event_info_def toNumber_def split: if_splits)
  ultimately show "s' = s" "i \<in> set is \<Longrightarrow> oi_gasPaid i = paid"
    by (auto simp: in_set_conv_nth list_eq_iff_nth_eq)
qed

lemma measure_calls_report:
  assumes "measure_calls N a c pre s = (Inr rep, s')"
  shows "\<exists>s1 r1 r2 b0 b1. emit_and_wait N c s = (Inr r1, s1) \<and> emit_and_wait N c s1 = (Inr r2, s')
    \<and> r_getBalance N a s = Inr b0 \<and> r_getBalance N a s1 = Inr b1
    \<and> rr_gasPaid rep = int b0 - int b1 \<and> \<bar>rr_gasPaid rep\<bar> < 2 ^ 53
    \<and> (\<forall>i \<in> set (rr_first rep @ rr_second rep). oi_gasPaid i = rr_gasPaid rep)"
proof -
  note run = assms[unfolded measure_calls_def]
  show ?thesis using run
    by (elim bindIO_InrE) (auto dest!: readIO_InrE liftIO_InrE dest: evInfo_payment simp: toNumber_def split: if_splits)
qed

text \<open>
  The report of a run. When the script returns it has made two calls through the account, and the
  payment it prints with both is what the balance lost in the first one: the payment of the second is
  never read. A payment of \<open>2 ^ 53\<close> wei or more ends the script before the second call.
\<close>

theorem second_run_reports_first_payment:
  assumes "runop N aa_url force_deploy index s = (Inr rep, s')"
  shows "\<exists>a c p s0 s1 s2 r1 r2 b0 b1.
      prepare_account N a s0 = (Inr p, s1) \<and> emit_and_wait N c s1 = (Inr r1, s2) \<and> emit_and_wait N c s2 = (Inr r2, s')
    \<and> r_getBalance N a s1 = Inr b0 \<and> r_getBalance N a s2 = Inr b1
    \<and> rr_gasPaid rep = int b0 - int b1 \<and> \<bar>rr_gasPaid rep\<bar> < 2 ^ 53
    \<and> (\<forall>i \<in> set (rr_first rep @ rr_second rep). oi_gasPaid i = rr_gasPaid rep)"
proof -
  obtain a c p s0 s1 where "prepare_account N a s0 = (Inr p, s1)" and m: "measure_calls N a c p s1 = (Inr rep, s')"
    using assms unfolding runop_def by (elim bindIO_InrE) blast
  with measure_calls_report[OF m] show ?thesis by blast
qed

text \<open>A chain that holds the balance and the deposit of the account and its number of operations.\<close>

definition demo_run_node :: "(nat \<times> nat \<times> nat) run_node" where
  "demo_run_node = \<lparr>r_deploy = returnIO (), r_verify = returnIO (), r_getChainId = (\<lambda>n. Inr ''1337''),
     r_deployment = (\<lambda>d n. Inr ''0x''), r_signer = (\<lambda>n. Inr ''0xbb''), r_supportedEntryPoints = (\<lambda>u n. Inr []),
     r_account = (\<lambda>snd f i. returnIO ''0xaa''), r_getBalance = (\<lambda>a n. Inr (fst n)),
     r_send = (\<lambda>a v (b, d, k). (Inr (), (b + v, d, k))), r_depositOf = (\<lambda>a n. Inr (fst (snd n))),
     r_depositTo = (\<lambda>a v (b, d, k). (Inr (), (b, d + v, k))), r_estimate = (\<lambda>c n. Inr 25000),
     r_justemit = (\<lambda>c (b, d, k). (Inr ''0x01'', (b - (if k = 0 then 5 else 1), d, k + 1))),
     r_wait = (\<lambda>h. readIO (\<lambda>(b, d, k). Inr \<lparr>rc_blockNumber = int k, rc_gasUsed = 100\<rparr>)),
     r_network = (\<lambda>n. Inr ''unknown''), r_logs = (\<lambda>b n. Inr ()),
     r_op_events = (\<lambda>b n. Inr [\<lparr>oe_nonce = b, oe_actualGasUsed = 90\<rparr>])\<rparr>"

lemma demo_prefund: "prefund_account demo_run_node ''0xaa'' (20, 0, 0) = (Inr (), (20, 0, 0))"
proof -
  have "(10 :: nat) ^ k \<noteq> 20" for k
  proof (cases k)
    case (Suc j)
    then show ?thesis by (cases j) auto
  qed simp
  then have "\<not> bignum_less 20 prefund_threshold" using below_prefund[of 20] by (metis zero_neq_numeral)
  then show ?thesis by (simp add: prefund_account_def bindIO_run demo_run_node_def)
qed

theorem prefund_compares_strings_witness:
  "prefund_account demo_run_node ''0xaa'' (20, 0, 0) = (Inr (), (20, 0, 0))
   \<and> prepare_account demo_run_node ''0xaa'' (20, 0, 0) = (Inr 10000000000000000, (20, 10000000000000000, 0))"
proof -
  have b: "r_getBalance demo_run_node ''0xaa'' (20, 0, 0) = Inr 20" "r_depositOf demo_run_node ''0xaa'' (20, 0, 0) = Inr 0"
    by (simp_all add: demo_run_node_def)
  from prefund_compares_strings[OF b(1) demo_prefund b(2,1)] demo_prefund show ?thesis
    by (simp add: deposit_threshold_def bindIO_run) (simp add: demo_run_node_def)
qed

definition demo_report :: run_report where
  "demo_report = \<lparr>rr_gasPaid = 5, rr_depositPaid = 0,
     rr_first = [\<lparr>oi_nonce = 1, oi_gasPaid = 5, oi_gasUsed = 100, oi_diff = 10\<rparr>],
     rr_second = [\<lparr>oi_nonce = 2, oi_gasPaid = 5, oi_gasUsed = 100, oi_diff = 10\<rparr>]\<rparr>"

lemma demo_runop: "runop demo_run_node None None 0 (20, 0, 0) = (Inr demo_report, (14, 10000000000000000, 2))"
proof -
  have prep: "prepare_account demo_run_node ''0xaa'' (20, 0, 0) = (Inr 10000000000000000, (20, 10000000000000000, 0))"
    by (simp add: prepare_account_def demo_prefund bindIO_run deposit_for_account_def)
       (simp add: demo_run_node_def deposit_threshold_def bindIO_run)
  have "measure_calls demo_run_node ''0xaa'' ''0x'' 10000000000000000 (20, 10000000000000000, 0)
      = (Inr demo_report, (14, 10000000000000000, 2))"
    by (simp add: measure_calls_def emit_and_wait_def evInfo_def event_info_def demo_run_node_def bindIO_run
        demo_report_def toNumber_def)
  with prep show ?thesis
    by (simp add: runop_def deploy_if_local_def choose_sender_def bindIO_run) (simp add: demo_run_node_def bindIO_run)
qed

text \<open>The second operation paid 1, and its report says 5.\<close>

theorem second_run_reports_first_payment_witness:
  "runop demo_run_node None None 0 (20, 0, 0) = (Inr demo_report, (14, 10000000000000000, 2))
   \<and> (\<exists>a c s0 p s1 s2 r1 b0 b1. prepare_account demo_run_node a s0 = (Inr p, s1) \<and> emit_and_wait demo_run_node c s1 = (Inr r1, s2)
        \<and> r_getBalance demo_run_node a s1 = Inr b0 \<and> r_getBalance demo_run_node a s2 = Inr b1 \<and> rr_gasPaid demo_report = int b0 - int b1)"
  using second_run_reports_first_payment[OF demo_runop] demo_runop by blast

end
