(* ===== verification/Emergency_Exit.thy ===== *)
theory Emergency_Exit
  imports Account_Properties
begin

text \<open>
  The owner can always leave: once requested, the emergency withdrawal of \<open>SpendingAccount.sol\<close> cannot be
  prevented by anyone else, whatever the EntryPoint, the paymaster and the called contracts do meanwhile.
\<close>

section \<open>What others keep\<close>

text \<open>
  A callee reaches the storage of the account through its functions only, and none of those calls is made
  by the owner: the owner is a key and not a contract that is called.
\<close>

definition owner_outside :: "address \<Rightarrow> 'w evm \<Rightarrow> bool" where
  "owner_outside owner evm \<longleftrightarrow>
     (\<forall>ctx to v d ch rd ch'. x_call evm ctx to v d ch = Inr (rd, ch') \<longrightarrow>
        (\<exists>evs. foldE acct_apply evs (acct ch) = Inr (acct ch') \<and>
               (\<forall>ev \<in> set evs. fst ev = block_timestamp ctx \<and> fst (snd ev) \<noteq> owner)))"

lemma owner_outside_reenters: "owner_outside owner evm \<longleftrightarrow> reenters (- {owner}) evm"
  by (simp add: owner_outside_def reenters_def steps_by_def)

lemma run_keeps:
  assumes "owner_outside owner evm" and "vaultOwner (acct ch) = owner" and "run evm txs ch = (ch', done_txs)"
    and "\<forall>tx \<in> set txs. msg_sender (fst tx) \<noteq> owner"
  shows "keeps_request (acct ch) (acct ch')"
  using assms
proof (induction evm txs ch arbitrary: ch' done_txs rule: run.induct)
  case (1 evm ch)
  then show ?case by simp
next
  case (2 evm ctx op txs ch)
  show ?case
  proof (cases "dispatch evm ctx op ch")
    case (Inl e)
    with "2.IH"(1)[OF Inl "2.prems"(1,2)] "2.prems"(3,4) show ?thesis by simp
  next
    case (Inr ch1)
    obtain d1 where r: "run evm txs ch1 = (ch', d1)"
      using "2.prems"(3) Inr by (cases "run evm txs ch1") auto
    have k: "keeps_request (acct ch) (acct ch1)"
      using dispatch_keeps[OF "2.prems"(1)[unfolded owner_outside_reenters] _ Inr] "2.prems"(2,4) by simp
    from "2.IH"(2)[OF Inr "2.prems"(1) _ r] keeps_request_owner[OF k] "2.prems"(2,4)
    have "keeps_request (acct ch1) (acct ch')" by simp
    with k show ?thesis by (rule keeps_request_trans)
  qed
qed

section \<open>The exit\<close>

text \<open>
  A recipient that accepts ether, and a token that knows a balance and answers a transfer with true.
\<close>

definition accepts_ether :: "'w evm \<Rightarrow> msg_ctx \<Rightarrow> address \<Rightarrow> bool" where
  "accepts_ether evm ctx recipient \<longleftrightarrow> (\<forall>v ch. \<exists>rd ch'. x_call evm ctx recipient v [] ch = Inr (rd, ch'))"

definition token_transfers :: "'w evm \<Rightarrow> msg_ctx \<Rightarrow> bool" where
  "token_transfers evm ctx \<longleftrightarrow>
     (\<forall>owner ch. \<exists>b. x_static evm USDC (balanceOf_selector @ owner) ch = Inr (be_bytes 32 b))
   \<and> (\<forall>args ch. \<exists>ch'. x_call evm ctx USDC 0 (transfer_selector @ args) ch = Inr (be_bytes 32 1, ch'))"

lemma word_at_be_bytes: "word_at (be_bytes 32 n) 0 = Inr (n mod 2 ^ 256)"
  by (simp add: word_at_def del: be_bytes.simps)

lemma sweepUsdc_succeeds:
  assumes "token_transfers evm ctx"
  shows "\<exists>amount ch'. sweepUsdc evm ctx recipient ch = Inr (amount, ch')"
proof -
  obtain b where b: "x_static evm USDC (balanceOf_selector @ be_bytes 32 (unat (this_addr (acct ch)))) ch = Inr (be_bytes 32 b)"
    using assms unfolding token_transfers_def by blast
  obtain amount where u: "uint_at (be_bytes 32 b) 0 = Inr amount"
    by (simp add: uint_at_def word_at_be_bytes)
  have "\<exists>ch'. exec_call evm ctx USDC 0 (transfer_selector @ abi_encode_transfer recipient amount) ch = Inr (be_bytes 32 1, ch')"
    using assms unfolding token_transfers_def exec_call_def by blast
  then obtain ch' where c: "exec_call evm ctx USDC 0 (transfer_selector @ abi_encode_transfer recipient amount) ch = Inr (be_bytes 32 1, ch')" ..
  show ?thesis by (simp add: sweepUsdc_def b u c word_at_be_bytes del: be_bytes.simps)
qed

lemma emergencyWithdraw_succeeds:
  assumes "msg_sender ctx = vaultOwner (acct ch)" and "emergencyWithdrawRequestTime (acct ch) \<noteq> 0"
    and "unat (emergencyWithdrawRequestTime (acct ch)) + 172800 \<le> unat (block_timestamp ctx)"
    and "accepts_ether evm ctx recipient" and "token_transfers evm ctx"
  shows "\<exists>amount ch'. emergencyWithdraw evm ctx recipient ch = Inr ch'
    \<and> last (events ch') = EmergencyWithdrawExecuted recipient
        (x_balance evm (ch\<lparr>acct := (acct ch)\<lparr>emergencyWithdrawRequestTime := 0\<rparr>\<rparr>)) amount"
proof -
  let ?t = "emergencyWithdrawRequestTime (acct ch)" and ?ch1 = "ch\<lparr>acct := (acct ch)\<lparr>emergencyWithdrawRequestTime := 0\<rparr>\<rparr>"
  have "unat ?t + 172800 < 2 ^ 256" using assms(3) unsigned_less[of "block_timestamp ctx", where 'a = nat] by simp
  then have r: "add256 ?t WITHDRAW_TIMELOCK = Inr (?t + WITHDRAW_TIMELOCK)" "unat (?t + WITHDRAW_TIMELOCK) = unat ?t + 172800"
    by (simp_all add: add256_def WITHDRAW_TIMELOCK_def unat_word_ariths)
  have l: "\<not> block_timestamp ctx < ?t + WITHDRAW_TIMELOCK" using assms(3) r(2) by (simp add: word_less_nat_alt)
  obtain rd ch2 where "exec_call evm ctx recipient (x_balance evm ?ch1) [] ?ch1 = Inr (rd, ch2)"
    using assms(4) unfolding accepts_ether_def exec_call_def by blast
  then have "\<exists>ch3. (if 0 < x_balance evm ?ch1 then
       (case exec_call evm ctx recipient (x_balance evm ?ch1) [] ?ch1 of Inl _ \<Rightarrow> Inl EmptyRevert | Inr (_, c) \<Rightarrow> Inr c)
     else Inr ?ch1) = Inr ch3" by simp
  then obtain ch3 where p: "(if 0 < x_balance evm ?ch1 then
       (case exec_call evm ctx recipient (x_balance evm ?ch1) [] ?ch1 of Inl _ \<Rightarrow> Inl EmptyRevert | Inr (_, c) \<Rightarrow> Inr c)
     else Inr ?ch1) = Inr ch3" ..
  obtain amount ch4 where s: "sweepUsdc evm ctx recipient ch3 = Inr (amount, ch4)"
    using sweepUsdc_succeeds[OF assms(5)] by blast
  have "emergencyWithdraw evm ctx recipient ch = Inr (ch4\<lparr>events := events ch4 @ [EmergencyWithdrawExecuted recipient (x_balance evm ?ch1) amount]\<rparr>)"
    using assms(1,2) by (simp only: emergencyWithdraw_def r l p s Let_def bindE_simps prod.case if_False not_not) simp
  then show ?thesis by (intro exI) (rule conjI, assumption, simp)
qed

text \<open>
  C6. Nobody can stop the owner from leaving. Once the owner has requested the emergency withdrawal, then after any
  transactions by others, whatever the EntryPoint, the paymaster and the called contracts do in them, the
  owner's withdrawal at any time 48 hours or more after the request goes through, for the whole balance, as
  long as the recipient accepts ether and the token transfers; and before that time it is refused.
\<close>

theorem emergency_exit:
  assumes "owner_outside (vaultOwner (acct ch0)) evm"
    and "dispatch evm ctx0 RequestEmergencyWithdraw ch0 = Inr ch" and "block_timestamp ctx0 \<noteq> 0"
      "unat (block_timestamp ctx0) + 172800 < 2 ^ 256"
    and "run evm txs ch = (ch', done_txs)" and "\<forall>tx \<in> set txs. msg_sender (fst tx) \<noteq> vaultOwner (acct ch0)"
    and "msg_sender ctx = vaultOwner (acct ch0)" and "accepts_ether evm ctx recipient" and "token_transfers evm ctx"
  shows "if unat (block_timestamp ctx0) + 172800 \<le> unat (block_timestamp ctx)
    then \<exists>amount ch''. dispatch evm ctx (EmergencyWithdraw recipient) ch' = Inr ch''
      \<and> last (events ch'') = EmergencyWithdrawExecuted recipient
          (x_balance evm (ch'\<lparr>acct := (acct ch')\<lparr>emergencyWithdrawRequestTime := 0\<rparr>\<rparr>)) amount
    else dispatch evm ctx (EmergencyWithdraw recipient) ch' = Inl WithdrawTimelockNotMet"
proof -
  from assms(2) have ch: "acct ch = (acct ch0)\<lparr>emergencyWithdrawRequestTime := block_timestamp ctx0\<rparr>"
    by (auto simp: requestEmergencyWithdraw_def split: if_splits)
  have k: "keeps_request (acct ch) (acct ch')"
    by (rule run_keeps[OF assms(1) _ assms(5,6)]) (simp add: ch)
  then have t: "emergencyWithdrawRequestTime (acct ch') = block_timestamp ctx0" and o: "vaultOwner (acct ch') = vaultOwner (acct ch0)"
    using keeps_request_owner[OF k] by (simp_all add: keeps_request_def ch)
  show ?thesis
  proof (cases "unat (block_timestamp ctx0) + 172800 \<le> unat (block_timestamp ctx)")
    case True
    then show ?thesis using emergencyWithdraw_succeeds[of ctx ch' evm recipient] assms(3,7-9) t o by simp
  next
    case False
    then have "block_timestamp ctx < block_timestamp ctx0 + WITHDRAW_TIMELOCK"
      "add256 (block_timestamp ctx0) WITHDRAW_TIMELOCK = Inr (block_timestamp ctx0 + WITHDRAW_TIMELOCK)"
      using assms(4) by (simp_all add: add256_def WITHDRAW_TIMELOCK_def word_less_nat_alt unat_word_ariths)
    with False assms(3,7) t o show ?thesis by (simp add: emergencyWithdraw_def)
  qed
qed

text \<open>A token with balances, and an operation of the EntryPoint between the request and the withdrawal.\<close>

definition exit_evm :: "unit evm" where
  "exit_evm = demo_evm\<lparr>x_call := (\<lambda>ctx to v d ch. Inr (be_bytes 32 1, ch)), x_static := (\<lambda>to d ch. Inr (be_bytes 32 7)),
     x_codesize := (\<lambda>a ch. 1)\<rparr>"

lemma exit_evm_ok: "owner_outside owner exit_evm" "accepts_ether exit_evm ctx recipient" "token_transfers exit_evm ctx"
  by (auto simp: owner_outside_def accepts_ether_def token_transfers_def exit_evm_def simp del: be_bytes.simps intro: exI[of _ "[]"])

theorem emergency_exit_witness:
  "\<exists>ch amount ch''. dispatch exit_evm (demo_ctx 0xA11CE 1700000000) RequestEmergencyWithdraw demo_chain = Inr ch
    \<and> dispatch exit_evm (demo_ctx 0xA11CE 1700172800) (EmergencyWithdraw 0xB0B)
        (fst (run exit_evm [demo_spend 1700000100] ch)) = Inr ch''
    \<and> last (events ch'') = EmergencyWithdrawExecuted 0xB0B 5000000000000000000 amount
    \<and> dispatch exit_evm (demo_ctx 0xA11CE 1700172799) (EmergencyWithdraw 0xB0B)
        (fst (run exit_evm [demo_spend 1700000100] ch)) = Inl WithdrawTimelockNotMet"
proof -
  obtain ch where ch: "dispatch exit_evm (demo_ctx 0xA11CE 1700000000) RequestEmergencyWithdraw demo_chain = Inr ch"
    by (simp add: requestEmergencyWithdraw_def demo_defs)
  note e = emergency_exit[OF exit_evm_ok(1) ch _ _ prod.collapse[symmetric] _ _ exit_evm_ok(2,3)]
  show ?thesis
    using e[of "[demo_spend 1700000100]" "demo_ctx 0xA11CE 1700172800" "0xB0B"]
      e[of "[demo_spend 1700000100]" "demo_ctx 0xA11CE 1700172799" "0xB0B"] ch
    by (auto simp: demo_ctx_def demo_spend_def demo_chain_def demo_account_def constructor_def exit_evm_def demo_evm_def)
qed

end
