(* ===== verification/Sample_Accounts.thy ===== *)
theory Sample_Accounts
  imports Spending_Paymaster
begin

text \<open>
  The sample accounts that the client tools deploy: \<open>core/BaseAccount.sol\<close> with \<open>utils/Exec.sol\<close>,
  \<open>accounts/SimpleAccount.sol\<close> with its factory, \<open>accounts/Simple7702Account.sol\<close> and the token callbacks.
  A called contract may re-enter, so a call is a function of the whole state.
\<close>

section \<open>BaseAccount\<close>

text \<open>
  \<open>Exec.call\<close> with all the gas, as a function of target, value and data. \<open>returnData\<close> is \<open>getReturnData\<close>: the
  return data of the last call, up to \<open>maxLen\<close> bytes, or all of it when \<open>maxLen\<close> is 0.
\<close>

type_synonym 's low_call = "address \<Rightarrow> uint256 \<Rightarrow> bytes \<Rightarrow> 's \<Rightarrow> bytes + bytes \<times> 's"

definition returnData :: "nat \<Rightarrow> bytes \<Rightarrow> bytes" where
  "returnData maxLen ret = (if 0 < maxLen \<and> maxLen < length ret then take maxLen ret else ret)"

definition revertWithReturnData :: "bytes \<Rightarrow> sol_error + 'a" where
  "revertWithReturnData ret = Inl (Reverted (returnData 0 ret))"

text \<open>
  The functions of the abstract contract take what its subclasses define: \<open>guard\<close> is \<open>_requireForExecute\<close>,
  \<open>sig\<close> the result of \<open>_validateSignature\<close>.
\<close>

definition base_execute ::
  "'s low_call \<Rightarrow> sol_error + unit \<Rightarrow> address \<Rightarrow> uint256 \<Rightarrow> bytes \<Rightarrow> 's \<Rightarrow> sol_error + 's" where
  "base_execute call guard target value data st =
     bindE guard (\<lambda>_.
     case call target value data st of
       Inl ret \<Rightarrow> revertWithReturnData ret | Inr (_, st') \<Rightarrow> Inr st')"

fun base_loop :: "'s low_call \<Rightarrow> nat \<Rightarrow> nat \<Rightarrow> Call list \<Rightarrow> 's \<Rightarrow> sol_error + 's" where
  "base_loop call callsLength i [] st = Inr st"
| "base_loop call callsLength i (c # calls) st =
     (case call (call_target c) (call_value c) (call_data c) st of
        Inl ret \<Rightarrow> if callsLength = 1 then revertWithReturnData ret else Inl (ExecuteError i (returnData 0 ret))
      | Inr (_, st') \<Rightarrow> base_loop call callsLength (Suc i) calls st')"

definition base_executeBatch :: "'s low_call \<Rightarrow> sol_error + unit \<Rightarrow> Call list \<Rightarrow> 's \<Rightarrow> sol_error + 's" where
  "base_executeBatch call guard calls st = bindE guard (\<lambda>_. base_loop call (length calls) 0 calls st)"

definition base_requireFromEntryPoint :: "address \<Rightarrow> address \<Rightarrow> sol_error + unit" where
  "base_requireFromEntryPoint entryPoint sender =
     (if sender = entryPoint then Inr () else Inl (RequireFailed ''account: not from EntryPoint''))"

definition base_payPrefund :: "'s low_call \<Rightarrow> address \<Rightarrow> uint256 \<Rightarrow> 's \<Rightarrow> 's" where
  "base_payPrefund call sender missingAccountFunds st =
     (if missingAccountFunds \<noteq> 0 then
        (case call sender missingAccountFunds [] st of Inl _ \<Rightarrow> st | Inr (_, st') \<Rightarrow> st')
      else st)"

text \<open>\<open>_validateNonce\<close> does nothing.\<close>

definition base_validateUserOp ::
  "'s low_call \<Rightarrow> address \<Rightarrow> address \<Rightarrow> sol_error + uint256 \<Rightarrow> uint256 \<Rightarrow> 's \<Rightarrow> sol_error + uint256 \<times> 's" where
  "base_validateUserOp call entryPoint sender sig missingAccountFunds st =
     bindE (base_requireFromEntryPoint entryPoint sender) (\<lambda>_.
     bindE sig (\<lambda>validationData.
     Inr (validationData, base_payPrefund call sender missingAccountFunds st)))"

definition getNonce_selector :: bytes where "getNonce_selector = [0x35, 0x56, 0x7e, 0x1a]"

definition base_getNonce :: "(address \<Rightarrow> bytes \<Rightarrow> 's \<Rightarrow> bytes + bytes) \<Rightarrow> address \<Rightarrow> address \<Rightarrow> 's \<Rightarrow> sol_error + uint256" where
  "base_getNonce static entryPoint this st =
     (case static entryPoint (getNonce_selector @ be_bytes 32 (unat this) @ be_bytes 32 0) st of
        Inl ret \<Rightarrow> Inl (Reverted ret) | Inr ret \<Rightarrow> uint_at ret 0)"

text \<open>What a batch does: all calls in order, or the error of the first that fails, with its index when there are several.\<close>

fun calls_succeed :: "'s low_call \<Rightarrow> Call list \<Rightarrow> 's \<Rightarrow> 's option" where
  "calls_succeed call [] st = Some st"
| "calls_succeed call (c # calls) st =
     (case call (call_target c) (call_value c) (call_data c) st of
        Inl _ \<Rightarrow> None | Inr (_, st') \<Rightarrow> calls_succeed call calls st')"

lemma base_loop_Inr: "base_loop call n i calls st = Inr st' \<longleftrightarrow> calls_succeed call calls st = Some st'"
  by (induction calls arbitrary: i st) (auto simp: revertWithReturnData_def split: sum.splits)

lemma base_loop_Inl:
  assumes "base_loop call n i calls st = Inl e"
  obtains k st1 ret where "k < length calls" and "calls_succeed call (take k calls) st = Some st1"
    and "call (call_target (calls ! k)) (call_value (calls ! k)) (call_data (calls ! k)) st1 = Inl ret"
    and "e = (if n = 1 then Reverted ret else ExecuteError (i + k) ret)"
proof -
  have "\<exists>k st1 ret. k < length calls \<and> calls_succeed call (take k calls) st = Some st1
    \<and> call (call_target (calls ! k)) (call_value (calls ! k)) (call_data (calls ! k)) st1 = Inl ret
    \<and> e = (if n = 1 then Reverted ret else ExecuteError (i + k) ret)"
    using assms
  proof (induction calls arbitrary: i st)
    case Nil
    then show ?case by simp
  next
    case (Cons c calls)
    show ?case
    proof (cases "call (call_target c) (call_value c) (call_data c) st")
      case (Inl ret)
      with Cons.prems show ?thesis
        by (intro exI[of _ 0] exI[of _ st] exI[of _ ret]) (auto simp: revertWithReturnData_def returnData_def)
    next
      case (Inr r)
      then obtain st1 where c: "call (call_target c) (call_value c) (call_data c) st = Inr (fst r, st1)" by (cases r) auto
      with Cons.prems have "base_loop call n (Suc i) calls st1 = Inl e" by simp
      from Cons.IH[OF this] obtain k st2 ret where "k < length calls" "calls_succeed call (take k calls) st1 = Some st2"
        "call (call_target (calls ! k)) (call_value (calls ! k)) (call_data (calls ! k)) st2 = Inl ret"
        "e = (if n = 1 then Reverted ret else ExecuteError (Suc i + k) ret)" by blast
      with c show ?thesis by (intro exI[of _ "Suc k"] exI[of _ st2] exI[of _ ret]) simp
    qed
  qed
  with that show thesis by blast
qed

section \<open>SimpleAccount\<close>

text \<open>
  The one variable of the contract beside everything else, the slots of its libraries included.
  The environment has the calls, the signature recovery and the two library functions that wrap code of
  the contract: the modifier \<open>initializer\<close>, around the body of \<open>initialize\<close>, and \<open>upgradeToAndCall\<close> of
  \<open>UUPSUpgradeable\<close>, which asks \<open>_authorizeUpgrade\<close> first.
\<close>

record 'w simple_chain =
  s_owner :: address
  s_rest :: 'w

record 'w simple_env =
  se_this :: address
  se_entryPoint :: address
  se_call :: "'w simple_chain low_call"
  se_static :: "address \<Rightarrow> bytes \<Rightarrow> 'w simple_chain \<Rightarrow> bytes + bytes"
  se_recover :: "uint256 \<Rightarrow> bytes \<Rightarrow> sol_error + address"
  se_initializer :: "('w simple_chain \<Rightarrow> 'w simple_chain) \<Rightarrow> 'w simple_chain \<Rightarrow> sol_error + 'w simple_chain"
  se_upgrade :: "sol_error + unit \<Rightarrow> address \<Rightarrow> bytes \<Rightarrow> 'w simple_chain \<Rightarrow> sol_error + 'w simple_chain"

definition simple_onlyOwner :: "'w simple_env \<Rightarrow> address \<Rightarrow> 'w simple_chain \<Rightarrow> sol_error + unit" where
  "simple_onlyOwner E sender st =
     (if sender = s_owner st \<or> sender = se_this E then Inr () else Inl (RequireFailed ''only owner''))"

definition simple_requireForExecute :: "'w simple_env \<Rightarrow> address \<Rightarrow> 'w simple_chain \<Rightarrow> sol_error + unit" where
  "simple_requireForExecute E sender st =
     (if sender = se_entryPoint E \<or> sender = s_owner st then Inr ()
      else Inl (RequireFailed ''account: not Owner or EntryPoint''))"

definition simple_validateSignature :: "'w simple_env \<Rightarrow> PackedUserOperation \<Rightarrow> uint256 \<Rightarrow> 'w simple_chain \<Rightarrow> sol_error + uint256" where
  "simple_validateSignature E userOp userOpHash st =
     bindE (se_recover E userOpHash (po_signature userOp)) (\<lambda>recovered.
     Inr (if s_owner st \<noteq> recovered then SIG_VALIDATION_FAILED else SIG_VALIDATION_SUCCESS))"

definition simple_validateUserOp ::
  "'w simple_env \<Rightarrow> address \<Rightarrow> PackedUserOperation \<Rightarrow> uint256 \<Rightarrow> uint256 \<Rightarrow> 'w simple_chain \<Rightarrow> sol_error + uint256 \<times> 'w simple_chain" where
  "simple_validateUserOp E sender userOp userOpHash missing st =
     base_validateUserOp (se_call E) (se_entryPoint E) sender (simple_validateSignature E userOp userOpHash st) missing st"

definition simple_initialize :: "'w simple_env \<Rightarrow> address \<Rightarrow> 'w simple_chain \<Rightarrow> sol_error + 'w simple_chain" where
  "simple_initialize E anOwner st = se_initializer E (\<lambda>s. s\<lparr>s_owner := anOwner\<rparr>) st"

definition void_call :: "'s low_call \<Rightarrow> address \<Rightarrow> uint256 \<Rightarrow> bytes \<Rightarrow> 's \<Rightarrow> sol_error + 's" where
  "void_call call target value data st =
     (case call target value data st of Inl ret \<Rightarrow> Inl (Reverted ret) | Inr (_, st') \<Rightarrow> Inr st')"

definition simple_getDeposit :: "'w simple_env \<Rightarrow> 'w simple_chain \<Rightarrow> sol_error + uint256" where
  "simple_getDeposit E st =
     (case se_static E (se_entryPoint E) (balanceOf_selector @ be_bytes 32 (unat (se_this E))) st of
        Inl ret \<Rightarrow> Inl (Reverted ret) | Inr ret \<Rightarrow> uint_at ret 0)"

definition simple_addDeposit :: "'w simple_env \<Rightarrow> uint256 \<Rightarrow> 'w simple_chain \<Rightarrow> sol_error + 'w simple_chain" where
  "simple_addDeposit E msgValue st =
     void_call (se_call E) (se_entryPoint E) msgValue (depositTo_selector @ be_bytes 32 (unat (se_this E))) st"

definition withdrawTo_selector :: bytes where "withdrawTo_selector = [0x20, 0x5c, 0x28, 0x78]"

definition simple_withdrawDepositTo ::
  "'w simple_env \<Rightarrow> address \<Rightarrow> address \<Rightarrow> uint256 \<Rightarrow> 'w simple_chain \<Rightarrow> sol_error + 'w simple_chain" where
  "simple_withdrawDepositTo E sender withdrawAddress amount st =
     bindE (simple_onlyOwner E sender st) (\<lambda>_.
     void_call (se_call E) (se_entryPoint E) 0
       (withdrawTo_selector @ be_bytes 32 (unat withdrawAddress) @ be_bytes 32 (unat amount)) st)"

definition simple_authorizeUpgrade :: "'w simple_env \<Rightarrow> address \<Rightarrow> address \<Rightarrow> 'w simple_chain \<Rightarrow> sol_error + unit" where
  "simple_authorizeUpgrade E sender newImplementation st = simple_onlyOwner E sender st"

text \<open>The external functions; \<open>receive\<close> changes nothing and the views are left out.\<close>

datatype simple_operation =
    SaExecute address uint256 bytes
  | SaExecuteBatch "Call list"
  | SaValidateUserOp PackedUserOperation uint256 uint256
  | SaInitialize address
  | SaAddDeposit uint256
  | SaWithdrawDepositTo address uint256
  | SaUpgradeToAndCall address bytes
  | SaReceive

fun simple_dispatch :: "'w simple_env \<Rightarrow> address \<Rightarrow> simple_operation \<Rightarrow> 'w simple_chain \<Rightarrow> sol_error + 'w simple_chain" where
  "simple_dispatch E sender (SaExecute target value data) st =
     base_execute (se_call E) (simple_requireForExecute E sender st) target value data st"
| "simple_dispatch E sender (SaExecuteBatch calls) st =
     base_executeBatch (se_call E) (simple_requireForExecute E sender st) calls st"
| "simple_dispatch E sender (SaValidateUserOp userOp h missing) st =
     bindE (simple_validateUserOp E sender userOp h missing st) (\<lambda>(_, st'). Inr st')"
| "simple_dispatch E sender (SaInitialize anOwner) st = simple_initialize E anOwner st"
| "simple_dispatch E sender (SaAddDeposit v) st = simple_addDeposit E v st"
| "simple_dispatch E sender (SaWithdrawDepositTo to amount) st = simple_withdrawDepositTo E sender to amount st"
| "simple_dispatch E sender (SaUpgradeToAndCall impl data) st =
     se_upgrade E (simple_authorizeUpgrade E sender impl st) impl data st"
| "simple_dispatch E sender SaReceive st = Inr st"

section \<open>The factory of SimpleAccount\<close>

text \<open>
  The implementation that the constructor deploys and the \<open>SenderCreator\<close> of the EntryPoint. \<open>new_proxy\<close> is
  what the proxy of the library becomes: its constructor is given the implementation and the call of
  \<open>initialize\<close> that it makes.
\<close>

record simple_factory =
  sf_this :: address
  sf_implementation :: address
  sf_senderCreator :: address

definition initialize_selector :: bytes where "initialize_selector = [0xc4, 0xd6, 0x6d, 0xe8]"

definition encode_initialize :: "address \<Rightarrow> bytes" where
  "encode_initialize anOwner = initialize_selector @ be_bytes 32 (unat anOwner)"

definition proxy_args :: "address \<Rightarrow> bytes \<Rightarrow> bytes" where
  "proxy_args impl data =
     be_bytes 32 (unat impl) @ be_bytes 32 64 @ be_bytes 32 (length data) @ pad32 data"

definition simple_getAddress :: "(bytes \<Rightarrow> bytes) \<Rightarrow> bytes \<Rightarrow> simple_factory \<Rightarrow> address \<Rightarrow> uint256 \<Rightarrow> address" where
  "simple_getAddress keccak creationCode f anOwner salt =
     computeAddress keccak (sf_this f) (be_bytes 32 (unat salt))
       (keccak (creationCode @ proxy_args (sf_implementation f) (encode_initialize anOwner)))"

definition simple_createAccount ::
  "(bytes \<Rightarrow> bytes) \<Rightarrow> bytes \<Rightarrow> (address \<Rightarrow> bytes \<Rightarrow> address \<Rightarrow> 'a) \<Rightarrow> simple_factory \<Rightarrow> address \<Rightarrow> address \<Rightarrow> uint256
     \<Rightarrow> (address \<rightharpoonup> 'a) \<Rightarrow> sol_error + address \<times> (address \<rightharpoonup> 'a)" where
  "simple_createAccount keccak creationCode new_proxy f sender anOwner salt accts =
     (if sender \<noteq> sf_senderCreator f then Inl (RequireFailed ''only callable from SenderCreator'')
      else
        let addr = simple_getAddress keccak creationCode f anOwner salt in
        if accts addr \<noteq> None then Inr (addr, accts)
        else evm_create2 keccak (sf_this f) (be_bytes 32 (unat salt))
               (creationCode @ proxy_args (sf_implementation f) (encode_initialize anOwner))
               (new_proxy (sf_implementation f) (encode_initialize anOwner)) accts)"

section \<open>Simple7702Account\<close>

text \<open>The account is the key itself, and so there is no state.\<close>

definition simple7702_entryPoint :: address where
  "simple7702_entryPoint = 0x4337084D9E255Ff0702461CF8895CE9E3b5Ff108"

definition checkSignature_7702 :: "(uint256 \<Rightarrow> bytes \<Rightarrow> sol_error + address) \<Rightarrow> address \<Rightarrow> uint256 \<Rightarrow> bytes \<Rightarrow> sol_error + bool" where
  "checkSignature_7702 recover this h signature = bindE (recover h signature) (\<lambda>a. Inr (a = this))"

definition validateSignature_7702 ::
  "(uint256 \<Rightarrow> bytes \<Rightarrow> sol_error + address) \<Rightarrow> address \<Rightarrow> PackedUserOperation \<Rightarrow> uint256 \<Rightarrow> sol_error + uint256" where
  "validateSignature_7702 recover this userOp userOpHash =
     bindE (checkSignature_7702 recover this userOpHash (po_signature userOp)) (\<lambda>ok.
     Inr (if ok then SIG_VALIDATION_SUCCESS else SIG_VALIDATION_FAILED))"

definition validateUserOp_7702 ::
  "(uint256 \<Rightarrow> bytes \<Rightarrow> sol_error + address) \<Rightarrow> 's low_call \<Rightarrow> address \<Rightarrow> address \<Rightarrow> PackedUserOperation \<Rightarrow> uint256 \<Rightarrow> uint256
     \<Rightarrow> 's \<Rightarrow> sol_error + uint256 \<times> 's" where
  "validateUserOp_7702 recover call this sender userOp userOpHash missing st =
     base_validateUserOp call simple7702_entryPoint sender (validateSignature_7702 recover this userOp userOpHash) missing st"

definition isValidSignature_selector :: bytes where "isValidSignature_selector = [0x16, 0x26, 0xba, 0x7e]"

definition isValidSignature_7702 :: "(uint256 \<Rightarrow> bytes \<Rightarrow> sol_error + address) \<Rightarrow> address \<Rightarrow> uint256 \<Rightarrow> bytes \<Rightarrow> sol_error + bytes" where
  "isValidSignature_7702 recover this h signature =
     bindE (checkSignature_7702 recover this h signature) (\<lambda>ok.
     Inr (if ok then isValidSignature_selector else [0xff, 0xff, 0xff, 0xff]))"

definition requireForExecute_7702 :: "address \<Rightarrow> address \<Rightarrow> sol_error + unit" where
  "requireForExecute_7702 this sender =
     (if sender = this \<or> sender = simple7702_entryPoint then Inr ()
      else Inl (RequireFailed ''not from self or EntryPoint''))"

section \<open>Token callbacks and interfaces\<close>

text \<open>Selectors of the callbacks; an interface id is the exclusive or of its selectors.\<close>

definition onERC721Received_selector :: bytes where "onERC721Received_selector = [0x15, 0x0b, 0x7a, 0x02]"
definition onERC1155Received_selector :: bytes where "onERC1155Received_selector = [0xf2, 0x3a, 0x6e, 0x61]"
definition onERC1155BatchReceived_selector :: bytes where "onERC1155BatchReceived_selector = [0xbc, 0x19, 0x7c, 0x81]"
definition supportsInterface_selector :: bytes where "supportsInterface_selector = [0x01, 0xff, 0xc9, 0xa7]"
definition validateUserOp_selector :: bytes where "validateUserOp_selector = [0x19, 0x82, 0x2f, 0x7c]"

definition interfaceId :: "bytes list \<Rightarrow> bytes" where
  "interfaceId selectors = foldr (\<lambda>s acc. map2 (xor) s acc) selectors [0, 0, 0, 0]"

definition token_supportsInterface :: "bytes \<Rightarrow> bool" where
  "token_supportsInterface i \<longleftrightarrow>
     i = interfaceId [onERC721Received_selector]
     \<or> i = interfaceId [onERC1155Received_selector, onERC1155BatchReceived_selector]
     \<or> i = interfaceId [supportsInterface_selector]"

definition supportsInterface_7702 :: "bytes \<Rightarrow> bool" where
  "supportsInterface_7702 i \<longleftrightarrow>
     i = interfaceId [supportsInterface_selector]
     \<or> i = interfaceId [validateUserOp_selector]
     \<or> i = interfaceId [isValidSignature_selector]
     \<or> i = interfaceId [onERC1155Received_selector, onERC1155BatchReceived_selector]
     \<or> i = interfaceId [onERC721Received_selector]"

section \<open>Properties\<close>

text \<open>
  C38. A batch of the sample account is all or nothing and names its failure. It goes through only for the owner or
  the EntryPoint and then made all its calls in order, each on what the one before left. Otherwise it
  reverts, which undoes every call, with the error of the first call that failed: its plain return data
  when the batch has one call, and \<open>ExecuteError\<close> with its index when it has several.
\<close>

theorem batch_names_first_failure:
  "if sender \<in> {se_entryPoint E, s_owner st}
   then case simple_dispatch E sender (SaExecuteBatch calls) st of
       Inr st' \<Rightarrow> calls_succeed (se_call E) calls st = Some st'
     | Inl e \<Rightarrow> \<exists>k st1 ret. k < length calls \<and> calls_succeed (se_call E) (take k calls) st = Some st1
         \<and> se_call E (call_target (calls ! k)) (call_value (calls ! k)) (call_data (calls ! k)) st1 = Inl ret
         \<and> e = (if length calls = 1 then Reverted ret else ExecuteError k ret)
   else simple_dispatch E sender (SaExecuteBatch calls) st = Inl (RequireFailed ''account: not Owner or EntryPoint'')"
proof (cases "sender \<in> {se_entryPoint E, s_owner st}")
  case True
  then have d: "simple_dispatch E sender (SaExecuteBatch calls) st = base_loop (se_call E) (length calls) 0 calls st"
    by (auto simp: base_executeBatch_def simple_requireForExecute_def)
  show ?thesis
  proof (cases "base_loop (se_call E) (length calls) 0 calls st")
    case (Inl e)
    then obtain k st1 ret where "k < length calls" "calls_succeed (se_call E) (take k calls) st = Some st1"
      "se_call E (call_target (calls ! k)) (call_value (calls ! k)) (call_data (calls ! k)) st1 = Inl ret"
      "e = (if length calls = 1 then Reverted ret else ExecuteError (0 + k) ret)"
      by (rule base_loop_Inl)
    with True show ?thesis unfolding d Inl by auto
  next
    case (Inr st')
    with True base_loop_Inr[THEN iffD1, OF Inr] show ?thesis unfolding d Inr by simp
  qed
next
  case False
  then show ?thesis by (simp add: base_executeBatch_def simple_requireForExecute_def)
qed

text \<open>A batch of one call is that call.\<close>

lemma batch_of_one:
  "base_executeBatch call guard [c] st = base_execute call guard (call_target c) (call_value c) (call_data c) st"
  by (cases guard) (auto simp: base_executeBatch_def base_execute_def split: sum.splits)

text \<open>
  Strangers cannot move a \<open>SimpleAccount\<close>: whatever anyone but its owner, the EntryPoint or the account
  itself calls, only \<open>initialize\<close> and \<open>addDeposit\<close> can change anything, and \<open>addDeposit\<close> only calls the
  EntryPoint. The library's \<open>upgradeToAndCall\<close> fails when \<open>_authorizeUpgrade\<close> does.
\<close>

theorem strangers_cannot_act:
  assumes "\<And>e impl data s. \<exists>e'. se_upgrade E (Inl e) impl data s = Inl e'"
    and "sender \<notin> {se_entryPoint E, s_owner st, se_this E}" and "simple_dispatch E sender op st = Inr st'"
  shows "case op of
      SaInitialize anOwner \<Rightarrow> se_initializer E (\<lambda>s. s\<lparr>s_owner := anOwner\<rparr>) st = Inr st'
    | SaAddDeposit v \<Rightarrow> (\<exists>ret. se_call E (se_entryPoint E) v (depositTo_selector @ be_bytes 32 (unat (se_this E))) st = Inr (ret, st'))
    | SaReceive \<Rightarrow> st' = st
    | _ \<Rightarrow> False"
proof (cases op)
  case (SaUpgradeToAndCall impl data)
  then show ?thesis
    using assms(2,3) assms(1)[of "RequireFailed ''only owner''" impl data st]
    by (auto simp: simple_authorizeUpgrade_def simple_onlyOwner_def)
qed (use assms(2,3) in \<open>auto simp: base_execute_def base_executeBatch_def simple_requireForExecute_def simple_validateUserOp_def
      base_validateUserOp_def base_requireFromEntryPoint_def simple_initialize_def simple_addDeposit_def void_call_def
      simple_withdrawDepositTo_def simple_onlyOwner_def split: sum.splits\<close>)

definition stranger_env :: "nat simple_env" where
  "stranger_env = \<lparr>se_this = 0xACC, se_entryPoint = 0xE7, se_call = (\<lambda>to v d st. Inr ([], st\<lparr>s_rest := s_rest st + unat v\<rparr>)),
     se_static = (\<lambda>to d st. Inr []), se_recover = (\<lambda>h s. Inr 0xA11CE), se_initializer = (\<lambda>body st. Inl EmptyRevert),
     se_upgrade = (\<lambda>auth impl d st. bindE auth (\<lambda>_. Inr st))\<rparr>"

theorem strangers_cannot_act_witness:
  "simple_dispatch stranger_env 0xBAD (SaAddDeposit 5) \<lparr>s_owner = 0xA11CE, s_rest = 2\<rparr> = Inr \<lparr>s_owner = 0xA11CE, s_rest = 7\<rparr>
   \<and> (\<exists>ret. se_call stranger_env 0xE7 5 (depositTo_selector @ be_bytes 32 0xACC) \<lparr>s_owner = 0xA11CE, s_rest = 2\<rparr>
        = Inr (ret, \<lparr>s_owner = 0xA11CE, s_rest = 7\<rparr>))"
proof -
  have u: "\<exists>e'. se_upgrade stranger_env (Inl e) impl data s = Inl e'" for e impl data s by (simp add: stranger_env_def)
  have d: "simple_dispatch stranger_env 0xBAD (SaAddDeposit 5) \<lparr>s_owner = 0xA11CE, s_rest = 2\<rparr> = Inr \<lparr>s_owner = 0xA11CE, s_rest = 7\<rparr>"
    by (simp add: simple_addDeposit_def void_call_def stranger_env_def)
  have "(0xBAD :: address) \<notin> {se_entryPoint stranger_env, s_owner \<lparr>s_owner = 0xA11CE, s_rest = 2 :: nat\<rparr>, se_this stranger_env}"
    by (simp add: stranger_env_def)
  from strangers_cannot_act[OF u this d] d show ?thesis by (simp add: stranger_env_def)
qed

text \<open>
  The factory returns the predicted address whether or not the account is there already, and creates it at
  most once: a second call of the SenderCreator changes nothing.
\<close>

lemma simple_factory_idempotent:
  assumes "simple_createAccount keccak creationCode new_proxy f sender anOwner salt accts = Inr (a, accts')"
  shows "a = simple_getAddress keccak creationCode f anOwner salt"
    and "accts' = (if accts a = None then accts(a \<mapsto> new_proxy (sf_implementation f) (encode_initialize anOwner) a) else accts)"
    and "simple_createAccount keccak creationCode new_proxy f sender anOwner salt accts' = Inr (a, accts')"
  using assms
  by (auto simp: simple_createAccount_def simple_getAddress_def evm_create2_def computeAddress_def Let_def split: if_splits)

text \<open>The interface ids, and the two signature checks of a \<open>Simple7702Account\<close> agree.\<close>

lemma interface_ids:
  "interfaceId [s] = map2 (xor) s [0, 0, 0, 0]"
  "interfaceId [onERC1155Received_selector, onERC1155BatchReceived_selector] = [0x4e, 0x23, 0x12, 0xe0]"
  by (simp_all add: interfaceId_def onERC1155Received_selector_def onERC1155BatchReceived_selector_def)

lemma validity_agrees_7702:
  "validateSignature_7702 recover this userOp h = Inr SIG_VALIDATION_SUCCESS
   \<longleftrightarrow> isValidSignature_7702 recover this h (po_signature userOp) = Inr isValidSignature_selector"
  by (auto simp: validateSignature_7702_def isValidSignature_7702_def bindE_Inr_iff isValidSignature_selector_def
      SIG_VALIDATION_SUCCESS_def SIG_VALIDATION_FAILED_def)

end
