(* ===== verification/Signed_Operations.thy ===== *)
theory Signed_Operations
  imports Entry_Point_Account Sample_Accounts
begin

text \<open>
  Accounts that accept one signer, as an interface, and what follows for the bundles of the EntryPoint: every
  operation that is handled for such an account carries its signer's signature. The bounded account and
  both sample accounts provide it.
\<close>

section \<open>The interface\<close>

text \<open>
  \<open>validate\<close> is \<open>validateUserOp\<close>, \<open>recover\<close> the recovery of the ECDSA library. A validation that returns has
  recovered some address, and returns 0 for the signer's and 1 for any other.
\<close>

locale signing_account =
  fixes validate :: "PackedUserOperation \<Rightarrow> uint256 \<Rightarrow> uint256 \<Rightarrow> 's \<Rightarrow> sol_error + uint256 \<times> 's"
    and signer :: "'s \<Rightarrow> address"
    and recover :: "uint256 \<Rightarrow> bytes \<Rightarrow> sol_error + address"
  assumes verdict: "validate op h missing s = Inr (d, s') \<Longrightarrow>
    \<exists>a. recover h (po_signature op) = Inr a \<and> d = (if a = signer s then 0 else 1)"

text \<open>
  The contract at \<open>A\<close> runs this code on its own view of the world, as the EntryPoint sees it: what it
  returns is the encoded validation data. The callees of the validation phase keep \<open>Q\<close>.
\<close>

definition runs_validate ::
  "address \<Rightarrow> (PackedUserOperation \<Rightarrow> uint256 \<Rightarrow> uint256 \<Rightarrow> 's \<Rightarrow> sol_error + uint256 \<times> 's) \<Rightarrow> ('w \<Rightarrow> 's) \<Rightarrow> 'w ep_callees \<Rightarrow> bool" where
  "runs_validate A validate view W \<longleftrightarrow> (\<forall>g op h m st ret st'. w_validateUserOp W A g op h m st = Inr (ret, st') \<longrightarrow>
     (\<exists>d s'. validate op h m (view (ep_world st)) = Inr (d, s') \<and> ret = be_bytes 32 (unat d)))"

definition keeps_world :: "('w \<Rightarrow> bool) \<Rightarrow> ('w ep_state \<Rightarrow> 'w call_result) \<Rightarrow> bool" where
  "keeps_world Q f \<longleftrightarrow> (\<forall>st r st'. f st = Inr (r, st') \<longrightarrow> Q (ep_world st) \<longrightarrow> Q (ep_world st'))"

definition validation_keeps :: "('w \<Rightarrow> bool) \<Rightarrow> 'w ep_callees \<Rightarrow> bool" where
  "validation_keeps Q W \<longleftrightarrow> (\<forall>a d. keeps_world Q (w_factory W a d)) \<and> (\<forall>a d. keeps_world Q (w_initSender W a d))
     \<and> (\<forall>a g op h m. keeps_world Q (w_validateUserOp W a g op h m))
     \<and> (\<forall>a g op h m. keeps_world Q (w_validatePaymasterUserOp W a g op h m))"

section \<open>The validation phase\<close>

lemma createSenderIfNeeded_world:
  assumes "validation_keeps Q W" and "createSenderIfNeeded W i info initCode st = Inr st'" and "Q (ep_world st)"
  shows "Q (ep_world st')"
proof -
  have k: "keeps_world Q (w_factory W a d)" "keeps_world Q (w_initSender W a d)" for a d
    using assms(1) by (simp_all add: validation_keeps_def)
  have f: "w_factory W a d st = Inr (r, s) \<Longrightarrow> Q (ep_world s)" for a d r s
    using k(1)[of a d] assms(3) by (simp add: keeps_world_def)
  have g: "w_initSender W a d st = Inr (r, s) \<Longrightarrow> Q (ep_world s)" for a d r s
    using k(2)[of a d] assms(3) by (simp add: keeps_world_def)
  show ?thesis
    using assms(2,3) f g
    by (auto simp: createSenderIfNeeded_def initEip7702Sender_def createSender_def emit_def Let_def
        split: if_splits sum.splits prod.splits)
qed

lemma callValidateUserOp_world:
  assumes "validation_keeps Q W" and "callValidateUserOp W i op info m st = Inr (d, st')" and "Q (ep_world st)"
  shows "Q (ep_world st')"
proof -
  obtain ret where "w_validateUserOp W (m_sender (i_mUserOp info)) (m_verificationGasLimit (i_mUserOp info)) op (i_userOpHash info) m st
      = Inr (ret, st')"
    using assms(2) by (auto simp: callValidateUserOp_def Let_def split: if_splits sum.splits)
  with assms(1,3) show ?thesis unfolding validation_keeps_def keeps_world_def by blast
qed

lemma tryDecrementDeposit_world: "tryDecrementDeposit a v st = (ok, st') \<Longrightarrow> ep_world st' = ep_world st"
  by (auto simp: tryDecrementDeposit_def set_info_def Let_def split: if_splits)

lemma validateAndUpdateNonce_world: "validateAndUpdateNonce a n st = Inr (ok, st') \<Longrightarrow> ep_world st' = ep_world st"
  by (auto simp: validateAndUpdateNonce_def incrementNonce_def set_nonce_def Let_def bindE_Inr_iff)

lemma validatePaymasterPrepayment_world:
  assumes "validation_keeps Q W" and "validatePaymasterPrepayment W g i op info st = Inr (r, st')" and "Q (ep_world st)"
  shows "Q (ep_world st')"
proof -
  obtain st1 where d: "tryDecrementDeposit (m_paymaster (i_mUserOp info)) (i_prefund info) st = (True, st1)"
    and c: "callValidatePaymasterUserOp W i op info st1 = Inr (r, st')"
    using assms(2) by (auto simp: validatePaymasterPrepayment_def Let_def bindE_Inr_iff split: prod.splits if_splits)
  obtain ret where "w_validatePaymasterUserOp W (m_paymaster (i_mUserOp info)) (m_paymasterVerificationGasLimit (i_mUserOp info)) op
      (i_userOpHash info) (i_prefund info) st1 = Inr (ret, st')"
    using c by (auto simp: callValidatePaymasterUserOp_def Let_def split: if_splits sum.splits)
  with assms(1,3) tryDecrementDeposit_world[OF d] show ?thesis
    unfolding validation_keeps_def keeps_world_def by metis
qed

text \<open>The parts of a prepayment that was accepted.\<close>

lemma validatePrepayment_parts:
  assumes v: "validatePrepayment W g i op st = Inr ((vd, pvd, info), st')"
  obtains m h info0 st1 st2 st3 missing where "copyUserOpToMemory op = Inr m" and "getUserOpHash_sol W op st = Inr h"
    and "i_mUserOp info0 = m" and "i_userOpHash info0 = h" and "i_userOpHash info = h"
    and "createSenderIfNeeded W i info0 (po_initCode op) st = Inr st1"
    and "callValidateUserOp W i op info0 missing st1 = Inr (vd, st2)"
    and "ep_world st3 = ep_world st2"
    and "if m_paymaster m = 0 then st' = st3 else \<exists>r. validatePaymasterPrepayment W g i op info0 st3 = Inr (r, st')"
proof -
  obtain m h where m: "copyUserOpToMemory op = Inr m" and h: "getUserOpHash_sol W op st = Inr h"
    and s0: "(let info = \<lparr>i_mUserOp = m, i_userOpHash = h, i_prefund = getRequiredPrefund m, i_context = [], i_preOpGas = 0\<rparr> in
      bindE (validateAccountPrepayment W i op info (i_prefund info) st) (\<lambda>(validationData, st1).
      bindE (sol (validateAndUpdateNonce (m_sender m) (m_nonce m) st1)) (\<lambda>(fresh, st2).
      if \<not> fresh then Inl (FailedOp i ''AA25 invalid account nonce'')
      else if m_verificationGasLimit m < og_account g then Inl (FailedOp i ''AA26 over verificationGasLimit'')
      else
        bindE (if m_paymaster m \<noteq> 0 then validatePaymasterPrepayment W g i op info st2 else Inr (([], 0), st2))
          (\<lambda>((context, paymasterValidationData), st3).
        Inr ((validationData, paymasterValidationData,
              info\<lparr>i_context := context, i_preOpGas := og_preOp g + po_preVerificationGas op\<rparr>), st3)))))
      = Inr ((vd, pvd, info), st')"
    using v by (auto simp: validatePrepayment_def bindE_Inr_iff split: if_splits)
  define info0 where "info0 = \<lparr>i_mUserOp = m, i_userOpHash = h, i_prefund = getRequiredPrefund m, i_context = [], i_preOpGas = 0\<rparr>"
  obtain sa sn r where a: "validateAccountPrepayment W i op info0 (i_prefund info0) st = Inr (vd, sa)"
    and n: "validateAndUpdateNonce (m_sender m) (m_nonce m) sa = Inr (True, sn)"
    and p: "if m_paymaster m \<noteq> 0 then validatePaymasterPrepayment W g i op info0 sn = Inr (r, st') else st' = sn"
    and ih: "i_userOpHash info = h"
    using s0 unfolding Let_def info0_def[symmetric] by (auto simp: bindE_Inr_iff info0_def split: if_splits)
  have mi: "i_mUserOp info0 = m" "i_userOpHash info0 = h" by (simp_all add: info0_def)
  note s1 = a[unfolded validateAccountPrepayment_def Let_def]
  obtain st1 where c: "createSenderIfNeeded W i info0 (po_initCode op) st = Inr st1"
    using s1 by (rule bindE_InrE) (rule that)
  note s2 = s1[unfolded c bindE_simps]
  obtain d0 f st2 where call: "callValidateUserOp W i op info0 f st1 = Inr (d0, st2)"
    and r0: "(if m_paymaster (i_mUserOp info0) \<noteq> 0 then Inr (d0, st2)
      else case tryDecrementDeposit (m_sender (i_mUserOp info0)) (i_prefund info0) st2 of
        (paid, st3) \<Rightarrow> if paid then Inr (d0, st3) else Inl (FailedOp i ''AA21 didn't pay prefund'')) = Inr (vd, sa)"
    by (rule bindE_InrE2[OF s2]) (auto intro: that)
  have "ep_world sa = ep_world st2" "d0 = vd"
    using r0 tryDecrementDeposit_world by (auto split: if_splits prod.splits)
  moreover have "ep_world sn = ep_world sa" using n by (rule validateAndUpdateNonce_world)
  ultimately show thesis
    using that[OF m h mi ih c, of f st2 sn] call p by (auto split: if_splits)
qed

lemma validatePrepayment_world:
  assumes "validation_keeps Q W" and "validatePrepayment W g i op st = Inr (r, st')" and "Q (ep_world st)"
  shows "Q (ep_world st')"
proof -
  obtain vd pvd info where r: "r = (vd, pvd, info)" by (cases r)
  from assms(2)[unfolded r] show ?thesis
  proof (rule validatePrepayment_parts)
    fix m h info0 st1 st2 st3 missing
    assume c: "createSenderIfNeeded W i info0 (po_initCode op) st = Inr st1"
      "callValidateUserOp W i op info0 missing st1 = Inr (vd, st2)" "ep_world st3 = ep_world st2"
      "if m_paymaster m = 0 then st' = st3 else \<exists>r. validatePaymasterPrepayment W g i op info0 st3 = Inr (r, st')"
    have "Q (ep_world st3)"
      using callValidateUserOp_world[OF assms(1) c(2) createSenderIfNeeded_world[OF assms(1) c(1) assms(3)]] c(3) by simp
    with c(4) validatePaymasterPrepayment_world[OF assms(1)] show ?thesis by (auto split: if_splits)
  qed
qed

lemma checkAggregators_not_1: "checkAggregators W opas st = Inr () \<Longrightarrow> \<forall>opa \<in> set opas. a_aggregator opa \<noteq> 1"
  by (induction opas) (auto split: if_splits)

text \<open>A bundle with the operation goes through, with or without aggregators.\<close>

definition handles :: "'w ep_callees \<Rightarrow> 'w ep_state \<Rightarrow> 'w ep_state \<Rightarrow> PackedUserOperation \<Rightarrow> bool" where
  "handles W st st' op \<longleftrightarrow>
     (\<exists>ops b g. handleOps W ops b st = Inr st' \<and> (op, g) \<in> set ops)
   \<or> (\<exists>opas b opa g. handleAggregatedOps W opas b st = Inr st' \<and> opa \<in> set opas \<and> (op, g) \<in> set (a_userOps opa))"

context signing_account begin

lemma called_signed:
  assumes "runs_validate A validate view W" and "m_sender (i_mUserOp info) = A"
    and "callValidateUserOp W i op info m st = Inr (d, st')"
  shows "d = 1 \<or> recover (i_userOpHash info) (po_signature op) = Inr (signer (view (ep_world st)))"
proof -
  obtain ret where w: "w_validateUserOp W A (m_verificationGasLimit (i_mUserOp info)) op (i_userOpHash info) m st = Inr (ret, st')"
    and d: "d = of_nat (be_val ret)"
    using assms(2,3) by (auto simp: callValidateUserOp_def Let_def split: if_splits sum.splits)
  obtain d' s' where v: "validate op (i_userOpHash info) m (view (ep_world st)) = Inr (d', s')" and ret: "ret = be_bytes 32 (unat d')"
    using assms(1) w unfolding runs_validate_def by blast
  have "d = d'" using d ret unat_lt_256[of d'] by (simp add: be_val_be_bytes)
  with verdict[OF v] show ?thesis by auto
qed

text \<open>An operation in a bundle, of either kind, in which the expected aggregator is not 1.\<close>

lemma iterate_signed:
  assumes "runs_validate A validate view W" and "validation_keeps (\<lambda>w. signer (view w) = s) W"
    and "iterateValidationPhase W i ops ag st = Inr (infos, st')" and "ag \<noteq> 1" and "signer (view (ep_world st)) = s"
  shows "\<forall>(op, g) \<in> set ops. po_sender op = A \<longrightarrow> (\<exists>st1 h. getUserOpHash_sol W op st1 = Inr h \<and> recover h (po_signature op) = Inr s)"
    and "signer (view (ep_world st')) = s"
proof -
  have "(\<forall>(op, g) \<in> set ops. po_sender op = A \<longrightarrow> (\<exists>st1 h. getUserOpHash_sol W op st1 = Inr h \<and> recover h (po_signature op) = Inr s))
    \<and> signer (view (ep_world st')) = s"
    using assms(3,5)
  proof (induction ops arbitrary: i st infos)
    case Nil
    then show ?case by simp
  next
    case (Cons x ops)
    obtain op g where x: "x = (op, g)" by (cases x)
    from Cons.prems(1) obtain vd pvd info st1 infos1 where v: "validatePrepayment W g i op st = Inr ((vd, pvd, info), st1)"
      and t: "validateAccountAndPaymasterValidationData i (w_timestamp W) vd pvd ag = Inr ()"
      and r: "iterateValidationPhase W (Suc i) ops ag st1 = Inr (infos1, st')"
      unfolding x by (auto simp: bindE_Inr_iff)
    have "fst (getValidationData (w_timestamp W) vd) = ag"
      using t by (auto simp: validateAccountAndPaymasterValidationData_def Let_def split: prod.splits if_splits)
    then have vd: "vd \<noteq> 1" using assms(4) by (auto simp: getValidationData_def parseValidationData_def Let_def)
    have op: "\<exists>st1 h. getUserOpHash_sol W op st1 = Inr h \<and> recover h (po_signature op) = Inr s" if "po_sender op = A"
      using v
    proof (rule validatePrepayment_parts)
      fix m h info0 sc sv st3 missing
      assume p: "copyUserOpToMemory op = Inr m" "getUserOpHash_sol W op st = Inr h" "i_mUserOp info0 = m" "i_userOpHash info0 = h"
        "createSenderIfNeeded W i info0 (po_initCode op) st = Inr sc" "callValidateUserOp W i op info0 missing sc = Inr (vd, sv)"
      have "m_sender (i_mUserOp info0) = A" using copyUserOpToMemory_fields[OF p(1)] p(3) that by simp
      from called_signed[OF assms(1) this p(6)] vd have "recover h (po_signature op) = Inr (signer (view (ep_world sc)))"
        by (simp add: p(4))
      moreover have "signer (view (ep_world sc)) = s" using createSenderIfNeeded_world[OF assms(2) p(5) Cons.prems(2)] .
      ultimately show ?thesis using p(2) by auto
    qed
    have "signer (view (ep_world st1)) = s" using validatePrepayment_world[OF assms(2) v Cons.prems(2)] .
    from Cons.IH[OF r this] op show ?case by (simp add: x)
  qed
  then show "\<forall>(op, g) \<in> set ops. po_sender op = A \<longrightarrow> (\<exists>st1 h. getUserOpHash_sol W op st1 = Inr h \<and> recover h (po_signature op) = Inr s)"
    and "signer (view (ep_world st')) = s" by simp_all
qed

text \<open>The groups of a bundle with aggregators; the check of the aggregators has refused 1.\<close>

lemma groups_signed:
  assumes "runs_validate A validate view W" and "validation_keeps (\<lambda>w. signer (view w) = s) W"
    and "validateGroups W i opas st = Inr (groups, st')" and "\<forall>opa \<in> set opas. a_aggregator opa \<noteq> 1" and "signer (view (ep_world st)) = s"
  shows "\<forall>opa \<in> set opas. \<forall>(op, g) \<in> set (a_userOps opa). po_sender op = A
    \<longrightarrow> (\<exists>st1 h. getUserOpHash_sol W op st1 = Inr h \<and> recover h (po_signature op) = Inr s)"
  using assms(3-)
proof (induction opas arbitrary: i st groups)
  case Nil
  then show ?case by simp
next
  case (Cons opa opas)
  from Cons.prems(1) obtain infos st1 groups1 where v: "iterateValidationPhase W i (a_userOps opa) (a_aggregator opa) st = Inr (infos, st1)"
    and r: "validateGroups W (i + length (a_userOps opa)) opas st1 = Inr (groups1, st')"
    by (auto simp: bindE_Inr_iff)
  have "a_aggregator opa \<noteq> 1" using Cons.prems(2) by simp
  note 1 = iterate_signed[OF assms(1,2) v this Cons.prems(3)]
  have "\<forall>opa \<in> set opas. a_aggregator opa \<noteq> 1" using Cons.prems(2) by simp
  from Cons.IH[OF r this 1(2)] 1(1) show ?case by auto
qed

lemma handled_signed:
  assumes "runs_validate A validate view W" and "validation_keeps (\<lambda>w. signer (view w) = s) W" and "signer (view (ep_world st)) = s"
    and "handles W st st' op" and "po_sender op = A"
  shows "\<exists>st1 h. getUserOpHash_sol W op st1 = Inr h \<and> recover h (po_signature op) = Inr s"
proof -
  let ?st = "st\<lparr>ep_locked := True\<rparr>"
  have s: "signer (view (ep_world ?st)) = s" using assms(3) by simp
  consider (plain) ops b g where "handleOps W ops b st = Inr st'" "(op, g) \<in> set ops"
    | (aggregated) opas b opa g where "handleAggregatedOps W opas b st = Inr st'" "opa \<in> set opas" "(op, g) \<in> set (a_userOps opa)"
    using assms(4) unfolding handles_def by blast
  then show ?thesis
  proof cases
    case plain
    then obtain infos st1 where "iterateValidationPhase W 0 ops 0 ?st = Inr (infos, st1)"
      by (auto simp: handleOps_def bindE_Inr_iff split: if_splits)
    from iterate_signed(1)[OF assms(1,2) this _ s] plain(2) assms(5) show ?thesis by auto
  next
    case aggregated
    then obtain groups st1 where c: "checkAggregators W opas ?st = Inr ()" and v: "validateGroups W 0 opas ?st = Inr (groups, st1)"
      by (auto simp: handleAggregatedOps_def Let_def bindE_Inr_iff split: if_splits)
    from groups_signed[OF assms(1,2) v checkAggregators_not_1[OF c] s] aggregated(2,3) assms(5) show ?thesis by blast
  qed
qed

end

section \<open>The accounts\<close>

interpretation spending: signing_account "validateUserOp evm ctx" "\<lambda>ch. vaultOwner (acct ch)" "x_recover evm" for evm ctx
  by unfold_locales
    (auto simp: validateUserOp_def validateSignature_def SIG_VALIDATION_FAILED_def SIG_VALIDATION_SUCCESS_def bindE_Inr_iff split: if_splits)

lemma simple_verdict:
  assumes "simple_validateUserOp E sender op h missing s = Inr (d, s')"
  shows "\<exists>a. se_recover E h (po_signature op) = Inr a \<and> d = (if a = s_owner s then 0 else 1)"
proof (cases "se_recover E h (po_signature op)")
  case (Inr a)
  with assms show ?thesis
    by (auto simp: simple_validateUserOp_def base_validateUserOp_def simple_validateSignature_def SIG_VALIDATION_FAILED_def
        SIG_VALIDATION_SUCCESS_def bindE_Inr_iff)
qed (use assms in \<open>simp add: simple_validateUserOp_def base_validateUserOp_def simple_validateSignature_def bindE_Inr_iff\<close>)

interpretation simple: signing_account "simple_validateUserOp E sender" s_owner "se_recover E" for E sender
  by unfold_locales (rule simple_verdict)

interpretation simple7702: signing_account "validateUserOp_7702 recover call this sender" "\<lambda>_. this" recover for recover call this sender
  by unfold_locales
    (auto simp: validateUserOp_7702_def base_validateUserOp_def validateSignature_7702_def checkSignature_7702_def
      SIG_VALIDATION_FAILED_def SIG_VALIDATION_SUCCESS_def bindE_Inr_iff split: if_splits)

text \<open>
  C9. Only its owner moves the bounded account. When a bundle with an operation of the account goes through,
  in \<open>handleOps\<close> or in \<open>handleAggregatedOps\<close> and whatever the other operations, accounts and paymasters are,
  the signature of the operation recovers to the vault owner over the hash that the EntryPoint computes for
  it. The account runs its code and the other callees of the validation do not write its storage.
\<close>

theorem owner_signs_bundle:
  assumes "runs_validate A (validateUserOp evm ctx) view W"
    and "validation_keeps (\<lambda>w. vaultOwner (acct (view w)) = vaultOwner (acct (view (ep_world st)))) W"
    and "handles W st st' op" and "po_sender op = A"
  shows "\<exists>st1 h. getUserOpHash_sol W op st1 = Inr h
    \<and> x_recover evm h (po_signature op) = Inr (vaultOwner (acct (view (ep_world st))))"
  using spending.handled_signed[OF assms(1,2) refl assms(3,4)] .

text \<open>
  The sample accounts promise the same: an operation of a \<open>SimpleAccount\<close> is handled only with the
  signature of its owner, one of a \<open>Simple7702Account\<close> only with that of its own key.
\<close>

theorem sample_owner_signs_bundle:
  assumes "runs_validate A (simple_validateUserOp E sender) view W"
    and "validation_keeps (\<lambda>w. s_owner (view w) = s_owner (view (ep_world st))) W"
    and "runs_validate K (validateUserOp_7702 recover call K sender') (\<lambda>w. w) W"
    and "handles W st st' op"
  shows "(po_sender op = A \<longrightarrow> (\<exists>st1 h. getUserOpHash_sol W op st1 = Inr h \<and> se_recover E h (po_signature op) = Inr (s_owner (view (ep_world st)))))
    \<and> (po_sender op = K \<longrightarrow> (\<exists>st1 h. getUserOpHash_sol W op st1 = Inr h \<and> recover h (po_signature op) = Inr K))"
proof -
  have "validation_keeps (\<lambda>w. K = K) W" by (simp add: validation_keeps_def keeps_world_def)
  with simple.handled_signed[OF assms(1,2) refl assms(4)] simple7702.handled_signed[OF assms(3) _ refl assms(4)] show ?thesis by blast
qed

section \<open>Instances\<close>

lemma demo_W_others:
  "w_factory demo_W b d st = Inl []" "w_initSender demo_W b d st = Inl []"
  "w_validatePaymasterUserOp demo_W b g op h m st
     = Inr (be_bytes 32 64 @ be_bytes 32 0 @ be_bytes 32 32 @ be_bytes 32 0xACC, st)"
  by (simp_all add: demo_W_def)

lemma demo_W_validate:
  assumes "w_validateUserOp demo_W a g op h m st = Inr (ret, st')"
  obtains d ch where "a = 0xACC" and "validateUserOp demo_evm (demo_ctx 0xE7 1800000000) op h m (ep_world st) = Inr (d, ch)"
    and "ret = be_bytes 32 (unat d)" and "st' = st\<lparr>ep_world := ch\<rparr>"
  using assms by (auto simp: demo_W_def split: if_splits sum.splits)

lemma demo_validate_owner:
  assumes "validateUserOp demo_evm ctx op h m ch = Inr (d, ch')"
  shows "vaultOwner (acct ch') = vaultOwner (acct ch)"
  using assms
proof (rule validateUserOp_Inr)
  fix e u g t a
  assume a: "validatePreflightLimits (acct ch) (block_timestamp ctx) e t = Inr a" and ch': "ch' = payPrefund demo_evm ctx m (ch\<lparr>acct := a\<rparr>)"
  show ?thesis
    using validatePreflightLimits_frame[OF a] by (auto simp: ch' payPrefund_def exec_call_def demo_evm_def)
qed

lemma demo_W_keeps: "validation_keeps (\<lambda>ch. vaultOwner (acct ch) = owner) demo_W"
proof -
  have "keeps_world (\<lambda>ch. vaultOwner (acct ch) = owner) (w_validateUserOp demo_W a g op h m)" for a g op h m
    unfolding keeps_world_def
  proof (intro allI impI)
    fix st r st' assume w: "w_validateUserOp demo_W a g op h m st = Inr (r, st')" and ow: "vaultOwner (acct (ep_world st)) = owner"
    obtain d ch where v: "validateUserOp demo_evm (demo_ctx 0xE7 1800000000) op h m (ep_world st) = Inr (d, ch)"
      and st': "st' = st\<lparr>ep_world := ch\<rparr>"
      using w by (rule demo_W_validate)
    show "vaultOwner (acct (ep_world st')) = owner" using demo_validate_owner[OF v] ow by (simp add: st')
  qed
  moreover have "keeps_world Q (w_factory demo_W a d)" "keeps_world Q (w_initSender demo_W a d)"
    "keeps_world Q (w_validatePaymasterUserOp demo_W a g op h m)" for Q a d g op h m
    by (simp_all add: keeps_world_def demo_W_others)
  ultimately show ?thesis by (simp add: validation_keeps_def)
qed

lemma demo_handles: "\<exists>st'. handles demo_W (demo_ep demo_account) st' demo_bundled"
  using demo_handled unfolding handles_def by (meson list.set_intros(1))

lemma demo_owner: "vaultOwner (acct (ep_world (demo_ep demo_account))) = 0xA11CE"
  by (simp add: demo_ep_def demo_empty_def set_info_def demo_account_def constructor_def)

theorem owner_signs_bundle_witness:
  "\<exists>st'. handles demo_W (demo_ep demo_account) st' demo_bundled
    \<and> (\<exists>st1 h. getUserOpHash_sol demo_W demo_bundled st1 = Inr h \<and> x_recover demo_evm h (po_signature demo_bundled) = Inr 0xA11CE)"
proof -
  obtain st' where h: "handles demo_W (demo_ep demo_account) st' demo_bundled" using demo_handles ..
  have "runs_validate 0xACC (validateUserOp demo_evm (demo_ctx 0xE7 1800000000)) (\<lambda>ch. ch) demo_W"
    unfolding runs_validate_def by (auto elim!: demo_W_validate)
  from owner_signs_bundle[OF this demo_W_keeps h] h show ?thesis
    by (auto simp: demo_owner demo_bundled_def demo_op_def)
qed

text \<open>The same account seen as a \<open>SimpleAccount\<close> of the same owner.\<close>

definition demo_simple_env :: "unit simple_env" where
  "demo_simple_env = \<lparr>se_this = 0xACC, se_entryPoint = 0xE7, se_call = (\<lambda>to v d st. Inr ([], st)), se_static = (\<lambda>to d st. Inr []),
     se_recover = (\<lambda>h s. Inr 0xA11CE), se_initializer = (\<lambda>body st. Inr (body st)), se_upgrade = (\<lambda>auth impl d st. bindE auth (\<lambda>_. Inr st))\<rparr>"

definition as_simple :: "unit chain \<Rightarrow> unit simple_chain" where
  "as_simple ch = \<lparr>s_owner = vaultOwner (acct ch), s_rest = ()\<rparr>"

lemma demo_runs_simple: "runs_validate 0xACC (simple_validateUserOp demo_simple_env 0xE7) as_simple demo_W"
  unfolding runs_validate_def
proof (intro allI impI)
  fix g op h m st ret st' assume w: "w_validateUserOp demo_W 0xACC g op h m st = Inr (ret, st')"
  obtain d ch where v: "validateUserOp demo_evm (demo_ctx 0xE7 1800000000) op h m (ep_world st) = Inr (d, ch)"
    and ret: "ret = be_bytes 32 (unat d)"
    using w by (rule demo_W_validate)
  have "d = (if 0xA11CE = vaultOwner (acct (ep_world st)) then 0 else 1)"
    using spending.verdict[OF v] by (simp add: demo_evm_def)
  then have "simple_validateUserOp demo_simple_env 0xE7 op h m (as_simple (ep_world st))
      = Inr (d, base_payPrefund (se_call demo_simple_env) 0xE7 m (as_simple (ep_world st)))"
    by (auto simp: simple_validateUserOp_def base_validateUserOp_def base_requireFromEntryPoint_def simple_validateSignature_def
        demo_simple_env_def as_simple_def SIG_VALIDATION_FAILED_def SIG_VALIDATION_SUCCESS_def)
  with ret show "\<exists>d s'. simple_validateUserOp demo_simple_env 0xE7 op h m (as_simple (ep_world st)) = Inr (d, s')
      \<and> ret = be_bytes 32 (unat d)" by blast
qed

theorem sample_owner_signs_bundle_witness:
  "\<exists>st' st1 h. handles demo_W (demo_ep demo_account) st' demo_bundled
    \<and> getUserOpHash_sol demo_W demo_bundled st1 = Inr h \<and> se_recover demo_simple_env h (po_signature demo_bundled) = Inr 0xA11CE"
proof -
  obtain st' where h: "handles demo_W (demo_ep demo_account) st' demo_bundled" using demo_handles ..
  have k: "validation_keeps (\<lambda>ch. s_owner (as_simple ch) = s_owner (as_simple (ep_world (demo_ep demo_account)))) demo_W"
    using demo_W_keeps by (simp add: as_simple_def)
  have "runs_validate 0x7702 (validateUserOp_7702 (\<lambda>h s. Inr 0) (\<lambda>to v d st. Inr ([], st)) 0x7702 0xE7) (\<lambda>ch. ch) demo_W"
    unfolding runs_validate_def by (auto elim!: demo_W_validate)
  from sample_owner_signs_bundle[OF demo_runs_simple k this h] h demo_owner show ?thesis
    by (auto simp: demo_bundled_def demo_op_def as_simple_def)
qed

end
