(* ===== verification/Entry_Point_Simulations.thy ===== *)
theory Entry_Point_Simulations
  imports Signed_Operations
begin
text \<open>
  The simulation of the EntryPoint, \<open>contracts/core/EntryPointSimulations.sol\<close>, which bundlers run with
  \<open>eth_call\<close> in the place of the deployed code, and when its verdict is that of the EntryPoint.
\<close>

section \<open>The simulation contract\<close>

text \<open>
  The simulation has its own SenderCreator and domain separator, because \<open>eth_call\<close> runs no constructor.
  \<open>sw_callees\<close> gives the other contracts as they answer to the SenderCreator at an address and to an EntryPoint
  that supports given interfaces, \<open>sw_typed\<close> is
  \<open>MessageHashUtils.toTypedDataHash\<close> of the library, \<open>sw_target\<close> the low-level call of a target.
\<close>

record 'w sim_world =
  sw_this :: address
  sw_chainid :: uint256
  sw_keccak :: "bytes \<Rightarrow> uint256"
  sw_typed :: "uint256 \<Rightarrow> uint256 \<Rightarrow> uint256"
  sw_callees :: "address \<Rightarrow> (bytes \<Rightarrow> bool) \<Rightarrow> 'w ep_callees"
  sw_target :: "address \<Rightarrow> bytes \<Rightarrow> 'w ep_state \<Rightarrow> 'w call_result"

record sim_storage =
  sim_senderCreator :: address
  sim_domainSeparatorV4 :: uint256

definition str_bytes :: "string \<Rightarrow> bytes" where
  "str_bytes s = map (\<lambda>c. of_nat (of_char c)) s"

definition DOMAIN_NAME :: string where "DOMAIN_NAME = ''ERC4337''"
definition DOMAIN_VERSION :: string where "DOMAIN_VERSION = ''1''"

definition TYPE_HASH :: "(bytes \<Rightarrow> uint256) \<Rightarrow> uint256" where
  "TYPE_HASH keccak = keccak (str_bytes ''EIP712Domain(string name,string version,uint256 chainId,address verifyingContract)'')"

definition buildDomainSeparator :: "(bytes \<Rightarrow> uint256) \<Rightarrow> uint256 \<Rightarrow> address \<Rightarrow> uint256" where
  "buildDomainSeparator keccak chainid this =
     keccak (be_bytes 32 (unat (TYPE_HASH keccak)) @ be_bytes 32 (unat (keccak (str_bytes DOMAIN_NAME)))
       @ be_bytes 32 (unat (keccak (str_bytes DOMAIN_VERSION))) @ be_bytes 32 (unat chainid) @ be_bytes 32 (unat this))"

definition initSenderCreator :: "'w sim_world \<Rightarrow> sim_storage" where
  "initSenderCreator S =
     \<lparr>sim_senderCreator = ucast (sw_keccak S ([0xd6, 0x94] @ be_bytes 20 (unat (sw_this S)) @ [0x01])),
      sim_domainSeparatorV4 = buildDomainSeparator (sw_keccak S) (sw_chainid S) (sw_this S)\<rparr>"

text \<open>The simulation says that it supports no interface.\<close>

definition sim_supportsInterface :: "bytes \<Rightarrow> bool" where
  "sim_supportsInterface i = False"

text \<open>The overridden \<open>senderCreator()\<close> and \<open>getDomainSeparatorV4()\<close>, which the inherited code calls.\<close>

definition sim_callees :: "'w sim_world \<Rightarrow> sim_storage \<Rightarrow> 'w ep_callees" where
  "sim_callees S stor = (sw_callees S (sim_senderCreator stor) sim_supportsInterface)\<lparr>w_typed := sw_typed S (sim_domainSeparatorV4 stor)\<rparr>"

text \<open>
  \<open>validateSenderAndPaymaster\<close> always reverts, so its result is a message. The caller passes one on that is
  not empty.
\<close>

definition validateSenderAndPaymaster :: "'w ep_callees \<Rightarrow> bytes \<Rightarrow> address \<Rightarrow> bytes \<Rightarrow> 'w ep_state \<Rightarrow> string" where
  "validateSenderAndPaymaster W initCode sender paymasterAndData st =
     (if initCode = [] \<and> w_code W sender st = [] then ''AA20 account not deployed''
      else if 20 \<le> length paymasterAndData \<and> w_code W (of_nat (be_val (take 20 paymasterAndData))) st = []
      then ''AA30 paymaster not deployed''
      else [])"

definition simulationOnlyValidations :: "'w sim_world \<Rightarrow> PackedUserOperation \<Rightarrow> 'w ep_state \<Rightarrow> ep_error + 'w ep_callees" where
  "simulationOnlyValidations S op st =
     (let W = sim_callees S (initSenderCreator S);
          revertReason = validateSenderAndPaymaster W (po_initCode op) (po_sender op) (po_paymasterAndData op) st in
      if revertReason \<noteq> [] then Inl (FailedOp 0 revertReason) else Inr W)"

record StakeInfo =
  si_stake :: uint256
  si_unstakeDelaySec :: uint256

definition getStakeInfo :: "'w ep_state \<Rightarrow> address \<Rightarrow> StakeInfo" where
  "getStakeInfo st addr =
     \<lparr>si_stake = ucast (di_stake (deposits st addr)), si_unstakeDelaySec = ucast (di_unstakeDelaySec (deposits st addr))\<rparr>"

record ReturnInfo =
  ri_preOpGas :: uint256
  ri_prefund :: uint256
  ri_accountValidationData :: uint256
  ri_paymasterValidationData :: uint256
  ri_paymasterContext :: bytes

record ValidationResult =
  vr_returnInfo :: ReturnInfo
  vr_senderInfo :: StakeInfo
  vr_factoryInfo :: StakeInfo
  vr_paymasterInfo :: StakeInfo
  vr_aggregatorInfo :: "address \<times> StakeInfo"

definition simulateValidation ::
  "'w sim_world \<Rightarrow> op_gas \<Rightarrow> PackedUserOperation \<Rightarrow> 'w ep_state \<Rightarrow> ep_error + ValidationResult \<times> 'w ep_state" where
  "simulateValidation S g op st =
     bindE (simulationOnlyValidations S op st) (\<lambda>W.
     bindE (validatePrepayment W g 0 op st) (\<lambda>((validationData, paymasterValidationData, info), st1).
     let m = i_mUserOp info;
         factory = (if 20 \<le> length (po_initCode op) then of_nat (be_val (take 20 (po_initCode op))) else 0);
         aggregator = (ucast validationData :: address) in
     Inr (\<lparr>vr_returnInfo = \<lparr>ri_preOpGas = i_preOpGas info, ri_prefund = i_prefund info,
             ri_accountValidationData = validationData, ri_paymasterValidationData = paymasterValidationData,
             ri_paymasterContext = i_context info\<rparr>,
           vr_senderInfo = getStakeInfo st1 (m_sender m), vr_factoryInfo = getStakeInfo st1 factory,
           vr_paymasterInfo = getStakeInfo st1 (m_paymaster m),
           vr_aggregatorInfo = (if aggregator \<noteq> 0 \<and> aggregator \<noteq> 1 then (aggregator, getStakeInfo st1 aggregator)
             else (0, \<lparr>si_stake = 0, si_unstakeDelaySec = 0\<rparr>))\<rparr>, st1)))"

record ExecutionResult =
  er_preOpGas :: uint256
  er_paid :: uint256
  er_accountValidationData :: uint256
  er_paymasterValidationData :: uint256
  er_targetSuccess :: bool
  er_targetResult :: bytes

definition simulateHandleOp ::
  "'w sim_world \<Rightarrow> op_gas \<Rightarrow> PackedUserOperation \<Rightarrow> address \<Rightarrow> bytes \<Rightarrow> 'w ep_state \<Rightarrow> ep_error + ExecutionResult \<times> 'w ep_state" where
  "simulateHandleOp S g op target targetCallData st =
     (if ep_locked st then Inl ReentrancyGuardReentrantCall
      else
        let st0 = st\<lparr>ep_locked := True\<rparr> in
        bindE (simulationOnlyValidations S op st0) (\<lambda>W.
        bindE (validatePrepayment W g 0 op st0) (\<lambda>((validationData, paymasterValidationData, info), st1).
        bindE (executeUserOp W g 0 op info st1) (\<lambda>(paid, st2).
        let (targetSuccess, targetResult, st3) =
          (if target = 0 then (False, [], st2)
           else case sw_target S target targetCallData st2 of
               Inl ret \<Rightarrow> (False, ret, st2) | Inr (ret, st') \<Rightarrow> (True, ret, st')) in
        Inr (\<lparr>er_preOpGas = i_preOpGas info, er_paid = paid, er_accountValidationData = validationData,
               er_paymasterValidationData = paymasterValidationData, er_targetSuccess = targetSuccess,
               er_targetResult = targetResult\<rparr>, st3\<lparr>ep_locked := False\<rparr>)))))"

text \<open>
  The constructor refuses a chain with a past; \<open>depositTo\<close> wastes gas in a loop and then does what it
  overrides.
\<close>

definition simulations_constructor :: "nat \<Rightarrow> sol_error + unit" where
  "simulations_constructor blockNumber =
     (if blockNumber < 1000 then Inr () else Inl (RequireFailed ''should not be deployed''))"

function waste_gas :: "uint256 \<Rightarrow> uint256" where
  "waste_gas x = (if x < 5 then waste_gas (x + 1) else x)"
  by auto
termination
proof (relation "measure (\<lambda>x. 5 - unat x)")
  fix x :: uint256 assume l: "x < 5"
  then have "unat x < 5" by (simp add: word_less_nat_alt)
  moreover from this have "unat (x + 1) = unat x + 1" by (simp add: unat_word_ariths)
  ultimately show "(x + 1, x) \<in> measure (\<lambda>x. 5 - unat x)" by simp
qed simp

definition sim_depositTo :: "address \<Rightarrow> uint256 \<Rightarrow> 'w ep_state \<Rightarrow> 'w ep_state" where
  "sim_depositTo account msgValue st = (let _ = waste_gas 1 in depositTo account msgValue st)"

section \<open>The deployed contract\<close>

text \<open>
  The address that the EVM gives to a contract made with \<open>new\<close>: the hash of the RLP list of its creator and
  the creator's nonce, for strings and lists below 56 bytes. A contract starts with nonce 1, so this is the
  address of the SenderCreator that the constructor of the EntryPoint deploys.
\<close>

definition rlp_string :: "bytes \<Rightarrow> bytes" where
  "rlp_string bs = (if length bs = 1 \<and> hd bs < 0x80 then bs else of_nat (0x80 + length bs) # bs)"

definition rlp_list :: "bytes list \<Rightarrow> bytes" where
  "rlp_list items = (let payload = concat (map rlp_string items) in of_nat (0xc0 + length payload) # payload)"

definition create_address :: "(bytes \<Rightarrow> uint256) \<Rightarrow> address \<Rightarrow> bytes \<Rightarrow> address" where
  "create_address keccak creator nonce = ucast (keccak (rlp_list [be_bytes 20 (unat creator), nonce]))"

text \<open>
  The EntryPoint at the same address; \<open>supports\<close> are the interfaces of the deployed code, \<open>separator\<close> is what the
  EIP-712 library has for it.
\<close>

definition entry_point_callees :: "'w sim_world \<Rightarrow> (bytes \<Rightarrow> bool) \<Rightarrow> uint256 \<Rightarrow> 'w ep_callees" where
  "entry_point_callees S supports separator =
     (sw_callees S (create_address (sw_keccak S) (sw_this S) [1]) supports)\<lparr>w_typed := sw_typed S separator\<rparr>"

lemma simulated_callees:
  "sim_callees S (initSenderCreator S)
     = entry_point_callees S sim_supportsInterface (buildDomainSeparator (sw_keccak S) (sw_chainid S) (sw_this S))"
  by (simp add: sim_callees_def initSenderCreator_def entry_point_callees_def create_address_def rlp_list_def rlp_string_def Let_def
      del: be_bytes.simps)

text \<open>The contracts around the EntryPoint answer the same whatever interfaces it says it supports.\<close>

definition interfaces_unused :: "'w sim_world \<Rightarrow> bool" where
  "interfaces_unused S \<longleftrightarrow> (\<forall>creator s s'. sw_callees S creator s = sw_callees S creator s')"

lemma deployed_callees:
  assumes "interfaces_unused S"
  shows "sim_callees S (initSenderCreator S)
     = entry_point_callees S supports (buildDomainSeparator (sw_keccak S) (sw_chainid S) (sw_this S))"
proof -
  have "sw_callees S creator sim_supportsInterface = sw_callees S creator supports" for creator
    using assms unfolding interfaces_unused_def by blast
  then show ?thesis by (simp add: simulated_callees entry_point_callees_def)
qed

text \<open>
  What the EVM does for a call of an address while it has no code: it succeeds with no return data. The
  addresses of the precompiled contracts are the exception.
\<close>

definition silent_without_code :: "'w ep_callees \<Rightarrow> address \<Rightarrow> bool" where
  "silent_without_code W a \<longleftrightarrow> (\<forall>g op h m st. w_code W a st = [] \<longrightarrow>
     w_validateUserOp W a g op h m st = Inr ([], st) \<and> w_validatePaymasterUserOp W a g op h m st = Inr ([], st))"

definition paymaster_of :: "PackedUserOperation \<Rightarrow> address" where
  "paymaster_of op = of_nat (be_val (take 20 (po_paymasterAndData op)))"

text \<open>The validation of an operation whose account has no code, and nothing to create it, fails.\<close>

lemma not_deployed_fails:
  assumes "silent_without_code W (po_sender op)" and "po_initCode op = []" and "w_code W (po_sender op) st = []"
  shows "\<exists>e. validatePrepayment W g i op st = Inl e"
proof (cases "validatePrepayment W g i op st")
  case (Inr r)
  then obtain vd pvd info st' where v: "validatePrepayment W g i op st = Inr ((vd, pvd, info), st')"
    by (metis prod.collapse)
  then show ?thesis
  proof (rule validatePrepayment_parts)
    fix m h info0 st1 st2 st3 missing
    assume p: "copyUserOpToMemory op = Inr m" "i_mUserOp info0 = m"
      "createSenderIfNeeded W i info0 (po_initCode op) st = Inr st1" "callValidateUserOp W i op info0 missing st1 = Inr (vd, st2)"
    have "st1 = st" using p(3) assms(2) by (simp add: createSenderIfNeeded_def Let_def)
    moreover have "m_sender m = po_sender op" using copyUserOpToMemory_fields[OF p(1)] by simp
    ultimately have False
      using p(2,4) assms(1,3) by (simp add: callValidateUserOp_def silent_without_code_def Let_def)
    then show ?thesis ..
  qed
qed blast

text \<open>One whose paymaster has no code is accepted only when the code is there by the time of the call.\<close>

lemma copied_paymaster:
  "copyUserOpToMemory op = Inr m \<Longrightarrow> po_paymasterAndData op \<noteq> []
     \<Longrightarrow> m_paymaster m \<noteq> 0 \<and> m_paymaster m = of_nat (be_val (take 20 (po_paymasterAndData op)))"
  by (auto simp: copyUserOpToMemory_def unpackPaymasterStaticFields_def PAYMASTER_VALIDATION_GAS_OFFSET_def slice_def Let_def bindE_Inr_iff split: if_splits)

lemma paymaster_appears:
  assumes "silent_without_code W (paymaster_of op)" and "memory_word (w_memory W) 0 \<noteq> 64" and "20 \<le> length (po_paymasterAndData op)"
    and v: "validatePrepayment W g i op st = Inr ((vd, pvd, info), st')"
  shows "\<exists>st1 gl h c ret. w_code W (paymaster_of op) st1 \<noteq> []
    \<and> w_validatePaymasterUserOp W (paymaster_of op) gl op h c st1 = Inr (ret, st')"
  using v
proof (rule validatePrepayment_parts)
  fix m h info0 st1 st2 st3 missing
  assume m: "copyUserOpToMemory op = Inr m" "i_mUserOp info0 = m"
    and p: "if m_paymaster m = 0 then st' = st3 else \<exists>r. validatePaymasterPrepayment W g i op info0 st3 = Inr (r, st')"
  let ?pm = "paymaster_of op"
  have "po_paymasterAndData op \<noteq> []" using assms(3) by auto
  then have pm: "m_paymaster m \<noteq> 0" "m_paymaster m = ?pm" unfolding paymaster_of_def using copied_paymaster[OF m(1)] by blast+
  with p obtain r s1 where c: "callValidatePaymasterUserOp W i op info0 s1 = Inr (r, st')"
    by (auto simp: validatePaymasterPrepayment_def Let_def bindE_Inr_iff split: prod.splits if_splits)
  let ?call = "w_validatePaymasterUserOp W ?pm (m_paymasterVerificationGasLimit m) op (i_userOpHash info0) (i_prefund info0)"
  obtain ret where w: "?call s1 = Inr (ret, st')" and ok: "memory_word (ret @ w_memory W) 0 = 64"
    using c by (auto simp: callValidatePaymasterUserOp_def m(2) pm(2) Let_def split: if_splits sum.splits)
  have "w_code W ?pm s1 \<noteq> []"
  proof
    assume "w_code W ?pm s1 = []"
    with assms(1) have "?call s1 = Inr ([], s1)" by (simp add: silent_without_code_def)
    with w ok assms(2) show False by simp
  qed
  with w show ?thesis by blast
qed

text \<open>
  C13. The verdict of the simulation is that of the EntryPoint, with one exception. On the same state
  \<open>simulateValidation\<close> accepts an operation only when the validation of \<open>handleOps\<close> does, and then returns its
  validation data, prefund, gas and context and makes the same changes; so the SenderCreator and the domain separator
  that it makes up are the real ones. It refuses an operation that \<open>handleOps\<close> accepts in one case only: the
  paymaster has no code before and is created during the validation itself, and the refusal says that it is not
  deployed. The hypotheses are the behaviour of the EIP-712 library and of fresh memory, that sender and paymaster are no
  precompiled contracts, and that no contract asks the EntryPoint for its interfaces, which differ.
\<close>

theorem simulation_agrees:
  assumes "W = entry_point_callees S supports separator"
    and "separator = buildDomainSeparator (sw_keccak S) (sw_chainid S) (sw_this S)" and "interfaces_unused S"
    and "silent_without_code W (po_sender op)" and "silent_without_code W (paymaster_of op)"
    and "memory_word (w_memory W) 0 \<noteq> 64"
  shows "case simulateValidation S g op st of
      Inr (res, st') \<Rightarrow> (\<exists>info. validatePrepayment W g 0 op st
          = Inr ((ri_accountValidationData (vr_returnInfo res), ri_paymasterValidationData (vr_returnInfo res), info), st')
        \<and> vr_returnInfo res = \<lparr>ri_preOpGas = i_preOpGas info, ri_prefund = i_prefund info,
            ri_accountValidationData = ri_accountValidationData (vr_returnInfo res),
            ri_paymasterValidationData = ri_paymasterValidationData (vr_returnInfo res), ri_paymasterContext = i_context info\<rparr>)
    | Inl e \<Rightarrow> (case validatePrepayment W g 0 op st of
        Inl _ \<Rightarrow> True
      | Inr (_, st') \<Rightarrow> e = FailedOp 0 ''AA30 paymaster not deployed'' \<and> w_code W (paymaster_of op) st = []
          \<and> (\<exists>st1 gl h c ret. w_code W (paymaster_of op) st1 \<noteq> []
            \<and> w_validatePaymasterUserOp W (paymaster_of op) gl op h c st1 = Inr (ret, st')))"
proof -
  have W: "sim_callees S (initSenderCreator S) = W" by (simp add: deployed_callees[OF assms(3)] assms(1,2))
  let ?msg = "validateSenderAndPaymaster W (po_initCode op) (po_sender op) (po_paymasterAndData op) st"
  consider (accept) "?msg = []" | (sender) "?msg \<noteq> []" "po_initCode op = []" "w_code W (po_sender op) st = []"
    | (paymaster) "?msg = ''AA30 paymaster not deployed''" "20 \<le> length (po_paymasterAndData op)"
        "w_code W (paymaster_of op) st = []"
    unfolding validateSenderAndPaymaster_def paymaster_of_def[symmetric]
    by (cases "po_initCode op = [] \<and> w_code W (po_sender op) st = []", simp,
        cases "20 \<le> length (po_paymasterAndData op) \<and> w_code W (paymaster_of op) st = []", auto)
  then show ?thesis
  proof cases
    case accept
    then have s: "simulationOnlyValidations S op st = Inr W" by (simp add: simulationOnlyValidations_def W Let_def)
    show ?thesis
      by (cases "validatePrepayment W g 0 op st") (auto simp: simulateValidation_def s Let_def split: prod.splits)
  next
    case sender
    obtain e where "validatePrepayment W g 0 op st = Inl e" using not_deployed_fails[OF assms(4) sender(2,3)] by blast
    with sender(1) show ?thesis by (simp add: simulateValidation_def simulationOnlyValidations_def W Let_def)
  next
    case paymaster
    then have s: "simulateValidation S g op st = Inl (FailedOp 0 ''AA30 paymaster not deployed'')"
      by (simp add: simulateValidation_def simulationOnlyValidations_def W Let_def)
    show ?thesis
    proof (cases "validatePrepayment W g 0 op st")
      case (Inl e)
      with s show ?thesis by simp
    next
      case (Inr r)
      then obtain vd pvd info st' where v: "validatePrepayment W g 0 op st = Inr ((vd, pvd, info), st')" by (metis prod.collapse)
      from paymaster_appears[OF assms(5,6) paymaster(2) v] paymaster(3) show ?thesis by (simp add: s v)
    qed
  qed
qed

text \<open>
  The simulation executes what the EntryPoint refuses. \<open>simulateHandleOp\<close> runs an operation whose account
  rejected the signature, or names an aggregator, to the end; on the same state every bundle that starts
  with this operation reverts with \<open>AA24 signature error\<close>.
\<close>

theorem simulation_skips_signature:
  assumes "W = entry_point_callees S supports separator"
    and "separator = buildDomainSeparator (sw_keccak S) (sw_chainid S) (sw_this S)" and "interfaces_unused S"
    and "simulateHandleOp S g op target data st = Inr (res, st')" and "(ucast (er_accountValidationData res) :: address) \<noteq> 0"
  shows "handleOps W ((op, g) # ops) beneficiary st = Inl (FailedOp 0 ''AA24 signature error'')"
proof -
  have W: "sim_callees S (initSenderCreator S) = W" by (simp add: deployed_callees[OF assms(3)] assms(1,2))
  have u: "\<not> ep_locked st" using assms(4) by (simp add: simulateHandleOp_def split: if_splits)
  obtain vd pvd info st1 where v: "validatePrepayment W g 0 op (st\<lparr>ep_locked := True\<rparr>) = Inr ((vd, pvd, info), st1)"
    and d: "er_accountValidationData res = vd"
    using assms(4)
    by (auto simp: simulateHandleOp_def simulationOnlyValidations_def W Let_def bindE_Inr_iff split: if_splits prod.splits sum.splits)
  have "vd \<noteq> 0" using assms(5) d by auto
  then have "fst (getValidationData (w_timestamp W) vd) \<noteq> 0"
    using assms(5) by (simp add: getValidationData_def parseValidationData_def Let_def d)
  then have "validateAccountAndPaymasterValidationData 0 (w_timestamp W) vd pvd 0 = Inl (FailedOp 0 ''AA24 signature error'')"
    by (auto simp: validateAccountAndPaymasterValidationData_def Let_def split: prod.splits)
  with v u show ?thesis by (simp add: handleOps_def)
qed

section \<open>Instances\<close>

text \<open>The EntryPoint of the earlier instances, simulated.\<close>

definition demo_sim :: "unit chain sim_world" where
  "demo_sim = \<lparr>sw_this = 0xE7, sw_chainid = 1, sw_keccak = (\<lambda>bs. 0), sw_typed = (\<lambda>separator h. h), sw_callees = (\<lambda>a s. demo_W),
     sw_target = (\<lambda>a d st. Inl [])\<rparr>"

lemma demo_sim_callees: "entry_point_callees demo_sim supports separator = demo_W"
  by (simp add: entry_point_callees_def demo_sim_def demo_W_def id_def)

lemma demo_sim_ok: "interfaces_unused demo_sim" "silent_without_code demo_W a" "silent_without_code demo_W b"
  "memory_word (w_memory demo_W) 0 \<noteq> 64"
proof -
  show "interfaces_unused demo_sim" by (simp add: interfaces_unused_def demo_sim_def)
  show "silent_without_code demo_W a" "silent_without_code demo_W b" by (simp_all add: silent_without_code_def demo_W_def)
  have "memory_word (w_memory demo_W) 0 = of_nat (be_val (be_bytes 32 0))"
    by (simp add: memory_word_def demo_W_def be_bytes_zero del: be_bytes.simps)
  then show "memory_word (w_memory demo_W) 0 \<noteq> 64" by (simp add: be_val_be_bytes)
qed

lemma demo_W_code: "w_code demo_W a st = [0x60]"
  by (simp add: demo_W_def)

lemma demo_simulation_only: "simulationOnlyValidations demo_sim demo_bundled st = Inr demo_W"
  by (simp add: simulationOnlyValidations_def simulated_callees demo_sim_callees validateSenderAndPaymaster_def demo_bundled_def
      demo_op_def demo_W_code Let_def)

theorem simulation_agrees_witness:
  "\<exists>res st'. simulateValidation demo_sim demo_gas demo_bundled ((demo_ep demo_account)\<lparr>ep_locked := True\<rparr>) = Inr (res, st')
    \<and> (\<exists>info. validatePrepayment demo_W demo_gas 0 demo_bundled ((demo_ep demo_account)\<lparr>ep_locked := True\<rparr>)
        = Inr ((ri_accountValidationData (vr_returnInfo res), ri_paymasterValidationData (vr_returnInfo res), info), st')
      \<and> ri_prefund (vr_returnInfo res) = i_prefund info)"
proof -
  let ?sep = "buildDomainSeparator (sw_keccak demo_sim) (sw_chainid demo_sim) (sw_this demo_sim)"
  let ?st = "(demo_ep demo_account)\<lparr>ep_locked := True\<rparr>"
  have "demo_W = entry_point_callees demo_sim supports ?sep" for supports by (simp add: demo_sim_callees)
  note agrees = simulation_agrees[where op = demo_bundled and g = demo_gas and st = ?st, OF this refl demo_sim_ok]
  obtain res st' where s: "simulateValidation demo_sim demo_gas demo_bundled ?st = Inr (res, st')"
    by (simp add: simulateValidation_def demo_simulation_only demo_validate Let_def)
  from agrees[unfolded s] obtain info where "validatePrepayment demo_W demo_gas 0 demo_bundled ?st
      = Inr ((ri_accountValidationData (vr_returnInfo res), ri_paymasterValidationData (vr_returnInfo res), info), st')"
    "vr_returnInfo res = \<lparr>ri_preOpGas = i_preOpGas info, ri_prefund = i_prefund info,
        ri_accountValidationData = ri_accountValidationData (vr_returnInfo res),
        ri_paymasterValidationData = ri_paymasterValidationData (vr_returnInfo res), ri_paymasterContext = i_context info\<rparr>"
    by auto
  then have "ri_prefund (vr_returnInfo res) = i_prefund info" by (metis ReturnInfo.select_convs(2))
  with s \<open>validatePrepayment _ _ _ _ _ = _\<close> show ?thesis by blast
qed

text \<open>An account that deploys its paymaster while it is validated; the world says whether it is there.\<close>

definition late_W :: "bool ep_callees" where
  "late_W = \<lparr>w_this = 0xE7, w_code = (\<lambda>a st. if a = 0xFA \<and> \<not> ep_world st then [] else [0x60]), w_hash = (\<lambda>bs. 0),
     w_typehash = 0, w_typed = (\<lambda>h. h), w_memory = [], w_timestamp = 1800000000, w_basefee = 1, w_factory = (\<lambda>a d st. Inl []),
     w_initSender = (\<lambda>a d st. Inl []),
     w_validateUserOp = (\<lambda>a g op h m st. if a = 0xFA \<and> \<not> ep_world st then Inr ([], st) else Inr (be_bytes 32 0, st\<lparr>ep_world := True\<rparr>)),
     w_validatePaymasterUserOp = (\<lambda>a g op h m st. if a = 0xFA \<and> \<not> ep_world st then Inr ([], st)
       else Inr (be_bytes 32 64 @ be_bytes 32 0 @ be_bytes 32 32 @ be_bytes 32 0xACC, st)),
     w_exec = (\<lambda>a d g st. Inr ([], st)), w_executeUserOp = (\<lambda>a op h g st. Inl []),
     w_postOp = (\<lambda>a g mode context cost fee st. Inl []), w_receive = (\<lambda>a v st. Inr ([], st)),
     w_validateSignatures = (\<lambda>a ops sg st. True)\<rparr>"

definition late_sim :: "bool sim_world" where
  "late_sim = \<lparr>sw_this = 0xE7, sw_chainid = 1, sw_keccak = (\<lambda>bs. 0), sw_typed = (\<lambda>separator h. h), sw_callees = (\<lambda>a s. late_W),
     sw_target = (\<lambda>a d st. Inl [])\<rparr>"

definition late_op :: PackedUserOperation where
  "late_op = demo_bundled\<lparr>po_paymasterAndData := be_bytes 20 0xFA @ be_bytes 16 50000 @ be_bytes 16 150000\<rparr>"

definition late_st :: "bool ep_state" where
  "late_st = \<lparr>deposits = (\<lambda>b. if b = 0xFA then no_deposit\<lparr>di_deposit := 1000000000000000000\<rparr> else no_deposit),
     nonceSequenceNumber = (\<lambda>b k. 0), ep_locked = False, ep_balance = 10000000000000000000, ep_events = [], ep_world = False\<rparr>"

lemma memory_word_at:
  "length pre = i \<Longrightarrow> n < 256 ^ 32 \<Longrightarrow> memory_word (pre @ be_bytes 32 n @ post) i = of_nat n"
  by (simp add: memory_word_def be_val_be_bytes)

text \<open>The simulation refuses its operation, which the EntryPoint accepts.\<close>

lemma paymaster_deployed_late:
  "silent_without_code late_W a"
  "simulateValidation late_sim demo_gas late_op late_st = Inl (FailedOp 0 ''AA30 paymaster not deployed'')"
  "\<exists>r. validatePrepayment late_W demo_gas 0 late_op late_st = Inr r"
proof -
  show "silent_without_code late_W a" by (simp add: silent_without_code_def late_W_def)
  have W: "entry_point_callees late_sim supports separator = late_W" for supports separator
    by (simp add: entry_point_callees_def late_sim_def late_W_def)
  have pm: "length (po_paymasterAndData late_op) = 52" "of_nat (be_val (take 20 (po_paymasterAndData late_op))) = (0xFA :: address)"
    by (simp_all add: late_op_def be_val_be_bytes del: be_bytes.simps)
  have code: "w_code late_W 0xFA late_st = []" "w_code late_W 0xACC st = [0x60]" for st
    by (simp_all add: late_W_def late_st_def)
  have f: "po_sender late_op = 0xACC" "po_initCode late_op = []" by (simp_all add: late_op_def demo_bundled_def demo_op_def)
  show "simulateValidation late_sim demo_gas late_op late_st = Inl (FailedOp 0 ''AA30 paymaster not deployed'')"
    by (simp add: simulateValidation_def simulationOnlyValidations_def simulated_callees W validateSenderAndPaymaster_def pm code f)
  define m where "m = demo_mem\<lparr>m_paymaster := 0xFA, m_paymasterVerificationGasLimit := 50000, m_paymasterPostOpGasLimit := 150000\<rparr>"
  have "po_paymasterAndData late_op \<noteq> []" using pm(1) by auto
  then have c: "copyUserOpToMemory late_op = Inr m"
    by (simp add: copyUserOpToMemory_def late_op_def m_def demo_bundled_def demo_op_def demo_mem_def demo_unpack Let_def
        PAYMASTER_DATA_OFFSET_def unpackPaymasterStaticFields_def PAYMASTER_VALIDATION_GAS_OFFSET_def PAYMASTER_POSTOP_GAS_OFFSET_def
        slice_def be_val_be_bytes del: be_bytes.simps)
  have h: "getUserOpHash_sol late_W late_op late_st = Inr 0"
    by (simp add: getUserOpHash_sol_def getEip7702InitCodeHashOverride_def isEip7702InitCode_sol_def f late_W_def hash_def)
  have g: "\<not> 2 ^ 120 - 1 < maxGasValues m" by (simp add: maxGasValues_def m_def demo_mem_def)
  have pf: "getRequiredPrefund m = 3510000" by (simp add: getRequiredPrefund_def m_def demo_mem_def)
  define info where "info = \<lparr>i_mUserOp = m, i_userOpHash = 0, i_prefund = 3510000, i_context = [], i_preOpGas = 0\<rparr>"
  let ?s1 = "late_st\<lparr>ep_world := True\<rparr>" and ?s2 = "set_nonce 0xACC 0 1 (late_st\<lparr>ep_world := True\<rparr>)"
  have i: "i_mUserOp info = m" "i_prefund info = 3510000" "m_sender m = 0xACC" "m_paymaster m = 0xFA" "m_nonce m = 0"
    "\<not> m_verificationGasLimit m < og_account demo_gas" "\<not> m_paymasterVerificationGasLimit m < og_paymaster demo_gas"
    by (simp_all add: info_def m_def demo_mem_def demo_gas_def)
  have "createSenderIfNeeded late_W 0 info [] late_st = Inr late_st" by (simp add: createSenderIfNeeded_def Let_def)
  moreover have "callValidateUserOp late_W 0 late_op info 0 late_st = Inr (0, ?s1)"
    by (simp add: callValidateUserOp_def i late_W_def Let_def be_val_be_bytes)
  ultimately have a: "validateAccountPrepayment late_W 0 late_op info 3510000 late_st = Inr (0, ?s1)"
    by (simp add: validateAccountPrepayment_def i f Let_def)
  have n: "validateAndUpdateNonce 0xACC 0 ?s1 = Inr (True, ?s2)"
    by (simp add: validateAndUpdateNonce_def incrementNonce_def Let_def nonce_key_def nonce_seq_def late_st_def)
  have w: "w_validatePaymasterUserOp late_W 0xFA gl op h c st
      = Inr (be_bytes 32 64 @ be_bytes 32 0 @ be_bytes 32 32 @ be_bytes 32 0xACC, st)" if "ep_world st" for gl op h c st
    using that by (simp add: late_W_def)
  have "w_memory late_W = []" by (simp add: late_W_def)
  then have "\<exists>r. callValidatePaymasterUserOp late_W 0 late_op info st = Inr (r, st)" if "ep_world st" for st
    using that w memory_word_at[of "[]" 0 64 "be_bytes 32 0 @ be_bytes 32 32 @ be_bytes 32 0xACC"]
      memory_word_at[of "be_bytes 32 64 @ be_bytes 32 0" 64 32 "be_bytes 32 0xACC"]
    by (simp add: callValidatePaymasterUserOp_def i Let_def del: be_bytes.simps)
  moreover have "tryDecrementDeposit 0xFA 3510000 ?s2 = (True, set_info 0xFA ((deposits ?s2 0xFA)\<lparr>di_deposit := 999999999996490000\<rparr>) ?s2)"
    by (simp add: tryDecrementDeposit_def late_st_def set_nonce_def no_deposit_def Let_def)
  ultimately obtain r st' where "validatePaymasterPrepayment late_W demo_gas 0 late_op info ?s2 = Inr (r, st')"
    using i by (force simp: validatePaymasterPrepayment_def set_info_def set_nonce_def Let_def)
  with a n c h g show "\<exists>r. validatePrepayment late_W demo_gas 0 late_op late_st = Inr r"
    by (cases r) (simp add: validatePrepayment_def sol_def pf Let_def i flip: info_def)
qed

text \<open>An account that rejects every signature.\<close>

definition reject_W :: "unit chain ep_callees" where
  "reject_W = demo_W\<lparr>w_validateUserOp := (\<lambda>a g op h m st. Inr (be_bytes 32 1, st))\<rparr>"

definition reject_sim :: "unit chain sim_world" where
  "reject_sim = demo_sim\<lparr>sw_callees := (\<lambda>a s. reject_W)\<rparr>"

lemma reject_sim_callees: "entry_point_callees reject_sim supports separator = reject_W"
  by (simp add: entry_point_callees_def reject_sim_def demo_sim_def reject_W_def demo_W_def id_def)

lemma reject_validate:
  "validatePrepayment reject_W demo_gas 0 demo_bundled ((demo_ep demo_account)\<lparr>ep_locked := True\<rparr>)
    = Inr ((1, 0, demo_info), set_nonce 0xACC 0 1 (demo_paid demo_account))"
proof -
  let ?st = "(demo_ep demo_account)\<lparr>ep_locked := True\<rparr>"
  have g: "\<not> 2 ^ 120 - 1 < maxGasValues demo_mem" using demo_max by simp
  have h: "getUserOpHash_sol reject_W demo_bundled st = Inr 0" for st
    using demo_hash[of st] by (simp add: getUserOpHash_sol_def reject_W_def)
  have a: "validateAccountPrepayment reject_W 0 demo_bundled info 1510000 ?st = Inr (1, demo_paid demo_account)"
    if "i_mUserOp info = demo_mem" for info
  proof -
    have d: "deposits (demo_ep demo_account) 0xACC = no_deposit\<lparr>di_deposit := 1000000000000000000\<rparr>"
      by (simp add: demo_ep_def set_info_def)
    have "createSenderIfNeeded reject_W 0 info [] st = Inr st" for st by (simp add: createSenderIfNeeded_def Let_def)
    moreover have "callValidateUserOp reject_W 0 demo_bundled info 0 st = Inr (1, st)" for st
      by (simp add: callValidateUserOp_def reject_W_def Let_def be_val_be_bytes)
    moreover have "tryDecrementDeposit 0xACC 1510000 ?st = (True, demo_paid demo_account)"
      by (simp add: tryDecrementDeposit_def d Let_def demo_paid_def no_deposit_def)
    moreover have "po_initCode demo_bundled = []" by (simp add: demo_bundled_def demo_op_def)
    ultimately show ?thesis
      using d that by (simp add: validateAccountPrepayment_def Let_def demo_mem_def balanceOf_def)
  qed
  show ?thesis
    using a demo_nonce g
    by (simp add: validatePrepayment_def demo_copy h demo_ep_prefund sol_def Let_def, simp add: demo_mem_def demo_gas_def demo_info_def
        demo_bundled_def)
qed

theorem simulation_skips_signature_witness:
  "\<exists>res st'. simulateHandleOp reject_sim demo_gas demo_bundled 0 [] (demo_ep demo_account) = Inr (res, st')
    \<and> handleOps reject_W [(demo_bundled, demo_gas)] 0xB0B (demo_ep demo_account) = Inl (FailedOp 0 ''AA24 signature error'')"
proof -
  let ?sep = "buildDomainSeparator (sw_keccak reject_sim) (sw_chainid reject_sim) (sw_this reject_sim)"
  have W: "reject_W = entry_point_callees reject_sim supports ?sep" for supports by (simp add: reject_sim_callees)
  have so: "simulationOnlyValidations reject_sim demo_bundled st = Inr reject_W" for st
    by (simp add: simulationOnlyValidations_def simulated_callees reject_sim_callees validateSenderAndPaymaster_def demo_bundled_def
        demo_op_def reject_W_def demo_W_code Let_def)
  have "\<not> og_inner_left demo_gas * 63 div 64 < m_callGasLimit (i_mUserOp demo_info)
      + m_paymasterPostOpGasLimit (i_mUserOp demo_info) + INNER_GAS_OVERHEAD"
    by (simp add: demo_gas_def demo_info_def demo_mem_def INNER_GAS_OVERHEAD_def)
  then obtain c st2 where x: "executeUserOp reject_W demo_gas 0 demo_bundled demo_info (set_nonce 0xACC 0 1 (demo_paid demo_account))
      = Inr (c, st2)"
    by (rule executeUserOp_returns)
  have "\<not> ep_locked (demo_ep demo_account)" by (simp add: demo_ep_def demo_empty_def set_info_def)
  then obtain res st' where s: "simulateHandleOp reject_sim demo_gas demo_bundled 0 [] (demo_ep demo_account) = Inr (res, st')"
    and d: "er_accountValidationData res = 1"
    by (simp add: simulateHandleOp_def so reject_validate x Let_def)
  have "interfaces_unused reject_sim" by (simp add: interfaces_unused_def reject_sim_def demo_sim_def)
  from simulation_skips_signature[OF W refl this s] d s show ?thesis by auto
qed

end
