(* ===== verification/Deployment.thy ===== *)
theory Deployment
  imports Entry_Point_Simulations
begin

text \<open>
  The contracts brought together: the paymaster's functions on the state of the EntryPoint
  (\<open>core/BasePaymaster.sol\<close>), the functions of \<open>core/EntryPoint.sol\<close> that only answer, and the script
  \<open>script/Deploy.s.sol\<close> that deploys and connects everything.
\<close>

section \<open>The functions of the EntryPoint that only answer\<close>

text \<open>\<open>getSenderAddress\<close> and \<open>delegateAndRevert\<close> always revert; the answer is the error.\<close>

datatype answer = SenderAddressResult address | DelegateAndRevert bool bytes | BubbledRevert bytes

definition getSenderAddress :: "'w ep_callees \<Rightarrow> bytes \<Rightarrow> 'w ep_state \<Rightarrow> answer" where
  "getSenderAddress W initCode st =
     (if length initCode < 20 then BubbledRevert []
      else let (sender, _) = createSender W initCode st in SenderAddressResult sender)"

definition delegateAndRevert ::
  "(address \<Rightarrow> bytes \<Rightarrow> 'w ep_state \<Rightarrow> 'w call_result) \<Rightarrow> address \<Rightarrow> bytes \<Rightarrow> 'w ep_state \<Rightarrow> answer" where
  "delegateAndRevert delegatecall target data st =
     (case delegatecall target data st of
        Inl ret \<Rightarrow> DelegateAndRevert False ret | Inr (ret, _) \<Rightarrow> DelegateAndRevert True ret)"

text \<open>The selectors of the interfaces, in the order of their functions.\<close>

definition IEntryPoint_selectors :: "bytes list" where
  "IEntryPoint_selectors = [[0x76, 0x5e, 0x82, 0x7f], [0xdb, 0xed, 0x18, 0xe0], [0x22, 0xcd, 0xde, 0x4c],
     [0x9b, 0x24, 0x9f, 0x69], [0x85, 0x0a, 0xaf, 0x62], [0x09, 0xcc, 0xb8, 0x80]]"

definition IStakeManager_selectors :: "bytes list" where
  "IStakeManager_selectors = [[0x52, 0x87, 0xce, 0x12], balanceOf_selector, depositTo_selector, [0x03, 0x96, 0xcb, 0x60],
     [0xbb, 0x9f, 0xe6, 0xbf], [0xc2, 0x3a, 0x5c, 0xea], withdrawTo_selector]"

definition INonceManager_selectors :: "bytes list" where
  "INonceManager_selectors = [getNonce_selector, [0x0b, 0xd2, 0x8e, 0x3b]]"

definition xor_bytes :: "bytes \<Rightarrow> bytes \<Rightarrow> bytes" where
  "xor_bytes a b = map2 (xor) a b"

definition ep_supportsInterface :: "bytes \<Rightarrow> bool" where
  "ep_supportsInterface i \<longleftrightarrow>
     i = xor_bytes (xor_bytes (interfaceId IEntryPoint_selectors) (interfaceId IStakeManager_selectors))
           (interfaceId INonceManager_selectors)
     \<or> i = interfaceId IEntryPoint_selectors
     \<or> i = interfaceId IStakeManager_selectors
     \<or> i = interfaceId INonceManager_selectors
     \<or> i = interfaceId [supportsInterface_selector]"

section \<open>The paymaster at the EntryPoint\<close>

text \<open>
  The constructor asks the EntryPoint for its interface; the owner is what \<open>Ownable2Step\<close> of the library
  says it is. The calls that the paymaster forwards are made in its own name.
\<close>

definition paymaster_constructor ::
  "(address \<Rightarrow> bytes \<Rightarrow> bool) \<Rightarrow> msg_ctx \<Rightarrow> address \<Rightarrow> address \<Rightarrow> uint256 \<Rightarrow> sol_error + paymaster" where
  "paymaster_constructor supportsInterface ctx this ep rate =
     (if \<not> supportsInterface ep (interfaceId IEntryPoint_selectors)
      then Inl (RequireFailed ''IEntryPoint interface mismatch'')
      else Inr \<lparr>pm_this = this, pm_entryPoint = ep, pm_owner = msg_sender ctx, pm_usdcPerEth = rate\<rparr>)"

fun ep_perform ::
  "'w ep_callees \<Rightarrow> address \<Rightarrow> entry_point_call \<Rightarrow> 'w ep_state \<Rightarrow> sol_error + 'w ep_state" where
  "ep_perform W sender (DepositTo a v) st = Inr (depositTo a v (receive_ether v st))"
| "ep_perform W sender (WithdrawTo to v) st = withdrawTo_ext W sender to v st"
| "ep_perform W sender (AddStake d v) st = addStake sender v d (receive_ether v st)"
| "ep_perform W sender UnlockStake st = unlockStake sender (w_timestamp W) st"
| "ep_perform W sender (WithdrawStake to) st = withdrawStake_ext W sender to st"
| "ep_perform W sender (BalanceOf a) st = Inr st"

section \<open>The script\<close>

text \<open>The variables of the environment, each with or without a value.\<close>

record deploy_env =
  PRIVATE_KEY :: "uint256 option"
  VAULT_OWNER :: "address option"
  DAILY_ETH_LIMIT :: "uint256 option"
  MONTHLY_ETH_LIMIT :: "uint256 option"
  DAILY_USDC_LIMIT :: "uint256 option"
  MONTHLY_USDC_LIMIT :: "uint256 option"
  USDC_PER_ETH :: "uint256 option"
  PAYMASTER_DEPOSIT :: "uint256 option"

definition envOr :: "'a option \<Rightarrow> 'a \<Rightarrow> 'a" where
  "envOr v d = (case v of None \<Rightarrow> d | Some x \<Rightarrow> x)"

lemma envOr_simps [simp]: "envOr None d = d" "envOr (Some x) d = x"
  by (simp_all add: envOr_def)

text \<open>
  The chain before the script: the nonce of each key, the ether of each address and the accounts there are.
  \<open>dw_addr\<close> is \<open>vm.addr\<close>. Gas is left out of the balances.
\<close>

record deploy_world =
  dw_chainid :: uint256
  dw_timestamp :: uint256
  dw_addr :: "uint256 \<Rightarrow> address"
  dw_keccak :: "bytes \<Rightarrow> bytes"
  dw_creationCode :: bytes
  dw_nonce :: "address \<Rightarrow> nat"
  dw_ether :: "address \<Rightarrow> uint256"
  dw_accounts :: "address \<rightharpoonup> account"

record 'w deployed =
  d_entryPoint :: address
  d_state :: "'w ep_state"
  d_paymaster :: paymaster
  d_factory :: factory
  d_account :: address
  d_accounts :: "address \<rightharpoonup> account"

text \<open>The address of the contract that a key's \<open>n\<close>-th transaction creates, and a contract without a past.\<close>

definition nonce_bytes :: "nat \<Rightarrow> bytes" where
  "nonce_bytes n = dropWhile (\<lambda>b. b = 0) (be_bytes 8 n)"

definition new_address :: "deploy_world \<Rightarrow> address \<Rightarrow> nat \<Rightarrow> address" where
  "new_address D creator n = create_address (\<lambda>bs. of_nat (be_val (dw_keccak D bs))) creator (nonce_bytes n)"

definition new_entry_point :: "uint256 \<Rightarrow> 'w \<Rightarrow> 'w ep_state" where
  "new_entry_point ether w =
     \<lparr>deposits = (\<lambda>_. \<lparr>di_deposit = 0, di_staked = False, di_stake = 0, di_unstakeDelaySec = 0, di_withdrawTime = 0\<rparr>),
      nonceSequenceNumber = (\<lambda>_ _. 0), ep_locked = False, ep_balance = ether, ep_events = [], ep_world = w\<rparr>"

text \<open>\<open>SpendingAccountFactory\<close>'s constructor.\<close>

definition factory_constructor :: "address \<Rightarrow> address \<Rightarrow> address \<Rightarrow> uint256 \<Rightarrow> factory" where
  "factory_constructor this ep paymaster rate =
     \<lparr>f_this = this, f_entryPoint = ep, f_paymaster = paymaster, f_usdcPerEth = rate\<rparr>"

definition deploy_args :: "deploy_env \<Rightarrow> address \<Rightarrow> account_args" where
  "deploy_args env deployer =
     \<lparr>aa_owner = envOr (VAULT_OWNER env) deployer,
      aa_dailyEth = envOr (DAILY_ETH_LIMIT env) 100000000000000000,
      aa_monthlyEth = envOr (MONTHLY_ETH_LIMIT env) 2000000000000000000,
      aa_dailyUsdc = envOr (DAILY_USDC_LIMIT env) 500000000,
      aa_monthlyUsdc = envOr (MONTHLY_USDC_LIMIT env) 10000000000\<rparr>"

definition paymasterDeposit :: "deploy_env \<Rightarrow> deploy_world \<Rightarrow> uint256" where
  "paymasterDeposit env D =
     envOr (PAYMASTER_DEPOSIT env) (if dw_chainid D = 31337 then 100000000000000000 else 10000000000000000)"

definition deploy_run :: "deploy_env \<Rightarrow> 'w ep_callees \<Rightarrow> deploy_world \<Rightarrow> 'w \<Rightarrow> sol_error + 'w deployed" where
  "deploy_run env W D w =
     (let deployerPrivateKey = envOr (PRIVATE_KEY env) 0 in
      if deployerPrivateKey = 0 then Inl (RequireFailed ''PRIVATE_KEY must be set in .env'')
      else
        let deployer = dw_addr D deployerPrivateKey;
            usdcPerEth = envOr (USDC_PER_ETH env) 2000000000;
            funds = (if dw_chainid D = 31337 then 100000000000000000000 else dw_ether D deployer);
            ctx = \<lparr>msg_sender = deployer, block_timestamp = dw_timestamp D, block_basefee = 0, gasleft = 0\<rparr>;
            n = dw_nonce D deployer;
            entryPoint = new_address D deployer n;
            st = new_entry_point (dw_ether D entryPoint) w in
        bindE (paymaster_constructor (\<lambda>_. ep_supportsInterface) ctx (new_address D deployer (n + 1)) entryPoint usdcPerEth) (\<lambda>pm.
        let v = paymasterDeposit env D in
        bindE (if 0 < v then
                 (if funds < v then Inl EmptyRevert
                  else bindE (ep_perform W (pm_this pm) (pm_deposit pm v) st) (\<lambda>st1. Inr (st1, n + 3)))
               else Inr (st, n + 2)) (\<lambda>(st1, n1).
        let factory = factory_constructor (new_address D deployer n1) entryPoint (pm_this pm) usdcPerEth in
        bindE (createAccount (dw_keccak D) (dw_creationCode D) ctx factory (deploy_args env deployer) (be_bytes 32 1) (dw_accounts D))
          (\<lambda>(account, accts).
        Inr \<lparr>d_entryPoint = entryPoint, d_state = st1, d_paymaster = pm, d_factory = factory, d_account = account,
             d_accounts = accts\<rparr>))))"

section \<open>What is deployed\<close>

lemma ep_supports_IEntryPoint: "ep_supportsInterface (interfaceId IEntryPoint_selectors)"
  by (simp add: ep_supportsInterface_def)

lemma new_entry_point_solvent: "solvent 0 (new_entry_point b w)"
  by (simp add: solvent_def total_def new_entry_point_def owed_def)

lemma balanceOf_depositTo: "balanceOf (depositTo a v st) b = (if a = b then balanceOf st a + v else balanceOf st b)"
  by (simp add: depositTo_def incrementDeposit_def balanceOf_def set_info_def Let_def)

lemma createAccount_at:
  "createAccount keccak code ctx f x salt accts =
     (if accts (getAddress_sol keccak code f x salt) \<noteq> None then Inl EmptyRevert
      else Inr (getAddress_sol keccak code f x salt, accts(getAddress_sol keccak code f x salt \<mapsto>
        constructor ctx (getAddress_sol keccak code f x salt) (f_entryPoint f) (aa_owner x) (f_paymaster f) (f_usdcPerEth f)
          (aa_dailyEth x) (aa_monthlyEth x) (aa_dailyUsdc x) (aa_monthlyUsdc x))))"
  by (simp add: createAccount_def evm_create2_def getAddress_sol_def computeAddress_def Let_def)

text \<open>The factory that the script is about to deploy, after the EntryPoint, the paymaster and its deposit.\<close>

definition deploy_factory :: "deploy_env \<Rightarrow> deploy_world \<Rightarrow> factory" where
  "deploy_factory env D =
     (let deployer = dw_addr D (envOr (PRIVATE_KEY env) 0); n = dw_nonce D deployer in
      factory_constructor (new_address D deployer (if 0 < paymasterDeposit env D then n + 3 else n + 2))
        (new_address D deployer n) (new_address D deployer (n + 1)) (envOr (USDC_PER_ETH env) 2000000000))"

text \<open>
  C23. The script connects what it deploys, or says why not. When it goes through, the paymaster, the factory and the
  account belong to the EntryPoint that was deployed, the account is where the factory predicts it and
  names this paymaster, and both use the same rate, so that the account quotes for gas what the paymaster
  charges; the account starts with nothing spent under the limits that were asked for; and the paymaster has
  exactly its deposit, which by default on a real chain is one operation of the maximal cost. It fails only
  without a key, with too little ether for the deposit, or where that account of that factory exists.
\<close>

theorem deployment_is_connected:
  "case deploy_run env W D w of
     Inr d \<Rightarrow> \<exists>pk a. PRIVATE_KEY env = Some pk \<and> d_accounts d (d_account d) = Some a
       \<and> d_account d = getAddress_sol (dw_keccak D) (dw_creationCode D) (d_factory d) (deploy_args env (dw_addr D pk)) (be_bytes 32 1)
       \<and> pm_entryPoint (d_paymaster d) = d_entryPoint d \<and> f_entryPoint (d_factory d) = d_entryPoint d
       \<and> entryPointContract a = d_entryPoint d
       \<and> paymasterAddress a = pm_this (d_paymaster d) \<and> pm_owner (d_paymaster d) = dw_addr D pk
       \<and> withPremiumInUsdc (usdcPerEth a) = costInUsdc (d_paymaster d)
       \<and> vaultOwner a = envOr (VAULT_OWNER env) (dw_addr D pk)
       \<and> dailyEthSpent a = 0 \<and> monthlyEthSpent a = 0 \<and> dailyUsdcSpent a = 0 \<and> monthlyUsdcSpent a = 0
       \<and> dailyEthLimit a = envOr (DAILY_ETH_LIMIT env) 100000000000000000
       \<and> monthlyUsdcLimit a = envOr (MONTHLY_USDC_LIMIT env) 10000000000
       \<and> balanceOf (d_state d) (pm_this (d_paymaster d)) = (if dw_chainid D = 31337 then paymasterDeposit env D
            else envOr (PAYMASTER_DEPOSIT env) MAX_COST_CAP)
   | Inl e \<Rightarrow> envOr (PRIVATE_KEY env) 0 = 0
       \<or> (dw_chainid D \<noteq> 31337 \<and> dw_ether D (dw_addr D (envOr (PRIVATE_KEY env) 0)) < paymasterDeposit env D)
       \<or> (dw_chainid D = 31337 \<and> 100000000000000000000 < paymasterDeposit env D)
       \<or> (\<exists>old. dw_accounts D (getAddress_sol (dw_keccak D) (dw_creationCode D) (deploy_factory env D)
             (deploy_args env (dw_addr D (envOr (PRIVATE_KEY env) 0))) (be_bytes 32 1)) = Some old)"
proof (cases "envOr (PRIVATE_KEY env) 0 = 0")
  case False
  then obtain pk where pk: "PRIVATE_KEY env = Some pk" "pk \<noteq> 0" by (cases "PRIVATE_KEY env") auto
  let ?dep = "dw_addr D pk" and ?v = "paymasterDeposit env D"
  have b: "balanceOf (new_entry_point e w) p = 0" "balanceOf (receive_ether u st) p = balanceOf st p" for e p u and st :: "'a ep_state"
    by (simp_all add: balanceOf_def new_entry_point_def)
  have v: "envOr (PAYMASTER_DEPOSIT env) MAX_COST_CAP = ?v" if "dw_chainid D \<noteq> 31337"
    using that
    by (simp add: paymasterDeposit_def MAX_COST_CAP_def)
  have r: "withPremiumInUsdc rate = costInUsdc \<lparr>pm_this = t, pm_entryPoint = e, pm_owner = ow, pm_usdcPerEth = rate\<rparr>" for rate t e ow
    by (simp add: fun_eq_iff costInUsdc_def)
  have a: "aa_owner (deploy_args env ?dep) = envOr (VAULT_OWNER env) ?dep"
    "aa_dailyEth (deploy_args env ?dep) = envOr (DAILY_ETH_LIMIT env) 100000000000000000"
    "aa_monthlyUsdc (deploy_args env ?dep) = envOr (MONTHLY_USDC_LIMIT env) 10000000000"
    by (simp_all add: deploy_args_def)
  show ?thesis
    by (auto simp: deploy_run_def pk paymaster_constructor_def ep_supports_IEntryPoint createAccount_at factory_constructor_def
        constructor_def a Let_def pm_deposit_def balanceOf_depositTo b v r word_gt_0 deploy_factory_def simp del: be_bytes.simps One_nat_def)
qed (simp add: deploy_run_def)

end
