(* ===== verification/Client_Hash.thy ===== *)
theory Client_Hash
  imports Entry_Point_Simulations
begin
text \<open>
  The hash that a client signs and the hash that the EntryPoint checks: \<open>getUserOpHash\<close> and
  \<open>getUserOpHashWithEip7702\<close> of \<open>test/UserOp.ts\<close> with their constants and typed-data descriptions, against
  \<open>getUserOpHash\<close> of the EntryPoint with the domain separator that the simulation spells out.
\<close>

section \<open>Constants\<close>

definition PACKED_USEROP_TYPE :: string where
  "PACKED_USEROP_TYPE = ''PackedUserOperation(address sender,uint256 nonce,bytes initCode,bytes callData,bytes32 accountGasLimits,uint256 preVerificationGas,bytes32 gasFees,bytes paymasterAndData)''"

text \<open>The domain and the types that the wallet is given for \<open>_signTypedData\<close>.\<close>

record typed_data_domain =
  td_name :: string
  td_version :: string
  td_chainId :: int
  td_verifyingContract :: string

definition getErc4337TypedDataDomain :: "string \<Rightarrow> int \<Rightarrow> typed_data_domain" where
  "getErc4337TypedDataDomain entryPoint chainId =
     \<lparr>td_name = DOMAIN_NAME, td_version = DOMAIN_VERSION, td_chainId = chainId, td_verifyingContract = entryPoint\<rparr>"

definition getErc4337TypedDataTypes :: "string \<times> (string \<times> string) list" where
  "getErc4337TypedDataTypes = (''PackedUserOperation'',
     [(''sender'', ''address''), (''nonce'', ''uint256''), (''initCode'', ''bytes''), (''callData'', ''bytes''),
      (''accountGasLimits'', ''bytes32''), (''preVerificationGas'', ''uint256''), (''gasFees'', ''bytes32''),
      (''paymasterAndData'', ''bytes'')])"

text \<open>The type string that EIP-712 derives from such a description.\<close>

fun comma_separated :: "string list \<Rightarrow> string" where
  "comma_separated [] = []"
| "comma_separated [s] = s"
| "comma_separated (s # t # ts) = s @ '','' @ comma_separated (t # ts)"

definition encodeType :: "string \<times> (string \<times> string) list \<Rightarrow> string" where
  "encodeType d = fst d @ ''('' @ comma_separated (map (\<lambda>(n, t). t @ '' '' @ n) (snd d)) @ '')''"

lemma typed_data_types: "encodeType getErc4337TypedDataTypes = PACKED_USEROP_TYPE"
  by (simp add: encodeType_def getErc4337TypedDataTypes_def PACKED_USEROP_TYPE_def)

text \<open>\<open>keccak256(Buffer.from(s))\<close>, and the hashes that the client computes once from its strings.\<close>

definition keccak_string :: "ethers \<Rightarrow> string \<Rightarrow> string" where
  "keccak_string E s = hx (ethers_keccak E (str_bytes s))"

definition client_eip712 :: "ethers \<Rightarrow> eip712" where
  "client_eip712 E = (let d = getErc4337TypedDataDomain [] 0 in
     \<lparr>op_typehash = keccak_string E PACKED_USEROP_TYPE,
      domain_typehash = keccak_string E ''EIP712Domain(string name,string version,uint256 chainId,address verifyingContract)'',
      name_hash = keccak_string E (td_name d), version_hash = keccak_string E (td_version d)\<rparr>)"

definition getUserOpHashWithEip7702 :: "ethers \<Rightarrow> eip712 \<Rightarrow> UserOperation \<Rightarrow> string \<Rightarrow> int \<Rightarrow> string \<Rightarrow> js_error + string" where
  "getUserOpHashWithEip7702 E H op entryPoint chainId delegate =
     bindE (updateUserOpForEip7702Hash E op delegate) (\<lambda>op1. getUserOpHash E H op1 entryPoint chainId)"

section \<open>Agreement\<close>

lemma length_keccak [simp]: "ethers_ok E \<Longrightarrow> length (ethers_keccak E bs) = 32"
  by (rule ethers_keccak_hx(2))

lemma word_of_keccak: "ethers_ok E \<Longrightarrow> be_bytes 32 (unat (keccak_word E bs)) = ethers_keccak E bs"
  using be_val_less[of "ethers_keccak E bs"] by (simp add: keccak_word_def unat_of_nat be_bytes_be_val)

lemma client_domain_separator:
  assumes E: "ethers_ok E" "abi_ok E" and "length ep = 20" and "0 \<le> chainId" "chainId < 2 ^ 256"
  shows "getDomainSeparator E (domain_typehash (client_eip712 E)) (name_hash (client_eip712 E)) (version_hash (client_eip712 E)) (hx ep) chainId
    = Inr (hx (be_bytes 32 (unat (buildDomainSeparator (keccak_word E) (word_of_int chainId) (of_nat (be_val ep))))))"
proof -
  let ?k = "\<lambda>s. ethers_keccak E (str_bytes s)"
  define ws where "ws = [?k ''EIP712Domain(string name,string version,uint256 chainId,address verifyingContract)'', ?k DOMAIN_NAME,
    ?k DOMAIN_VERSION, be_bytes 32 (nat chainId), be_bytes 32 (be_val ep)]"
  have c: "be_bytes 32 (unat (word_of_int chainId :: uint256)) = be_bytes 32 (nat chainId)"
    using assms(4,5) by (simp add: unsigned_of_int take_bit_int_eq_self)
  have a: "be_bytes 32 (unat (of_nat (be_val ep) :: address)) = be_bytes 32 (be_val ep)"
    using be_val_less[of ep] assms(3) by (simp add: unat_of_nat)
  have "abiEncode E
      [(''bytes32'', AbiHex (hx (ws ! 0))), (''bytes32'', AbiHex (hx (ws ! 1))), (''bytes32'', AbiHex (hx (ws ! 2))),
       (''uint256'', AbiInt chainId), (''address'', AbiHex (hx ep))] = Inr (hx (concat ws))"
    by (rule abi_ok_encode[OF E(2)]) (use assms in \<open>simp add: ws_def be_bytes_be_val\<close>)
  then show ?thesis
    using E(1)
    by (simp add: getDomainSeparator_def client_eip712_def getErc4337TypedDataDomain_def keccak_string_def ws_def Let_def
        buildDomainSeparator_def TYPE_HASH_def word_of_keccak c a ethers_keccak_hx)
qed

text \<open>The EntryPoint that hashes with Keccak and the EIP-712 library, at \<open>ep\<close> on the chain \<open>chainId\<close>.\<close>

definition hashes_like :: "ethers \<Rightarrow> bytes \<Rightarrow> int \<Rightarrow> 'w ep_callees \<Rightarrow> bool" where
  "hashes_like E ep chainId W \<longleftrightarrow> w_hash W = keccak_word E
     \<and> w_typehash W = of_nat (be_val (ethers_keccak E (str_bytes PACKED_USEROP_TYPE)))
     \<and> (\<forall>h. w_typed W h = keccak_word E ([0x19, 0x01]
          @ be_bytes 32 (unat (buildDomainSeparator (keccak_word E) (word_of_int chainId) (of_nat (be_val ep)))) @ be_bytes 32 (unat h)))"

lemma client_hash:
  assumes E: "ethers_ok E" "abi_ok E" and "user_op_wf op" and "length ep = 20" and "0 \<le> chainId" "chainId < 2 ^ 256"
    and W: "hashes_like E ep chainId W" and p: "packUserOp E op = Inr p"
  obtains h where "length h = 32" and "getUserOpHash E (client_eip712 E) op (hx ep) chainId = Inr (hx h)"
    and "w_typed W (hash (w_hash W) (w_typehash W) (on_chain_op p) 0) = of_nat (be_val h)"
proof -
  let ?th = "ethers_keccak E (str_bytes PACKED_USEROP_TYPE)"
  let ?sep = "be_bytes 32 (unat (buildDomainSeparator (keccak_word E) (word_of_int chainId) (of_nat (be_val ep))))"
  let ?enc = "encode (keccak_word E) (of_nat (be_val ?th)) (on_chain_op p) 0"
  define h where "h = ethers_keccak E ([0x19, 0x01] @ ?sep @ ethers_keccak E ?enc)"
  have "length ?th = 32" using E(1) by simp
  from client_encoding_is_contract_encoding[OF E assms(3) this] p
  have enc: "encodeUserOp E (op_typehash (client_eip712 E)) op True = Inr (hx ?enc)"
    by (simp add: client_eip712_def keccak_string_def Let_def)
  have m: "''0x1901'' = hx [0x19, 0x01]" by (simp add: hx_def hex_byte_def hexdigit_def)
  have "hexConcat E [hx [0x19, 0x01], hx ?sep, hx (ethers_keccak E ?enc)] = Inr (hx ([0x19, 0x01] @ ?sep @ ethers_keccak E ?enc))"
    using ethers_hexConcat[OF E(1), of "[[0x19, 0x01], ?sep, ethers_keccak E ?enc]"] by simp
  then have "getUserOpHash E (client_eip712 E) op (hx ep) chainId = Inr (hx h)"
    unfolding getUserOpHash_def enc m client_domain_separator[OF E assms(4-6)]
    by (simp add: ethers_keccak_hx(1)[OF E(1)] h_def)
  moreover have "w_typed W (hash (w_hash W) (w_typehash W) (on_chain_op p) 0) = keccak_word E ([0x19, 0x01] @ ?sep @ ethers_keccak E ?enc)"
    using W by (simp add: hashes_like_def hash_def word_of_keccak[OF E(1)])
  then have "w_typed W (hash (w_hash W) (w_typehash W) (on_chain_op p) 0) = of_nat (be_val h)"
    by (simp only: h_def keccak_word_def)
  moreover have "length h = 32" using E(1) by (simp add: h_def)
  ultimately show thesis using that by blast
qed

lemma encode_override:
  "keccak ic \<noteq> 0 \<Longrightarrow> encode keccak th op (keccak ic) = encode keccak th (op\<lparr>po_initCode := ic\<rparr>) 0"
  by (simp add: encode_def Let_def)

lemma packUserOp_initCode:
  "packUserOp E op = Inr p \<Longrightarrow> packUserOp E (op\<lparr>uo_initCode := c\<rparr>) = Inr (p\<lparr>pu_initCode := c\<rparr>)"
  by (auto simp: packUserOp_def bindE_Inr_iff split: if_splits)

lemma packUserOp_fields: "packUserOp E op = Inr p \<Longrightarrow> pu_initCode p = uo_initCode op \<and> pu_sender p = uo_sender op"
  by (auto simp: packUserOp_def bindE_Inr_iff split: if_splits)

lemma user_op_wf_initCode: "user_op_wf op \<Longrightarrow> user_op_wf (op\<lparr>uo_initCode := hx ic\<rparr>)"
  by (auto simp: user_op_wf_def)

lemma client_updates_initCode:
  assumes "ethers_ok E" and "uo_initCode op = hx ic" and "isEip7702InitCode_sol ic"
  shows "updateUserOpForEip7702Hash E op (hx delegate) = Inr (op\<lparr>uo_initCode := hx (delegate @ drop 20 ic)\<rparr>)"
  using assms(2) sol_marker[OF assms(3)]
  by (simp add: updateUserOpForEip7702Hash_def client_marker[OF assms(1)] ethers_hexlifyData[OF assms(1)]
      ethers_hexDataSlice[OF assms(1)] ethers_hexConcat2[OF assms(1)])

text \<open>
  C15. The client signs what the EntryPoint checks. For every operation with fields in range, also one with
  the EIP-7702 marker when the delegate given to the client is that of the account's code, the hash that
  the client computes with its own constants, packing and domain separator is the 32 bytes of the
  EntryPoint's \<open>getUserOpHash\<close> of the packed operation on chain.
\<close>

theorem client_hash_is_contract_hash:
  assumes "ethers_ok E" and "abi_ok E" and "user_op_wf op" and "length ep = 20" and "0 \<le> chainId" and "chainId < 2 ^ 256"
    and "hashes_like E ep chainId W" and "uo_initCode op = hx ic" and "uo_sender op = hx s"
    and "isEip7702InitCode_sol ic \<Longrightarrow> getEip7702Delegate (w_code W (of_nat (be_val s)) st) = Inr delegate
      \<and> keccak_word E (delegate @ drop 20 ic) \<noteq> 0"
  shows "\<exists>p h. packUserOp E op = Inr p \<and> length h = 32
    \<and> (if isEip7702InitCode_sol ic then getUserOpHashWithEip7702 E (client_eip712 E) op (hx ep) chainId (hx delegate)
       else getUserOpHash E (client_eip712 E) op (hx ep) chainId) = Inr (hx h)
    \<and> getUserOpHash_sol W (on_chain_op p) st = Inr (of_nat (be_val h))"
proof -
  obtain p where p: "packUserOp E op = Inr p" "pu_initCode p = hx ic" "pu_sender p = hx s"
    using packUserOp_wf[OF assms(1,3)] assms(8,9) packUserOp_fields by metis
  have o: "po_initCode (on_chain_op p) = ic" "po_sender (on_chain_op p) = of_nat (be_val s)"
    using p by (simp_all add: on_chain_op_def)
  show ?thesis
  proof (cases "isEip7702InitCode_sol ic")
    case False
    obtain h where "length h = 32" "getUserOpHash E (client_eip712 E) op (hx ep) chainId = Inr (hx h)"
      "w_typed W (hash (w_hash W) (w_typehash W) (on_chain_op p) 0) = of_nat (be_val h)"
      using client_hash[OF assms(1-7) p(1)] .
    with False p(1) show ?thesis
      by (auto simp: getUserOpHash_sol_def getEip7702InitCodeHashOverride_def o)
  next
    case True
    let ?ic = "delegate @ drop 20 ic" and ?op = "op\<lparr>uo_initCode := hx (delegate @ drop 20 ic)\<rparr>"
    note d = assms(10)[OF True]
    obtain h where h: "length h = 32" "getUserOpHash E (client_eip712 E) ?op (hx ep) chainId = Inr (hx h)"
      "w_typed W (hash (w_hash W) (w_typehash W) (on_chain_op (p\<lparr>pu_initCode := hx ?ic\<rparr>)) 0) = of_nat (be_val h)"
      using client_hash[OF assms(1,2) user_op_wf_initCode[OF assms(3)] assms(4-7) packUserOp_initCode[OF p(1)]] .
    have "getEip7702InitCodeHashOverride (w_hash W) (w_code W (of_nat (be_val s)) st) ic = Inr (w_hash W ?ic)"
      using True d by (simp add: getEip7702InitCodeHashOverride_def)
    moreover have "hash (w_hash W) th (on_chain_op p) (w_hash W ?ic) = hash (w_hash W) th (on_chain_op (p\<lparr>pu_initCode := hx ?ic\<rparr>)) 0" for th
      using d assms(7) encode_override[of "w_hash W" ?ic th "on_chain_op p"]
      by (simp add: hash_def hashes_like_def on_chain_op_def)
    ultimately have "getUserOpHash_sol W (on_chain_op p) st = Inr (of_nat (be_val h))"
      using h(3) by (simp add: getUserOpHash_sol_def o)
    with True p(1) h(1,2) show ?thesis
      by (auto simp: getUserOpHashWithEip7702_def client_updates_initCode[OF assms(1,8) True])
  qed
qed

section \<open>Instances\<close>

text \<open>An EntryPoint at 0x0202... on chain 31337, where every address has delegated its code.\<close>

definition hash_W :: "bool ep_callees" where
  "hash_W = late_W\<lparr>w_code := (\<lambda>a st. demo_delegated), w_hash := keccak_word demo_ethers,
     w_typehash := of_nat (be_val (ethers_keccak demo_ethers (str_bytes PACKED_USEROP_TYPE))),
     w_typed := (\<lambda>h. keccak_word demo_ethers ([0x19, 0x01]
       @ be_bytes 32 (unat (buildDomainSeparator (keccak_word demo_ethers) (word_of_int 31337) (of_nat (be_val (replicate 20 2)))))
       @ be_bytes 32 (unat h)))\<rparr>"

definition hash_op :: "bytes \<Rightarrow> UserOperation" where
  "hash_op ic = DefaultsForUserOp\<lparr>uo_sender := hx (replicate 20 1), uo_initCode := hx ic\<rparr>"

lemma hash_op_wf: "user_op_wf (hash_op ic)"
  using user_op_wf_initCode[OF demo_user_op_wf, of ic] by (simp add: hash_op_def)

theorem client_hash_is_contract_hash_witness:
  "(\<exists>p h. packUserOp demo_ethers (hash_op [0x77, 0x02]) = Inr p
      \<and> getUserOpHashWithEip7702 demo_ethers (client_eip712 demo_ethers) (hash_op [0x77, 0x02]) (hx (replicate 20 2)) 31337
          (hx (replicate 20 9)) = Inr (hx h)
      \<and> getUserOpHash_sol hash_W (on_chain_op p) late_st = Inr (of_nat (be_val h)))
   \<and> (\<exists>p h. packUserOp demo_ethers (hash_op [1, 2]) = Inr p
      \<and> getUserOpHash demo_ethers (client_eip712 demo_ethers) (hash_op [1, 2]) (hx (replicate 20 2)) 31337 = Inr (hx h)
      \<and> getUserOpHash_sol hash_W (on_chain_op p) late_st = Inr (of_nat (be_val h)))"
proof -
  have W: "hashes_like demo_ethers (replicate 20 2) 31337 hash_W" by (simp add: hashes_like_def hash_W_def)
  have yes: "isEip7702InitCode_sol [0x77, 0x02]"
    by (simp add: isEip7702InitCode_sol_def INITCODE_EIP7702_MARKER_BYTES_def numeral_eq_Suc)
  have no: "\<not> isEip7702InitCode_sol [1, 2]" using sol_marker[of "[1, 2]"] by auto
  have d: "getEip7702Delegate (w_code hash_W a late_st) = Inr (replicate 20 9)" for a
    by (simp add: hash_W_def demo_delegate)
  let ?n = "be_val (replicate 20 (9 :: 8 word))"
  have "ethers_keccak demo_ethers (replicate 20 9) = be_bytes 32 ?n"
    by (simp add: ethers_keccak_def demo_ethers_def on_data_def del: be_bytes.simps)
  then have w: "keccak_word demo_ethers (replicate 20 9) = of_nat (?n mod 256 ^ 32)" by (simp add: keccak_word_def del: be_bytes.simps)
  have r: "replicate 20 (9 :: 8 word) = replicate 19 9 @ [9]" by (simp add: replicate_append_same flip: replicate_Suc)
  have "?n < 256 ^ 20" using be_val_less[of "replicate 20 (9 :: 8 word)"] by simp
  moreover have "?n \<noteq> 0" unfolding r be_val_snoc by simp
  ultimately have "unat (keccak_word demo_ethers (replicate 20 9)) \<noteq> 0" unfolding w by (simp add: unat_of_nat)
  then have k: "keccak_word demo_ethers (replicate 20 9 @ drop 20 [0x77, 0x02]) \<noteq> 0" by (auto simp: unat_eq_0)
  note c = client_hash_is_contract_hash[OF demo_ethers_ok demo_abi_ok hash_op_wf _ _ _ W]
  show ?thesis
    using c[of "[0x77, 0x02]" "[0x77, 0x02]" "replicate 20 1" late_st "replicate 20 9"]
      c[of "[1, 2]" "[1, 2]" "replicate 20 1" late_st] yes no d k
    by (auto simp: hash_op_def)
qed

end
