(* ===== verification/Signer_Response.thy ===== *)
theory Signer_Response
  imports Client_Hash AA_Signer_Properties User_Event
begin

text \<open>
  The response that the signer fabricates for an operation (\<open>userEventResponse\<close> of \<open>src/AASigner.ts\<close>) and
  \<open>sendTransaction\<close> with it: the signer, the client's hash, the EntryPoint's hash and the listener together.
\<close>

section \<open>The response\<close>

text \<open>
  Around the signer: the listeners that it registered, each with the hash it waits for, and the operations
  that it handed to \<open>sendUserOp\<close>.
\<close>

record signer_world = aa_signer +
  listeners :: "(string \<times> listener_state) list"
  sent_ops :: "UserOperation list"

record tx_response =
  rs_hash :: string
  rs_confirmations :: int
  rs_from :: string
  rs_nonce :: int
  rs_gasLimit :: int
  rs_value :: int
  rs_data :: string
  rs_chainId :: int

text \<open>
  \<open>toNumber\<close> of a \<open>BigNumber\<close> throws above \<open>2 ^ 53\<close>. Without a provider the chain id is \<open>undefined\<close>, which the ABI
  coder refuses.
\<close>

definition toNumber :: "int \<Rightarrow> js_error + int" where
  "toNumber n = (if \<bar>n\<bar> < 2 ^ 53 then Inr n else Inl (Rejected ''overflow''))"

definition await_chainId :: "'z aa_signer_scheme \<Rightarrow> js_error + int" where
  "await_chainId st = (case chainId st of None \<Rightarrow> Inl (Rejected ''invalid BigNumber value'') | Some c \<Rightarrow> c)"

definition userEventResponse ::
  "ethers \<Rightarrow> eip712 \<Rightarrow> (string \<Rightarrow> js_error + string) \<Rightarrow> string \<Rightarrow> UserOperation \<Rightarrow> (signer_world, tx_response) io" where
  "userEventResponse E H hexValue entryPoint userOp =
     bindIO (readIO await_chainId) (\<lambda>c.
     bindIO (liftIO (getUserOpHash E H userOp entryPoint c)) (\<lambda>userOpHash.
     bindIO (modifyIO (\<lambda>st. st\<lparr>listeners := listeners st @ [(userOpHash, start_listener)]\<rparr>)) (\<lambda>_.
     bindIO (liftIO (toNumber (uo_nonce userOp))) (\<lambda>nonce.
     bindIO (liftIO (hexValue (uo_callData userOp))) (\<lambda>data.
     bindIO (readIO await_chainId) (\<lambda>c'.
     returnIO \<lparr>rs_hash = userOpHash, rs_confirmations = 0, rs_from = uo_sender userOp, rs_nonce = nonce,
       rs_gasLimit = uo_callGasLimit userOp, rs_value = 0, rs_data = data, rs_chainId = c'\<rparr>))))))"

text \<open>\<open>sendUserOp\<close> as the signer sees it: it is handed the operation, and answers.\<close>

definition hand_over :: "(UserOperation \<Rightarrow> js_error + unit) \<Rightarrow> UserOperation \<Rightarrow> (signer_world, unit) io" where
  "hand_over answer op = bindIO (modifyIO (\<lambda>st. st\<lparr>sent_ops := sent_ops st @ [op]\<rparr>)) (\<lambda>_. liftIO (answer op))"

section \<open>What the signer leaves alone\<close>

lemma syncAccount_keeps: "keeps listeners (syncAccount A)" "keeps sent_ops (syncAccount A)"
  by (auto simp: keeps_def syncAccount_def bindIO_def connect_account_def modifyIO_def split: option.splits sum.splits prod.splits if_splits)

lemma syncAccount_chainId: "syncAccount A st = (Inr (), st') \<Longrightarrow> chainId st' = n_chainId A"
  by (auto simp: syncAccount_def bindIO_def connect_account_def modifyIO_def split: option.splits sum.splits prod.splits if_splits)

lemma createUserOperation_sync:
  assumes "createUserOperation E lower H signTyped index A tx st = (Inr op, st1)"
  shows "syncAccount A st = (Inr (), st1)"
  using assms by (auto simp: createUserOperation_def elim!: bindIO_InrE)

lemma created_world:
  assumes "createUserOperation E lower H signTyped index A tx (st :: signer_world) = (Inr op, st1)"
  shows "listeners st1 = listeners st" "sent_ops st1 = sent_ops st" "chainId st1 = n_chainId A"
  using keepsD[OF syncAccount_keeps(1) createUserOperation_sync[OF assms]]
    keepsD[OF syncAccount_keeps(2) createUserOperation_sync[OF assms]]
    syncAccount_chainId[OF createUserOperation_sync[OF assms]] by simp_all

section \<open>Sending\<close>

text \<open>
  C16. The response of a sent transaction waits for what the EntryPoint will report. When \<open>sendTransaction\<close>
  succeeds for an operation that is not the first of an EIP-7702 account, exactly that operation was handed
  over, after a listener had been registered, and the hash of the response and of the listener is the one
  that the EntryPoint computes for the packed operation and puts into its events.
\<close>

theorem response_waits_for_operation:
  assumes "ethers_ok E" and "abi_ok E" and "hashes_like E ep c W" and "length ep = 20" and "0 \<le> c" "c < 2 ^ 256"
    and "n_chainId A = Some (Inr c)"
    and "createUserOperation E lower (client_eip712 E) signTyped index A tx st = (Inr op, st1)"
    and "user_op_wf op" and "uo_initCode op = hx ic" "\<not> isEip7702InitCode_sol ic"
    and "sendTransaction E lower (client_eip712 E) signTyped index A
           (userEventResponse E (client_eip712 E) hexValue (hx ep)) (hand_over answer) tx st = (Inr response, st')"
  shows "sent_ops st' = sent_ops st @ [op] \<and> listeners st' = listeners st @ [(rs_hash response, start_listener)]
    \<and> rs_from response = uo_sender op \<and> rs_nonce response = uo_nonce op \<and> rs_chainId response = c
    \<and> (\<exists>p h. packUserOp E op = Inr p \<and> getUserOpHash_sol W (on_chain_op p) est = Inr h
         \<and> rs_hash response = hx (be_bytes 32 (unat h)))"
proof -
  obtain p where p: "packUserOp E op = Inr p" "pu_initCode p = hx ic"
    using packUserOp_wf[OF assms(1,9)] assms(10) packUserOp_fields by metis
  obtain h where h: "length h = 32" "getUserOpHash E (client_eip712 E) op (hx ep) c = Inr (hx h)"
    "w_typed W (hash (w_hash W) (w_typehash W) (on_chain_op p) 0) = of_nat (be_val h)"
    using client_hash[OF assms(1,2,9,4,5,6,3) p(1)] .
  have "getUserOpHash_sol W (on_chain_op p) est = Inr (of_nat (be_val h))"
    using h(3) p(2) assms(11) by (simp add: getUserOpHash_sol_def getEip7702InitCodeHashOverride_def on_chain_op_def)
  moreover have "be_bytes 32 (unat (of_nat (be_val h) :: uint256)) = h"
    using h(1) be_val_less[of h] by (simp add: unat_of_nat be_bytes_be_val)
  moreover note w = created_world[OF assms(8)]
  have "rs_hash response = hx h \<and> sent_ops st' = sent_ops st @ [op] \<and> listeners st' = listeners st @ [(hx h, start_listener)]
    \<and> rs_from response = uo_sender op \<and> rs_nonce response = uo_nonce op \<and> rs_chainId response = c"
    using assms(12) w assms(7) h(2)
    by (auto simp: sendTransaction_def bindIO_run assms(8) userEventResponse_def await_chainId_def hand_over_def toNumber_def
        split: sum.splits prod.splits if_splits)
  ultimately show ?thesis using p(1) by auto
qed

text \<open>
  C39. An operation with a keyed nonce is never sent. The EntryPoint keeps the key of a nonce above its 64
  low bits, but the response turns the nonce into a JavaScript number: for every nonce of \<open>2 ^ 53\<close> or more
  \<open>sendTransaction\<close> throws after the operation was signed and a listener registered, which stays, and
  \<open>sendUserOp\<close> is never called.
\<close>

theorem keyed_nonce_never_sent:
  assumes "createUserOperation E lower H signTyped index A tx st = (Inr op, st1)" and "2 ^ 53 \<le> uo_nonce op"
    and "n_chainId A = Some (Inr c)" and "getUserOpHash E H op entryPoint c = Inr h"
  shows "case sendTransaction E lower H signTyped index A (userEventResponse E H hexValue entryPoint) (hand_over answer) tx st of
      (r, st') \<Rightarrow> r = Inl (Rejected ''overflow'') \<and> sent_ops st' = sent_ops st
        \<and> listeners st' = listeners st @ [(h, start_listener)]"
  using created_world[OF assms(1)] assms(2-4)
  by (simp add: sendTransaction_def bindIO_run assms(1) userEventResponse_def await_chainId_def toNumber_def)

text \<open>The signer of the earlier examples, on chain 1, with the index 0 and with an index that is a keyed nonce.\<close>

definition demo_world :: signer_world where
  "demo_world = aa_signer.extend new_signer (signer_world.fields [] [])"

lemma demo_create_world:
  "\<exists>st1. createUserOperation demo_ethers id H (\<lambda>ep c p. Inr ''0x99'') index (demo_signer_answers ''0x'') demo_tx demo_world
    = (Inr (demo_created index), st1)"
proof -
  have s: "syncAccount (demo_signer_answers ''0x'') demo_world = (Inr (), aa_signer.extend demo_synced (signer_world.fields [] []))"
    by (simp add: syncAccount_def bindIO_run connect_account_def getAccountAddress_def demo_signer_answers_def
        new_signer_def demo_synced_def demo_world_def aa_signer.defs signer_world.defs)
  have a: "account_address demo_synced = Some (hx (replicate 20 34))" by (simp add: demo_synced_def)
  have "account_address (aa_signer.extend demo_synced m) = account_address demo_synced"
    "isPhantom (aa_signer.extend demo_synced m) = isPhantom demo_synced"
    for m :: "unit signer_world_ext"
    by (simp_all add: aa_signer.defs)
  then show ?thesis
    using demo_create[of H index] by (simp add: createUserOperation_def bindIO_run s demo_sync a split del: if_split)
qed

lemma demo_created_wf: "0 \<le> index \<Longrightarrow> index < 2 ^ 256 \<Longrightarrow> user_op_wf (demo_created index)"
  by (auto simp: user_op_wf_def demo_created_def DefaultsForUserOp_def AddressZero_def hx_Nil[symmetric]
      intro: exI[of _ "replicate 20 34"] exI[of _ "[5]"] exI[of _ "replicate 20 7 @ [1, 2]"] exI[of _ "[]"] exI[of _ "replicate 20 0"])

text \<open>The EntryPoint at 0x0202... on chain 1.\<close>

definition demo_hash_W :: "unit chain ep_callees" where
  "demo_hash_W = demo_W\<lparr>w_hash := keccak_word demo_ethers,
     w_typehash := of_nat (be_val (ethers_keccak demo_ethers (str_bytes PACKED_USEROP_TYPE))),
     w_typed := (\<lambda>h. keccak_word demo_ethers ([0x19, 0x01] @ be_bytes 32 (unat (buildDomainSeparator (keccak_word demo_ethers) 1
       (of_nat (be_val (replicate 20 2))))) @ be_bytes 32 (unat h)))\<rparr>"

lemma demo_hashes: "hashes_like demo_ethers (replicate 20 2) 1 demo_hash_W"
  by (simp add: hashes_like_def demo_hash_W_def)

lemma demo_init_not_7702: "\<not> isEip7702InitCode_sol (replicate 20 7 @ [1, 2])"
proof -
  have "hd (take 2 (replicate 20 7 @ [1, 2])) = (7 :: 8 word)" by simp
  moreover have "hd [0x77, 0x02] \<noteq> (7 :: 8 word)" by simp
  ultimately show ?thesis using sol_marker by metis
qed

lemma demo_created_init: "uo_initCode (demo_created index) = hx (replicate 20 7 @ [1, 2])"
  by (simp add: demo_created_def)

lemma demo_chain_id: "n_chainId (demo_signer_answers ''0x'') = Some (Inr 1)"
  by (simp add: demo_signer_answers_def)

lemma demo_created_hash:
  assumes "0 \<le> index" "index < 2 ^ 256"
  shows "\<exists>h. getUserOpHash demo_ethers (client_eip712 demo_ethers) (demo_created index) (hx (replicate 20 2)) 1 = Inr h"
proof -
  obtain p where p: "packUserOp demo_ethers (demo_created index) = Inr p"
    using packUserOp_wf[OF demo_ethers_ok demo_created_wf[OF assms]] by metis
  show ?thesis
    by (rule client_hash[OF demo_ethers_ok demo_abi_ok demo_created_wf[OF assms] _ _ _ demo_hashes p]) auto
qed

text \<open>Sending with a sender that accepts every operation.\<close>

definition demo_send :: "int \<Rightarrow> signer_world \<Rightarrow> (js_error + tx_response) \<times> signer_world" where
  "demo_send index = sendTransaction demo_ethers id (client_eip712 demo_ethers) (\<lambda>ep c p. Inr ''0x99'') index
     (demo_signer_answers ''0x'') (userEventResponse demo_ethers (client_eip712 demo_ethers) (\<lambda>d. Inr d) (hx (replicate 20 2)))
     (hand_over (\<lambda>_. Inr ())) demo_tx"

lemma demo_send_succeeds: "\<exists>response st'. demo_send 0 demo_world = (Inr response, st')"
proof -
  obtain st1 where c: "createUserOperation demo_ethers id (client_eip712 demo_ethers) (\<lambda>ep c p. Inr ''0x99'') 0
      (demo_signer_answers ''0x'') demo_tx demo_world = (Inr (demo_created 0), st1)" using demo_create_world by blast
  obtain h where "getUserOpHash demo_ethers (client_eip712 demo_ethers) (demo_created 0) (hx (replicate 20 2)) 1 = Inr h"
    using demo_created_hash[of 0] by auto
  moreover have "uo_nonce (demo_created 0) = 0" by (simp add: demo_created_def)
  ultimately show ?thesis
    using created_world(3)[OF c]
    by (simp add: demo_send_def sendTransaction_def bindIO_run c userEventResponse_def await_chainId_def demo_chain_id toNumber_def hand_over_def)
qed

theorem response_waits_for_operation_witness:
  "\<exists>response st' p h. demo_send 0 demo_world = (Inr response, st') \<and> sent_ops st' = [demo_created 0]
     \<and> listeners st' = [(rs_hash response, start_listener)] \<and> packUserOp demo_ethers (demo_created 0) = Inr p
     \<and> getUserOpHash_sol demo_hash_W (on_chain_op p) (demo_ep demo_account) = Inr h \<and> rs_hash response = hx (be_bytes 32 (unat h))"
proof -
  obtain st1 where c: "createUserOperation demo_ethers id (client_eip712 demo_ethers) (\<lambda>ep c p. Inr ''0x99'') 0
      (demo_signer_answers ''0x'') demo_tx demo_world = (Inr (demo_created 0), st1)" using demo_create_world by blast
  obtain response st' where s: "demo_send 0 demo_world = (Inr response, st')" using demo_send_succeeds by blast
  have w: "sent_ops demo_world = []" "listeners demo_world = []" by (simp_all add: demo_world_def aa_signer.defs signer_world.defs)
  show ?thesis
    using response_waits_for_operation[OF demo_ethers_ok demo_abi_ok demo_hashes _ _ _ demo_chain_id c demo_created_wf demo_created_init
        demo_init_not_7702 s[unfolded demo_send_def], of "demo_ep demo_account"] s w
    by auto
qed

theorem keyed_nonce_never_sent_witness:
  "case demo_send (2 ^ 64) demo_world of (r, st') \<Rightarrow> r = Inl (Rejected ''overflow'') \<and> sent_ops st' = []
     \<and> length (listeners st') = 1"
proof -
  obtain st1 where c: "createUserOperation demo_ethers id (client_eip712 demo_ethers) (\<lambda>ep c p. Inr ''0x99'') (2 ^ 64)
      (demo_signer_answers ''0x'') demo_tx demo_world = (Inr (demo_created (2 ^ 64)), st1)" using demo_create_world by blast
  obtain h where h: "getUserOpHash demo_ethers (client_eip712 demo_ethers) (demo_created (2 ^ 64)) (hx (replicate 20 2)) 1 = Inr h"
    using demo_created_hash[of "2 ^ 64"] by auto
  have n: "2 ^ 53 \<le> uo_nonce (demo_created (2 ^ 64))" by (simp add: demo_created_def)
  have w: "sent_ops demo_world = []" "listeners demo_world = []" by (simp_all add: demo_world_def aa_signer.defs signer_world.defs)
  show ?thesis
    using keyed_nonce_never_sent[OF c n demo_chain_id h, of "\<lambda>d. Inr d" "\<lambda>_. Inr ()"] w
    by (auto simp: demo_send_def)
qed

end
