(* ===== verification/Client_Types.thy ===== *)
theory Client_Types
  imports Client_Hash
begin

text \<open>
  The types of the operations that the client makes: \<open>fillUserOp\<close> of \<open>test/UserOp.ts\<close> turns an operation
  with fields of the right form into a complete one in the ranges of the contract's types.
\<close>

section \<open>Typed operations\<close>

definition is_data :: "string \<Rightarrow> bool" where "is_data s \<longleftrightarrow> (\<exists>bs. s = hx bs)"
definition is_address :: "string \<Rightarrow> bool" where "is_address s \<longleftrightarrow> (\<exists>bs. s = hx bs \<and> length bs = 20)"
definition in_bits :: "nat \<Rightarrow> int \<Rightarrow> bool" where "in_bits w n \<longleftrightarrow> 0 \<le> n \<and> n < 2 ^ w"

text \<open>
  What the caller gives: missing fields are allowed, a priority fee has 127 bits because it may be added to a base
  fee, and the gas before verification, when it is given, is not 0.
\<close>

definition partial_typed :: "PartialUserOp \<Rightarrow> bool" where
  "partial_typed op \<longleftrightarrow>
     pred_option is_address (p_sender op) \<and> pred_option (in_bits 256) (p_nonce op)
   \<and> pred_option is_data (p_initCode op) \<and> pred_option is_data (p_callData op)
   \<and> pred_option (in_bits 128) (p_callGasLimit op) \<and> pred_option (in_bits 128) (p_verificationGasLimit op)
   \<and> pred_option (in_bits 256) (p_preVerificationGas op) \<and> p_preVerificationGas op \<noteq> Some 0
   \<and> pred_option (in_bits 128) (p_maxFeePerGas op) \<and> pred_option (in_bits 127) (p_maxPriorityFeePerGas op)
   \<and> pred_option is_address (p_paymaster op) \<and> pred_option is_data (p_paymasterData op)
   \<and> pred_option (in_bits 128) (p_paymasterVerificationGasLimit op) \<and> pred_option (in_bits 128) (p_paymasterPostOpGasLimit op)"

text \<open>What the node answers, when it answers.\<close>

definition answers_typed :: "answers \<Rightarrow> bool" where
  "answers_typed a \<longleftrightarrow>
     (\<forall>s n. a_getTransactionCount a s = Inr n \<longrightarrow> in_bits 256 n)
   \<and> (\<forall>from to d g. a_estimateGas a from to d = Inr g \<longrightarrow> in_bits 127 g)
   \<and> (\<forall>s f n. a_view a s f = Inr n \<longrightarrow> in_bits 256 n)
   \<and> (\<forall>c s. a_getSenderAddress a c = Inr s \<longrightarrow> is_address s)
   \<and> (\<forall>b. a_baseFeePerGas a = Inr (Some b) \<longrightarrow> in_bits 127 b)"

lemma in_bits_mono: "in_bits v n \<Longrightarrow> v \<le> w \<Longrightarrow> in_bits w n"
  by (auto simp: in_bits_def intro: order_less_le_trans)

lemma in_bits_add: "in_bits 127 a \<Longrightarrow> in_bits 127 b \<Longrightarrow> in_bits 128 (a + b)"
  by (auto simp: in_bits_def)

lemma default_gas_typed: "in_bits 127 150000" "in_bits 127 1000000000" "in_bits 127 300000" "in_bits 127 0"
    "in_bits 128 300000" "in_bits 128 0" "in_bits 128 150000" "in_bits 256 0" "in_bits 256 21000"
  by (simp_all add: in_bits_def)

lemma sliced_address:
  assumes "ethers_ok E" and "getDeployedAddress E (hx ctr) (SaltHex (hx bs)) = Inr s" "length bs \<le> 32"
  shows "is_address s"
proof -
  have "salt_bytes (SaltHex (hx bs)) = Some (pad_left 32 bs)" using assms(3) by simp
  from getDeployedAddress_ok[OF assms(1) this] assms(1,2) have "s = hx (create2_address (ethers_keccak E) (pad_left 32 bs) ctr)" by simp
  moreover have "length (create2_address (ethers_keccak E) (pad_left 32 bs) ctr) = 20"
    using assms(1) by (simp add: create2_address_def)
  ultimately show ?thesis unfolding is_address_def by blast
qed

section \<open>Each step keeps the types\<close>

lemma fill_eip7702_typed:
  "answers_typed a \<Longrightarrow> partial_typed op \<Longrightarrow> fill_eip7702 (Some a) opts op = Inr op' \<Longrightarrow> partial_typed op'"
  by (auto simp: fill_eip7702_def result_simps require_some_def partial_typed_def answers_typed_def split: option.splits)

lemma fill_sender_typed:
  assumes "ethers_ok E" and "answers_typed a" and "partial_typed op"
    and "fill_sender E lower (Some a) ic ia (hx icd) op = Inr op'"
  shows "partial_typed op'"
proof (cases "p_sender op")
  case (Some s)
  with assms(3,4) show ?thesis by (simp add: fill_sender_def)
next
  case None
  with assms obtain s where s: "op' = op\<lparr>p_sender := Some s\<rparr>" "is_address s"
    by (auto simp: fill_sender_def result_simps require_some_def answers_typed_def ethers_hexDataSlice
        dest!: sliced_address[OF assms(1)] split: if_splits)
  with assms(3) show ?thesis by (simp add: partial_typed_def)
qed

lemma fill_verificationGas_typed:
  "answers_typed a \<Longrightarrow> partial_typed op \<Longrightarrow> fill_verificationGas (Some a) ia cd op = Inr op' \<Longrightarrow> partial_typed op'"
  by (auto simp: fill_verificationGas_def result_simps require_some_def partial_typed_def answers_typed_def DefaultsForUserOp_def
      intro!: in_bits_add default_gas_typed split: option.splits)

lemma fill_initCode_typed:
  assumes "ethers_ok E" and "answers_typed a" and "partial_typed op" and "fill_initCode E lower (Some a) opts op = Inr op'"
  shows "partial_typed op'"
proof (cases "p_initCode op")
  case None
  with assms show ?thesis by (simp add: fill_initCode_def)
next
  case (Some c)
  with assms(3) obtain ic where ic: "c = hx ic" by (auto simp: partial_typed_def is_data_def)
  show ?thesis
  proof (cases "isEip7702InitCode E (Some c) = Inr True")
    case True
    with assms(4) Some have "fill_eip7702 (Some a) opts op = Inr op'" by (simp add: fill_initCode_def)
    with assms(2,3) show ?thesis by (rule fill_eip7702_typed)
  next
    case False
    let ?op = "if p_nonce op = None then op\<lparr>p_nonce := Some 0\<rparr> else op"
    from False assms(1,4) Some ic have "fill_factory E lower (Some a) c op = Inr op'"
      by (auto simp: fill_initCode_def result_simps split: if_splits)
    then obtain ia op2 where f: "fill_sender E lower (Some a) c ia (hx (drop 20 ic)) ?op = Inr op2"
      "fill_verificationGas (Some a) ia (hx (drop 20 ic)) op2 = Inr op'"
      using assms(1) ic by (auto simp: fill_factory_def result_simps ethers_hexDataSlice)
    have "partial_typed ?op" using assms(3) by (simp add: partial_typed_def in_bits_def)
    from fill_sender_typed[OF assms(1,2) this f(1)] fill_verificationGas_typed[OF assms(2) _ f(2)] show ?thesis by blast
  qed
qed

lemma fill_nonce_typed:
  "answers_typed a \<Longrightarrow> partial_typed op \<Longrightarrow> fill_nonce (Some a) opts s op = Inr op' \<Longrightarrow> partial_typed op'"
  by (auto simp: fill_nonce_def result_simps require_some_def partial_typed_def answers_typed_def split: option.splits)

lemma fill_callGas_typed:
  "answers_typed a \<Longrightarrow> partial_typed op \<Longrightarrow> fill_callGas (Some a) op = Inr op' \<Longrightarrow> partial_typed op'"
  by (auto simp: fill_callGas_def result_simps require_some_def partial_typed_def answers_typed_def
      intro!: in_bits_mono[of 127 _ 128] split: option.splits)

lemma or_default_typed: "pred_option P x \<Longrightarrow> P d \<Longrightarrow> P (or_default x d)"
  by (cases x) simp_all

lemma fill_paymaster_typed: "partial_typed op \<Longrightarrow> partial_typed (fill_paymaster op)"
  by (auto simp: fill_paymaster_def partial_typed_def DefaultsForUserOp_def
      intro!: or_default_typed[where P = "in_bits 128"] default_gas_typed(5,6))

lemma fill_fees_typed:
  assumes "answers_typed a" and "partial_typed op" and "fill_fees (Some a) op = Inr op'"
  shows "partial_typed op'"
proof -
  have prio: "in_bits 127 (or_default (p_maxPriorityFeePerGas op) (uo_maxPriorityFeePerGas DefaultsForUserOp))"
    using assms(2) default_gas_typed(2) or_default_typed[of "in_bits 127" "p_maxPriorityFeePerGas op" 1000000000]
    by (simp add: partial_typed_def DefaultsForUserOp_def)
  show ?thesis
  proof (cases "p_maxFeePerGas op")
    case (Some f)
    with assms(2,3) prio show ?thesis by (auto simp: fill_fees_def partial_typed_def)
  next
    case None
    with assms(3) obtain b where b: "a_baseFeePerGas a = Inr (Some b)"
      and op': "op' = op\<lparr>p_maxFeePerGas := Some (b + or_default (p_maxPriorityFeePerGas op) (uo_maxPriorityFeePerGas DefaultsForUserOp)),
        p_maxPriorityFeePerGas := Some (or_default (p_maxPriorityFeePerGas op) (uo_maxPriorityFeePerGas DefaultsForUserOp))\<rparr>"
      by (auto simp: fill_fees_def result_simps require_some_def split: option.splits)
    have "in_bits 127 b" using assms(1) b by (simp add: answers_typed_def)
    from in_bits_add[OF this prio] prio assms(2) show ?thesis unfolding op' by (simp add: partial_typed_def)
  qed
qed

lemma defaults_typed:
  assumes "partial_typed op"
  shows "user_op_wf (fillUserOpDefaults op DefaultsForUserOp)" and "uo_preVerificationGas (fillUserOpDefaults op DefaultsForUserOp) \<noteq> 0"
proof -
  have z: "is_address AddressZero" "is_data ''0x''"
    by (auto simp: is_address_def is_data_def AddressZero_def hx_Nil[symmetric] intro: exI[of _ "replicate 20 0"])
  let ?f = "fillUserOpDefaults op DefaultsForUserOp"
  have "is_address (uo_sender ?f)" "is_address (uo_paymaster ?f)" "is_data (uo_initCode ?f)" "is_data (uo_callData ?f)"
    "is_data (uo_paymasterData ?f)" "in_bits 256 (uo_nonce ?f)" "in_bits 256 (uo_preVerificationGas ?f)" "in_bits 128 (uo_callGasLimit ?f)"
    "in_bits 128 (uo_verificationGasLimit ?f)" "in_bits 128 (uo_maxFeePerGas ?f)" "in_bits 128 (uo_maxPriorityFeePerGas ?f)"
    "in_bits 128 (uo_paymasterVerificationGasLimit ?f)" "in_bits 128 (uo_paymasterPostOpGasLimit ?f)"
    using assms z in_bits_mono[OF or_default_typed[of "in_bits 127" "p_maxPriorityFeePerGas op" 1000000000], of 128] default_gas_typed
      or_default_typed[where P = is_address] or_default_typed[where P = is_data] or_default_typed[where P = "in_bits 128"]
      or_default_typed[where P = "in_bits 256"]
    by (simp_all add: partial_typed_def fillUserOpDefaults_def DefaultsForUserOp_def)
  then show "user_op_wf ?f" by (auto simp: user_op_wf_def is_address_def is_data_def in_bits_def)
  show "uo_preVerificationGas ?f \<noteq> 0"
    using assms by (cases "p_preVerificationGas op") (simp_all add: partial_typed_def fillUserOpDefaults_def DefaultsForUserOp_def)
qed

definition fillAndPack ::
  "ethers \<Rightarrow> (string \<Rightarrow> string) \<Rightarrow> eip712 \<Rightarrow> PartialUserOp \<Rightarrow> answers option \<Rightarrow> fill_options \<Rightarrow> js_error + PackedUserOp" where
  "fillAndPack E lower H op ep opts = bindE (fillUserOp E lower H op ep opts) (packUserOp E)"

text \<open>
  C40. What the client fills is typed, and packs. From an operation whose given fields have the form of their
  types, and a node whose answers are in range, \<open>fillUserOp\<close> only ever returns an operation in which every
  field is in the range of the contract's type, and \<open>fillAndPack\<close> returns: a 20-byte sender and two
  32-byte words of gas limits and fees that hold exactly its limits and fees.
\<close>

theorem filled_operation_is_typed:
  assumes "ethers_ok E" and "answers_typed a" and "partial_typed op" and "fillUserOp E lower H op (Some a) opts = Inr filled"
  shows "user_op_wf filled \<and> (\<exists>p s. fillAndPack E lower H op (Some a) opts = Inr p \<and> pu_sender p = hx s \<and> length s = 20
    \<and> pu_accountGasLimits p = hx (be_bytes 16 (nat (uo_verificationGasLimit filled)) @ be_bytes 16 (nat (uo_callGasLimit filled)))
    \<and> pu_gasFees p = hx (be_bytes 16 (nat (uo_maxPriorityFeePerGas filled)) @ be_bytes 16 (nat (uo_maxFeePerGas filled))))"
proof -
  from assms(4) obtain op1 op2 op3 op4 where f: "fill_initCode E lower (Some a) opts op = Inr op1"
    "fill_nonce (Some a) opts (p_sender op) op1 = Inr op2" "fill_callGas (Some a) op2 = Inr op3"
    "fill_fees (Some a) (fill_paymaster op3) = Inr op4"
    and r: "(let filled = fillUserOpDefaults op4 DefaultsForUserOp in
      if uo_preVerificationGas filled = 0 then
        bindE (encodeUserOp E (op_typehash H) filled False) (\<lambda>enc.
        bindE (callDataCost E enc) (\<lambda>c. Inr (filled\<lparr>uo_preVerificationGas := c\<rparr>)))
      else Inr filled) = Inr filled"
    by (auto simp: fillUserOp_def result_simps)
  note t1 = fill_initCode_typed[OF assms(1-3) f(1)]
  note t2 = fill_nonce_typed[OF assms(2) t1 f(2)]
  note t3 = fill_callGas_typed[OF assms(2) t2 f(3)]
  note t4 = fill_fees_typed[OF assms(2) fill_paymaster_typed[OF t3] f(4)]
  from r defaults_typed[OF t4] have w: "user_op_wf filled" by (simp add: Let_def)
  show ?thesis using w packUserOp_wf[OF assms(1) w] assms(4) unfolding fillAndPack_def by (metis bindE_simps(2))
qed

text \<open>An operation with a sender only; the node says 4 for its nonce and 3 for the base fee.\<close>

definition typed_answers :: answers where
  "typed_answers = \<lparr>a_entryPoint = hx (replicate 20 2), a_chainId = Inr 1, a_getCode = (\<lambda>a. Inr ''0x''),
     a_getTransactionCount = (\<lambda>a. Inr 0), a_estimateGas = (\<lambda>from to d. Inr 1000), a_view = (\<lambda>a f. Inr 4),
     a_getSenderAddress = (\<lambda>c. Inl TypeError), a_senderCreator = Inl TypeError, a_baseFeePerGas = Inr (Some 3)\<rparr>"

definition sender_only :: PartialUserOp where
  "sender_only = \<lparr>p_sender = Some (hx (replicate 20 1)), p_nonce = None, p_initCode = None, p_callData = Some (hx [5]),
     p_callGasLimit = None, p_verificationGasLimit = None, p_preVerificationGas = None, p_maxFeePerGas = None,
     p_maxPriorityFeePerGas = None, p_paymaster = None, p_paymasterVerificationGasLimit = None,
     p_paymasterPostOpGasLimit = None, p_paymasterData = None, p_signature = None\<rparr>"

lemma typed_answers_ok: "answers_typed typed_answers"
  by (simp add: answers_typed_def typed_answers_def in_bits_def)

lemma sender_only_ok: "partial_typed sender_only"
  by (auto simp: partial_typed_def sender_only_def is_address_def is_data_def intro: exI[of _ "replicate 20 1"])

lemma sender_only_filled: "fillUserOp demo_ethers id H sender_only (Some typed_answers) no_options
    = Inr (DefaultsForUserOp\<lparr>uo_sender := hx (replicate 20 1), uo_nonce := 4, uo_callData := hx [5], uo_callGasLimit := 1000,
        uo_maxFeePerGas := 1000000003\<rparr>)"
  by (simp add: fillUserOp_def fill_initCode_def fill_nonce_def fill_callGas_def fill_paymaster_def fill_fees_def fillUserOpDefaults_def
      require_some_def sender_only_def typed_answers_def DefaultsForUserOp_def)

theorem filled_operation_is_typed_witness:
  "user_op_wf (DefaultsForUserOp\<lparr>uo_sender := hx (replicate 20 1), uo_nonce := 4, uo_callData := hx [5], uo_callGasLimit := 1000,
        uo_maxFeePerGas := 1000000003\<rparr>)"
  using filled_operation_is_typed[OF demo_ethers_ok typed_answers_ok sender_only_ok sender_only_filled] by (rule conjunct1)

end
