(* ===== verification/Client_Search.thy ===== *)
theory Client_Search
  imports Entry_Point_Simulations Run_Scripts
begin
text \<open>
  The searches of \<open>test/testutils.ts\<close> for the lowest gas limit with which an operation succeeds, and the
  packed validation data as the client reads and writes it.
\<close>

section \<open>findMin\<close>

text \<open>
  A test is an action on the chain. The loop has no bound of its own: \<open>None\<close> is a loop that never
  returns. JavaScript numbers below \<open>2 ^ 52\<close> are integers.
\<close>

definition show_int :: "int \<Rightarrow> string" where
  "show_int n = (if n < 0 then ''-'' @ dec (nat (- n)) else dec (nat n))"

partial_function (option) findMin_loop ::
  "(int \<Rightarrow> ('s, bool) io) \<Rightarrow> int \<Rightarrow> int \<Rightarrow> int \<Rightarrow> 's \<Rightarrow> ((js_error + int) \<times> 's) option" where
  "findMin_loop testFunc lo hi delta s =
     (let avg = (hi + lo) div 2 in
      case testFunc avg s of
        (Inl e, s1) \<Rightarrow> Some (Inl e, s1)
      | (Inr b, s1) \<Rightarrow>
          (let hi1 = (if b then avg else hi); lo1 = (if b then lo else avg) in
           if \<bar>hi1 - lo1\<bar> < delta then Some (Inr hi1, s1) else findMin_loop testFunc lo1 hi1 delta s1))"

definition findMin :: "(int \<Rightarrow> ('s, bool) io) \<Rightarrow> int \<Rightarrow> int \<Rightarrow> int \<Rightarrow> 's \<Rightarrow> ((js_error + int) \<times> 's) option" where
  "findMin testFunc lo hi delta s =
     (case testFunc lo s of
        (Inl e, s1) \<Rightarrow> Some (Inl e, s1)
      | (Inr True, s1) \<Rightarrow> Some (Inl (Thrown (''increase range: function already true at '' @ show_int lo)), s1)
      | (Inr False, s1) \<Rightarrow>
          (case testFunc hi s1 of
             (Inl e, s2) \<Rightarrow> Some (Inl e, s2)
           | (Inr False, s2) \<Rightarrow>
               Some (Inl (Thrown (''no result: function is false for max value in '' @ show_int lo @ ''..'' @ show_int hi)), s2)
           | (Inr True, s2) \<Rightarrow> findMin_loop testFunc lo hi delta s2))"

text \<open>A test that always gives the same answers and leaves the chain as it was.\<close>

definition decides :: "(int \<Rightarrow> ('s, bool) io) \<Rightarrow> (int \<Rightarrow> bool) \<Rightarrow> 's \<Rightarrow> bool" where
  "decides testFunc P s \<longleftrightarrow> (\<forall>n. testFunc n s = (Inr (P n), s))"

lemma decidesD: "decides t P s \<Longrightarrow> t n s = (Inr (P n), s)"
  by (simp add: decides_def)

text \<open>What the search is for: a point where the test holds, less than \<open>delta\<close> above one where it does not.\<close>

definition threshold :: "(int \<Rightarrow> bool) \<Rightarrow> int \<Rightarrow> int \<Rightarrow> int \<Rightarrow> int \<Rightarrow> bool" where
  "threshold P lo hi delta r \<longleftrightarrow> P r \<and> r \<le> hi \<and> (\<exists>m. lo \<le> m \<and> \<not> P m \<and> m < r \<and> r - m < delta)"

lemma midpoint: "lo < hi \<Longrightarrow> lo \<le> (hi + lo) div 2 \<and> (hi + lo) div 2 < hi" for lo hi :: int
  by linarith

lemma findMin_loop_finds:
  assumes "decides t P s" and "2 \<le> delta" and "lo < hi" "\<not> P lo" "P hi"
  shows "\<exists>r. findMin_loop t lo hi delta s = Some (Inr r, s) \<and> threshold P lo hi delta r"
  using assms(3-)
proof (induction "nat (hi - lo)" arbitrary: lo hi rule: less_induct)
  case less
  let ?avg = "(hi + lo) div 2"
  let ?hi = "if P ?avg then ?avg else hi" and ?lo = "if P ?avg then lo else ?avg"
  have m: "lo \<le> ?avg" "?avg < hi" using midpoint[OF less.prems(1)] by simp_all
  have lt: "?lo < ?hi" using m less.prems(2) by (cases "?avg = lo") auto
  have new: "\<not> P ?lo" "P ?hi" "lo \<le> ?lo" "?hi \<le> hi" using less.prems m by auto
  note step = findMin_loop.simps[of t lo hi delta s, unfolded decidesD[OF assms(1)] Let_def, simplified]
  show ?case
  proof (cases "?hi - ?lo < delta")
    case True
    then have "findMin_loop t lo hi delta s = Some (Inr ?hi, s)" using lt by (simp add: step)
    moreover have "threshold P lo hi delta ?hi" unfolding threshold_def using new lt True by blast
    ultimately show ?thesis by blast
  next
    case False
    then have s: "findMin_loop t lo hi delta s = findMin_loop t ?lo ?hi delta s" using lt by (auto simp: step)
    have "nat (?hi - ?lo) < nat (hi - lo)"
    proof (cases "P ?avg")
      case False
      have "lo < ?avg" using \<open>\<not> ?hi - ?lo < delta\<close> False assms(2) less.prems(1) by simp
      with False less.prems(1) show ?thesis by simp
    qed (use m in simp)
    from less.hyps[OF this lt new(1,2)] obtain r where
      r: "findMin_loop t ?lo ?hi delta s = Some (Inr r, s)" "threshold P ?lo ?hi delta r" by blast
    then have "threshold P lo hi delta r" using new(3,4) unfolding threshold_def by (meson order_trans)
    with r(1) s show ?thesis by auto
  qed
qed

text \<open>With a \<open>delta\<close> of 1 or less the distance never becomes small enough.\<close>

lemma findMin_loop_diverges:
  assumes "decides t P s" and "delta \<le> 1" and "lo < hi" "\<not> P lo" "P hi"
  shows "findMin_loop t lo hi delta s = None"
proof (cases "findMin_loop t lo hi delta s")
  case (Some y)
  have "t = t \<longrightarrow> decides t P s \<longrightarrow> delta \<le> 1 \<longrightarrow> lo < hi \<longrightarrow> \<not> P lo \<longrightarrow> P hi \<longrightarrow> False"
  proof (rule findMin_loop.raw_induct[where P = "\<lambda>t lo hi delta s y. t = t \<longrightarrow> decides t P s \<longrightarrow> delta \<le> 1 \<longrightarrow> lo < hi
      \<longrightarrow> \<not> P lo \<longrightarrow> P hi \<longrightarrow> False", OF _ Some])
    fix f t lo hi delta s y
    assume IH: "\<And>t lo hi delta s y. f t lo hi delta s = Some y \<Longrightarrow> t = t \<longrightarrow> decides t P s \<longrightarrow> delta \<le> 1 \<longrightarrow> lo < hi
        \<longrightarrow> \<not> P lo \<longrightarrow> P hi \<longrightarrow> False"
      and eq: "(let avg = (hi + lo) div 2 in
        case t avg s of
          (Inl e, s1) \<Rightarrow> Some (Inl e, s1)
        | (Inr b, s1) \<Rightarrow>
            (let hi1 = (if b then avg else hi); lo1 = (if b then lo else avg) in
             if \<bar>hi1 - lo1\<bar> < delta then Some (Inr hi1, s1) else f t lo1 hi1 delta s1)) = Some y"
    show "t = t \<longrightarrow> decides t P s \<longrightarrow> delta \<le> 1 \<longrightarrow> lo < hi \<longrightarrow> \<not> P lo \<longrightarrow> P hi \<longrightarrow> False"
    proof (intro impI)
      assume a: "decides t P s" "delta \<le> 1" "lo < hi" "\<not> P lo" "P hi"
      let ?avg = "(hi + lo) div 2"
      let ?hi = "if P ?avg then ?avg else hi" and ?lo = "if P ?avg then lo else ?avg"
      have m: "lo \<le> ?avg" "?avg < hi" using midpoint[OF a(3)] by simp_all
      have lt: "?lo < ?hi" using m a(4) by (cases "?avg = lo") auto
      have "f t ?lo ?hi delta s = Some y"
        using eq[unfolded Let_def decidesD[OF a(1)]] lt a(2) by (auto split: if_splits)
      moreover have "\<not> P ?lo" "P ?hi" using a by (cases "P ?avg"; simp)+
      ultimately show False using IH a(1,2) lt by blast
    qed
  qed
  with assms show ?thesis by blast
qed simp

text \<open>
  C37. \<open>findMin\<close> finds, and returns exactly when its precision allows it. For a test that answers consistently and
  restores the chain, it throws when the test already holds at the minimum or never holds at the maximum,
  and otherwise returns a value with which the test holds, less than \<open>delta\<close> above one with which it does
  not; when the test is monotone that is the least such value up to \<open>delta\<close>. With \<open>delta\<close> at most 1 it
  never returns.
\<close>

theorem findMin_correct:
  assumes "decides testFunc P s" and "lo < hi"
  shows "findMin testFunc lo hi delta s =
      (if P lo then Some (Inl (Thrown (''increase range: function already true at '' @ show_int lo)), s)
       else if \<not> P hi then
         Some (Inl (Thrown (''no result: function is false for max value in '' @ show_int lo @ ''..'' @ show_int hi)), s)
       else if delta \<le> 1 then None
       else findMin_loop testFunc lo hi delta s)
    \<and> (P lo \<or> \<not> P hi \<or> delta \<le> 1 \<or> (\<exists>r. findMin_loop testFunc lo hi delta s = Some (Inr r, s) \<and> threshold P lo hi delta r
        \<and> (mono P \<longrightarrow> (\<forall>n. P n \<longrightarrow> r - delta + 1 < n))))"
proof -
  have "findMin_loop testFunc lo hi delta s = None" if "\<not> P lo" "P hi" "delta \<le> 1"
    using findMin_loop_diverges[OF assms(1) that(3) assms(2) that(1,2)] .
  moreover have "\<exists>r. findMin_loop testFunc lo hi delta s = Some (Inr r, s) \<and> threshold P lo hi delta r
      \<and> (mono P \<longrightarrow> (\<forall>n. P n \<longrightarrow> r - delta + 1 < n))" if "\<not> P lo" "P hi" "\<not> delta \<le> 1"
  proof -
    have "2 \<le> delta" using that(3) by simp
    from findMin_loop_finds[OF assms(1) this assms(2) that(1,2)]
    obtain r where r: "findMin_loop testFunc lo hi delta s = Some (Inr r, s)" "threshold P lo hi delta r" by blast
    from r(2) obtain m where m: "\<not> P m" "r - m < delta" by (auto simp: threshold_def)
    have "r - delta + 1 < n" if "mono P" "P n" for n
    proof -
      have "m < n" using that m(1) by (meson le_boolD monoD not_le)
      with m(2) show ?thesis by linarith
    qed
    with r show ?thesis by blast
  qed
  ultimately show ?thesis by (auto simp: findMin_def decidesD[OF assms(1)])
qed

lemma show_50: "show_int 50 = ''50''"
  by code_simp

theorem findMin_correct_witness:
  "(\<exists>r. findMin (\<lambda>n. returnIO (40 \<le> n)) 0 100 5 () = Some (Inr r, ()) \<and> 40 \<le> r \<and> r < 45)
    \<and> findMin (\<lambda>n. returnIO (40 \<le> n)) 0 100 1 () = None
    \<and> findMin (\<lambda>n. returnIO (40 \<le> n)) 50 100 5 () = Some (Inl (Thrown ''increase range: function already true at 50''), ())"
proof -
  have d: "decides (\<lambda>n. returnIO (40 \<le> n)) (\<lambda>n. 40 \<le> n) ()" by (simp add: decides_def returnIO_def)
  have "mono (\<lambda>n :: int. 40 \<le> n)" by (auto simp: mono_def)
  moreover from findMin_correct[OF d, of 0 100 5] obtain r where
    "findMin (\<lambda>n. returnIO (40 \<le> n)) 0 100 5 () = Some (Inr r, ())" "40 \<le> r"
    "mono (\<lambda>n :: int. 40 \<le> n) \<longrightarrow> (\<forall>n \<ge> 40. r - 5 + 1 < n)"
    by (auto simp: threshold_def)
  ultimately have "\<exists>r. findMin (\<lambda>n. returnIO (40 \<le> n)) 0 100 5 () = Some (Inr r, ()) \<and> 40 \<le> r \<and> r < 45"
    by (intro exI[of _ r]) fastforce
  with findMin_correct[OF d, of 0 100 1] findMin_correct[OF d, of 50 100 5] show ?thesis
    by (simp add: show_50)
qed

section \<open>The searches over operations\<close>

text \<open>
  The node: snapshots, their restoration, and \<open>handleOps\<close> with the packed operation, sent and waited for; the
  receipt is its events, each with its name and the field \<open>success\<close> when it has one. \<open>simulate\<close> is
  \<open>simulateValidation\<close> with the node's \<open>eth_call\<close>.
\<close>

record receipt_event =
  ev_event :: string
  ev_success :: "bool option"

record 'n search_node =
  sn_snapshot :: "('n, string) io"
  sn_revert :: "string \<Rightarrow> ('n, unit) io"
  sn_handleOps :: "PackedUserOp \<Rightarrow> ('n, receipt_event list) io"
  sn_simulate :: "PackedUserOp \<Rightarrow> ('n, unit) io"

definition receipt_ok :: "bool \<Rightarrow> receipt_event list \<Rightarrow> bool" where
  "receipt_ok expectExec evs =
     (if \<exists>e \<in> set evs. ev_event e = ''UserOperationPrefundTooLow'' then False
      else if expectExec then
        (case find (\<lambda>e. ev_event e = ''UserOperationEvent'') evs of
           None \<Rightarrow> False | Some e \<Rightarrow> ev_success e = Some True)
      else True)"

text \<open>The test of a value: whatever happens in the \<open>try\<close>, the snapshot is restored.\<close>

definition caught :: "('n, bool) io \<Rightarrow> ('n, bool) io" where
  "caught m = (\<lambda>s. case m s of (Inl e, s1) \<Rightarrow> (Inr False, s1) | (Inr b, s1) \<Rightarrow> (Inr b, s1))"

definition handleOps_try ::
  "ethers \<Rightarrow> 'n search_node \<Rightarrow> (int \<Rightarrow> ('n, UserOperation) io) \<Rightarrow> bool \<Rightarrow> int \<Rightarrow> ('n, bool) io" where
  "handleOps_try E N f expectExec n =
     bindIO (f n) (\<lambda>userOp.
     bindIO (liftIO (packUserOp E userOp)) (\<lambda>p.
     bindIO (sn_handleOps N p) (\<lambda>evs. returnIO (receipt_ok expectExec evs))))"

definition handleOps_test ::
  "ethers \<Rightarrow> 'n search_node \<Rightarrow> (int \<Rightarrow> ('n, UserOperation) io) \<Rightarrow> bool \<Rightarrow> int \<Rightarrow> ('n, bool) io" where
  "handleOps_test E N f expectExec n =
     bindIO (sn_snapshot N) (\<lambda>snapshot.
     bindIO (caught (handleOps_try E N f expectExec n)) (\<lambda>result.
     bindIO (sn_revert N snapshot) (\<lambda>_. returnIO result)))"

definition findUserOpWithMin ::
  "ethers \<Rightarrow> 'n search_node \<Rightarrow> (int \<Rightarrow> ('n, UserOperation) io) \<Rightarrow> bool \<Rightarrow> int \<Rightarrow> int \<Rightarrow> int \<Rightarrow> 'n \<Rightarrow> ((js_error + int) \<times> 'n) option" where
  "findUserOpWithMin E N f expectExec lo hi delta s = findMin (handleOps_test E N f expectExec) lo hi delta s"

definition simulation_test :: "ethers \<Rightarrow> 'n search_node \<Rightarrow> (int \<Rightarrow> ('n, UserOperation) io) \<Rightarrow> int \<Rightarrow> ('n, bool) io" where
  "simulation_test E N f n = caught
     (bindIO (f n) (\<lambda>userOp.
      bindIO (liftIO (packUserOp E userOp)) (\<lambda>p.
      bindIO (sn_simulate N p) (\<lambda>_. returnIO True))))"

definition findSimulationUserOpWithMin ::
  "ethers \<Rightarrow> 'n search_node \<Rightarrow> (int \<Rightarrow> ('n, UserOperation) io) \<Rightarrow> int \<Rightarrow> int \<Rightarrow> int \<Rightarrow> 'n \<Rightarrow> ((js_error + int) \<times> 'n) option" where
  "findSimulationUserOpWithMin E N f lo hi delta s = findMin (simulation_test E N f) lo hi delta s"

text \<open>
  A node whose snapshots work: reverting to the snapshot after an attempt gives the state before it was taken.
\<close>

definition restores ::
  "ethers \<Rightarrow> 'n search_node \<Rightarrow> (int \<Rightarrow> ('n, UserOperation) io) \<Rightarrow> bool \<Rightarrow> 'n \<Rightarrow> bool" where
  "restores E N f expectExec s \<longleftrightarrow> (\<exists>id s1. sn_snapshot N s = (Inr id, s1)
     \<and> (\<forall>n. sn_revert N id (snd (handleOps_try E N f expectExec n s1)) = (Inr (), s)))"

definition succeeds_with ::
  "ethers \<Rightarrow> 'n search_node \<Rightarrow> (int \<Rightarrow> ('n, UserOperation) io) \<Rightarrow> bool \<Rightarrow> 'n \<Rightarrow> int \<Rightarrow> bool" where
  "succeeds_with E N f expectExec s n \<longleftrightarrow> (\<exists>op s2 p evs s3. f n (snd (sn_snapshot N s)) = (Inr op, s2) \<and> packUserOp E op = Inr p
     \<and> sn_handleOps N p s2 = (Inr evs, s3) \<and> receipt_ok expectExec evs)"

lemma snd_caught [simp]: "snd (caught m s) = snd (m s)"
  by (simp add: caught_def split: prod.splits sum.splits)

lemma handleOps_test_decides:
  assumes "restores E N f expectExec s"
  shows "decides (handleOps_test E N f expectExec) (succeeds_with E N f expectExec s) s"
  unfolding decides_def
proof
  fix n
  let ?m = "handleOps_try E N f expectExec n"
  obtain id s1 where n: "sn_snapshot N s = (Inr id, s1)" "sn_revert N id (snd (?m s1)) = (Inr (), s)"
    using assms by (auto simp: restores_def)
  have "fst (caught ?m s1) = Inr (succeeds_with E N f expectExec s n)"
    by (auto simp: handleOps_try_def caught_def bindIO_def liftIO_def returnIO_def succeeds_with_def n(1) split: prod.splits sum.splits)
  then have "caught ?m s1 = (Inr (succeeds_with E N f expectExec s n), snd (?m s1))"
    by (metis prod.collapse snd_caught)
  then show "handleOps_test E N f expectExec n s = (Inr (succeeds_with E N f expectExec s n), s)"
    by (simp add: handleOps_test_def bindIO_def n returnIO_def)
qed

text \<open>
  The search for the lowest gas leaves no trace and finds. On a node whose snapshots work,
  \<open>findUserOpWithMin\<close> with the default \<open>delta\<close> of 2 or more returns, with the chain as it was, a value with which the
  operation goes through \<open>handleOps\<close> (and executes, when that is asked) and less than \<open>delta\<close> above one
  with which it does not; unless it throws because the given range does not separate the two. A test that
  fails, the operation being refused or the client throwing, only counts as a value that is too low.
\<close>

theorem findUserOpWithMin_finds:
  assumes "restores E N f expectExec s" and "lo < hi" and "2 \<le> delta"
  shows "case findUserOpWithMin E N f expectExec lo hi delta s of
      Some (Inr r, s') \<Rightarrow> s' = s \<and> \<not> succeeds_with E N f expectExec s lo \<and> succeeds_with E N f expectExec s hi
        \<and> threshold (succeeds_with E N f expectExec s) lo hi delta r
    | Some (Inl e, s') \<Rightarrow> s' = s \<and> (if succeeds_with E N f expectExec s lo
        then e = Thrown (''increase range: function already true at '' @ show_int lo)
        else e = Thrown (''no result: function is false for max value in '' @ show_int lo @ ''..'' @ show_int hi)
          \<and> \<not> succeeds_with E N f expectExec s hi)
    | None \<Rightarrow> False"
proof -
  note d = handleOps_test_decides[OF assms(1)]
  let ?P = "succeeds_with E N f expectExec s"
  show ?thesis
  proof (cases "\<not> ?P lo \<and> ?P hi")
    case True
    then obtain r where "findMin_loop (handleOps_test E N f expectExec) lo hi delta s = Some (Inr r, s)" "threshold ?P lo hi delta r"
      using findMin_loop_finds[OF d assms(3,2)] by blast
    with True show ?thesis by (simp add: findUserOpWithMin_def findMin_def decidesD[OF d])
  next
    case False
    then show ?thesis
      by (cases "?P lo"; cases "?P hi") (simp_all add: findUserOpWithMin_def findMin_def decidesD[OF d])
  qed
qed

text \<open>
  A node that keeps its snapshots on a stack above the account's nonce, and includes the operations that pay 50 gas or more.
\<close>

definition stack_node :: "nat list search_node" where
  "stack_node = \<lparr>sn_snapshot = (\<lambda>s. (Inr ''0x1'', hd s # s)), sn_revert = (\<lambda>_ s. (Inr (), tl s)),
     sn_handleOps = (\<lambda>p s. if 50 \<le> pu_preVerificationGas p
       then (Inr [\<lparr>ev_event = ''UserOperationEvent'', ev_success = Some True\<rparr>], Suc (hd s) # tl s)
       else (Inl (Rejected ''reverted''), s)),
     sn_simulate = (\<lambda>p s. (Inr (), s))\<rparr>"

definition search_op :: "int \<Rightarrow> (nat list, UserOperation) io" where
  "search_op n = returnIO (DefaultsForUserOp\<lparr>uo_preVerificationGas := n\<rparr>)"

lemma search_op_packs: "\<exists>p. packUserOp demo_ethers (DefaultsForUserOp\<lparr>uo_preVerificationGas := n\<rparr>) = Inr p"
  by (simp add: packUserOp_def DefaultsForUserOp_def packAccountGasLimits_ok[OF demo_ethers_ok] del: be_bytes.simps)

theorem findUserOpWithMin_finds_witness:
  "\<exists>r. findUserOpWithMin demo_ethers stack_node search_op True 1 100 2 [3] = Some (Inr r, [3]) \<and> 50 \<le> r \<and> r \<le> 51"
proof -
  obtain p where p: "\<And>n. packUserOp demo_ethers (DefaultsForUserOp\<lparr>uo_preVerificationGas := n\<rparr>) = Inr (p n)"
    using search_op_packs by metis
  have g: "pu_preVerificationGas (p n) = n" for n using packUserOp_keeps(6)[OF p[of n]] by simp
  have ok: "succeeds_with demo_ethers stack_node search_op True [3] n \<longleftrightarrow> 50 \<le> n" for n
    by (simp add: succeeds_with_def search_op_def returnIO_def stack_node_def p g receipt_ok_def)
  have r: "restores demo_ethers stack_node search_op True [3]"
    by (simp add: restores_def handleOps_try_def search_op_def bindIO_def liftIO_def returnIO_def stack_node_def p g)
  show ?thesis
    using findUserOpWithMin_finds[OF r, of 1 100 2]
    by (cases "findUserOpWithMin demo_ethers stack_node search_op True 1 100 2 [3]"; cases "fst (the (findUserOpWithMin demo_ethers
        stack_node search_op True 1 100 2 [3]))") (auto simp: ok threshold_def split: option.splits)
qed

section \<open>Validation data\<close>

record client_validation_data =
  cv_aggregator :: string
  cv_validAfter :: int
  cv_validUntil :: int

definition maxUint48 :: int where "maxUint48 = 2 ^ 48 - 1"

definition parseValidationData_ts :: "ethers \<Rightarrow> int \<Rightarrow> js_error + string \<times> js_num \<times> js_num" where
  "parseValidationData_ts E validationData =
     bindE (bindE (hexlify E validationData) (\<lambda>h. hexZeroPad E h 32)) (\<lambda>data.
     bindE (hexDataSlice E data (32 - 20) None) (\<lambda>aggregator.
     bindE (hexDataSlice E data (32 - 26) (Some (32 - 20))) (\<lambda>u.
     bindE (hexDataSlice E data 0 (Some 6)) (\<lambda>a.
     let validUntil = (if parseInt16 u = Num 0 then Num maxUint48 else parseInt16 u) in
     Inr (aggregator, parseInt16 a, validUntil)))))"

text \<open>\<open>BigNumber.from\<close> of a JavaScript number, which must be safe, and of a hex string.\<close>

definition bignumber :: "int \<Rightarrow> js_error + int" where
  "bignumber n = (if \<bar>n\<bar> < 2 ^ 53 - 1 then Inr n else Inl (Rejected ''overflow''))"

definition bignumber_hex :: "string \<Rightarrow> js_error + int" where
  "bignumber_hex s = (case unhx s of None \<Rightarrow> Inl (Rejected ''invalid BigNumber string'') | Some bs \<Rightarrow> Inr (int (be_val bs)))"

definition packValidationData_ts :: "client_validation_data \<Rightarrow> js_error + int" where
  "packValidationData_ts d =
     bindE (bignumber (cv_validAfter d)) (\<lambda>validAfter.
     bindE (bignumber (cv_validUntil d)) (\<lambda>validUntil.
     bindE (bignumber_hex (cv_aggregator d)) (\<lambda>aggregator.
     Inr ((validAfter * 2 ^ 48 + validUntil) * 2 ^ 160 + aggregator))))"

lemma unat_packValidationData:
  "unat (packValidationData d) = (unat (vd_validAfter d) * 2 ^ 48 + unat (vd_validUntil d)) * 2 ^ 160 + unat (vd_aggregator d)"
proof -
  let ?g = "ucast (vd_aggregator d) :: uint256" and ?u = "push_bit 160 (ucast (vd_validUntil d)) :: uint256"
    and ?a = "push_bit (160 + 48) (ucast (vd_validAfter d)) :: uint256"
  have b: "unat (vd_aggregator d) < 2 ^ 160" "unat (vd_validUntil d) < 2 ^ 48" "unat (vd_validAfter d) < 2 ^ 48"
    using unsigned_less[of "vd_aggregator d", where 'a = nat] unsigned_less[of "vd_validUntil d", where 'a = nat]
      unsigned_less[of "vd_validAfter d", where 'a = nat] by simp_all
  have u: "unat ?g = unat (vd_aggregator d)" "unat ?u = unat (vd_validUntil d) * 2 ^ 160" "unat ?a = unat (vd_validAfter d) * 2 ^ 208"
    using b by (simp_all add: unsigned_ucast_eq take_bit_nat_eq_self push_bit_eq_mult unat_word_ariths)
  have "or ?g ?u = ?g + ?u"
    by (rule disjunctive_add_eq_or[symmetric]) (rule bit_word_eqI, auto simp: bit_simps dest: bit_imp_le_length)
  moreover have "or (or ?g ?u) ?a = or ?g ?u + ?a"
    by (rule disjunctive_add_eq_or[symmetric]) (rule bit_word_eqI, auto simp: bit_simps dest: bit_imp_le_length)
  ultimately have "packValidationData d = ?g + ?u + ?a" by (simp add: packValidationData_def)
  moreover have "unat (?g + ?u + ?a) = unat ?g + unat ?u + unat ?a"
    using u b by (simp add: unat_word_ariths)
  ultimately show ?thesis using u by simp
qed

lemma be_bytes_split: "be_bytes (a + b) n = be_bytes a (n div 256 ^ b) @ be_bytes b n"
  by (induction b arbitrary: n) (simp_all add: div_mult2_eq)

lemma be_bytes_mod: "be_bytes k (n mod 256 ^ k) = be_bytes k n"
  using be_bytes_be_val[of "be_bytes k n" k] by simp

text \<open>
  Client and contracts read and write the same validation data. What the client packs from in-range fields
  is the word of \<open>_packValidationData\<close>, and from any word that an account returns it reads the aggregator
  and the two times of \<open>_parseValidationData\<close>, a missing time limit included.
\<close>

theorem validation_data_agreement:
  assumes "ethers_ok E"
  shows "packValidationData_ts \<lparr>cv_aggregator = hx (be_bytes 20 (unat (vd_aggregator d))), cv_validAfter = int (unat (vd_validAfter d)),
      cv_validUntil = int (unat (vd_validUntil d))\<rparr> = Inr (int (unat (packValidationData d)))
    \<and> parseValidationData_ts E (int (unat v))
      = Inr (hx (be_bytes 20 (unat (vd_aggregator (parseValidationData v)))),
             Num (int (unat (vd_validAfter (parseValidationData v)))), Num (int (unat (vd_validUntil (parseValidationData v)))))"
proof
  have b: "unat (vd_aggregator d) < 256 ^ 20" "unat (vd_validUntil d) < 2 ^ 48" "unat (vd_validAfter d) < 2 ^ 48"
    using unsigned_less[of "vd_aggregator d", where 'a = nat] unsigned_less[of "vd_validUntil d", where 'a = nat]
      unsigned_less[of "vd_validAfter d", where 'a = nat] by simp_all
  then have n: "bignumber (int (unat (vd_validAfter d))) = Inr (int (unat (vd_validAfter d)))"
    "bignumber (int (unat (vd_validUntil d))) = Inr (int (unat (vd_validUntil d)))"
  proof -
    have "int k < 2 ^ 53 - 1" if "k < 2 ^ 48" for k
      by (rule order_less_trans[of _ "int (2 ^ 48)"]) (use that in simp_all)
    from this[OF b(2)] this[OF b(3)] show "bignumber (int (unat (vd_validAfter d))) = Inr (int (unat (vd_validAfter d)))"
      "bignumber (int (unat (vd_validUntil d))) = Inr (int (unat (vd_validUntil d)))"
      by (simp_all add: bignumber_def)
  qed
  show "packValidationData_ts \<lparr>cv_aggregator = hx (be_bytes 20 (unat (vd_aggregator d))), cv_validAfter = int (unat (vd_validAfter d)),
      cv_validUntil = int (unat (vd_validUntil d))\<rparr> = Inr (int (unat (packValidationData d)))"
  proof -
    have "bignumber_hex (hx (be_bytes 20 (unat (vd_aggregator d)))) = Inr (int (unat (vd_aggregator d)))"
      using b(1) by (simp add: bignumber_hex_def del: be_bytes.simps)
    then have "packValidationData_ts \<lparr>cv_aggregator = hx (be_bytes 20 (unat (vd_aggregator d))), cv_validAfter = int (unat (vd_validAfter d)),
      cv_validUntil = int (unat (vd_validUntil d))\<rparr>
      = Inr ((int (unat (vd_validAfter d)) * 2 ^ 48 + int (unat (vd_validUntil d))) * 2 ^ 160 + int (unat (vd_aggregator d)))"
      by (simp only: packValidationData_ts_def client_validation_data.simps n bindE_simps)
    then show ?thesis by (simp only: unat_packValidationData of_nat_add of_nat_mult of_nat_power of_nat_numeral)
  qed
next
  let ?n = "unat v" and ?d = "parseValidationData v"
  have p: "bindE (hexlify E (int ?n)) (\<lambda>h. hexZeroPad E h 32) = Inr (hx (be_bytes 32 ?n))"
    using ethers_pad_number[OF assms, of "int ?n" 32] unat_lt_256[of v] by simp
  have s1: "be_bytes 32 ?n = be_bytes 12 (?n div 256 ^ 20) @ be_bytes 20 ?n" using be_bytes_split[of 12 20 ?n] by simp
  have s2: "be_bytes 12 m = be_bytes 6 (m div 256 ^ 6) @ be_bytes 6 m" for m using be_bytes_split[of 6 6 m] by simp
  have agg: "drop 12 (be_bytes 32 ?n) = be_bytes 20 ?n" unfolding s1 by simp
  have until: "take 6 (drop 6 (be_bytes 32 ?n)) = be_bytes 6 (?n div 256 ^ 20)" unfolding s1 s2 by simp
  have aft: "take 6 (be_bytes 32 ?n) = be_bytes 6 (?n div 256 ^ 20 div 256 ^ 6)" unfolding s1 s2 by simp
  have a: "unat (vd_aggregator ?d) = ?n mod 256 ^ 20"
    by (simp add: parseValidationData_def Let_def unsigned_ucast_eq take_bit_nat_def)
  have "unat v mod 2 ^ 256 = unat v" using unsigned_less[of v, where 'a = nat] by simp
  note v256 = this[simplified]
  have u: "unat (ucast (drop_bit 160 v) :: 48 word) = ?n div 256 ^ 20 mod 256 ^ 6"
    by (simp add: unsigned_ucast_eq take_bit_nat_def unsigned_drop_bit_eq drop_bit_nat_def v256)
  have "unat v div 2 ^ 208 < 2 ^ 48" by (rule less_mult_imp_div_less) (use unsigned_less[of v, where 'a = nat] in simp)
  then have "unat v div 2 ^ 208 mod 2 ^ 48 = unat v div 2 ^ 208" by simp
  note v48 = this[simplified]
  have f: "unat (vd_validAfter ?d) = ?n div 256 ^ 20 div 256 ^ 6 mod 256 ^ 6"
    by (simp add: parseValidationData_def Let_def unsigned_ucast_eq take_bit_nat_def unsigned_drop_bit_eq drop_bit_nat_def div_mult2_eq[symmetric] v256 v48)
  have num: "parseInt16 (hx (be_bytes 6 m)) = Num (int (m mod 256 ^ 6))" for m
  proof -
    have "be_bytes 6 m \<noteq> []" by (metis length_be_bytes list.size(3) zero_neq_numeral)
    moreover have "m mod 256 ^ 6 \<le> 2 ^ 53" by (rule order_trans[of _ "256 ^ 6"]) simp_all
    ultimately show ?thesis by (simp add: parseInt16_hx to_double_exact del: be_bytes.simps)
  qed
  have l: "unat (vd_validUntil ?d) = (if ?n div 256 ^ 20 mod 256 ^ 6 = 0 then 2 ^ 48 - 1 else ?n div 256 ^ 20 mod 256 ^ 6)"
    using u by (auto simp: parseValidationData_def Let_def unat_eq_0[symmetric] unsigned_minus_1_eq_mask mask_eq_exp_minus_1)
  have m: "be_bytes 20 (?n mod 256 ^ 20) = be_bytes 20 ?n" by (rule be_bytes_mod)
  show "parseValidationData_ts E (int ?n)
      = Inr (hx (be_bytes 20 (unat (vd_aggregator ?d))), Num (int (unat (vd_validAfter ?d))), Num (int (unat (vd_validUntil ?d))))"
    unfolding parseValidationData_ts_def p
    by (simp add: ethers_hexDataSlice[OF assms] agg until aft num m f l a maxUint48_def m[simplified] del: be_bytes.simps)
qed

theorem validation_data_agreement_witness:
  "packValidationData_ts \<lparr>cv_aggregator = hx (be_bytes 20 1), cv_validAfter = 1700000000, cv_validUntil = 1800000000\<rparr>
      = Inr (int (unat (packValidationData \<lparr>vd_aggregator = 1, vd_validAfter = 1700000000, vd_validUntil = 1800000000\<rparr>)))
    \<and> parseValidationData_ts demo_ethers 1 = Inr (hx (be_bytes 20 1), Num 0, Num (2 ^ 48 - 1))"
  using validation_data_agreement[OF demo_ethers_ok, of "\<lparr>vd_aggregator = 1, vd_validAfter = 1700000000, vd_validUntil = 1800000000\<rparr>" 1]
  by (simp add: parseValidationData_def Let_def unsigned_minus_1_eq_mask mask_eq_exp_minus_1 del: be_bytes.simps)

end
