(* ===== verification/Revert_Reason.thy ===== *)
theory Revert_Reason
  imports Client_Hash Run_Scripts
begin

text \<open>
  \<open>decodeRevertReason\<close> of \<open>test/testutils.ts\<close>, with which the sender of \<open>src/AASigner.ts\<close> and the gas checker
  show why an operation failed.
\<close>

section \<open>Decoding\<close>

text \<open>
  The ABI coder, and \<open>parseError\<close> of the interfaces that the tests know: the name of an error and its
  arguments, an argument of another type as \<open>join\<close> shows it.
\<close>

datatype error_arg = BytesArg string | StringArg string | OtherArg string

record error_abi =
  decode_string :: "string \<Rightarrow> js_error + string"
  decode_uint256 :: "string \<Rightarrow> js_error + nat"
  parseError :: "string \<Rightarrow> js_error + string \<times> error_arg list"

definition panicCodes :: "(nat \<times> string) list" where
  "panicCodes = [(0x01, ''assert(false)''), (0x11, ''arithmetic overflow/underflow''), (0x12, ''divide by zero''),
     (0x21, ''invalid enum value''), (0x22, ''storage byte array that is incorrectly encoded''),
     (0x31, ''.pop() on an empty array.''), (0x32, ''array sout-of-bounds or negative index''), (0x41, ''memory overflow''),
     (0x51, ''zero-initialized variable of internal function type'')]"

text \<open>The template of a panic has a quote and a plus sign after its closing brace.\<close>

definition panic_text :: "nat \<Rightarrow> string" where
  "panic_text code = ''Panic('' @ (case map_of panicCodes code of Some t \<Rightarrow> t | None \<Rightarrow> dec code) @ '' + '' @ [CHR 0x27] @ '')''"

definition joined :: "string option list \<Rightarrow> string" where
  "joined ts = comma_separated (map (\<lambda>t. case t of None \<Rightarrow> [] | Some x \<Rightarrow> x) ts)"

text \<open>
  The function on data, with \<open>fuel\<close> for its nesting: \<open>None\<close> is a nesting deeper than that. The inner result
  is an exception, or the text or \<open>null\<close>. An exception in an argument is caught with the others.
\<close>

fun decode_data :: "error_abi \<Rightarrow> nat \<Rightarrow> string \<Rightarrow> bool \<Rightarrow> (js_error + string option) option"
  and decode_args :: "error_abi \<Rightarrow> nat \<Rightarrow> error_arg list \<Rightarrow> (js_error + string option list) option" where
  "decode_data X 0 data nullIfNoMatch = None"
| "decode_data X (Suc fuel) data nullIfNoMatch =
     (let methodSig = take 10 data; dataParams = ''0x'' @ drop 10 data;
          noMatch = Some (Inr (if nullIfNoMatch then None else Some data)) in
      if methodSig = ''0x08c379a0'' then
        Some (bindE (decode_string X dataParams) (\<lambda>err. Inr (Some (''Error('' @ err @ '')''))))
      else if methodSig = ''0x4e487b71'' then
        Some (bindE (decode_uint256 X dataParams) (\<lambda>code. Inr (Some (panic_text code))))
      else case parseError X data of
        Inl e \<Rightarrow> noMatch
      | Inr (name, args) \<Rightarrow>
          (case decode_args X fuel args of
             None \<Rightarrow> None
           | Some (Inl e) \<Rightarrow> noMatch
           | Some (Inr ts) \<Rightarrow> Some (Inr (Some (name @ ''('' @ joined ts @ '')'')))))"
| "decode_args X fuel [] = Some (Inr [])"
| "decode_args X fuel (a # as) =
     (case (case a of
              BytesArg d \<Rightarrow> decode_data X fuel d True
            | StringArg s \<Rightarrow> Some (Inr (Some ([CHR 0x22] @ s @ [CHR 0x22])))
            | OtherArg t \<Rightarrow> Some (Inr (Some t))) of
        None \<Rightarrow> None
      | Some (Inl e) \<Rightarrow> Some (Inl e)
      | Some (Inr t) \<Rightarrow> (case decode_args X fuel as of
            None \<Rightarrow> None | Some (Inl e) \<Rightarrow> Some (Inl e) | Some (Inr ts) \<Rightarrow> Some (Inr (t # ts))))"

text \<open>
  What is caught is data, or an error whose data is its own or that of the error in it; one without data is
  thrown again.
\<close>

datatype caught_value = DataString string | ErrorObject js_error "string option" "string option"

definition decodeRevertReason :: "error_abi \<Rightarrow> caught_value \<Rightarrow> bool \<Rightarrow> (js_error + string option) option" where
  "decodeRevertReason X v nullIfNoMatch =
     (case v of
        DataString data \<Rightarrow> decode_data X (Suc (length data)) data nullIfNoMatch
      | ErrorObject err d innerData \<Rightarrow>
          (case (case d of None \<Rightarrow> innerData | Some x \<Rightarrow> Some x) of
             None \<Rightarrow> Some (Inl err)
           | Some data \<Rightarrow> decode_data X (Suc (length data)) data nullIfNoMatch))"

section \<open>It ends\<close>

text \<open>The ABI decoder takes the bytes of an argument out of the data.\<close>

definition args_inside :: "error_abi \<Rightarrow> bool" where
  "args_inside X \<longleftrightarrow> (\<forall>data name args d. parseError X data = Inr (name, args) \<longrightarrow> BytesArg d \<in> set args \<longrightarrow> length d < length data)"

lemma decode_args_ends:
  assumes "\<And>d. BytesArg d \<in> set args \<Longrightarrow> decode_data X f d True = decode_data X g d True \<and> decode_data X f d True \<noteq> None"
  shows "decode_args X f args = decode_args X g args \<and> decode_args X f args \<noteq> None"
  using assms
proof (induction args)
  case (Cons a as)
  have "decode_args X f as = decode_args X g as \<and> decode_args X f as \<noteq> None"
    by (rule Cons.IH) (rule Cons.prems, simp)
  then obtain ts where ts: "decode_args X f as = Some ts" "decode_args X g as = Some ts" by (metis option.exhaust)
  show ?case
  proof (cases a)
    case (BytesArg d)
    with Cons.prems have "decode_data X f d True = decode_data X g d True \<and> decode_data X f d True \<noteq> None"
      by (metis list.set_intros(1))
    then obtain t where "decode_data X f d True = Some t" "decode_data X g d True = Some t" by (metis option.exhaust)
    with BytesArg ts show ?thesis by (cases t; cases ts) simp_all
  qed (use ts in \<open>cases ts; simp\<close>)+
qed simp

lemma decode_data_ends:
  assumes "args_inside X" and "length data < f" "length data < g"
  shows "decode_data X f data b = decode_data X g data b \<and> decode_data X f data b \<noteq> None"
  using assms(2,3)
proof (induction data arbitrary: f g b rule: length_induct)
  case (1 data)
  obtain f' g' where fg: "f = Suc f'" "g = Suc g'" using 1(2,3) by (cases f; cases g) auto
  have "decode_args X f' args = decode_args X g' args \<and> decode_args X f' args \<noteq> None"
    if "parseError X data = Inr (name, args)" for name args
  proof (rule decode_args_ends)
    fix d assume "BytesArg d \<in> set args"
    with assms(1) that have "length d < length data" unfolding args_inside_def by blast
    moreover from this have "length d < f'" "length d < g'" using 1(2,3) fg by simp_all
    ultimately show "decode_data X f' d True = decode_data X g' d True \<and> decode_data X f' d True \<noteq> None" using 1(1) by blast
  qed
  note H = this
  show ?case
  proof (cases "parseError X data")
    case (Inl e)
    then show ?thesis unfolding fg by (simp add: Let_def)
  next
    case (Inr r)
    obtain name args where r: "r = (name, args)" by (cases r)
    from H[OF Inr[unfolded r]] obtain t where t: "decode_args X f' args = Some t" "decode_args X g' args = Some t" by (metis option.exhaust)
    show ?thesis unfolding fg using Inr r t by (cases t) (simp_all add: Let_def)
  qed
qed

text \<open>
  The reason of a failure is always found or given up. Whatever data a node returns, nested to any depth,
  \<open>decodeRevertReason\<close> ends: the depth allowed in the model is never reached, more of it changes nothing,
  and for data of an unknown error the result is \<open>null\<close> or the data, never an exception.
\<close>

theorem decodeRevertReason_ends:
  assumes "args_inside X" and "length data < fuel"
  shows "\<exists>r. decodeRevertReason X (DataString data) nullIfNoMatch = Some r
    \<and> decode_data X fuel data nullIfNoMatch = Some r
    \<and> (take 10 data \<noteq> ''0x08c379a0'' \<longrightarrow> take 10 data \<noteq> ''0x4e487b71'' \<longrightarrow> (\<exists>t. r = Inr t \<and> (nullIfNoMatch \<or> t \<noteq> None)))"
proof -
  from decode_data_ends[OF assms(1), of data "Suc (length data)" fuel nullIfNoMatch] assms(2)
  obtain r where r: "decode_data X (Suc (length data)) data nullIfNoMatch = Some r"
    "decode_data X fuel data nullIfNoMatch = Some r" by (metis lessI option.exhaust)
  have "\<exists>t. r = Inr t \<and> (nullIfNoMatch \<or> t \<noteq> None)" if "take 10 data \<noteq> ''0x08c379a0''" "take 10 data \<noteq> ''0x4e487b71''"
    using r(1) that by (auto simp: Let_def split: sum.splits option.splits prod.splits if_splits)
  with r show ?thesis by (auto simp: decodeRevertReason_def)
qed

text \<open>An interface with one error, whose last argument is the rest of the data.\<close>

definition demo_abi :: error_abi where
  "demo_abi = \<lparr>decode_string = (\<lambda>d. Inr ''nope''), decode_uint256 = (\<lambda>d. Inr 0x11),
     parseError = (\<lambda>data. if take 4 data = ''0xaa'' then Inr (''FailedOpWithRevert'', [OtherArg ''0'', StringArg ''AA23'', BytesArg (drop 4 data)])
       else Inl TypeError)\<rparr>"

lemma demo_abi_inside: "args_inside demo_abi"
proof -
  have "drop 4 data = d \<Longrightarrow> take 4 data = ''0xaa'' \<Longrightarrow> length d < length data" for data d :: string
    by (cases "data = []") auto
  then show ?thesis by (auto simp: args_inside_def demo_abi_def split: if_splits)
qed

text \<open>A panic inside is shown with the stray quote, a reason that is not known is left out.\<close>

lemma nested_reasons:
  "decodeRevertReason demo_abi (DataString ''0xaa0x4e487b71'') True
     = Some (Inr (Some (''FailedOpWithRevert(0,'' @ [CHR 0x22] @ ''AA23'' @ [CHR 0x22] @ '',Panic(arithmetic overflow/underflow + '' @ [CHR 0x27] @ ''))'')))"
  "decodeRevertReason demo_abi (DataString ''0xaa0xbb'') True
     = Some (Inr (Some (''FailedOpWithRevert(0,'' @ [CHR 0x22] @ ''AA23'' @ [CHR 0x22] @ '',)'')))"
  by (simp_all add: decodeRevertReason_def demo_abi_def panic_text_def panicCodes_def joined_def Let_def)

theorem decodeRevertReason_ends_witness:
  "\<exists>r. decodeRevertReason demo_abi (DataString ''0xaa0xbb'') True = Some r \<and> decode_data demo_abi 100 ''0xaa0xbb'' True = Some r
    \<and> (\<exists>t. r = Inr t)"
  using decodeRevertReason_ends[OF demo_abi_inside, of "''0xaa0xbb''" 100 True] by (auto simp del: decode_data.simps)

end
