(* ===== verification/Bundler_Chain.thy ===== *)
theory Bundler_Chain
  imports Op_Queue_Properties User_Op_Properties Entry_Point_Account
begin

text \<open>
  The bundle queue in front of the EntryPoint: the runtime of the client with all its queues, the chain, and the
  transactions between them. A call of \<open>handleOps\<close> that the queue has made may be mined at any later time, once, by
  any block, with or without success; meanwhile anybody uses the EntryPoint. The answers of the node to the client
  are unrestricted, as in the relation of the queue alone.
\<close>

section \<open>Queue and chain\<close>

text \<open>
  \<open>seen\<close> holds the identities (sender and nonce) of all handled operations, \<open>included\<close> and \<open>reverted\<close> the calls
  of the queue that were mined, as positions in \<open>handled\<close>.
\<close>

record 'w bundler =
  bq :: queue_system
  ep :: "'w ep_state"
  seen :: "(address \<times> uint256) list"
  included :: "nat list"
  reverted :: "nat list"

definition init_bundler :: "'w ep_state \<Rightarrow> 'w bundler" where
  "init_bundler st = \<lparr>bq = init_system, ep = st, seen = [], included = [], reverted = []\<rparr>"

text \<open>What the library can encode as an argument; it throws for anything else, and nothing is sent.\<close>

definition is_data :: "string \<Rightarrow> bool" where
  "is_data s \<longleftrightarrow> (\<exists>bs. s = hx bs)"

definition encodable :: "PackedUserOp \<Rightarrow> bool" where
  "encodable p \<longleftrightarrow> (\<exists>s. pu_sender p = hx s \<and> length s = 20) \<and> 0 \<le> pu_nonce p \<and> pu_nonce p < 2 ^ 256
     \<and> is_data (pu_initCode p) \<and> is_data (pu_callData p) \<and> is_data (pu_accountGasLimits p)
     \<and> 0 \<le> pu_preVerificationGas p \<and> pu_preVerificationGas p < 2 ^ 256 \<and> is_data (pu_gasFees p)
     \<and> is_data (pu_paymasterAndData p) \<and> is_data (pu_signature p)"

text \<open>The bundle of a call, with the gas that its operations will be seen to use, and its beneficiary.\<close>

definition bundle_on_chain :: "handle_ops_call \<Rightarrow> op_gas list \<Rightarrow> (PackedUserOperation \<times> op_gas) list" where
  "bundle_on_chain c gs = zip (map on_chain_op (ho_ops c)) gs"

definition beneficiary_on_chain :: "handle_ops_call \<Rightarrow> address" where
  "beneficiary_on_chain c = of_nat (be_val (the (unhx (ho_beneficiary c))))"

definition minable :: "'w bundler \<Rightarrow> nat \<Rightarrow> op_gas list \<Rightarrow> bool" where
  "minable b n gs \<longleftrightarrow> n < length (handled (bq b)) \<and> n \<notin> set (included b) \<and> n \<notin> set (reverted b)
     \<and> (\<forall>p \<in> set (ho_ops (handled (bq b) ! n)). encodable p) \<and> length gs = length (ho_ops (handled (bq b) ! n))"

inductive bstep :: "ethers \<Rightarrow> 'w bundler \<Rightarrow> 'w bundler \<Rightarrow> bool" for E where
  client: "qstep E (bq b) q \<Longrightarrow> bstep E b (b\<lparr>bq := q\<rparr>)"
| stranger: "ep_step (ep b) c \<Longrightarrow> bstep E b (b\<lparr>ep := c\<rparr>)"
| other_bundle: "honest W \<Longrightarrow> handleOps W ops ben (ep b) = Inr c
    \<Longrightarrow> bstep E b (b\<lparr>ep := c, seen := seen b @ map op_id (map fst ops)\<rparr>)"
| other_aggregated: "honest W \<Longrightarrow> handleAggregatedOps W opas ben (ep b) = Inr c
    \<Longrightarrow> bstep E b (b\<lparr>ep := c, seen := seen b @ map op_id (map fst (concat (map a_userOps opas)))\<rparr>)"
| mined: "minable b n gs \<Longrightarrow> honest W
    \<Longrightarrow> handleOps W (bundle_on_chain (handled (bq b) ! n) gs) (beneficiary_on_chain (handled (bq b) ! n)) (ep b) = Inr c
    \<Longrightarrow> bstep E b (b\<lparr>ep := c, included := included b @ [n],
          seen := seen b @ map (op_id \<circ> on_chain_op) (ho_ops (handled (bq b) ! n))\<rparr>)"
| mined_reverted: "minable b n gs \<Longrightarrow> honest W
    \<Longrightarrow> handleOps W (bundle_on_chain (handled (bq b) ! n) gs) (beneficiary_on_chain (handled (bq b) ! n)) (ep b) = Inl e
    \<Longrightarrow> bstep E b (b\<lparr>reverted := reverted b @ [n]\<rparr>)"

inductive_cases bstepE: "bstep E b b'"

text \<open>The packed operations of the queues that were executed.\<close>

definition executed :: "'w bundler \<Rightarrow> PackedUserOp list" where
  "executed b = concat (map (\<lambda>n. ho_ops (handled (bq b) ! n)) (included b))"

section \<open>What steps keep\<close>

text \<open>The histories of the queue only grow.\<close>

lemma qstep_handled: "qstep E st st' \<Longrightarrow> \<exists>new. handled st' = handled st @ new"
proof (induction rule: qstep.induct)
  case (call_push st i q now)
  then show ?case by (auto simp: sendQueuedUserOps_def Let_def split: sum.splits prod.splits)
next
  case (tick t i st q now)
  then show ?case by (auto simp: sendQueuedUserOps_def Let_def split: sum.splits prod.splits)
next
  case (node_answer k st ans)
  then show ?case by (auto simp: resume_push_def finish_push_def Let_def split: answer.splits stage.splits)
qed (auto simp: queueUserOpSender_def Let_def set_interval_frame cancelInterval_frame)

text \<open>
  Invariant of queue and chain: the queue is in a state of its own, the EntryPoint has the history of the log, each
  call is mined at most once, and what was executed is in the log.
\<close>

definition bundler_inv :: "ethers \<Rightarrow> 'w ep_state \<Rightarrow> 'w bundler \<Rightarrow> bool" where
  "bundler_inv E st0 b \<longleftrightarrow> reachable E (bq b) \<and> ep_run (seen b) st0 (ep b)
     \<and> distinct (included b) \<and> set (included b) \<subseteq> {..<length (handled (bq b))}
     \<and> mset (map (op_id \<circ> on_chain_op) (executed b)) \<subseteq># mset (seen b)"

lemma executed_client:
  assumes "handled q = handled (bq b) @ new" and "set (included b) \<subseteq> {..<length (handled (bq b))}"
  shows "executed (b\<lparr>bq := q\<rparr>) = executed b"
proof -
  have "handled q ! n = handled (bq b) ! n" if "n \<in> set (included b)" for n
    using assms that by (auto simp: nth_append)
  then show ?thesis by (simp add: executed_def cong: map_cong)
qed

lemma bundle_ids: "length gs = length (ho_ops c) \<Longrightarrow> map fst (bundle_on_chain c gs) = map on_chain_op (ho_ops c)"
  by (simp add: bundle_on_chain_def)

lemma bundler_inv_step:
  assumes inv: "bundler_inv E st0 b" and "bstep E b b'"
  shows "bundler_inv E st0 b'"
  using assms(2)
proof cases
  case (client q)
  obtain new where m: "handled q = handled (bq b) @ new" using qstep_handled[OF client(2)] by blast
  have "executed b' = executed b" using executed_client[OF m] inv client(1) by (simp add: bundler_inv_def)
  moreover have "reachable E q" using inv client(2) by (auto simp: bundler_inv_def reachable_def)
  ultimately show ?thesis using inv m client(1) by (auto simp: bundler_inv_def)
next
  case (stranger c)
  then show ?thesis using inv ep_run.call by (auto simp: bundler_inv_def executed_def)
next
  case (other_bundle W ops ben c)
  then show ?thesis using inv ep_run.handled
    by (auto simp: bundler_inv_def executed_def intro: subset_mset.trans)
next
  case (other_aggregated W opas ben c)
  then show ?thesis using inv ep_run.aggregated
    by (auto simp: bundler_inv_def executed_def intro: subset_mset.trans)
next
  case (mined n gs W c)
  let ?call = "handled (bq b) ! n"
  have n: "n < length (handled (bq b))" "n \<notin> set (included b)" "length gs = length (ho_ops ?call)"
    using mined(2) by (simp_all add: minable_def)
  have "ep_run (seen b @ map op_id (map fst (bundle_on_chain ?call gs))) st0 c"
    using inv mined(3,4) ep_run.handled by (auto simp: bundler_inv_def)
  then have "ep_run (seen b') st0 c" using mined(1) by (simp add: bundle_ids[OF n(3)])
  moreover have "executed b' = executed b @ ho_ops ?call" using mined(1) by (simp add: executed_def)
  ultimately show ?thesis
    using inv n(1,2) mined(1) by (auto simp: bundler_inv_def intro: subset_mset.add_mono)
next
  case (mined_reverted n gs W e)
  then show ?thesis using inv by (auto simp: bundler_inv_def executed_def)
qed

lemma bundler_inv_steps: "(bstep E)\<^sup>*\<^sup>* b b' \<Longrightarrow> bundler_inv E st0 b \<Longrightarrow> bundler_inv E st0 b'"
  by (induction rule: rtranclp_induct) (auto intro: bundler_inv_step)

lemma bundler_inv_init: "bundler_inv E st0 (init_bundler st0)"
  by (simp add: bundler_inv_def init_bundler_def executed_def reachable_def ep_run.start)

lemmas bundler_run_inv = bundler_inv_steps[OF _ bundler_inv_init]

text \<open>Distinct positions of a list select a part of it.\<close>

lemma mset_nth_subseteq:
  assumes "distinct ns" and "set ns \<subseteq> {..<length xs}"
  shows "mset (map ((!) xs) ns) \<subseteq># mset xs"
proof -
  have "mset ns \<subseteq># mset [0..<length xs]"
    using assms by (intro mset_subset_eqI) (auto simp: distinct_count_atmost_1 subset_iff)
  then have "image_mset ((!) xs) (mset ns) \<subseteq># image_mset ((!) xs) (mset [0..<length xs])"
    by (rule image_mset_subseteq_mono)
  then show ?thesis by (metis map_nth mset_map)
qed

lemma distinct_subseteq: "distinct xs \<Longrightarrow> mset ys \<subseteq># mset xs \<Longrightarrow> distinct ys"
proof -
  assume d: "distinct xs" and "mset ys \<subseteq># mset xs"
  then obtain zs where "mset xs = mset (ys @ zs)" by (metis ex_mset mset_append subset_mset.less_eqE)
  with d show "distinct ys" by (metis distinct_append mset_eq_imp_distinct_iff)
qed

lemma mset_concat_map: "mset (concat (map f xs)) = (\<Sum>x \<in># mset xs. mset (f x))"
  by (induction xs) simp_all

lemma calls_subseteq:
  assumes "distinct ns" and "set ns \<subseteq> {..<length cs}"
  shows "mset (concat (map (\<lambda>n. f (cs ! n)) ns)) \<subseteq># mset (concat (map f cs))"
proof -
  obtain rest where "mset cs = mset (map ((!) cs) ns) + rest"
    using mset_nth_subseteq[OF assms] by (metis subset_mset.less_eqE)
  then have "mset (concat (map f cs)) = mset (concat (map f (map ((!) cs) ns))) + (\<Sum>x \<in># rest. mset (f x))"
    by (simp only: mset_concat_map image_mset_union sum_mset.union)
  then show ?thesis by (simp add: comp_def)
qed

text \<open>What the distinct calls \<open>ns\<close> hold was given to the queues as often.\<close>

lemma calls_enqueued:
  assumes "reachable E st" and "distinct ns" and "set ns \<subseteq> {..<length (handled st)}"
  shows "mset (map Inr (concat (map (\<lambda>n. ho_ops (handled st ! n)) ns))) \<subseteq># mset (map (\<lambda>(i, op). packUserOp E op) (enqueued st))"
  using image_mset_subseteq_mono[OF calls_subseteq[OF assms(2,3)], of Inr ho_ops] sent_at_most_once[OF assms(1)]
  by (simp del: mset_concat map_concat) (rule subset_mset.trans)

section \<open>A stale operation\<close>

text \<open>A call with an operation that was handled before, by whoever sent it.\<close>

definition stale_call :: "ethers \<Rightarrow> 'w ep_state \<Rightarrow> nat \<Rightarrow> handle_ops_call \<Rightarrow> 'w bundler \<Rightarrow> bool" where
  "stale_call E st0 n call b \<longleftrightarrow> bundler_inv E st0 b \<and> n < length (handled (bq b)) \<and> handled (bq b) ! n = call
     \<and> n \<notin> set (included b) \<and> (\<exists>p \<in> set (ho_ops call). op_id (on_chain_op p) \<in> set (seen b))"

lemma stale_call_step:
  assumes "stale_call E st0 n call b" and "total st0 \<le> unat (ep_balance st0)" and "bstep E b b'"
  shows "stale_call E st0 n call b'"
proof -
  have inv: "bundler_inv E st0 b" and n: "n < length (handled (bq b))" "handled (bq b) ! n = call" "n \<notin> set (included b)"
    and p: "\<exists>p \<in> set (ho_ops call). op_id (on_chain_op p) \<in> set (seen b)"
    using assms(1) by (simp_all add: stale_call_def)
  have run: "ep_run (seen b) st0 (ep b)" using inv by (simp add: bundler_inv_def)
  have s0: "solvent 0 st0" using assms(2) by (simp add: solvent_def)
  have "n < length (handled (bq b')) \<and> handled (bq b') ! n = call \<and> n \<notin> set (included b') \<and> set (seen b) \<subseteq> set (seen b')"
    using assms(3)
  proof cases
    case (client q)
    with qstep_handled[OF client(2)] n show ?thesis by (auto simp: nth_append)
  next
    case (mined m gs W c)
    have "m \<noteq> n"
    proof
      assume "m = n"
      then have g: "length gs = length (ho_ops call)" and m: "handled (bq b) ! m = call"
        using mined(2) n(2) by (simp_all add: minable_def)
      have "handled_well (map on_chain_op (ho_ops call)) (ep b) c"
        using handleOps_ok[OF mined(3,4)] unfolding m bundle_ids[OF g] .
      moreover obtain p where "on_chain_op p \<in> set (map on_chain_op (ho_ops call))" "op_id (on_chain_op p) \<in> set (seen b)"
        using p by auto
      ultimately show False using used_up_refused[OF ep_run_used_up[OF run s0] ep_run_solvent(1)[OF run s0]] by blast
    qed
    with n mined(1) show ?thesis by simp
  qed (use n in auto)
  with p bundler_inv_step[OF inv assms(3)] show ?thesis by (auto simp: stale_call_def)
qed

lemma stale_call_steps:
  "(bstep E)\<^sup>*\<^sup>* b b' \<Longrightarrow> stale_call E st0 n call b \<Longrightarrow> total st0 \<le> unat (ep_balance st0) \<Longrightarrow> stale_call E st0 n call b'"
  by (induction rule: rtranclp_induct) (auto intro: stale_call_step)

section \<open>Properties\<close>

text \<open>
  C10. An operation is executed at most once for the user who queued it. However often and in however many queues it
  is given, however pushes, answers, blocks and other users of the EntryPoint interleave: no two operations that the
  queues' bundles executed have the same sender and nonce, each was executed no more often than it was given to a
  queue, and every bundle that is handed over, executed or not, has an operation and at most one of a sender.
\<close>

theorem queued_operation_executes_once:
  assumes "(bstep E)\<^sup>*\<^sup>* (init_bundler st0) b" and "total st0 \<le> unat (ep_balance st0)"
  shows "distinct (map (op_id \<circ> on_chain_op) (executed b))
    \<and> mset (map Inr (executed b)) \<subseteq># mset (map (\<lambda>(i, op). packUserOp E op) (enqueued (bq b)))
    \<and> (\<forall>c \<in> set (handled (bq b)). ho_ops c \<noteq> [] \<and> distinct (map pu_sender (ho_ops c)))"
proof -
  have inv: "bundler_inv E st0 b" using bundler_run_inv[OF assms(1)] .
  then have r: "reachable E (bq b)" and i: "distinct (included b)" "set (included b) \<subseteq> {..<length (handled (bq b))}"
    and m: "mset (map (op_id \<circ> on_chain_op) (executed b)) \<subseteq># mset (seen b)"
    by (simp_all add: bundler_inv_def)
  have "used_up (seen b) (ep b)"
    using inv assms(2) ep_run_used_up[of "seen b" st0 "ep b"] by (simp add: bundler_inv_def solvent_def)
  then have "distinct (seen b)" by (simp add: used_up_def)
  then have "distinct (map (op_id \<circ> on_chain_op) (executed b))"
    by (rule distinct_subseteq[OF _ m])
  moreover have "\<forall>c \<in> set (handled (bq b)). ho_ops c \<noteq> [] \<and> distinct (map pu_sender (ho_ops c))"
    using reachable_inv(2)[OF r] by (simp add: bundles_inv_def bundle_ok_def)
  ultimately show ?thesis using calls_enqueued[OF r i] by (auto simp: executed_def)
qed

text \<open>
  C11. One stale operation takes its bundle with it. When a call of the queue that was not executed holds an operation
  with the sender and nonce of one that was, by whoever sent that, then the call is never executed, and none of its
  operations that was queued once ever is, in this bundle or another: also those of other senders are lost.
\<close>

theorem stale_operation_loses_bundle:
  assumes "(bstep E)\<^sup>*\<^sup>* (init_bundler st0) b" and "total st0 \<le> unat (ep_balance st0)"
    and "n < length (handled (bq b))" and "n \<notin> set (included b)"
    and "stale \<in> set (ho_ops (handled (bq b) ! n))" and "op_id (on_chain_op stale) \<in> set (seen b)"
    and "(bstep E)\<^sup>*\<^sup>* b later"
  shows "n \<notin> set (included later)
    \<and> (\<forall>p \<in> set (ho_ops (handled (bq b) ! n)).
         count (mset (map (\<lambda>(i, op). packUserOp E op) (enqueued (bq later)))) (Inr p) = 1 \<longrightarrow> p \<notin> set (executed later))"
proof -
  let ?ops = "ho_ops (handled (bq b) ! n)"
  have "stale_call E st0 n (handled (bq b) ! n) b"
    using assms(3-6) bundler_run_inv[OF assms(1)] by (auto simp: stale_call_def)
  from stale_call_steps[OF assms(7) this assms(2)]
  have s: "bundler_inv E st0 later" "n < length (handled (bq later))" "handled (bq later) ! n = handled (bq b) ! n"
    "n \<notin> set (included later)"
    by (simp_all add: stale_call_def)
  have "mset (map Inr (concat (map (\<lambda>n. ho_ops (handled (bq later) ! n)) (n # included later))))
      \<subseteq># mset (map (\<lambda>(i, op). packUserOp E op) (enqueued (bq later)))"
    using s by (intro calls_enqueued) (auto simp: bundler_inv_def)
  then have le: "count (mset (map Inr ?ops)) x + count (mset (map Inr (executed later))) x
      \<le> count (mset (map (\<lambda>(i, op). packUserOp E op) (enqueued (bq later)))) x" for x
    using mset_subset_eq_count s(3) by (fastforce simp: executed_def)
  have "count (mset (map (\<lambda>(i, op). packUserOp E op) (enqueued (bq later)))) (Inr p) \<noteq> 1"
    if "p \<in> set ?ops" "p \<in> set (executed later)" for p
  proof -
    have "1 \<le> count (mset (map Inr xs)) (Inr p :: js_error + PackedUserOp)" if "p \<in> set xs" for xs
      using that by (metis One_nat_def Suc_le_eq count_greater_zero_iff image_eqI list.set_map set_mset_mset)
    from this[OF that(1)] this[OF that(2)] le[of "Inr p"] show ?thesis by linarith
  qed
  with s(4) show ?thesis by blast
qed

section \<open>Instances\<close>

text \<open>
  The bundle of the EntryPoint's instance as an operation of the client, and one of another sender. A queue that was
  given \<open>ops\<close> at 1000 makes its bundle at 6000 and hands it over.
\<close>

definition client_op :: UserOperation where
  "client_op = DefaultsForUserOp\<lparr>uo_sender := hx (be_bytes 20 0xACC),
     uo_callData := hx (execute_selector @ abi_encode_call 0xB0B 1 []), uo_callGasLimit := 50000,
     uo_verificationGasLimit := 100000, uo_preVerificationGas := 1000, uo_maxFeePerGas := 10, uo_maxPriorityFeePerGas := 2\<rparr>"

definition client_packed :: PackedUserOp where
  "client_packed = \<lparr>pu_sender = hx (be_bytes 20 0xACC), pu_nonce = 0, pu_initCode = ''0x'',
     pu_callData = hx (execute_selector @ abi_encode_call 0xB0B 1 []),
     pu_accountGasLimits = hx (be_bytes 16 100000 @ be_bytes 16 50000), pu_preVerificationGas = 1000,
     pu_gasFees = hx (be_bytes 16 2 @ be_bytes 16 10), pu_paymasterAndData = ''0x'', pu_signature = ''0x''\<rparr>"

lemma client_op_packs: "packUserOp demo_ethers client_op = Inr client_packed"
  using packAccountGasLimits_ok[OF demo_ethers_ok, of 100000 50000] packAccountGasLimits_ok[OF demo_ethers_ok, of 2 10]
  by (simp add: packUserOp_def client_op_def client_packed_def DefaultsForUserOp_def del: be_bytes.simps)

lemma client_packed_on_chain: "on_chain_op client_packed = demo_bundled" and client_packed_encodable: "encodable client_packed"
proof -
  have e: "''0x'' = hx []" by (simp add: hx_Nil)
  show "on_chain_op client_packed = demo_bundled"
    unfolding on_chain_op_def client_packed_def e
    by (simp add: data_word_def be_val_append demo_bundled_def demo_op_def del: be_bytes.simps)
  show "encodable client_packed"
    unfolding encodable_def client_packed_def e is_data_def by (auto simp del: be_bytes.simps)
qed

definition after_push :: "UserOperation list \<Rightarrow> op_queue \<Rightarrow> UserOperation list \<Rightarrow> PackedUserOp list \<Rightarrow> queue_system" where
  "after_push ops q shifted ps = (demo_system ops)\<lparr>queues := [0 \<mapsto> q], sending := True, taken := map (Pair 0) shifted,
     handled := [\<lparr>ho_queue = 0, ho_ops = ps, ho_beneficiary = hx (be_bytes 20 0xB0B)\<rparr>],
     pushes := [\<lparr>push_queue = 0, push_ops = ps, push_stage = AwaitHandleOps\<rparr>]\<rparr>"

lemma after_push_reachable:
  assumes "collect E (obj_keys (queue (demo_queue ops))) (demo_queue ops) [] [] = (q, shifted, Inr ps)" and "ps \<noteq> []"
    and "queueSize (demo_queue ops) = NaN" and "lastQueueUpdate (demo_queue ops) = Num 1000"
  shows "reachable E (after_push ops q shifted ps)"
proof -
  let ?st = "demo_system ops" and ?st1 = "sendQueuedUserOps E 6000 0 (demo_queue ops) (demo_system ops)"
  have q: "queues ?st 0 = Some (demo_queue ops)" by (simp add: demo_system_def)
  have s1: "?st1 = ?st\<lparr>queues := [0 \<mapsto> q], sending := True, taken := map (Pair 0) shifted,
      pushes := [\<lparr>push_queue = 0, push_ops = ps, push_stage = AwaitSigner\<rparr>]\<rparr>"
    using assms by (simp add: sendQueuedUserOps_def demo_system_def init_system_def IDLE_TIME_def)
  have "qstep E ?st1 (resume_push 0 (Resolved (hx (be_bytes 20 0xB0B))) ?st1)"
    by (rule node_answer) (simp add: s1)
  moreover have "resume_push 0 (Resolved (hx (be_bytes 20 0xB0B))) ?st1 = after_push ops q shifted ps"
    unfolding s1 by (simp add: resume_push_def after_push_def demo_system_def init_system_def del: be_bytes.simps)
  ultimately show ?thesis
    using call_push[OF q, of E 6000] demo_system_reachable[of E ops] by (auto simp: reachable_def)
qed

lemma client_steps: "(qstep E)\<^sup>*\<^sup>* (bq b) q \<Longrightarrow> (bstep E)\<^sup>*\<^sup>* b (b\<lparr>bq := q\<rparr>)"
proof (induction rule: rtranclp_induct)
  case (step q q')
  from bstep.client[of E "b\<lparr>bq := q\<rparr>" q'] step show ?case by auto
qed simp

lemma client_run: "reachable E q \<Longrightarrow> (bstep E)\<^sup>*\<^sup>* (init_bundler st) ((init_bundler st)\<lparr>bq := q\<rparr>)"
  using client_steps[of E "init_bundler st" q] by (simp add: reachable_def init_bundler_def)

text \<open>The same operation is given to the queue twice, and once more by another bundler.\<close>

lemma client_twice: "reachable demo_ethers (after_push [client_op, client_op]
    \<lparr>queue = [(hx (be_bytes 20 0xACC), [client_op])], queueSize = NaN, lastQueueUpdate = Num 1000, cancelId = None\<rparr>
    [client_op] [client_packed])"
proof -
  have "uo_sender client_op = hx (be_bytes 20 0xACC)" by (simp add: client_op_def del: be_bytes.simps)
  then have "demo_queue [client_op, client_op] = \<lparr>queue = [(hx (be_bytes 20 0xACC), [client_op, client_op])],
      queueSize = NaN, lastQueueUpdate = Num 1000, cancelId = None\<rparr>"
    by (simp add: demo_queue_def enqueue_def fresh_queue_def ops_of_def obj_get_def del: be_bytes.simps)
  then show ?thesis
    by (intro after_push_reachable) (simp_all add: obj_keys_def ops_of_def obj_get_def client_op_packs del: be_bytes.simps)
qed

definition other_op :: UserOperation where
  "other_op = demo_user_op (be_bytes 20 0xADD) 5"

lemma client_and_other: "reachable demo_ethers (after_push [client_op, other_op]
    \<lparr>queue = [(hx (be_bytes 20 0xACC), []), (hx (be_bytes 20 0xADD), [])], queueSize = NaN, lastQueueUpdate = Num 1000, cancelId = None\<rparr>
    [client_op, other_op] [client_packed, demo_packed (be_bytes 20 0xADD)])"
proof -
  have "be_val (be_bytes 20 0xACC) \<noteq> be_val (be_bytes 20 0xADD)" by (simp del: be_bytes.simps)
  then have ne: "be_bytes 20 0xACC \<noteq> be_bytes 20 0xADD" by (rule contrapos_nn) (rule arg_cong)
  have s: "uo_sender client_op = hx (be_bytes 20 0xACC)" "uo_sender other_op = hx (be_bytes 20 0xADD)"
    by (simp_all add: client_op_def other_op_def demo_user_op_def del: be_bytes.simps)
  have "demo_queue [client_op, other_op] = \<lparr>queue = [(hx (be_bytes 20 0xACC), [client_op]), (hx (be_bytes 20 0xADD), [other_op])],
      queueSize = NaN, lastQueueUpdate = Num 1000, cancelId = None\<rparr>"
    using ne ne[symmetric]
    by (simp add: s demo_queue_def enqueue_def fresh_queue_def ops_of_def obj_get_def del: be_bytes.simps)
  then show ?thesis
    using ne ne[symmetric] demo_pack[of "be_bytes 20 0xADD"]
    by (intro after_push_reachable)
      (simp_all add: obj_keys_def ops_of_def obj_get_def client_op_packs other_op_def[symmetric] del: be_bytes.simps)
qed

theorem queued_operation_executes_once_witness:
  "\<exists>b :: unit chain bundler. (bstep demo_ethers)\<^sup>*\<^sup>* (init_bundler (demo_ep demo_account)) b
    \<and> enqueued (bq b) = [(0, client_op), (0, client_op)] \<and> executed b = [client_packed]
    \<and> distinct (map (op_id \<circ> on_chain_op) (executed b))
    \<and> mset (map Inr (executed b)) \<subseteq># mset [packUserOp demo_ethers client_op, packUserOp demo_ethers client_op]"
proof -
  let ?q = "after_push [client_op, client_op]
    \<lparr>queue = [(hx (be_bytes 20 0xACC), [client_op])], queueSize = NaN, lastQueueUpdate = Num 1000, cancelId = None\<rparr>
    [client_op] [client_packed]"
  let ?b = "(init_bundler (demo_ep demo_account))\<lparr>bq := ?q\<rparr>"
  have h: "handled ?q = [\<lparr>ho_queue = 0, ho_ops = [client_packed], ho_beneficiary = hx (be_bytes 20 0xB0B)\<rparr>]"
    "enqueued ?q = [(0, client_op), (0, client_op)]"
    by (simp_all add: after_push_def demo_system_def del: be_bytes.simps)
  have b: "bq ?b = ?q" "ep ?b = demo_ep demo_account" "included ?b = []" "reverted ?b = []" by (simp_all add: init_bundler_def)
  obtain c where c: "handleOps demo_W [(demo_bundled, demo_gas)] 0xB0B (demo_ep demo_account) = Inr c"
    using demo_handled by blast
  have m: "minable ?b 0 [demo_gas]" using client_packed_encodable h by (simp add: minable_def init_bundler_def)
  have "handleOps demo_W (bundle_on_chain (handled (bq ?b) ! 0) [demo_gas]) (beneficiary_on_chain (handled (bq ?b) ! 0)) (ep ?b) = Inr c"
    using c by (simp add: b h bundle_on_chain_def beneficiary_on_chain_def client_packed_on_chain del: be_bytes.simps)
  note step = bstep.mined[OF m demo_W_honest this, of demo_ethers]
  have s: "total (demo_ep demo_account) \<le> unat (ep_balance (demo_ep demo_account))"
    by (simp add: demo_ep_total) (simp add: demo_ep_def demo_empty_def)
  let ?b' = "?b\<lparr>ep := c, included := included ?b @ [0],
    seen := seen ?b @ map (op_id \<circ> on_chain_op) (ho_ops (handled (bq ?b) ! 0))\<rparr>"
  have run: "(bstep demo_ethers)\<^sup>*\<^sup>* (init_bundler (demo_ep demo_account)) ?b'"
    using client_run[OF client_twice] step by (rule rtranclp.rtrancl_into_rtrancl)
  have "executed ?b' = [client_packed]" "enqueued (bq ?b') = [(0, client_op), (0, client_op)]"
    by (simp_all add: executed_def b h)
  with run queued_operation_executes_once[OF run s] show ?thesis by (intro exI[of _ ?b']) simp
qed

theorem stale_operation_loses_bundle_witness:
  "\<exists>b :: unit chain bundler. (bstep demo_ethers)\<^sup>*\<^sup>* (init_bundler (demo_ep demo_account)) b
    \<and> ho_ops (handled (bq b) ! 0) = [client_packed, demo_packed (be_bytes 20 0xADD)]
    \<and> (\<forall>later. (bstep demo_ethers)\<^sup>*\<^sup>* b later \<longrightarrow> 0 \<notin> set (included later)
      \<and> (count (mset (map (\<lambda>(i, op). packUserOp demo_ethers op) (enqueued (bq later)))) (Inr (demo_packed (be_bytes 20 0xADD))) = 1
          \<longrightarrow> demo_packed (be_bytes 20 0xADD) \<notin> set (executed later)))"
proof -
  let ?q = "after_push [client_op, other_op]
    \<lparr>queue = [(hx (be_bytes 20 0xACC), []), (hx (be_bytes 20 0xADD), [])], queueSize = NaN, lastQueueUpdate = Num 1000, cancelId = None\<rparr>
    [client_op, other_op] [client_packed, demo_packed (be_bytes 20 0xADD)]"
  let ?b = "(init_bundler (demo_ep demo_account))\<lparr>bq := ?q\<rparr>"
  obtain c where c: "handleOps demo_W [(demo_bundled, demo_gas)] 0xB0B (ep ?b) = Inr c"
    using demo_handled by (auto simp: init_bundler_def)
  let ?b' = "?b\<lparr>ep := c, seen := seen ?b @ map op_id (map fst [(demo_bundled, demo_gas)])\<rparr>"
  have run: "(bstep demo_ethers)\<^sup>*\<^sup>* (init_bundler (demo_ep demo_account)) ?b'"
    using client_run[OF client_and_other] bstep.other_bundle[OF demo_W_honest c] by (rule rtranclp.rtrancl_into_rtrancl)
  have s: "total (demo_ep demo_account) \<le> unat (ep_balance (demo_ep demo_account))"
    by (simp add: demo_ep_total) (simp add: demo_ep_def demo_empty_def)
  have h: "ho_ops (handled (bq ?b') ! 0) = [client_packed, demo_packed (be_bytes 20 0xADD)]" "0 < length (handled (bq ?b'))"
    "0 \<notin> set (included ?b')" "client_packed \<in> set (ho_ops (handled (bq ?b') ! 0))"
    "op_id (on_chain_op client_packed) \<in> set (seen ?b')"
    by (simp_all add: after_push_def init_bundler_def client_packed_on_chain del: be_bytes.simps)
  note lost = stale_operation_loses_bundle[OF run s h(2-5)]
  show ?thesis
  proof (intro exI[of _ ?b'] conjI allI impI run h(1))
    fix later
    assume l: "(bstep demo_ethers)\<^sup>*\<^sup>* ?b' later"
    show "0 \<notin> set (included later)" using lost[OF l] by blast
    assume "count (mset (map (\<lambda>(i, op). packUserOp demo_ethers op) (enqueued (bq later)))) (Inr (demo_packed (be_bytes 20 0xADD))) = 1"
    then show "demo_packed (be_bytes 20 0xADD) \<notin> set (executed later)" using lost[OF l] h(1) by simp
  qed
qed

end
