(* ===== verification/Independent_Bundles.thy ===== *)
theory Independent_Bundles
  imports Bundler_Chain
begin

text \<open>
  Why a bundle takes one operation of a sender: operations of different senders whose validation keeps to their own
  account do not get in each other's way, so that a bundle of operations that would each be handled alone is handled.
  The same for a bundle that the queue of the client has handed over.
\<close>

section \<open>What an account sees\<close>

text \<open>
  Two states of the EntryPoint look alike to the account \<open>a\<close>: its deposit, its nonces, whether a bundle is being
  handled, and its part \<open>view a\<close> of the world.
\<close>

definition alike :: "(address \<Rightarrow> 'w \<Rightarrow> 'v) \<Rightarrow> address \<Rightarrow> 'w ep_state \<Rightarrow> 'w ep_state \<Rightarrow> bool" where
  "alike view a s t \<longleftrightarrow> deposits s a = deposits t a \<and> nonceSequenceNumber s a = nonceSequenceNumber t a
     \<and> ep_locked s = ep_locked t \<and> view a (ep_world s) = view a (ep_world t)"

lemma alike_refl [simp, intro]: "alike view a s s"
  by (simp add: alike_def)

lemma alike_trans [trans]: "alike view a s t \<Longrightarrow> alike view a t u \<Longrightarrow> alike view a s u"
  by (simp add: alike_def)

text \<open>
  The validation of \<open>a\<close> keeps to itself: it changes nothing that another account sees, and its answer and what it
  leaves for \<open>a\<close> depend on nothing that \<open>a\<close> does not see.
\<close>

definition keeps_to_itself :: "(address \<Rightarrow> 'w \<Rightarrow> 'v) \<Rightarrow> 'w ep_callees \<Rightarrow> address \<Rightarrow> bool" where
  "keeps_to_itself view W a \<longleftrightarrow> (\<forall>g op h m s ret s'. w_validateUserOp W a g op h m s = Inr (ret, s') \<longrightarrow>
     (\<forall>b. b \<noteq> a \<longrightarrow> alike view b s s')
   \<and> (\<forall>t. alike view a s t \<longrightarrow> (\<exists>t'. w_validateUserOp W a g op h m t = Inr (ret, t') \<and> alike view a s' t')))"

text \<open>An operation of an account that exists and pays for itself.\<close>

definition plain_op :: "PackedUserOperation \<Rightarrow> bool" where
  "plain_op op \<longleftrightarrow> po_initCode op = [] \<and> po_paymasterAndData op = []"

section \<open>One operation\<close>

lemma plain_copy: "plain_op op \<Longrightarrow> copyUserOpToMemory op = Inr m \<Longrightarrow> m_paymaster m = 0"
  by (auto simp: plain_op_def copyUserOpToMemory_def Let_def)

lemma plain_hash: "plain_op op \<Longrightarrow> getUserOpHash_sol W op s = getUserOpHash_sol W op t"
  by (simp add: plain_op_def getUserOpHash_sol_def getEip7702InitCodeHashOverride_def isEip7702InitCode_sol_def)

lemma tryDecrementDeposit_alike:
  assumes "tryDecrementDeposit a v s = (True, s')"
  shows "b \<noteq> a \<Longrightarrow> alike view b s s'"
    and "alike view a s t \<Longrightarrow> \<exists>t'. tryDecrementDeposit a v t = (True, t') \<and> alike view a s' t'"
  using assms by (auto simp: tryDecrementDeposit_def alike_def set_info_def Let_def split: if_splits)

lemma validateAndUpdateNonce_alike:
  assumes "validateAndUpdateNonce a n s = Inr (ok, s')"
  shows "b \<noteq> a \<Longrightarrow> alike view b s s'"
    and "alike view a s t \<Longrightarrow> \<exists>t'. validateAndUpdateNonce a n t = Inr (ok, t') \<and> alike view a s' t'"
  using assms by (auto simp: validateAndUpdateNonce_def incrementNonce_def alike_def set_nonce_def Let_def bindE_Inr_iff)

lemma callValidateUserOp_alike:
  assumes k: "keeps_to_itself view W (m_sender (i_mUserOp info))" and "callValidateUserOp W i op info m s = Inr (d, s')"
  shows "b \<noteq> m_sender (i_mUserOp info) \<Longrightarrow> alike view b s s'"
    and "alike view (m_sender (i_mUserOp info)) s t
      \<Longrightarrow> \<exists>t'. callValidateUserOp W j op info m t = Inr (d, t') \<and> alike view (m_sender (i_mUserOp info)) s' t'"
proof -
  obtain ret where w: "w_validateUserOp W (m_sender (i_mUserOp info)) (m_verificationGasLimit (i_mUserOp info)) op (i_userOpHash info) m s
      = Inr (ret, s')" and r: "length ret = 32" "d = of_nat (be_val ret)"
    using assms(2) by (auto simp: callValidateUserOp_def Let_def split: if_splits sum.splits)
  show "b \<noteq> m_sender (i_mUserOp info) \<Longrightarrow> alike view b s s'"
    using k w unfolding keeps_to_itself_def by blast
  assume "alike view (m_sender (i_mUserOp info)) s t"
  then obtain t' where "w_validateUserOp W (m_sender (i_mUserOp info)) (m_verificationGasLimit (i_mUserOp info)) op (i_userOpHash info) m t
      = Inr (ret, t')" "alike view (m_sender (i_mUserOp info)) s' t'"
    using k w unfolding keeps_to_itself_def by blast
  with r show "\<exists>t'. callValidateUserOp W j op info m t = Inr (d, t') \<and> alike view (m_sender (i_mUserOp info)) s' t'"
    by (auto simp: callValidateUserOp_def Let_def)
qed

lemma validateAccountPrepayment_alike:
  assumes k: "keeps_to_itself view W (m_sender (i_mUserOp info))" and "po_initCode op = []" and pm: "m_paymaster (i_mUserOp info) = 0"
    and v: "validateAccountPrepayment W i op info p s = Inr (d, s')"
  shows "b \<noteq> m_sender (i_mUserOp info) \<Longrightarrow> alike view b s s'"
    and "alike view (m_sender (i_mUserOp info)) s t
      \<Longrightarrow> \<exists>t'. validateAccountPrepayment W j op info p t = Inr (d, t') \<and> alike view (m_sender (i_mUserOp info)) s' t'"
proof -
  let ?a = "m_sender (i_mUserOp info)"
  define missing where "missing u = (if p < balanceOf u ?a then 0 else p - balanceOf u ?a)" for u :: "'a ep_state"
  have c: "createSenderIfNeeded W x info (po_initCode op) u = Inr u" for x u
    using assms(2) by (simp add: createSenderIfNeeded_def Let_def)
  have form: "validateAccountPrepayment W x op info p u = bindE (callValidateUserOp W x op info (missing u) u) (\<lambda>(d, u1).
      let (paid, u2) = tryDecrementDeposit ?a p u1 in if paid then Inr (d, u2) else Inl (FailedOp x ''AA21 didn't pay prefund''))" for x u
    using pm by (simp add: validateAccountPrepayment_def c Let_def missing_def)
  obtain x where x: "callValidateUserOp W i op info (missing s) s = Inr x"
    and y: "(\<lambda>(d, u1). let (paid, u2) = tryDecrementDeposit ?a p u1 in
      if paid then Inr (d, u2) else Inl (FailedOp i ''AA21 didn't pay prefund'')) x = Inr (d, s')"
    by (rule bindE_InrE[OF v[unfolded form]])
  obtain s1 where call: "callValidateUserOp W i op info (missing s) s = Inr (d, s1)" and dec: "tryDecrementDeposit ?a p s1 = (True, s')"
    using x y by (cases x) (auto simp: Let_def split: prod.splits if_splits)
  note alike_call = callValidateUserOp_alike[OF k call] and alike_dec = tryDecrementDeposit_alike[OF dec]
  show "b \<noteq> ?a \<Longrightarrow> alike view b s s'" using alike_trans[OF alike_call(1) alike_dec(1)] by blast
  assume t: "alike view ?a s t"
  then obtain t1 where t1: "callValidateUserOp W j op info (missing s) t = Inr (d, t1)" "alike view ?a s1 t1"
    using alike_call(2) by blast
  obtain t' where "tryDecrementDeposit ?a p t1 = (True, t')" "alike view ?a s' t'" using alike_dec(2)[OF t1(2)] by blast
  moreover have "missing t = missing s" using t by (simp add: missing_def balanceOf_def alike_def)
  ultimately show "\<exists>t'. validateAccountPrepayment W j op info p t = Inr (d, t') \<and> alike view ?a s' t'"
    using t1(1) by (auto simp: form)
qed

lemma validatePrepayment_alike:
  assumes k: "keeps_to_itself view W (po_sender op)" and p: "plain_op op" and v: "validatePrepayment W g i op s = Inr (r, s')"
  shows "b \<noteq> po_sender op \<Longrightarrow> alike view b s s'"
    and "alike view (po_sender op) s t \<Longrightarrow> \<exists>t'. validatePrepayment W g j op t = Inr (r, t') \<and> alike view (po_sender op) s' t'"
proof -
  obtain m h where m: "copyUserOpToMemory op = Inr m" and h: "getUserOpHash_sol W op s = Inr h" and mg: "\<not> 2 ^ 120 - 1 < maxGasValues m"
    using v by (auto simp: validatePrepayment_def bindE_Inr_iff split: if_splits)
  define info where "info = \<lparr>i_mUserOp = m, i_userOpHash = h, i_prefund = getRequiredPrefund m, i_context = [], i_preOpGas = 0\<rparr>"
  have pm: "m_paymaster m = 0" and sender: "m_sender m = po_sender op" "i_mUserOp info = m"
    using plain_copy[OF p m] copyUserOpToMemory_fields[OF m] by (simp_all add: info_def)
  have h': "getUserOpHash_sol W op u = Inr h" for u using h plain_hash[OF p] by metis
  have form: "validatePrepayment W g x op u = bindE (validateAccountPrepayment W x op info (i_prefund info) u) (\<lambda>(d, u1).
      bindE (sol (validateAndUpdateNonce (po_sender op) (m_nonce m) u1)) (\<lambda>(fresh, u2).
      if \<not> fresh then Inl (FailedOp x ''AA25 invalid account nonce'')
      else if m_verificationGasLimit m < og_account g then Inl (FailedOp x ''AA26 over verificationGasLimit'')
      else Inr ((d, 0, info\<lparr>i_context := [], i_preOpGas := og_preOp g + po_preVerificationGas op\<rparr>), u2)))" for x u
    using mg pm sender(1) by (cases "validateAccountPrepayment W x op info (i_prefund info) u") (auto simp: validatePrepayment_def m h' Let_def info_def sol_def bindE_def split: sum.splits)
  obtain d s1 where a: "validateAccountPrepayment W i op info (i_prefund info) s = Inr (d, s1)"
    and n: "validateAndUpdateNonce (po_sender op) (m_nonce m) s1 = Inr (True, s')"
    and r: "\<not> m_verificationGasLimit m < og_account g"
      "r = (d, 0, info\<lparr>i_context := [], i_preOpGas := og_preOp g + po_preVerificationGas op\<rparr>)"
    using v unfolding form by (auto simp: bindE_Inr_iff split: prod.splits if_splits)
  have i: "po_initCode op = []" using p by (simp add: plain_op_def)
  have "keeps_to_itself view W (m_sender (i_mUserOp info))" "m_paymaster (i_mUserOp info) = 0" using k pm sender by simp_all
  note acc = validateAccountPrepayment_alike[OF this(1) i this(2) a, unfolded sender]
    and non = validateAndUpdateNonce_alike[OF n]
  show "b \<noteq> po_sender op \<Longrightarrow> alike view b s s'" using alike_trans[OF acc(1) non(1)] by blast
  assume "alike view (po_sender op) s t"
  then obtain t1 where t1: "validateAccountPrepayment W j op info (i_prefund info) t = Inr (d, t1)" "alike view (po_sender op) s1 t1"
    using acc(2) by blast
  obtain t' where "validateAndUpdateNonce (po_sender op) (m_nonce m) t1 = Inr (True, t')" "alike view (po_sender op) s' t'"
    using non(2)[OF t1(2)] by blast
  with t1(1) r show "\<exists>t'. validatePrepayment W g j op t = Inr (r, t') \<and> alike view (po_sender op) s' t'"
    by (auto simp: form sol_def)
qed

section \<open>A bundle\<close>

text \<open>Whether an execution is given too little gas does not depend on the state, and nothing else makes it revert.\<close>

lemma executeUserOp_anywhere:
  assumes "executeUserOp W g i op info s = Inr r"
  shows "\<exists>r'. executeUserOp W g j op info t = Inr r'"
proof (cases "og_inner_left g * 63 div 64
    < m_callGasLimit (i_mUserOp info) + m_paymasterPostOpGasLimit (i_mUserOp info) + INNER_GAS_OVERHEAD")
  case False
  then show ?thesis using executeUserOp_returns by metis
next
  case True
  have f: "og_inner_fails g"
    using assms True by (rule_tac ccontr) (simp add: executeUserOp_def innerHandleOp_def Let_def)
  have "postExecution W PostOpReverted info ctx ag pu u st1 \<noteq> Inl x" for ctx ag pu u st1 x
    by (simp add: postExecution_def Let_def)
  with f show ?thesis by (auto simp: executeUserOp_def innerHandleOp_def Let_def split: sum.splits)
qed

lemma execute_all_returns:
  "\<forall>(op, g, info) \<in> set infos. \<exists>i s r. executeUserOp W g i op info s = Inr r \<Longrightarrow> \<exists>r. execute_all W i infos c st = Inr r"
proof (induction infos arbitrary: i c st)
  case (Cons x infos)
  obtain op g info where x: "x = (op, g, info)" by (cases x)
  from Cons.prems obtain i0 s0 r0 where "executeUserOp W g i0 op info s0 = Inr r0" unfolding x by auto
  then obtain c1 st1 where "executeUserOp W g i op info st = Inr (c1, st1)"
    using executeUserOp_anywhere[where j = i and t = st] by (metis surj_pair)
  with Cons x show ?case by simp
qed simp

text \<open>What the handling of a single operation shows about it.\<close>

definition valid_alone :: "'w ep_callees \<Rightarrow> 'w ep_state \<Rightarrow> PackedUserOperation \<times> op_gas \<Rightarrow> bool" where
  "valid_alone W st x \<longleftrightarrow> (case x of (op, g) \<Rightarrow> \<exists>vd pvd info s1. validatePrepayment W g 0 op st = Inr ((vd, pvd, info), s1)
     \<and> validateAccountAndPaymasterValidationData 0 (w_timestamp W) vd pvd 0 = Inr () \<and> (\<exists>i s r. executeUserOp W g i op info s = Inr r))"

lemma handled_valid_alone:
  assumes "handleOps W [(op, g)] ben st = Inr st1"
  shows "valid_alone W (st\<lparr>ep_locked := True\<rparr>) (op, g)" and "\<not> ep_locked st" and "ben \<noteq> 0"
proof -
  obtain infos s1 c s2 s3 where i: "iterateValidationPhase W 0 [(op, g)] 0 (st\<lparr>ep_locked := True\<rparr>) = Inr (infos, s1)"
    and x: "execute_all W 0 infos 0 (emit BeforeExecution s1) = Inr (c, s2)" and b: "compensate W ben c s2 = Inr s3"
    and l: "\<not> ep_locked st"
    using assms by (auto simp: handleOps_def bindE_Inr_iff split: if_splits)
  show "\<not> ep_locked st" by (rule l)
  show "ben \<noteq> 0" using b by (auto simp: compensate_def split: if_splits)
  show "valid_alone W (st\<lparr>ep_locked := True\<rparr>) (op, g)"
    using i x by (auto simp: valid_alone_def bindE_Inr_iff) blast
qed

lemma validationData_index:
  "validateAccountAndPaymasterValidationData i t d p ag = Inr () \<Longrightarrow> validateAccountAndPaymasterValidationData j t d p ag = Inr ()"
  by (auto simp: validateAccountAndPaymasterValidationData_def Let_def split: prod.splits if_splits)

lemma iterate_independent:
  assumes "distinct (map (po_sender \<circ> fst) ops)"
    and "\<forall>x \<in> set ops. plain_op (fst x) \<and> keeps_to_itself view W (po_sender (fst x)) \<and> valid_alone W st0 x
          \<and> alike view (po_sender (fst x)) st0 st"
  shows "\<exists>infos st'. iterateValidationPhase W i ops 0 st = Inr (infos, st')
    \<and> (\<forall>(op, g, info) \<in> set infos. \<exists>i s r. executeUserOp W g i op info s = Inr r)"
  using assms
proof (induction ops arbitrary: i st)
  case Nil
  then show ?case by simp
next
  case (Cons x ops)
  obtain op g where x: "x = (op, g)" by (cases x)
  have p: "plain_op op" "keeps_to_itself view W (po_sender op)" "valid_alone W st0 (op, g)" "alike view (po_sender op) st0 st"
    using Cons.prems(2) x by auto
  obtain vd pvd info s1 where v0: "validatePrepayment W g 0 op st0 = Inr ((vd, pvd, info), s1)"
    and d: "validateAccountAndPaymasterValidationData 0 (w_timestamp W) vd pvd 0 = Inr ()"
    and e: "\<exists>i s r. executeUserOp W g i op info s = Inr r"
    using p(3) unfolding valid_alone_def prod.case by (elim exE conjE) (rule that, assumption, assumption, intro exI)
  obtain st1 where v: "validatePrepayment W g i op st = Inr ((vd, pvd, info), st1)"
    using validatePrepayment_alike(2)[OF p(2,1) v0 p(4)] by blast
  have "alike view (po_sender (fst y)) st0 st1" if "y \<in> set ops" for y
  proof -
    have "po_sender (fst y) \<noteq> po_sender op" using Cons.prems(1) that x by force
    from validatePrepayment_alike(1)[OF p(2,1) v this] have "alike view (po_sender (fst y)) st st1" .
    moreover have "alike view (po_sender (fst y)) st0 st" using Cons.prems(2) that by simp
    ultimately show ?thesis by (rule alike_trans[rotated])
  qed
  then have "\<forall>y \<in> set ops. plain_op (fst y) \<and> keeps_to_itself view W (po_sender (fst y)) \<and> valid_alone W st0 y
      \<and> alike view (po_sender (fst y)) st0 st1"
    using Cons.prems(2) by simp
  moreover have "distinct (map (po_sender \<circ> fst) ops)" using Cons.prems(1) by (simp add: comp_def)
  ultimately obtain infos st' where r: "iterateValidationPhase W (Suc i) ops 0 st1 = Inr (infos, st')"
    "\<forall>(op, g, info) \<in> set infos. \<exists>i s r. executeUserOp W g i op info s = Inr r"
    using Cons.IH[of st1 "Suc i"] by blast
  have "iterateValidationPhase W i (x # ops) 0 st = Inr ((op, g, info) # infos, st')"
    using validationData_index[OF d] by (simp add: x v r(1))
  with r(2) e show ?case by auto
qed

lemma valid_bundle_handled:
  assumes "honest W" and "total st \<le> unat (ep_balance st)" and "\<forall>v s. \<exists>r s'. w_receive W ben v s = Inr (r, s')"
    and "distinct (map (po_sender \<circ> fst) ops)" and "\<not> ep_locked st" and "ben \<noteq> 0"
    and ops: "\<forall>x \<in> set ops. plain_op (fst x) \<and> keeps_to_itself view W (po_sender (fst x)) \<and> valid_alone W (st\<lparr>ep_locked := True\<rparr>) x"
  shows "\<exists>st'. handleOps W ops ben st = Inr st'"
proof -
  let ?st = "st\<lparr>ep_locked := True\<rparr>"
  have "\<forall>x \<in> set ops. plain_op (fst x) \<and> keeps_to_itself view W (po_sender (fst x)) \<and> valid_alone W ?st x
      \<and> alike view (po_sender (fst x)) ?st ?st"
    using ops by simp
  from iterate_independent[OF assms(4) this] obtain infos st1 where i: "iterateValidationPhase W 0 ops 0 ?st = Inr (infos, st1)"
    and e: "\<forall>(op, g, info) \<in> set infos. \<exists>i s r. executeUserOp W g i op info s = Inr r"
    by blast
  obtain c st2 where x: "execute_all W 0 infos 0 (emit BeforeExecution st1) = Inr (c, st2)"
    using execute_all_returns[OF e] by (metis surj_pair)
  let ?S = "\<Sum>(op, g, info) \<leftarrow> infos. unat (i_prefund info)"
  have s: "safe 0 ?S ?st st1" using iterateValidationPhase_safe(1)[OF assms(1) _ i] by simp
  have "solvent (0 + 0) ?st" using assms(2) by (simp add: solvent_def total_def)
  with s have "solvent (0 + ?S) st1" unfolding safe_def by blast
  then have "solvent (0 + ?S + unat (0 :: uint256)) (emit BeforeExecution st1)" by (simp add: solvent_def total_def emit_def)
  moreover have "ep_locked (emit BeforeExecution st1)" using s by (simp add: safe_def emit_def)
  ultimately have "solvent (0 + unat c) st2" using execute_all_safe[OF assms(1) _ x] by blast
  then have "\<not> ep_balance st2 < c" by (simp add: solvent_def word_less_nat_alt)
  then have "\<exists>st3. compensate W ben c st2 = Inr st3"
    using assms(6) assms(3)[rule_format, of c "pay_out c st2"] by (auto simp: compensate_def send_value_def)
  with i x assms(5) show ?thesis by (auto simp: handleOps_def)
qed

section \<open>A bundle of the queue\<close>

text \<open>The senders of a bundle are different addresses, because they are different data strings of 20 bytes.\<close>

lemma sender_inject:
  assumes "encodable p" and "encodable q" and "po_sender (on_chain_op p) = po_sender (on_chain_op q)"
  shows "pu_sender p = pu_sender q"
proof -
  obtain s t where s: "pu_sender p = hx s" "length s = 20" and t: "pu_sender q = hx t" "length t = 20"
    using assms(1,2) by (auto simp: encodable_def)
  have small: "be_val x < 2 ^ 160" if "length x = 20" for x using be_val_less[of x] that by simp
  have "(of_nat (be_val s) :: address) = of_nat (be_val t)" using assms(3) s t by (simp add: on_chain_op_def)
  then have "unat (of_nat (be_val s) :: address) = unat (of_nat (be_val t) :: address)" by simp
  then have "be_val s = be_val t" using small[OF s(2)] small[OF t(2)] by (simp add: unat_of_nat)
  then show ?thesis using s t be_bytes_be_val by metis
qed

text \<open>
  C12. A bundle of the queue does not fail by its own making. When each operation of a call that the queue has handed over
  would be handled alone, belongs to an account that exists, pays for itself and validates on what is its own, and
  the beneficiary takes its payment, then the block that includes the call executes the whole bundle: because there
  is one operation of a sender, the operations do not spend each other's nonces and deposits.
\<close>

theorem fresh_bundle_is_executed:
  assumes "(bstep E)\<^sup>*\<^sup>* (init_bundler st0) b" and "total st0 \<le> unat (ep_balance st0)" and "minable b n gs" and "honest W"
    and "\<forall>v s. \<exists>r s'. w_receive W (beneficiary_on_chain (handled (bq b) ! n)) v s = Inr (r, s')"
    and "\<forall>x \<in> set (bundle_on_chain (handled (bq b) ! n) gs). plain_op (fst x) \<and> keeps_to_itself view W (po_sender (fst x))
          \<and> (\<exists>st'. handleOps W [x] (beneficiary_on_chain (handled (bq b) ! n)) (ep b) = Inr st')"
  shows "\<exists>b'. bstep E b b' \<and> included b' = included b @ [n] \<and> executed b' = executed b @ ho_ops (handled (bq b) ! n)"
proof -
  let ?call = "handled (bq b) ! n"
  let ?ops = "bundle_on_chain ?call gs" and ?ben = "beneficiary_on_chain ?call"
  have inv: "bundler_inv E st0 b" using bundler_run_inv[OF assms(1)] .
  have call: "?call \<in> set (handled (bq b))" "length gs = length (ho_ops ?call)" "\<forall>p \<in> set (ho_ops ?call). encodable p"
    using assms(3) by (simp_all add: minable_def)
  have ok: "ho_ops ?call \<noteq> []" "distinct (map pu_sender (ho_ops ?call))"
    using reachable_inv(2)[of E "bq b"] inv call(1) by (auto simp: bundler_inv_def bundles_inv_def bundle_ok_def)
  have "distinct (map (po_sender \<circ> on_chain_op) (ho_ops ?call))"
    using ok(2) call(3) sender_inject by (auto simp: distinct_map inj_on_def)
  then have d: "distinct (map (po_sender \<circ> fst) ?ops)" by (simp add: bundle_ids[OF call(2)] flip: map_map)
  have s: "total (ep b) \<le> unat (ep_balance (ep b))"
    using ep_run_solvent(1)[of "seen b" st0 "ep b" 0] inv assms(2) by (simp add: bundler_inv_def solvent_def)
  have alone: "valid_alone W ((ep b)\<lparr>ep_locked := True\<rparr>) x \<and> \<not> ep_locked (ep b) \<and> ?ben \<noteq> 0" if "x \<in> set ?ops" for x
  proof -
    obtain op g where x: "x = (op, g)" by (cases x)
    with assms(6) that obtain st1 where "handleOps W [(op, g)] ?ben (ep b) = Inr st1" by auto
    with handled_valid_alone[OF this] x show ?thesis by simp
  qed
  have "?ops \<noteq> []" using ok(1) call(2) by (auto simp: bundle_on_chain_def)
  from alone[OF hd_in_set[OF this]] have free: "\<not> ep_locked (ep b)" "?ben \<noteq> 0" by simp_all
  obtain c where c: "handleOps W ?ops ?ben (ep b) = Inr c"
    using valid_bundle_handled[OF assms(4) s assms(5) d free] assms(6) alone by blast
  show ?thesis
    by (rule exI, rule conjI, rule bstep.mined[OF assms(3,4) c]) (simp add: executed_def)
qed

section \<open>An instance\<close>

text \<open>The EntryPoint of the other instances, with a second account that accepts every operation.\<close>

definition two_W :: "unit chain ep_callees" where
  "two_W = demo_W\<lparr>w_validateUserOp := (\<lambda>a g op h m st. if a = 0xADD then Inr (be_bytes 32 0, st)
     else w_validateUserOp demo_W a g op h m st)\<rparr>"

definition two_view :: "address \<Rightarrow> unit chain \<Rightarrow> unit chain option" where
  "two_view a w = (if a = 0xACC then Some w else None)"

lemma two_W_honest: "honest two_W"
  using demo_W_honest by (auto simp: honest_def calls_back_def two_W_def)

lemma two_W_keeps: "keeps_to_itself two_view two_W 0xACC" "keeps_to_itself two_view two_W 0xADD"
  by (auto simp: keeps_to_itself_def two_W_def demo_W_def alike_def two_view_def split: sum.splits)

lemma two_executes: "\<exists>i s r. executeUserOp two_W demo_gas i op info s = Inr r" if "m_callGasLimit (i_mUserOp info) \<le> 50000"
  "m_paymasterPostOpGasLimit (i_mUserOp info) = 0"
proof -
  have "unat (m_callGasLimit (i_mUserOp info)) \<le> 50000" using that(1) by (simp add: word_le_nat_alt)
  then have "\<not> og_inner_left demo_gas * 63 div 64
      < m_callGasLimit (i_mUserOp info) + m_paymasterPostOpGasLimit (i_mUserOp info) + INNER_GAS_OVERHEAD"
    by (simp add: demo_gas_def that(2) INNER_GAS_OVERHEAD_def word_less_nat_alt unat_word_ariths)
  then show ?thesis using executeUserOp_returns by metis
qed

lemma two_valid_client: "valid_alone two_W ((demo_ep demo_account)\<lparr>ep_locked := True\<rparr>) (demo_bundled, demo_gas)"
proof -
  let ?st = "(demo_ep demo_account)\<lparr>ep_locked := True\<rparr>"
  have c: "createSenderIfNeeded two_W 0 info [] st = Inr st" for info st by (simp add: createSenderIfNeeded_def Let_def)
  have v: "callValidateUserOp two_W 0 demo_bundled info m st = callValidateUserOp demo_W 0 demo_bundled info m st"
    if "m_sender (i_mUserOp info) = 0xACC" for info m st
    using that by (simp add: callValidateUserOp_def two_W_def)
  have i: "po_initCode demo_bundled = []" by (simp add: demo_bundled_def demo_op_def)
  have a: "validateAccountPrepayment two_W 0 demo_bundled info 1510000 ?st = Inr (0, demo_paid demo_account)"
    if "i_mUserOp info = demo_mem" for info
  proof -
    have "m_sender (i_mUserOp info) = 0xACC" using that by (simp add: demo_mem_def)
    note v = v[OF this]
    have "createSenderIfNeeded demo_W 0 info [] st = Inr st" for st by (simp add: createSenderIfNeeded_def Let_def)
    then have "validateAccountPrepayment two_W 0 demo_bundled info 1510000 ?st = validateAccountPrepayment demo_W 0 demo_bundled info 1510000 ?st"
      by (simp add: validateAccountPrepayment_def c i v)
    then show ?thesis using demo_account_part[OF that] by simp
  qed
  have h: "getUserOpHash_sol two_W demo_bundled st = Inr 0" for st
    by (simp add: getUserOpHash_sol_def getEip7702InitCodeHashOverride_def isEip7702InitCode_sol_def i two_W_def demo_W_def hash_def)
  have "\<not> 2 ^ 120 - 1 < maxGasValues demo_mem" using demo_max by simp
  then have "validatePrepayment two_W demo_gas 0 demo_bundled ?st = Inr ((0, 0, demo_info), set_nonce 0xACC 0 1 (demo_paid demo_account))"
    using a demo_nonce
    by (simp add: validatePrepayment_def demo_copy h demo_ep_prefund sol_def Let_def, simp add: demo_mem_def demo_gas_def demo_info_def
        demo_bundled_def)
  then show ?thesis
    using two_executes[of demo_info demo_bundled]
    by (simp add: valid_alone_def validateAccountAndPaymasterValidationData_def getValidationData_def)
      (simp add: demo_info_def demo_mem_def)
qed

definition other_mem :: MemoryUserOp where
  "other_mem = \<lparr>m_sender = 0xADD, m_nonce = 0, m_verificationGasLimit = 150000, m_callGasLimit = 5,
     m_paymasterVerificationGasLimit = 0, m_paymasterPostOpGasLimit = 0, m_preVerificationGas = 21000, m_paymaster = 0,
     m_maxFeePerGas = 0, m_maxPriorityFeePerGas = 1000000000\<rparr>"

definition other_on_chain :: PackedUserOperation where
  "other_on_chain = on_chain_op (demo_packed (be_bytes 20 0xADD))"

lemma other_on_chain_fields: "po_sender other_on_chain = 0xADD" "po_nonce other_on_chain = 0" "po_initCode other_on_chain = []"
  "po_paymasterAndData other_on_chain = []" "po_preVerificationGas other_on_chain = 21000"
  "unpackUints (po_accountGasLimits other_on_chain) = (150000, 5)" "unpackUints (po_gasFees other_on_chain) = (1000000000, 0)"
proof -
  have e: "''0x'' = hx []" by (simp add: hx_Nil)
  show "po_sender other_on_chain = 0xADD" "po_nonce other_on_chain = 0" "po_initCode other_on_chain = []"
    "po_paymasterAndData other_on_chain = []" "po_preVerificationGas other_on_chain = 21000"
    unfolding other_on_chain_def on_chain_op_def demo_packed_def e by (simp_all del: be_bytes.simps)
  show "unpackUints (po_accountGasLimits other_on_chain) = (150000, 5)" "unpackUints (po_gasFees other_on_chain) = (1000000000, 0)"
    unfolding other_on_chain_def on_chain_op_def demo_packed_def
    by (simp_all add: unpackUints_def word_unat_eq_iff packed_word_halves del: be_bytes.simps)
qed

lemma other_copy: "copyUserOpToMemory other_on_chain = Inr other_mem"
  by (simp add: copyUserOpToMemory_def other_on_chain_fields other_mem_def Let_def)

lemma two_valid_other: "valid_alone two_W ((demo_ep demo_account)\<lparr>ep_locked := True\<rparr>) (other_on_chain, demo_gas)"
proof -
  let ?st = "(demo_ep demo_account)\<lparr>ep_locked := True\<rparr>"
  let ?info = "\<lparr>i_mUserOp = other_mem, i_userOpHash = 0, i_prefund = 0, i_context = [], i_preOpGas = 0\<rparr>"
  have h: "getUserOpHash_sol two_W other_on_chain st = Inr 0" for st
    by (simp add: getUserOpHash_sol_def getEip7702InitCodeHashOverride_def isEip7702InitCode_sol_def other_on_chain_fields two_W_def
        demo_W_def hash_def)
  have c: "callValidateUserOp two_W 0 other_on_chain ?info m st = Inr (0, st)" for m st
    by (simp add: callValidateUserOp_def two_W_def other_mem_def be_val_be_bytes del: be_bytes.simps)
  have d: "di_deposit (deposits (demo_ep demo_account) 0xADD) = 0"
    by (simp add: demo_ep_def demo_empty_def set_info_def no_deposit_def)
  have "\<exists>st1. validateAccountPrepayment two_W 0 other_on_chain ?info 0 ?st = Inr (0, st1) \<and> nonceSequenceNumber st1 0xADD 0 = 0"
    using c d
    by (simp add: validateAccountPrepayment_def createSenderIfNeeded_def other_on_chain_fields other_mem_def Let_def balanceOf_def
        tryDecrementDeposit_def set_info_def) (simp add: demo_ep_def demo_empty_def set_info_def)
  then obtain st1 where a: "validateAccountPrepayment two_W 0 other_on_chain ?info 0 ?st = Inr (0, st1)" "nonceSequenceNumber st1 0xADD 0 = 0"
    by blast
  have n: "validateAndUpdateNonce 0xADD 0 st1 = Inr (True, set_nonce 0xADD 0 1 st1)"
    using a(2) by (simp add: validateAndUpdateNonce_def incrementNonce_def nonce_key_def nonce_seq_def Let_def)
  have "\<not> 2 ^ 120 - 1 < maxGasValues other_mem" by (simp add: maxGasValues_def other_mem_def)
  moreover have "getRequiredPrefund other_mem = 0" by (simp add: getRequiredPrefund_def other_mem_def)
  moreover have m: "m_sender other_mem = 0xADD" "m_nonce other_mem = 0" "m_paymaster other_mem = 0" "\<not> m_verificationGasLimit other_mem < og_account demo_gas"
    by (simp_all add: other_mem_def demo_gas_def)
  ultimately have "validatePrepayment two_W demo_gas 0 other_on_chain ?st
      = Inr ((0, 0, ?info\<lparr>i_preOpGas := og_preOp demo_gas + 21000\<rparr>), set_nonce 0xADD 0 1 st1)"
    using a(1) n by (simp add: validatePrepayment_def other_copy h sol_def Let_def other_on_chain_fields)
  then show ?thesis
    using two_executes[of "?info\<lparr>i_preOpGas := og_preOp demo_gas + 21000\<rparr>" other_on_chain]
    by (simp add: valid_alone_def validateAccountAndPaymasterValidationData_def getValidationData_def)
      (simp add: other_mem_def)
qed

lemma other_encodable: "encodable (demo_packed (be_bytes 20 0xADD))"
proof -
  have e: "''0x'' = hx []" by (simp add: hx_Nil)
  show ?thesis unfolding encodable_def demo_packed_def e is_data_def by (auto simp del: be_bytes.simps)
qed

theorem fresh_bundle_is_executed_witness:
  "\<exists>b b' :: unit chain bundler. (bstep demo_ethers)\<^sup>*\<^sup>* (init_bundler (demo_ep demo_account)) b \<and> executed b = []
    \<and> bstep demo_ethers b b' \<and> included b' = [0] \<and> executed b' = [client_packed, demo_packed (be_bytes 20 0xADD)]"
proof -
  let ?q = "after_push [client_op, other_op]
    \<lparr>queue = [(hx (be_bytes 20 0xACC), []), (hx (be_bytes 20 0xADD), [])], queueSize = NaN, lastQueueUpdate = Num 1000, cancelId = None\<rparr>
    [client_op, other_op] [client_packed, demo_packed (be_bytes 20 0xADD)]"
  let ?b = "(init_bundler (demo_ep demo_account))\<lparr>bq := ?q\<rparr>" and ?gs = "[demo_gas, demo_gas]"
  let ?call = "handled (bq ?b) ! 0"
  have run: "(bstep demo_ethers)\<^sup>*\<^sup>* (init_bundler (demo_ep demo_account)) ?b" by (rule client_run[OF client_and_other])
  have s: "total (demo_ep demo_account) \<le> unat (ep_balance (demo_ep demo_account))"
    by (simp add: demo_ep_total) (simp add: demo_ep_def demo_empty_def)
  have b: "ep ?b = demo_ep demo_account" "included ?b = []" "reverted ?b = []" by (simp_all add: init_bundler_def)
  have h: "handled (bq ?b) = [\<lparr>ho_queue = 0, ho_ops = [client_packed, demo_packed (be_bytes 20 0xADD)],
      ho_beneficiary = hx (be_bytes 20 0xB0B)\<rparr>]"
    by (simp add: after_push_def del: be_bytes.simps)
  have ben: "beneficiary_on_chain ?call = 0xB0B" unfolding h by (simp add: beneficiary_on_chain_def del: be_bytes.simps)
  have ops: "bundle_on_chain ?call ?gs = [(demo_bundled, demo_gas), (other_on_chain, demo_gas)]"
    unfolding h by (simp add: bundle_on_chain_def client_packed_on_chain other_on_chain_def del: be_bytes.simps)
  have m: "minable ?b 0 ?gs" unfolding minable_def h b using client_packed_encodable other_encodable by simp
  have take: "\<forall>v s. \<exists>r s'. w_receive two_W (beneficiary_on_chain ?call) v s = Inr (r, s')" by (simp add: two_W_def demo_W_def)
  have p: "plain_op demo_bundled" "po_sender demo_bundled = 0xACC" "plain_op other_on_chain" "po_sender other_on_chain = 0xADD"
    by (simp_all add: plain_op_def other_on_chain_fields, simp_all add: demo_bundled_def demo_op_def)
  have "\<exists>st'. handleOps two_W [x] 0xB0B (demo_ep demo_account) = Inr st'"
    if "x = (demo_bundled, demo_gas) \<or> x = (other_on_chain, demo_gas)" for x
    by (rule valid_bundle_handled[OF two_W_honest s, where view = two_view])
      (use that p two_W_keeps two_valid_client two_valid_other in
        \<open>auto simp: two_W_def demo_W_def demo_ep_def demo_empty_def set_info_def\<close>)
  then have "\<forall>x \<in> set (bundle_on_chain ?call ?gs). plain_op (fst x) \<and> keeps_to_itself two_view two_W (po_sender (fst x))
      \<and> (\<exists>st'. handleOps two_W [x] (beneficiary_on_chain ?call) (ep ?b) = Inr st')"
    unfolding ops ben b using p two_W_keeps by simp
  from fresh_bundle_is_executed[OF run s m two_W_honest take this] obtain b' where
    "bstep demo_ethers ?b b'" "included b' = [0]" "executed b' = [client_packed, demo_packed (be_bytes 20 0xADD)]"
    unfolding h by (auto simp: b executed_def)
  moreover have "executed ?b = []" by (simp add: executed_def b)
  ultimately show ?thesis using run by blast
qed

end
