(* ===== verification/Gas_Estimate.thy ===== *)
theory Gas_Estimate
  imports Gas_Checker_Properties
begin

text \<open>
  The estimate that a test of the gas checker subtracts: the variable \<open>accountEst\<close> that the functions of a
  bundle share is, when all of them are done, an estimate for the call of the test.
\<close>

text \<open>Once a function of the bundle is past its estimate, the shared \<open>accountEst\<close> is one that may be used.\<close>

fun has_estimate :: "task \<Rightarrow> bool" where
  "has_estimate (Polling a cd) = True"
| "has_estimate (Signing a cd g) = True"
| "has_estimate (Made p) = True"
| "has_estimate t = False"

definition estimate_inv :: "(int \<Rightarrow> bool) \<Rightarrow> 'n bundle_state \<Rightarrow> bool" where
  "estimate_inv known st \<longleftrightarrow> ((\<exists>t \<in> set (tasks st). has_estimate t) \<longrightarrow> known (b_accountEst st))"

lemma estimate_inv_try_lock: "known (b_accountEst st) \<Longrightarrow> estimate_inv known (try_lock a cd k st)"
  by (simp add: estimate_inv_def try_lock_def)

lemma estimate_inv_set:
  "estimate_inv known st \<Longrightarrow> \<not> has_estimate t \<or> known (b_accountEst st) \<Longrightarrow> tasks st' = (tasks st)[k := t]
     \<Longrightarrow> b_accountEst st' = b_accountEst st \<Longrightarrow> estimate_inv known st'"
  unfolding estimate_inv_def by (auto dest!: set_update_subset_insert[THEN subsetD])

lemma estimate_inv_fail: "estimate_inv known st \<Longrightarrow> tasks st' = tasks st \<Longrightarrow> b_accountEst st' = b_accountEst st
    \<Longrightarrow> estimate_inv known (fail_task e k st')"
  by (rule estimate_inv_set[where t = "FailedWith e" and st = st]) (simp_all add: fail_task_def)

lemma estimate_inv_dest:
  assumes "estimate_inv known st" "tasks st' = tasks st" "b_accountEst st' = b_accountEst st"
    and "\<And>t g. obj_get (gasEstimatePerExec (gs st')) (estimateGasKey N info) = Some (t, g) \<Longrightarrow> known g"
  shows "estimate_inv known (with_dest N info a d k st')"
proof (cases "obj_get (gasEstimatePerExec (gs st')) (estimateGasKey N info)")
  case None
  then show ?thesis
    by (intro estimate_inv_set[OF assms(1), where t = "AwaitEstimate a (exec_data N info d)"])
      (simp_all add: with_dest_def Let_def assms(2,3))
next
  case (Some te)
  with assms(4) show ?thesis by (cases te) (simp add: with_dest_def Let_def estimate_inv_try_lock)
qed

lemma estimate_inv_step:
  assumes inv: "tasks_inv E lower H signTyped N info cache keys st"
    and e: "estimate_inv (known_estimate N info cache) st" and k: "k < length (tasks st)"
  shows "estimate_inv (known_estimate N info cache) (step_task E lower H signTyped N info k st)"
proof -
  let ?known = "known_estimate N info cache"
  have cached: "obj_get (gasEstimatePerExec (gs st)) (estimateGasKey N info) = Some (t, g) \<Longrightarrow> ?known g" for t g
    using inv by (simp add: tasks_inv_simps bundle_inv_def)
  have late: "?known (b_accountEst st)" if "has_estimate (tasks st ! k)"
    using e that k by (auto simp: estimate_inv_def)
  show ?thesis
  proof (cases "tasks st ! k")
    case (NotStarted key)
    have "estimate_inv ?known (st\<lparr>tasks := (tasks st)[k := AwaitDest a]\<rparr>)" for a
      by (rule estimate_inv_set[OF e, where t = "AwaitDest a"]) simp_all
    moreover have "estimate_inv ?known (with_dest N info a d k st)" for a d
      by (rule estimate_inv_dest[OF e refl refl]) (rule cached)
    moreover have "estimate_inv ?known (fail_task err k st)" for err by (rule estimate_inv_fail[OF e refl refl])
    ultimately show ?thesis using NotStarted k by (simp add: step_task_def split: option.split)
  next
    case (AwaitDest a)
    obtain r g where r: "on_gas_chain (random_dest N) (gs st) = (r, g)" by fastforce
    then have "gasEstimatePerExec g = gasEstimatePerExec (gs st)" by (auto simp: on_gas_chain_def split: prod.splits)
    then have "estimate_inv ?known (with_dest N info a d k (st\<lparr>gs := g\<rparr>))" for d
      by (intro estimate_inv_dest[OF e]) (simp_all add: cached)
    moreover have "estimate_inv ?known (fail_task err k (st\<lparr>gs := g\<rparr>))" for err by (rule estimate_inv_fail[OF e]) simp_all
    ultimately show ?thesis using AwaitDest k r by (simp add: step_task_def split: sum.split)
  next
    case (AwaitEstimate a cd)
    show ?thesis
    proof (cases "bindE (g_estimateExec N a cd (gas_chain (gs st))) toNumber")
      case (Inl err)
      with AwaitEstimate k estimate_inv_fail[OF e refl refl] show ?thesis by (simp add: step_task_def)
    next
      case (Inr est)
      then have "?known est" unfolding known_estimate_def by blast
      with AwaitEstimate k Inr show ?thesis by (simp add: step_task_def with_estimate_def estimate_inv_try_lock)
    qed
  next
    case (Polling a cd)
    with k late show ?thesis by (simp add: step_task_def estimate_inv_try_lock)
  next
    case (Signing a cd g)
    have "estimate_inv ?known (st\<lparr>gs := (gs st)\<lparr>locked := False\<rparr>, tasks := (tasks st)[k := Made p]\<rparr>)" for p
      by (rule estimate_inv_set[OF e, where t = "Made p"]) (use late Signing in simp_all)
    moreover have "estimate_inv ?known (fail_task err k (st\<lparr>gs := (gs st)\<lparr>locked := False\<rparr>\<rparr>))" for err
      by (rule estimate_inv_fail[OF e]) simp_all
    ultimately show ?thesis using Signing k by (simp add: step_task_def Let_def split: sum.split)
  qed (use e k in \<open>simp_all add: step_task_def\<close>)
qed

lemma estimate_inv_run:
  "tasks_inv E lower H signTyped N info cache keys st \<Longrightarrow> estimate_inv (known_estimate N info cache) st \<Longrightarrow>
    estimate_inv (known_estimate N info cache) (run_tasks E lower H signTyped N info ks st)"
proof (induction ks arbitrary: st)
  case (Cons k ks)
  show ?case
  proof (cases "k < length (tasks st)")
    case True
    from Cons.IH[OF tasks_inv_step[OF Cons.prems(1) True] estimate_inv_step[OF Cons.prems True]] show ?thesis by simp
  next
    case False
    then have "step_task E lower H signTyped N info k st = st" by (simp add: step_task_def)
    with Cons show ?thesis by simp
  qed
qed simp

lemma bundle_estimate:
  assumes "promise_all (make_bundle C info sched g) = Some (Inr ops)" and "0 < gi_count info"
  shows "known_estimate (ck_N C) info (gasEstimatePerExec g) (b_accountEst (make_bundle C info sched g))"
proof -
  let ?b = "make_bundle C info sched g"
  have t: "tasks ?b = map Made ops" using assms(1) by (auto simp: promise_all_def all_made_map split: option.splits)
  have "length ops = gi_count info" using resolved_operation(1)[OF assms(1)[unfolded make_bundle_def]] .
  with t assms(2) have "\<exists>t \<in> set (tasks ?b). has_estimate t" by (cases ops) auto
  moreover have "estimate_inv (known_estimate (ck_N C) info (gasEstimatePerExec g)) (start_bundle info g)"
    by (auto simp: estimate_inv_def start_bundle_def)
  from estimate_inv_run[OF tasks_inv_start this]
  have "estimate_inv (known_estimate (ck_N C) info (gasEstimatePerExec g)) ?b" unfolding make_bundle_def .
  ultimately show ?thesis by (simp add: estimate_inv_def)
qed

end
