(* ===== verification/Gas_Suite.thy ===== *)
theory Gas_Suite
  imports Gas_Demo Gas_Estimate
begin

text \<open>
  The gas measurement as a whole: the files \<open>gascalc/*.ts\<close>, run one after the other by \<open>mocha --bail\<close>, which stops at
  the first failure and then still calls the \<open>after\<close> hook that writes the report. Every file makes its own
  checker; the cache of estimates, the last gas used, the collector and the chain are shared.
\<close>

section \<open>Files\<close>

text \<open>The fields of a new \<open>GasChecker\<close>.\<close>

definition new_checker :: "'n gas_state \<Rightarrow> 'n gas_state" where
  "new_checker s = s\<lparr>accounts := [], createdAccounts := [], locked := False\<rparr>"

text \<open>
  A file: its checker, the paymaster that its \<open>before\<close> hook sets up, if any, its tests, which may use the
  paymaster's address, and a schedule for each row.
\<close>

record 'n gas_file =
  gf_checker :: "'n checker"
  gf_paymasterInit :: "(string \<Rightarrow> string) option"
  gf_tests :: "string \<Rightarrow> gas_test list"
  gf_schedules :: "nat list list list"

fun run_its ::
  "'n checker \<Rightarrow> bool \<Rightarrow> (nat list list \<times> gas_test) list \<Rightarrow> 'n gas_state \<Rightarrow> ((js_error + unit) \<times> 'n gas_state) option" where
  "run_its C skipLong [] s = Some (Inr (), s)"
| "run_its C skipLong ((scheds, t) # its) s =
     (case run_gas_test C skipLong scheds t s of
        None \<Rightarrow> None
      | Some (Inl e, s') \<Rightarrow> Some (Inl e, s')
      | Some (Inr _, s') \<Rightarrow> run_its C skipLong its s')"

definition before_file :: "'n gas_file \<Rightarrow> ('n gas_state, string) io" where
  "before_file F = (case gf_paymasterInit F of None \<Rightarrow> returnIO [] | Some init \<Rightarrow> setup_paymaster (gf_checker F) init)"

definition run_file :: "bool \<Rightarrow> 'n gas_file \<Rightarrow> 'n gas_state \<Rightarrow> ((js_error + unit) \<times> 'n gas_state) option" where
  "run_file skipLong F s =
     (case before_file F (new_checker s) of
        (Inl e, s1) \<Rightarrow> Some (Inl e, s1)
      | (Inr paymasterAddress, s1) \<Rightarrow>
          if length (gf_schedules F) \<noteq> length (gf_tests F paymasterAddress) then None
          else run_its (gf_checker F) skipLong (zip (gf_schedules F) (gf_tests F paymasterAddress)) s1)"

fun run_files :: "bool \<Rightarrow> 'n gas_file list \<Rightarrow> 'n gas_state \<Rightarrow> ((js_error + unit) \<times> 'n gas_state) option" where
  "run_files skipLong [] s = Some (Inr (), s)"
| "run_files skipLong (F # Fs) s =
     (case run_file skipLong F s of
        None \<Rightarrow> None
      | Some (Inl e, s') \<Rightarrow> Some (Inl e, s')
      | Some (Inr _, s') \<Rightarrow> run_files skipLong Fs s')"

text \<open>The four files with rows; \<open>pm\<close> and \<open>pmPostOp\<close> make the init code of the two paymasters from the EntryPoint's address.\<close>

definition simple_file :: "'n checker \<Rightarrow> nat list list list \<Rightarrow> 'n gas_file" where
  "simple_file C scheds = \<lparr>gf_checker = C, gf_paymasterInit = None, gf_tests = (\<lambda>_. simple_tests), gf_schedules = scheds\<rparr>"

definition paymaster_file :: "'n checker \<Rightarrow> (string \<Rightarrow> string) \<Rightarrow> nat list list list \<Rightarrow> 'n gas_file" where
  "paymaster_file C pm scheds = \<lparr>gf_checker = C, gf_paymasterInit = Some pm, gf_tests = paymaster_tests, gf_schedules = scheds\<rparr>"

definition huge_file :: "'n checker \<Rightarrow> nat list list list \<Rightarrow> 'n gas_file" where
  "huge_file C scheds = \<lparr>gf_checker = C, gf_paymasterInit = None, gf_tests = (\<lambda>_. huge_tests), gf_schedules = scheds\<rparr>"

definition postop_file :: "'n checker \<Rightarrow> (string \<Rightarrow> string) \<Rightarrow> nat list list list \<Rightarrow> 'n gas_file" where
  "postop_file C pmPostOp scheds = \<lparr>gf_checker = C, gf_paymasterInit = Some pmPostOp, gf_tests = postop_tests, gf_schedules = scheds\<rparr>"

section \<open>The suite\<close>

text \<open>
  \<open>0-init-gas-checker.ts\<close>: the collector that \<open>init\<close> gave, and a run whose result is not used. When
  \<open>init\<close> fails there is no collector, and the \<open>after\<close> hook fails too.
\<close>

definition warmup_file :: "'n checker \<Rightarrow> nat list \<Rightarrow> 'n gas_state \<Rightarrow> ((js_error + unit) \<times> 'n gas_state) option" where
  "warmup_file C sched s =
     (case runTest C sched warmup (new_checker s) of
        None \<Rightarrow> None | Some (Inl e, s') \<Rightarrow> Some (Inl e, s') | Some (Inr _, s') \<Rightarrow> Some (Inr (), s'))"

definition gas_calc ::
  "'n checker \<Rightarrow> nat list \<Rightarrow> 'n gas_file list \<Rightarrow> bool \<Rightarrow> (cell list list \<Rightarrow> string) \<Rightarrow> js_error + collector
     \<Rightarrow> 'n gas_state \<Rightarrow> ((js_error + unit) \<times> string list option \<times> 'n gas_state) option" where
  "gas_calc C sched files skipLong table init s =
     (case init of
        Inl e \<Rightarrow> Some (Inl e, None, s)
      | Inr c \<Rightarrow>
          let report = (\<lambda>r s'. Some (r, Some (doneTable table (gasEstimatePerExec s') (col s')), s')) in
          (case warmup_file C sched (s\<lparr>col := c\<rparr>) of
             None \<Rightarrow> None
           | Some (Inl e, s') \<Rightarrow> report (Inl e) s'
           | Some (Inr _, s') \<Rightarrow>
               (case run_files skipLong files s' of None \<Rightarrow> None | Some (r, s'') \<Rightarrow> report r s'')))"

section \<open>What the report means\<close>

text \<open>
  A bundle that was measured. From \<open>s\<close> the accounts are created, the functions of the bundle make one operation for
  each, these are sent with half as much gas again as \<open>handleOps\<close> is estimated to need, and \<open>rcpt\<close> is the receipt that
  the node gives for that transaction, in which every operation succeeded. \<open>est\<close> is an estimate for the call of
  the test, and \<open>s'\<close> the state afterwards.
\<close>

definition bundle_sent ::
  "'n checker \<Rightarrow> gas_test_params \<Rightarrow> 'n gas_state \<Rightarrow> bundle_receipt \<Rightarrow> int \<Rightarrow> 'n gas_state \<Rightarrow> bool" where
  "bundle_sent C p s rcpt est s' \<longleftrightarrow> (\<exists>info sched s1 b ops gasEst h c1 c2 c3.
     info = with_defaults (Some (c_beneficiary (col s))) p
     \<and> createAccounts1 C (gp_count p) s = (Inr (), s1)
     \<and> b = make_bundle C info sched s1 \<and> promise_all b = Some (Inr ops) \<and> length ops = gp_count p
     \<and> g_estimateHandleOps (ck_N C) ops (gi_beneficiary info) (gas_chain (gs b)) = Inr gasEst
     \<and> g_handleOps (ck_N C) ops (gi_beneficiary info) (Some (gasEst * 3 div 2)) (gas_chain (gs b)) = (Inr h, c1)
     \<and> poll_receipt 100 (ck_N C) h c1 = (Inr (), c2) \<and> g_wait (ck_N C) h c2 = (Inr rcpt, c3)
     \<and> successes rcpt = gp_count p
     \<and> est = b_accountEst b \<and> known_estimate (ck_N C) info (gasEstimatePerExec s1) est
     \<and> s' = (gs b)\<lparr>gas_chain := c3, lastGasUsed := Num (br_gasUsed rcpt)\<rparr>)"

text \<open>The row of a total, and the row of the difference of two totals, less the estimate.\<close>

definition total_row :: "gas_test_params \<Rightarrow> bundle_receipt \<Rightarrow> cell list" where
  "total_row p rcpt = [Text (gp_title p), Number (Num (int (gp_count p))), Number (Num (br_gasUsed rcpt)), Text '''', Text '''']"

definition difference_row :: "gas_test_params \<Rightarrow> bundle_receipt \<Rightarrow> bundle_receipt \<Rightarrow> int \<Rightarrow> cell list" where
  "difference_row q rcpt1 rcpt2 est = [Text (gp_title q), Number (Num (int (gp_count q))), Text '''',
     Number (Num (br_gasUsed rcpt2 - br_gasUsed rcpt1)), Number (Num (br_gasUsed rcpt2 - br_gasUsed rcpt1 - est))]"

definition with_row :: "cell list \<Rightarrow> 'n gas_state \<Rightarrow> 'n gas_state" where
  "with_row r s = s\<lparr>col := (col s)\<lparr>tabRows := tabRows (col s) @ [r]\<rparr>\<rparr>"

text \<open>
  A test that was measured: a bundle of \<open>n\<close> operations and right after it one of \<open>n + 1\<close> operations of the same kind.
  Its rows are the total of the first, and the difference of both totals.
\<close>

definition measured :: "'n checker \<Rightarrow> gas_test \<Rightarrow> 'n gas_state \<Rightarrow> cell list list \<Rightarrow> 'n gas_state \<Rightarrow> bool" where
  "measured C t s rows s' \<longleftrightarrow> (\<exists>p q rcpt1 est1 s1 rcpt2 est2 s2. gt_rows t = [p, q] \<and> same_kind p q \<and> gp_count q = gp_count p + 1
     \<and> bundle_sent C p s rcpt1 est1 s1
     \<and> bundle_sent C q (with_row (total_row p rcpt1) s1) rcpt2 est2 s2
     \<and> rows = [total_row p rcpt1, difference_row q rcpt1 rcpt2 est2] \<and> s' = with_row (difference_row q rcpt1 rcpt2 est2) s2)"

text \<open>A test that failed with \<open>e\<close>, in its first run or, after the total of that, in its second.\<close>

definition half_measured :: "'n checker \<Rightarrow> gas_test \<Rightarrow> 'n gas_state \<Rightarrow> cell list list \<Rightarrow> js_error \<Rightarrow> 'n gas_state \<Rightarrow> bool" where
  "half_measured C t s rows e s' \<longleftrightarrow> (\<exists>p q sched. gt_rows t = [p, q]
     \<and> (runTest C sched p s = Some (Inl e, s') \<and> rows = []
       \<or> (\<exists>rcpt est s1. bundle_sent C p s rcpt est s1
           \<and> runTest C sched q (with_row (total_row p rcpt) s1) = Some (Inl e, s') \<and> rows = [total_row p rcpt])))"

fun all_measured :: "'n checker \<Rightarrow> gas_test list \<Rightarrow> 'n gas_state \<Rightarrow> cell list list \<Rightarrow> 'n gas_state \<Rightarrow> bool" where
  "all_measured C [] s rows s' \<longleftrightarrow> rows = [] \<and> s' = s"
| "all_measured C (t # ts) s rows s' \<longleftrightarrow>
     (\<exists>rows1 s1 rows2. measured C t s rows1 s1 \<and> all_measured C ts s1 rows2 s' \<and> rows = rows1 @ rows2)"

text \<open>The tests that are run: a long one is skipped when \<open>SKIP_LONG\<close> is set.\<close>

definition run_tests :: "bool \<Rightarrow> gas_test list \<Rightarrow> gas_test list" where
  "run_tests skipLong ts = filter (\<lambda>t. \<not> (gt_long t \<and> skipLong)) ts"

text \<open>Tests all of which were measured, or those before the one that failed.\<close>

definition tests_report ::
  "'n checker \<Rightarrow> gas_test list \<Rightarrow> 'n gas_state \<Rightarrow> cell list list \<Rightarrow> js_error + unit \<Rightarrow> 'n gas_state \<Rightarrow> bool" where
  "tests_report C ts s rows r s' \<longleftrightarrow> (case r of
     Inr _ \<Rightarrow> all_measured C ts s rows s'
   | Inl e \<Rightarrow> (\<exists>before t rest rows1 s1 rows2. ts = before @ t # rest \<and> all_measured C before s rows1 s1
       \<and> half_measured C t s1 rows2 e s' \<and> rows = rows1 @ rows2))"

text \<open>A file starts with a new checker and its hook; the files follow each other until one fails.\<close>

definition file_report ::
  "bool \<Rightarrow> 'n gas_file \<Rightarrow> 'n gas_state \<Rightarrow> cell list list \<Rightarrow> js_error + unit \<Rightarrow> 'n gas_state \<Rightarrow> bool" where
  "file_report skipLong F s rows r s' \<longleftrightarrow> (case before_file F (new_checker s) of
     (Inl e, s1) \<Rightarrow> rows = [] \<and> r = Inl e \<and> s' = s1
   | (Inr pm, s1) \<Rightarrow> tests_report (gf_checker F) (run_tests skipLong (gf_tests F pm)) s1 rows r s')"

fun files_report ::
  "bool \<Rightarrow> 'n gas_file list \<Rightarrow> 'n gas_state \<Rightarrow> cell list list \<Rightarrow> js_error + unit \<Rightarrow> 'n gas_state \<Rightarrow> bool" where
  "files_report skipLong [] s rows r s' \<longleftrightarrow> rows = [] \<and> r = Inr () \<and> s' = s"
| "files_report skipLong (F # Fs) s rows r s' \<longleftrightarrow> (\<exists>rows1 r1 s1. file_report skipLong F s rows1 r1 s1
     \<and> (case r1 of Inl e \<Rightarrow> rows = rows1 \<and> r = Inl e \<and> s' = s1
        | Inr _ \<Rightarrow> \<exists>rows2. files_report skipLong Fs s1 rows2 r s' \<and> rows = rows1 @ rows2))"

section \<open>One row\<close>

text \<open>A schedule in which every function has enough turns, and a file all of whose rows have one.\<close>

definition fair_schedule :: "nat \<Rightarrow> nat list \<Rightarrow> bool" where
  "fair_schedule n ks \<longleftrightarrow> (\<exists>rounds. ks = concat rounds \<and> (\<forall>r \<in> set rounds. {..<n} \<subseteq> set r) \<and> 5 * n \<le> length rounds)"

definition fair_file :: "bool \<Rightarrow> 'n gas_file \<Rightarrow> bool" where
  "fair_file skipLong F \<longleftrightarrow> (\<forall>pm. list_all2 (\<lambda>scheds t. gt_long t \<and> skipLong
     \<or> list_all2 (\<lambda>ks p. fair_schedule (gp_count p) ks) scheds (gt_rows t)) (gf_schedules F) (gf_tests F pm))"

lemma runTest_fair:
  assumes "\<not> locked s" and "fair_schedule (gp_count params) ks"
  obtains r s' where "runTest C ks params s = Some (r, s')" "\<not> locked s'"
  using assms runTest_ends unfolding fair_schedule_def by metis

lemma send_bundle_sent:
  assumes "send_bundle C info ops est s = (Inr res, s')"
  obtains gasEst h c1 c2 rcpt c3 where
    "g_estimateHandleOps (ck_N C) ops (gi_beneficiary info) (gas_chain s) = Inr gasEst"
    "g_handleOps (ck_N C) ops (gi_beneficiary info) (Some (gasEst * 3 div 2)) (gas_chain s) = (Inr h, c1)"
    "poll_receipt 100 (ck_N C) h c1 = (Inr (), c2)" "g_wait (ck_N C) h c2 = (Inr rcpt, c3)"
    "successes rcpt = length ops" "s' = s\<lparr>gas_chain := c3, lastGasUsed := Num (br_gasUsed rcpt)\<rparr>"
    "res = \<lparr>gr_title = gi_title info, gr_count = gi_count info, gr_gasUsed = br_gasUsed rcpt, gr_accountEst = est,
       gr_gasDiff = (if gi_diffLastGas info then Some (js_minus (br_gasUsed rcpt) (lastGasUsed s)) else None)\<rparr>"
proof -
  from assms obtain gasEst s2 h s3 u s4 rcpt s5 gasUsed v where
    r: "estimate_bundle (ck_N C) ops (gi_beneficiary info) s = (Inr gasEst, s2)"
      "on_gas_chain (g_handleOps (ck_N C) ops (gi_beneficiary info) (Some (gasEst * 3 div 2))) s2 = (Inr h, s3)"
      "on_gas_chain (poll_receipt 100 (ck_N C) h) s3 = (Inr u, s4)"
      "on_gas_chain (g_wait (ck_N C) h) s4 = (Inr rcpt, s5)"
    and g: "toNumber (br_gasUsed rcpt) = Inr gasUsed" "check_receipt (length ops) rcpt = Inr v"
    and t: "test_result info est gasUsed s5 = (Inr res, s')"
    unfolding send_bundle_def by (auto elim!: bindIO_InrE)
  have "gasUsed = br_gasUsed rcpt" using g(1) by (simp add: toNumber_def split: if_splits)
  with r t check_receipt_Inr[OF g(2)] show thesis
    by (intro that[of gasEst h "gas_chain s3" "gas_chain s4" rcpt "gas_chain s5"])
      (auto simp: estimate_bundle_def read_gas_def readIO_def on_gas_chain_def test_result_def split: sum.splits prod.splits)
qed

lemma runTest_sent:
  assumes "runTest C sched p s = Some (Inr res, s')" and "0 < gp_count p"
  obtains rcpt est where "bundle_sent C p s rcpt est s'" "col s' = col s"
    "res = \<lparr>gr_title = gp_title p, gr_count = gp_count p, gr_gasUsed = br_gasUsed rcpt, gr_accountEst = est,
       gr_gasDiff = (if gp_diffLastGas p then Some (js_minus (br_gasUsed rcpt) (lastGasUsed s)) else None)\<rparr>"
proof -
  let ?info = "with_defaults (Some (c_beneficiary (col s))) p"
  have info: "gi_title ?info = gp_title p" "gi_count ?info = gp_count p" "gi_diffLastGas ?info = gp_diffLastGas p"
    by (simp_all add: with_defaults_def)
  from assms(1) obtain s1 b ops where r: "createAccounts1 C (gp_count p) s = (Inr (), s1)" "b = make_bundle C ?info sched s1"
    "promise_all b = Some (Inr ops)" "send_bundle C ?info ops (b_accountEst b) (gs b) = (Inr res, s')"
    "lastGasUsed (gs b) = lastGasUsed s" "col (gs b) = col s"
    unfolding info(2)[symmetric] by (rule runTest_Inr)
  have l: "length ops = gp_count p" using resolved_operation(1) r(3) info(2) unfolding r(2) make_bundle_def by metis
  have known: "known_estimate (ck_N C) ?info (gasEstimatePerExec s1) (b_accountEst b)"
    using bundle_estimate r(3) assms(2) info(2) unfolding r(2) by metis
  from r(4) show thesis
  proof (rule send_bundle_sent)
    fix gasEst h c1 c2 rcpt c3
    assume c: "g_estimateHandleOps (ck_N C) ops (gi_beneficiary ?info) (gas_chain (gs b)) = Inr gasEst"
      "g_handleOps (ck_N C) ops (gi_beneficiary ?info) (Some (gasEst * 3 div 2)) (gas_chain (gs b)) = (Inr h, c1)"
      "poll_receipt 100 (ck_N C) h c1 = (Inr (), c2)" "g_wait (ck_N C) h c2 = (Inr rcpt, c3)" "successes rcpt = length ops"
      "s' = (gs b)\<lparr>gas_chain := c3, lastGasUsed := Num (br_gasUsed rcpt)\<rparr>"
      and res: "res = \<lparr>gr_title = gi_title ?info, gr_count = gi_count ?info, gr_gasUsed = br_gasUsed rcpt,
        gr_accountEst = b_accountEst b, gr_gasDiff = (if gi_diffLastGas ?info
          then Some (js_minus (br_gasUsed rcpt) (lastGasUsed (gs b))) else None)\<rparr>"
    have "bundle_sent C p s rcpt (b_accountEst b) s'"
      unfolding bundle_sent_def
      by (intro exI[of _ ?info] exI[of _ sched] exI[of _ s1] exI[of _ b] exI[of _ ops] exI[of _ gasEst] exI[of _ h]
          exI[of _ c1] exI[of _ c2] exI[of _ c3] conjI refl r c(1-4,6) l known) (simp add: c(5) l)
    with that res show thesis unfolding info r(5) using c(6) r(6) by simp
  qed
qed

lemma bundle_sent_last: "bundle_sent C p s rcpt est s' \<Longrightarrow> lastGasUsed s' = Num (br_gasUsed rcpt)"
  by (auto simp: bundle_sent_def)

lemma addTestRow_total:
  assumes "addTestRow C sched p s = Some (Inr u, s')" and "0 < gp_count p" "\<not> gp_diffLastGas p"
  obtains rcpt est s1 where "bundle_sent C p s rcpt est s1" "s' = with_row (total_row p rcpt) s1" "col s1 = col s"
proof -
  from assms(1) obtain res t where run: "runTest C sched p s = Some (Inr res, t)" and s': "s' = t\<lparr>col := addRow res (col t)\<rparr>"
    by (auto simp: addTestRow_def split: option.splits sum.splits prod.splits)
  obtain rcpt est where b: "bundle_sent C p s rcpt est t" "col t = col s"
    "res = \<lparr>gr_title = gp_title p, gr_count = gp_count p, gr_gasUsed = br_gasUsed rcpt, gr_accountEst = est,
       gr_gasDiff = (if gp_diffLastGas p then Some (js_minus (br_gasUsed rcpt) (lastGasUsed s)) else None)\<rparr>"
    using run assms(2) by (rule runTest_sent)
  have s'': "s' = with_row (total_row p rcpt) t"
    using assms(3) by (simp add: s' b(3) with_row_def addRow_def row_cells_def total_row_def)
  show thesis by (rule that[OF b(1) s'' b(2)])
qed

lemma addTestRow_difference:
  assumes "addTestRow C sched q s = Some (Inr u, s')" and "0 < gp_count q" "gp_diffLastGas q"
    and "lastGasUsed s = Num (br_gasUsed rcpt1)"
  obtains rcpt est s1 where "bundle_sent C q s rcpt est s1" "s' = with_row (difference_row q rcpt1 rcpt est) s1" "col s1 = col s"
proof -
  from assms(1) obtain res t where run: "runTest C sched q s = Some (Inr res, t)" and s': "s' = t\<lparr>col := addRow res (col t)\<rparr>"
    by (auto simp: addTestRow_def split: option.splits sum.splits prod.splits)
  obtain rcpt est where b: "bundle_sent C q s rcpt est t" "col t = col s"
    "res = \<lparr>gr_title = gp_title q, gr_count = gp_count q, gr_gasUsed = br_gasUsed rcpt, gr_accountEst = est,
       gr_gasDiff = (if gp_diffLastGas q then Some (js_minus (br_gasUsed rcpt) (lastGasUsed s)) else None)\<rparr>"
    using run assms(2) by (rule runTest_sent)
  have s'': "s' = with_row (difference_row q rcpt1 rcpt est) t"
    using assms(3,4) by (simp add: s' b(3) with_row_def addRow_def row_cells_def difference_row_def)
  show thesis by (rule that[OF b(1) s'' b(2)])
qed

lemma with_row_fields [simp]:
  "lastGasUsed (with_row r s) = lastGasUsed s" "locked (with_row r s) = locked s"
  "tabRows (col (with_row r s)) = tabRows (col s) @ [r]"
  by (simp_all add: with_row_def)

lemma send_bundle_col: "keeps col (send_bundle C info ops est)"
proof -
  have "keeps col (test_result info est g)" for g by (simp add: keeps_def test_result_def)
  moreover have "keeps col (estimate_bundle (ck_N C) ops b)" for b
    unfolding estimate_bundle_def by (intro keeps_intros)
  ultimately show ?thesis unfolding send_bundle_def by (intro keeps_intros) simp_all
qed

lemma runTest_col: "runTest C sched params s = Some (r, s') \<Longrightarrow> col s' = col s"
proof -
  assume run: "runTest C sched params s = Some (r, s')"
  let ?info = "with_defaults (Some (c_beneficiary (col s))) params"
  obtain q s1 where c: "createAccounts1 C (gi_count ?info) s = (q, s1)" by fastforce
  have k: "col s1 = col s" using keepsD[OF kept_createAccounts c] by (simp add: kept_def)
  let ?b = "make_bundle C ?info sched s1"
  have b: "col (gs ?b) = col s1" by (simp add: make_bundle_def run_tasks_keeps start_bundle_def)
  show ?thesis
    using run c k b
    by (auto simp: runTest_def Let_def split: sum.splits option.splits dest: keepsD[OF send_bundle_col])
qed

text \<open>Under a fair schedule a row is added, or its test fails.\<close>

lemma addTestRow_fair:
  assumes "\<not> locked s" and "fair_schedule (gp_count p) ks"
  obtains (failed) e s' where "runTest C ks p s = Some (Inl e, s')" "addTestRow C ks p s = Some (Inl e, s')"
      "\<not> locked s'" "col s' = col s"
    | (added) s' where "addTestRow C ks p s = Some (Inr (), s')" "\<not> locked s'"
proof -
  obtain r s' where run: "runTest C ks p s = Some (r, s')" "\<not> locked s'" using assms by (rule runTest_fair)
  show thesis
  proof (cases r)
    case (Inl e)
    with run runTest_col[OF run(1)] show thesis by (intro failed[of e s']) (simp_all add: addTestRow_def)
  next
    case (Inr res)
    with run show thesis by (intro added[of "s'\<lparr>col := addRow res (col s')\<rparr>"]) (simp_all add: addTestRow_def)
  qed
qed

section \<open>Tests\<close>

lemma test_files_counts: "t \<in> set (test_files pm1 pm2) \<Longrightarrow> p \<in> set (gt_rows t) \<Longrightarrow> 0 < gp_count p"
  by (auto simp: test_files_def simple_tests_def paymaster_tests_def huge_tests_def postop_tests_def row_def)

text \<open>How a test ended.\<close>

definition test_report :: "'n checker \<Rightarrow> gas_test \<Rightarrow> 'n gas_state \<Rightarrow> cell list list \<Rightarrow> js_error + unit \<Rightarrow> 'n gas_state \<Rightarrow> bool" where
  "test_report C t s rows r s' \<longleftrightarrow> (case r of Inr _ \<Rightarrow> measured C t s rows s' | Inl e \<Rightarrow> half_measured C t s rows e s')"

lemma run_gas_test_report:
  assumes "t \<in> set (test_files pm1 pm2)" and "\<not> (gt_long t \<and> skipLong)"
    and "list_all2 (\<lambda>ks p. fair_schedule (gp_count p) ks) scheds (gt_rows t)" and "\<not> locked s"
  obtains r s' rows where "run_gas_test C skipLong scheds t s = Some (r, s')" "\<not> locked s'"
    "tabRows (col s') = tabRows (col s) @ rows" "test_report C t s rows r s'"
proof -
  obtain p q where pq: "gt_rows t = [p, q]" "same_kind p q" "gp_count q = Suc (gp_count p)"
    "\<not> gp_diffLastGas p" "gp_diffLastGas q"
    using assms(1) by (rule test_files_pairs)
  have pos: "0 < gp_count p" "0 < gp_count q" using test_files_counts[OF assms(1)] pq(1) by simp_all
  from assms(3) pq(1) obtain k1 k2 where k: "scheds = [k1, k2]" "fair_schedule (gp_count p) k1" "fair_schedule (gp_count q) k2"
    by (auto simp: list_all2_Cons2)
  have run: "run_gas_test C skipLong scheds t s = (case addTestRow C k1 p s of None \<Rightarrow> None
      | Some (Inl e, s') \<Rightarrow> Some (Inl e, s') | Some (Inr _, s') \<Rightarrow> add_rows C [(k2, q)] s')"
    unfolding run_gas_test_def if_not_P[OF assms(2)] using k(1) pq(1) by simp
  from assms(4) k(2) show thesis
  proof (rule addTestRow_fair)
    fix e s'
    assume f: "runTest C k1 p s = Some (Inl e, s')" "addTestRow C k1 p s = Some (Inl e, s')" "\<not> locked s'" "col s' = col s"
    then have "test_report C t s [] (Inl e) s'" unfolding test_report_def half_measured_def using pq(1) by auto
    with f run show thesis by (intro that[of "Inl e" s' "[]"]) simp_all
  next
    fix s1
    assume a: "addTestRow C k1 p s = Some (Inr (), s1)" "\<not> locked s1"
    from a(1) pos(1) pq(4) obtain rcpt1 est1 t1 where b: "bundle_sent C p s rcpt1 est1 t1"
      "s1 = with_row (total_row p rcpt1) t1" "col t1 = col s" by (rule addTestRow_total)
    have last: "lastGasUsed s1 = Num (br_gasUsed rcpt1)" using bundle_sent_last[OF b(1)] b(2) by simp
    from a(2) k(3) show thesis
    proof (rule addTestRow_fair)
      fix e s'
      assume f: "runTest C k2 q s1 = Some (Inl e, s')" "addTestRow C k2 q s1 = Some (Inl e, s')" "\<not> locked s'" "col s' = col s1"
      have "test_report C t s [total_row p rcpt1] (Inl e) s'"
        unfolding test_report_def half_measured_def using pq(1) b(1) f(1)[unfolded b(2)] by auto
      with f a(1) b(2,3) run show thesis by (intro that[of "Inl e" s' "[total_row p rcpt1]"]) simp_all
    next
      fix s'
      assume c: "addTestRow C k2 q s1 = Some (Inr (), s')" "\<not> locked s'"
      from c(1) pos(2) pq(5) last obtain rcpt2 est2 t2 where d: "bundle_sent C q s1 rcpt2 est2 t2"
        "s' = with_row (difference_row q rcpt1 rcpt2 est2) t2" "col t2 = col s1" by (rule addTestRow_difference)
      have "measured C t s [total_row p rcpt1, difference_row q rcpt1 rcpt2 est2] s'"
        unfolding measured_def
        by (intro exI[of _ p] exI[of _ q] exI[of _ rcpt1] exI[of _ est1] exI[of _ t1] exI[of _ rcpt2] exI[of _ est2]
            exI[of _ t2] conjI) (use pq b d in simp_all)
      with a(1) b(2,3) c d(2,3) run show thesis
        by (intro that[of "Inr ()" s' "[total_row p rcpt1, difference_row q rcpt1 rcpt2 est2]"]) (simp_all add: test_report_def)
    qed
  qed
qed

lemma tests_report_failed: "half_measured C t s rows e s' \<Longrightarrow> tests_report C (t # ts) s rows (Inl e) s'"
  unfolding tests_report_def
  by (simp, intro exI[of _ "[]"] exI[of _ t] exI[of _ ts] exI[of _ "[]"] exI[of _ s] exI[of _ rows]) simp

lemma tests_report_Cons:
  assumes "measured C t s rows1 s1" and "tests_report C ts s1 rows2 r s'"
  shows "tests_report C (t # ts) s (rows1 @ rows2) r s'"
proof (cases r)
  case (Inl e)
  with assms(2) obtain before u rest ra sa rb where f: "ts = before @ u # rest" "all_measured C before s1 ra sa"
    "half_measured C u sa rb e s'" "rows2 = ra @ rb"
    by (auto simp: tests_report_def)
  from assms(1) f(2) have "all_measured C (t # before) s (rows1 @ ra) sa" unfolding all_measured.simps by blast
  moreover have "t # ts = (t # before) @ u # rest" "rows1 @ rows2 = (rows1 @ ra) @ rb" using f by simp_all
  ultimately have "\<exists>before u rest ra sa rb. t # ts = before @ u # rest \<and> all_measured C before s ra sa
    \<and> half_measured C u sa rb e s' \<and> rows1 @ rows2 = ra @ rb" using f(3) by blast
  with Inl show ?thesis unfolding tests_report_def by simp
next
  case (Inr u)
  with assms have "measured C t s rows1 s1" "all_measured C ts s1 rows2 s'" by (simp_all add: tests_report_def)
  then have "all_measured C (t # ts) s (rows1 @ rows2) s'" unfolding all_measured.simps by blast
  with Inr show ?thesis unfolding tests_report_def by simp
qed

lemma run_its_report:
  assumes "list_all2 (\<lambda>scheds t. gt_long t \<and> skipLong \<or> list_all2 (\<lambda>ks p. fair_schedule (gp_count p) ks) scheds (gt_rows t)) schedules ts"
    and "set ts \<subseteq> set (test_files pm1 pm2)" and "\<not> locked s"
  shows "\<exists>r s' rows. run_its C skipLong (zip schedules ts) s = Some (r, s') \<and> \<not> locked s'
    \<and> tabRows (col s') = tabRows (col s) @ rows \<and> tests_report C (run_tests skipLong ts) s rows r s'"
  using assms
proof (induction schedules ts arbitrary: s rule: list_all2_induct)
  case Nil
  then show ?case by (simp add: run_tests_def tests_report_def)
next
  case (Cons scheds schedules t ts)
  show ?case
  proof (cases "gt_long t \<and> skipLong")
    case True
    with Cons show ?thesis by (simp add: run_gas_test_def run_tests_def)
  next
    case False
    then have ts: "run_tests skipLong (t # ts) = t # run_tests skipLong ts" by (simp add: run_tests_def)
    have t: "t \<in> set (test_files pm1 pm2)" using Cons.prems(1) by simp
    from False Cons.hyps(1) have fair: "list_all2 (\<lambda>ks p. fair_schedule (gp_count p) ks) scheds (gt_rows t)" by blast
    obtain r1 s1 rows1 where 1: "run_gas_test C skipLong scheds t s = Some (r1, s1)" "\<not> locked s1"
      "tabRows (col s1) = tabRows (col s) @ rows1" "test_report C t s rows1 r1 s1"
      using t False fair Cons.prems(2) by (rule run_gas_test_report)
    show ?thesis
    proof (cases r1)
      case (Inl e)
      with 1 have "tests_report C (run_tests skipLong (t # ts)) s rows1 (Inl e) s1"
        unfolding ts by (intro tests_report_failed) (simp add: test_report_def)
      with 1 Inl show ?thesis by (intro exI[of _ "Inl e"] exI[of _ s1] exI[of _ rows1]) simp
    next
      case (Inr u)
      from Cons.IH[of s1] Cons.prems(1) 1(2) obtain r s' rows2 where 2: "run_its C skipLong (zip schedules ts) s1 = Some (r, s')"
        "\<not> locked s'" "tabRows (col s') = tabRows (col s1) @ rows2" "tests_report C (run_tests skipLong ts) s1 rows2 r s'"
        by auto
      have "tests_report C (run_tests skipLong (t # ts)) s (rows1 @ rows2) r s'"
        unfolding ts using 1(4) Inr 2(4) by (intro tests_report_Cons) (simp_all add: test_report_def)
      with 1 2 Inr show ?thesis by (intro exI[of _ r] exI[of _ s'] exI[of _ "rows1 @ rows2"]) simp
    qed
  qed
qed

section \<open>Files and the suite\<close>

lemma before_file_keeps: "before_file F s = (r, s1) \<Longrightarrow> col s1 = col s \<and> locked s1 = locked s"
proof -
  have "keeps (\<lambda>s. (col s, locked s)) (setup_paymaster C init)" for C :: "'a checker" and init
    unfolding keeps_def setup_paymaster_def
  proof
    fix s :: "'a gas_state"
    let ?m = "bindIO (on_gas_chain (with_create2 (deploy (ck_E C) (g_node (ck_N C)) (g_defaultSigner (ck_N C))
       (InitHex (init (c_entryPoint (col s)))) (SaltNum 0) GasDefault))) (\<lambda>paymaster.
     bindIO (on_gas_chain (g_addStake (ck_N C) paymaster 1 1)) (\<lambda>_.
     bindIO (on_gas_chain (g_depositTo (ck_N C) paymaster 10000000000000000000)) (\<lambda>_. returnIO paymaster)))"
    have "keeps (\<lambda>s. (col s, locked s)) ?m" by (intro keeps_intros) simp_all
    then show "(col (snd (?m s)), locked (snd (?m s))) = (col s, locked s)" by (simp add: keeps_def)
  qed
  then show "before_file F s = (r, s1) \<Longrightarrow> col s1 = col s \<and> locked s1 = locked s"
    by (auto simp: before_file_def returnIO_def split: option.splits dest: keepsD)
qed

text \<open>A file whose tests are among those of the repository, with a fair schedule for every row.\<close>

definition known_file :: "'n gas_file \<Rightarrow> bool" where
  "known_file F \<longleftrightarrow> (\<forall>pm. \<exists>pm1 pm2. set (gf_tests F pm) \<subseteq> set (test_files pm1 pm2))"

lemma known_files:
  "known_file (simple_file C scheds)" "known_file (paymaster_file C i scheds)"
  "known_file (huge_file C scheds)" "known_file (postop_file C i scheds)"
  by (auto simp: known_file_def simple_file_def paymaster_file_def huge_file_def postop_file_def test_files_def)

lemma run_file_report:
  assumes "known_file F" and "fair_file skipLong F"
  shows "\<exists>r s' rows. run_file skipLong F s = Some (r, s') \<and> tabRows (col s') = tabRows (col s) @ rows
    \<and> file_report skipLong F s rows r s'"
proof -
  obtain b s1 where b: "before_file F (new_checker s) = (b, s1)" by fastforce
  then have c: "col s1 = col s" "\<not> locked s1" using before_file_keeps[OF b] by (simp_all add: new_checker_def)
  show ?thesis
  proof (cases b)
    case (Inl e)
    with b c(1) show ?thesis
      by (intro exI[of _ "Inl e"] exI[of _ s1] exI[of _ "[]"]) (simp add: run_file_def file_report_def)
  next
    case (Inr pm)
    obtain pm1 pm2 where k: "set (gf_tests F pm) \<subseteq> set (test_files pm1 pm2)" using assms(1) unfolding known_file_def by blast
    from assms(2) have fair: "list_all2 (\<lambda>scheds t. gt_long t \<and> skipLong
        \<or> list_all2 (\<lambda>ks p. fair_schedule (gp_count p) ks) scheds (gt_rows t)) (gf_schedules F) (gf_tests F pm)"
      unfolding fair_file_def by blast
    obtain r s' rows where "run_its (gf_checker F) skipLong (zip (gf_schedules F) (gf_tests F pm)) s1 = Some (r, s')"
      "tabRows (col s') = tabRows (col s1) @ rows"
      "tests_report (gf_checker F) (run_tests skipLong (gf_tests F pm)) s1 rows r s'"
      using run_its_report[OF fair k c(2)] by blast
    then show ?thesis using b Inr c(1) list_all2_lengthD[OF fair]
      by (intro exI[of _ r] exI[of _ s'] exI[of _ rows]) (simp add: run_file_def file_report_def)
  qed
qed

lemma run_files_report:
  assumes "\<forall>F \<in> set Fs. known_file F \<and> fair_file skipLong F"
  shows "\<exists>r s' rows. run_files skipLong Fs s = Some (r, s') \<and> tabRows (col s') = tabRows (col s) @ rows
    \<and> files_report skipLong Fs s rows r s'"
  using assms
proof (induction Fs arbitrary: s)
  case Nil
  then show ?case by simp
next
  case (Cons F Fs)
  obtain r1 s1 rows1 where 1: "run_file skipLong F s = Some (r1, s1)" "tabRows (col s1) = tabRows (col s) @ rows1"
    "file_report skipLong F s rows1 r1 s1"
    using run_file_report[of F skipLong s] Cons.prems by auto
  show ?case
  proof (cases r1)
    case (Inl e)
    with 1(3) have "files_report skipLong (F # Fs) s rows1 (Inl e) s1"
      unfolding files_report.simps by (intro exI[of _ rows1] exI[of _ "Inl e"] exI[of _ s1]) simp
    with 1 Inl show ?thesis by (intro exI[of _ "Inl e"] exI[of _ s1] exI[of _ rows1]) simp
  next
    case (Inr u)
    obtain r s' rows2 where 2: "run_files skipLong Fs s1 = Some (r, s')" "tabRows (col s') = tabRows (col s1) @ rows2"
      "files_report skipLong Fs s1 rows2 r s'"
      using Cons.IH[of s1] Cons.prems by auto
    have "files_report skipLong (F # Fs) s (rows1 @ rows2) r s'"
      unfolding files_report.simps using 1(3) 2(3) Inr by (intro exI[of _ rows1] exI[of _ "Inr u"] exI[of _ s1]) auto
    with 1 2 Inr show ?thesis by (intro exI[of _ r] exI[of _ s'] exI[of _ "rows1 @ rows2"]) simp
  qed
qed

text \<open>The result and the rows of the suite: none when the warmup fails, otherwise those of its files.\<close>

definition suite_report ::
  "'n checker \<Rightarrow> nat list \<Rightarrow> 'n gas_file list \<Rightarrow> bool \<Rightarrow> 'n gas_state \<Rightarrow> cell list list \<Rightarrow> js_error + unit \<Rightarrow> 'n gas_state \<Rightarrow> bool" where
  "suite_report C sched files skipLong s rows r s' \<longleftrightarrow> (case warmup_file C sched s of
     None \<Rightarrow> False
   | Some (Inl e, s1) \<Rightarrow> rows = [] \<and> r = Inl e \<and> s' = s1
   | Some (Inr _, s1) \<Rightarrow> files_report skipLong files s1 rows r s')"

lemma warmup_fair:
  assumes "fair_schedule 1 sched"
  obtains r s' where "warmup_file C sched s = Some (r, s')" "col s' = col s"
proof -
  have "\<not> locked (new_checker s)" "fair_schedule (gp_count warmup) sched"
    using assms by (simp_all add: new_checker_def warmup_def row_def)
  then obtain r s' where run: "runTest C sched warmup (new_checker s) = Some (r, s')" by (rule runTest_fair)
  from runTest_col[OF run] have "col s' = col s" by (simp add: new_checker_def)
  with run that show thesis by (cases r) (simp_all add: warmup_file_def)
qed

text \<open>
  C17. What \<open>yarn gas-calc\<close> prints. Under schedules that give every function of a bundle enough turns the suite ends,
  whatever the node, the chain and the wallets answer, with a report on the rows that the collector had and new ones.
  After the warmup, whose result is not shown, each test of the four files that runs, in their order, adds two rows:
  the gas used of the receipt of its first bundle, and for the bundle that follows it the difference of the gas used of
  the two receipts, and that difference less an estimate for the call of the test. Both bundles consist of the operations
  that the test makes for its accounts, all of which succeeded. A failure, in a test or in the setup of a paymaster,
  ends the suite but loses none of the rows before it and adds at most the first row of the test that failed.
\<close>

theorem suite_reports_measurements:
  assumes "files = [simple_file C1 k1, paymaster_file C2 i2 k2, huge_file C3 k3, postop_file C4 i4 k4]"
    and "fair_schedule 1 sched" and "\<forall>F \<in> set files. fair_file skipLong F"
  shows "\<exists>r s' rows. gas_calc C sched files skipLong table (Inr c) s
      = Some (r, Some (doneTable table (gasEstimatePerExec s') (col s')), s')
    \<and> tabRows (col s') = tabRows c @ rows \<and> suite_report C sched files skipLong (s\<lparr>col := c\<rparr>) rows r s'"
proof -
  have known: "\<forall>F \<in> set files. known_file F \<and> fair_file skipLong F" using assms(1,3) known_files by auto
  obtain w s1 where w: "warmup_file C sched (s\<lparr>col := c\<rparr>) = Some (w, s1)" and col: "col s1 = c"
    using assms(2) by (rule warmup_fair[of sched C "s\<lparr>col := c\<rparr>"]) simp
  show ?thesis
  proof (cases w)
    case (Inl e)
    with w col show ?thesis
      by (intro exI[of _ "Inl e"] exI[of _ s1] exI[of _ "[]"]) (simp add: gas_calc_def Let_def suite_report_def)
  next
    case (Inr u)
    obtain r s' rows where "run_files skipLong files s1 = Some (r, s')" "tabRows (col s') = tabRows (col s1) @ rows"
      "files_report skipLong files s1 rows r s'"
      using run_files_report[OF known] by blast
    with w col Inr show ?thesis
      by (intro exI[of _ r] exI[of _ s'] exI[of _ rows]) (simp add: gas_calc_def Let_def suite_report_def)
  qed
qed
text \<open>
  The suite on the demo node: the warmup, the short simple test, and then a paymaster that the node refuses to stake.
\<close>

lemma demo_warmup:
  "warmup_file demo_checker [0, 0, 0] demo_gas_state = Some (Inr (), demo_after 1 [])"
proof -
  let ?s = "demo_gas_state\<lparr>accounts := [(demo_addr 0, ''0x51'')], createdAccounts := [demo_addr 0]\<rparr>"
  let ?info = "with_defaults (Some ''0xbe'') warmup"
  have info: "plain_info ?info" "gi_dest ?info = ''self''" "gi_count ?info = 1" "gi_title ?info = ''simple''"
    "\<not> gi_diffLastGas ?info"
    by (simp_all add: with_defaults_def warmup_def row_def plain_info_def)
  have new: "new_checker demo_gas_state = demo_gas_state" by (simp add: new_checker_def demo_gas_state_def)
  note b = demo_make_bundle_1[OF info(1-4) refl]
  note send = demo_send[of "[demo_packed (demo_addr 0)]" ?info "?s\<lparr>gasEstimatePerExec := [(''0xb61d27f6'', ''simple'', 21000)]\<rparr>"]
  show ?thesis
    using b send demo_create_1 info demo_col(2)
    by (simp add: warmup_file_def new runTest_def Let_def promise_all_def)
      (simp add: demo_after_def demo_gas_state_def)
qed

text \<open>The first row once the estimate is known.\<close>

lemma demo_make_bundle_known:
  assumes "plain_info info" "gi_dest info = ''self''" "gi_count info = 1"
    and "accounts s = [(demo_addr 0, ''0x51'')]" "gasEstimatePerExec s = [(''0xb61d27f6'', ''simple'', 21000)]" "\<not> locked s"
  shows "make_bundle demo_checker info [0, 0, 0] s =
    \<lparr>gs = s, b_accountEst = 21000, b_rejected = None, tasks = [Made (demo_packed (demo_addr 0))]\<rparr>"
proof -
  have start: "start_bundle info s = \<lparr>gs = s, b_accountEst = 0, b_rejected = None, tasks = [NotStarted (Some (demo_addr 0))]\<rparr>"
    using assms by (simp add: start_bundle_def entry_keys_def)
  show ?thesis
    using assms(2,4,5,6) demo_sign[OF assms(1)] unlocked_id[OF assms(6)] unfolding make_bundle_def start
    by (simp add: demo_step_defs demo_checker_def demo_gas_node_def obj_get_def)
qed

lemma demo_known_row:
  "addTestRow demo_checker [0, 0, 0] (row ''simple'' 1 False) (new_checker (demo_after 1 []))
    = Some (Inr (), demo_after 1 [demo_row1])"
proof -
  let ?w = "new_checker (demo_after 1 [])"
  let ?s = "demo_after 1 []\<lparr>gas_chain := 0\<rparr>"
  let ?info = "with_defaults (Some ''0xbe'') (row ''simple'' 1 False)"
  have info: "plain_info ?info" "gi_dest ?info = ''self''" "gi_count ?info = 1" "gi_title ?info = ''simple''"
    "\<not> gi_diffLastGas ?info"
    by (simp_all add: with_defaults_def row_def plain_info_def)
  have w: "c_entryPoint (col ?w) = hx (replicate 20 9)" "c_beneficiary (col ?w) = ''0xbe''"
    using demo_col by (simp_all add: new_checker_def demo_after_def)
  have create: "createAccounts1 demo_checker 1 ?w = (Inr (), ?s)"
    using w
    by (simp add: createAccounts1_def bindIO_run demo_deploy_factory demo_create_one on_gas_chain_def)
      (simp add: demo_checker_def demo_gas_node_def new_checker_def demo_after_def demo_gas_state_def)
  have b: "make_bundle demo_checker ?info [0, 0, 0] ?s =
    \<lparr>gs = ?s, b_accountEst = 21000, b_rejected = None, tasks = [Made (demo_packed (demo_addr 0))]\<rparr>"
    by (rule demo_make_bundle_known[OF info(1-3)]) (simp_all add: demo_after_def demo_gas_state_def)
  note send = demo_send[of "[demo_packed (demo_addr 0)]" ?info ?s]
  show ?thesis
    using b send create info w(2)
    by (simp add: addTestRow_def runTest_def Let_def promise_all_def)
      (simp add: demo_after_def demo_gas_state_def addRow_def row_cells_def demo_row1_def)
qed

definition poor_checker :: "nat checker" where
  "poor_checker = demo_checker\<lparr>ck_N := demo_gas_node\<lparr>g_addStake := (\<lambda>a d v n. (Inl (Rejected ''insufficient funds''), n))\<rparr>\<rparr>"

lemma poor_setup: "\<exists>s'. setup_paymaster poor_checker (\<lambda>_. hx [0x60]) s = (Inl (Rejected ''insufficient funds''), s')"
proof -
  have "\<exists>a. getDeployedAddress demo_ethers (hx [0x60]) (SaltNum 0) = Inr a"
    using getDeployedAddress_ok[OF demo_ethers_ok, of "SaltNum 0" "be_bytes 32 0" "[0x60]"] by (simp del: be_bytes.simps)
  then show ?thesis
    by (auto simp: setup_paymaster_def bindIO_run on_gas_chain_def with_create2_def deploy_def deployFactory_def
        isFactoryDeployed_def init_code_hex_def poor_checker_def demo_checker_def demo_gas_node_def)
qed

text \<open>A schedule may go on after all operations are made.\<close>

lemma all_made_step: "all_made (tasks st) = Some ops \<Longrightarrow> step_task E lower H signTyped N info k st = st"
proof -
  have "\<exists>p. ts ! k = Made p" if "all_made ts = Some ops" "k < length ts" for ts ops
    using that by (induction ts arbitrary: k ops rule: all_made.induct) (auto split: option.splits simp: nth_Cons split: nat.splits)
  then show "all_made (tasks st) = Some ops \<Longrightarrow> step_task E lower H signTyped N info k st = st"
    by (cases "k < length (tasks st)") (fastforce simp: step_task_def)+
qed

lemma all_made_run: "all_made (tasks st) = Some ops \<Longrightarrow> run_tasks E lower H signTyped N info ks st = st"
  by (induction ks) (simp_all add: all_made_step)

lemma runTest_more:
  assumes "runTest C ks p s = Some (Inr res, s')"
  shows "runTest C (ks @ ls) p s = Some (Inr res, s')"
proof -
  let ?info = "with_defaults (Some (c_beneficiary (col s))) p"
  obtain s1 b ops where r: "createAccounts1 C (gi_count ?info) s = (Inr (), s1)" "b = make_bundle C ?info ks s1"
    "promise_all b = Some (Inr ops)" "send_bundle C ?info ops (b_accountEst b) (gs b) = (Inr res, s')"
    using assms by (rule runTest_Inr)
  from r(3) have "all_made (tasks b) = Some ops" by (auto simp: promise_all_def split: option.splits)
  then have "make_bundle C ?info (ks @ ls) s1 = b" by (simp add: make_bundle_def run_tasks_append all_made_run flip: r(2)[unfolded make_bundle_def])
  with r show ?thesis by (simp add: runTest_def Let_def)
qed

lemma addTestRow_more:
  "addTestRow C ks p s = Some (Inr (), s') \<Longrightarrow> addTestRow C (ks @ ls) p s = Some (Inr (), s')"
  by (auto simp: addTestRow_def runTest_more split: option.splits sum.splits prod.splits)

lemma warmup_more: "warmup_file C ks s = Some (Inr (), s') \<Longrightarrow> warmup_file C (ks @ ls) s = Some (Inr (), s')"
  by (auto simp: warmup_file_def runTest_more split: option.splits sum.splits prod.splits)

text \<open>Rounds in which every function has its turn.\<close>

definition demo_rounds :: "nat \<Rightarrow> nat list" where
  "demo_rounds n = concat (replicate (5 * n) [0..<n])"

lemma demo_rounds_fair: "fair_schedule n (demo_rounds n)"
  unfolding fair_schedule_def demo_rounds_def by (intro exI[of _ "replicate (5 * n) [0..<n]"]) auto

definition demo_schedule_1 :: "nat list" where
  "demo_schedule_1 = [0, 0, 0] @ [0, 0]"

definition demo_schedule_2 :: "nat list" where
  "demo_schedule_2 = [0, 1, 0, 1, 1] @ 0 # concat (replicate 7 [0, 1])"

lemma demo_schedules_fair: "fair_schedule 1 demo_schedule_1" "fair_schedule 2 demo_schedule_2"
proof -
  have "demo_schedule_1 = concat (replicate 5 [0])" by (simp add: demo_schedule_1_def numeral_eq_Suc)
  then show "fair_schedule 1 demo_schedule_1"
    unfolding fair_schedule_def by (intro exI[of _ "replicate 5 [0]"]) auto
  have "demo_schedule_2 = concat ([[0, 1], [0, 1], [1, 0]] @ replicate 7 [0, 1])" by (simp add: demo_schedule_2_def)
  then show "fair_schedule 2 demo_schedule_2"
    unfolding fair_schedule_def by (intro exI[of _ "[[0, 1], [0, 1], [1, 0]] @ replicate 7 [0, 1]"]) auto
qed

definition demo_file_schedules :: "nat list list list" where
  "demo_file_schedules = [[demo_rounds 1, demo_rounds 2], []]"

definition demo_suite :: "nat gas_file list" where
  "demo_suite = [simple_file demo_checker [[demo_schedule_1, demo_schedule_2], []],
     paymaster_file poor_checker (\<lambda>_. hx [0x60]) demo_file_schedules, huge_file demo_checker demo_file_schedules,
     postop_file demo_checker (\<lambda>_. []) demo_file_schedules]"

lemma demo_suite_fair: "\<forall>F \<in> set demo_suite. fair_file True F"
  using demo_schedules_fair demo_rounds_fair[of 1] demo_rounds_fair[of 2]
  by (simp add: demo_suite_def fair_file_def simple_file_def paymaster_file_def huge_file_def postop_file_def
      simple_tests_def paymaster_tests_def huge_tests_def postop_tests_def row_def demo_file_schedules_def)

lemma demo_simple_file:
  "run_file True (simple_file demo_checker [[demo_schedule_1, demo_schedule_2], []]) (demo_after 1 [])
    = Some (Inr (), demo_after 2 [demo_row1, demo_row2])"
  using addTestRow_more[OF demo_known_row, of "[0, 0]"] addTestRow_more[OF demo_row_2, of "0 # concat (replicate 7 [0, 1])"]
  unfolding demo_schedule_1_def demo_schedule_2_def demo_params2_def
  by (simp add: run_file_def before_file_def simple_file_def simple_tests_def run_gas_test_def returnIO_def)

abbreviation (input) demo_collector :: collector where
  "demo_collector \<equiv> init_collector ''0xbe'' (hx (replicate 20 9))"

lemma demo_suite_run:
  "\<exists>out s'. gas_calc demo_checker demo_schedule_1 demo_suite True table (Inr demo_collector) demo_gas_state
    = Some (Inl (Rejected ''insufficient funds''), out, s') \<and> col s' = col (demo_after 2 [demo_row1, demo_row2])"
proof -
  let ?s = "demo_after 2 [demo_row1, demo_row2]" and ?F = "paymaster_file poor_checker (\<lambda>_. hx [0x60]) demo_file_schedules"
  obtain s' where p: "setup_paymaster poor_checker (\<lambda>_. hx [0x60]) (new_checker ?s) = (Inl (Rejected ''insufficient funds''), s')"
    using poor_setup by blast
  then have b: "before_file ?F (new_checker ?s) = (Inl (Rejected ''insufficient funds''), s')"
    by (simp add: before_file_def paymaster_file_def)
  have col: "col s' = col ?s" using before_file_keeps[OF b] by (simp add: new_checker_def)
  have f: "run_file True ?F ?s = Some (Inl (Rejected ''insufficient funds''), s')" using b by (simp add: run_file_def)
  have "demo_gas_state\<lparr>col := demo_collector\<rparr> = demo_gas_state" by (simp add: demo_gas_state_def)
  then have w: "warmup_file demo_checker demo_schedule_1 (demo_gas_state\<lparr>col := demo_collector\<rparr>) = Some (Inr (), demo_after 1 [])"
    using warmup_more[OF demo_warmup, of "[0, 0]"] by (simp only: demo_schedule_1_def)
  show ?thesis unfolding gas_calc_def demo_suite_def run_files.simps by (simp add: w demo_simple_file f col del: One_nat_def)
qed

theorem suite_reports_measurements_witness:
  "\<exists>s'. gas_calc demo_checker demo_schedule_1 demo_suite True (\<lambda>_. []) (Inr demo_collector) demo_gas_state
      = Some (Inl (Rejected ''insufficient funds''),
          Some (doneTable (\<lambda>_. []) (gasEstimatePerExec s') (col s')), s')
    \<and> tabRows (col s') = tabRows demo_collector @ [demo_row1, demo_row2]
    \<and> suite_report demo_checker demo_schedule_1 demo_suite True (demo_gas_state\<lparr>col := demo_collector\<rparr>)
        [demo_row1, demo_row2] (Inl (Rejected ''insufficient funds'')) s'"
proof -
  from suite_reports_measurements[OF demo_suite_def demo_schedules_fair(1) demo_suite_fair, of demo_checker "\<lambda>_. []"
      demo_collector demo_gas_state]
  obtain r s' rows where c: "gas_calc demo_checker demo_schedule_1 demo_suite True (\<lambda>_. []) (Inr demo_collector) demo_gas_state
      = Some (r, Some (doneTable (\<lambda>_. []) (gasEstimatePerExec s') (col s')), s')"
    "tabRows (col s') = tabRows demo_collector @ rows"
    "suite_report demo_checker demo_schedule_1 demo_suite True (demo_gas_state\<lparr>col := demo_collector\<rparr>) rows r s'"
    by blast
  from c(1) demo_suite_run[of "\<lambda>_. []"] have r: "r = Inl (Rejected ''insufficient funds'')"
    and "col s' = col (demo_after 2 [demo_row1, demo_row2])" by auto
  then have "tabRows (col s') = tabRows demo_collector @ [demo_row1, demo_row2]"
    by (simp add: demo_after_def demo_gas_state_def)
  with c(2) have "rows = [demo_row1, demo_row2]" by simp
  with c r show ?thesis by blast
qed
end
