(* ===== verification/Sample_Script.thy ===== *)
theory Sample_Script
  imports Run_Scripts
begin

text \<open>
  The template \<open>scripts/sample-script.js\<close> and the class \<open>AAProvider\<close>: code that the repository carries along.
  Hardhat is a parameter; what a process leaves is its output and its exit code.
\<close>

section \<open>The sample script\<close>

text \<open>Hardhat's \<open>getContractFactory\<close>, the factory's \<open>deploy\<close>, which gives the address, and the contract's \<open>deployed\<close>.\<close>

record 'n hre_ethers =
  he_getContractFactory :: "string \<Rightarrow> 'n \<Rightarrow> js_error + string"
  he_deploy :: "string \<Rightarrow> ('n, string) io"
  he_deployed :: "string \<Rightarrow> ('n, unit) io"

definition sample_main :: "'n hre_ethers \<Rightarrow> ('n, string list) io" where
  "sample_main R =
     bindIO (readIO (he_getContractFactory R ''Singleton'')) (\<lambda>Singleton.
     bindIO (he_deploy R Singleton) (\<lambda>address.
     bindIO (he_deployed R address) (\<lambda>_.
     returnIO [''Singleton deployed to: '' @ address])))"

text \<open>The lines on the console, the error if there is one, and the exit code.\<close>

definition sample_script :: "'n hre_ethers \<Rightarrow> 'n \<Rightarrow> (string list \<times> js_error option \<times> nat) \<times> 'n" where
  "sample_script R n =
     (case sample_main R n of
        (Inr out, n') \<Rightarrow> ((out, None, 0), n')
      | (Inl error, n') \<Rightarrow> (([], Some error, 1), n'))"

lemma sample_script_exit:
  "sample_script R n = ((out, err, code), n') \<Longrightarrow> (code = 0 \<longleftrightarrow> err = None) \<and> (code = 0 \<longleftrightarrow> out \<noteq> [])"
  by (auto simp: sample_script_def sample_main_def bindIO_run readIO_def returnIO_def split: prod.splits sum.splits)

text \<open>No contract of the repository has that name, and Hardhat rejects a name without artifact: nothing is sent.\<close>

lemma sample_script_fails:
  assumes "he_getContractFactory R ''Singleton'' n = Inl e"
  shows "sample_script R n = (([], Some e, 1), n)"
  using assms by (simp add: sample_script_def sample_main_def bindIO_run readIO_def)

section \<open>The provider\<close>

text \<open>A \<open>BaseProvider\<close> of the network that the given provider promises, and the EntryPoint's contract object.\<close>

record 'p aa_provider =
  ap_network :: "js_error + int"
  ap_entryPoint :: "string \<times> 'p"

definition new_AAProvider :: "('p \<Rightarrow> js_error + int) \<Rightarrow> string \<Rightarrow> 'p \<Rightarrow> 'p aa_provider" where
  "new_AAProvider networkOf entryPointAddress provider =
     \<lparr>ap_network = networkOf provider, ap_entryPoint = (entryPointAddress, provider)\<rparr>"

end
