(* ===== verification/Spec2Isabelle.thy ===== *)
theory Spec2Isabelle
  imports Account_Properties Op_Queue_Properties Create2_Properties Interface_Id Eip7702_Support AA_Signer_Properties
    User_Event Gas_Demo Entry_Point_Account Run_Scripts Emergency_Exit Deployment Signer_Response Client_Types Client_Search Revert_Reason Independent_Bundles Gas_Suite Sample_Script
begin

text \<open>
  Verification of the bounded spending account and of the ERC-4337 tooling in its tree.

  \<^bold>\<open>The program.\<close> A smart-contract wallet whose spending is limited by day and by month, with a paymaster that
  pays its gas in exchange for USDC and a factory (\<open>src/src/*.sol\<close>); the parts of the ERC-4337 library that
  they call; and the library's TypeScript tooling (\<open>src/lib/account-abstraction\<close>): a signer that turns
  transactions into user operations, a bundling queue, a deterministic deployer, gas measurement and scripts.
  An operation is filled, signed and packed by the client, sent directly or through the queue to the
  EntryPoint, which asks the account to validate it, executes it, and lets the paymaster charge for it. The
  client and the contracts meet in the packed operation and its hash, in the init code and in the call data.

  \<^bold>\<open>Foundations.\<close>
  \<^item> Prelude: the result monad of all fallible code, byte strings, the locales \<open>codec\<close> and \<open>exclusive\<close> (a flag
    that at most one activity holds; interpreted on the queue and on the signing lock).
  \<^item> Evm_Base: reverts, checked 256-bit arithmetic, the context of a call, ABI decoding.
  \<^item> Js_Base: thrown errors, asynchronous functions as state transformers that keep their effects when they
    throw, numbers with \<open>undefined\<close> and \<open>NaN\<close>, objects in insertion order (locale \<open>keyed_store\<close>).
  \<^item> Ethers_Lib: hexadecimal data; the functions of the library as the record \<open>ethers\<close>, whose documented
    behaviour is \<open>ethers_ok\<close>, with a concrete instance.

  \<^bold>\<open>Contracts.\<close>
  \<^item> Limit_Policy (\<open>LimitPolicy.sol\<close>): windows and limits on 256-bit words, against a window on natural
    numbers; the locale \<open>window_limiter\<close> bounds what any such limiter lets through in an interval of time.
  \<^item> UserOperation_Lib (\<open>UserOperationLib.sol\<close>): reading, encoding and hashing of packed operations.
  \<^item> Spending_Account (\<open>SpendingAccount.sol\<close>): one function per function of the contract over the record
    \<open>account\<close> of its storage and immutables; other contracts, the signature check and the balance are the
    record \<open>evm\<close>, and a callee may re-enter. \<open>dispatch\<close> is a call of an external function.
  \<^item> Account_Machine: the abstract accounting machine, authorised transitions of the storage, and the
    interpretations of \<open>window_limiter\<close> on it. Account_Safety: the contract refines it, in that
    every function makes the transitions that \<open>requested\<close> lists in the name of its caller and then only those of
    contracts that re-enter; runs of transactions.
    Account_Properties: bounds on spending, the timelock, the order of effects, agreement of preflight and
    execution, and where they disagree. Emergency_Exit: once the owner asks to leave, nobody else can prevent it.
  \<^item> Spending_Paymaster, Paymaster_Properties (\<open>SpendingPaymaster.sol\<close>, \<open>BasePaymaster.sol\<close>,
    \<open>SpendingAccountFactory.sol\<close>): the charge against balance, cap and the account's own preflight; the
    factory's prediction.
  \<^item> Eip7702_Support (\<open>Eip7702Support.sol\<close>): the init code that is hashed, on chain and on the client.
  \<^item> Stake_Manager (\<open>StakeManager.sol\<close>, \<open>NonceManager.sol\<close>): deposits, stakes and nonces, and the relation \<open>ep_step\<close>
    of what any contract can do to them. Entry_Point (\<open>EntryPoint.sol\<close>, \<open>SenderCreator.sol\<close>, \<open>Helpers.sol\<close>): the
    handling of bundles, aggregated or not, from validation to compensation. Entry_Point_Properties: a calculus
    of reserves, in which each function states what is set aside before and after it; solvency and the single
    use of nonces over all histories. Entry_Point_Account: account and paymaster under the EntryPoint.
  \<^item> Sample_Accounts (\<open>BaseAccount.sol\<close>, \<open>SimpleAccount.sol\<close>, \<open>SimpleAccountFactory.sol\<close>, \<open>Simple7702Account.sol\<close>,
    \<open>TokenCallbackHandler.sol\<close>): the accounts that the tools deploy. Signed_Operations: the locale
    \<open>signing_account\<close> of accounts whose validation checks a signature, interpreted on the three accounts; what the
    EntryPoint handles for them was signed.
  \<^item> Entry_Point_Simulations (\<open>EntryPointSimulations.sol\<close>): the contract that bundlers run in place of the
    EntryPoint, and when its verdict is that of the EntryPoint.
  \<^item> Deployment (\<open>Deploy.s.sol\<close>, the rest of \<open>BasePaymaster.sol\<close> and of \<open>EntryPoint.sol\<close>): the script that deploys and
    connects the contracts.

  \<^bold>\<open>Tooling.\<close>
  \<^item> User_Op_Client, User_Op_Fill, User_Op_Properties (\<open>test/UserOp.ts\<close> and what it takes from
    \<open>test/testutils.ts\<close>): packing, hashing, defaults, completion, signing; agreement with the contracts. Client_Hash: the hash from the
    client's own constants, against the EntryPoint's. Client_Types: filling keeps the types.
  \<^item> Op_Queue, Op_Queue_Properties (\<open>queueUserOpSender\<close>, \<open>sendQueuedUserOps\<close> of \<open>AASigner.ts\<close>): a step
    relation whose steps are the code between two awaits, with timers and answers in any order; conservation,
    exclusion and loss of operations over all reachable states. Bundler_Chain: the queues in front of the EntryPoint,
    whose blocks include a call of \<open>handleOps\<close> at any later time; what is executed once, and what never.
    Independent_Bundles: a bundle whose operations would go through one by one goes through as a whole.
  \<^item> AA_Signer, AA_Signer_Properties (the other senders and the class \<open>AASigner\<close>): its state and methods, the
    operation it makes of a transaction.
  \<^item> User_Event (\<open>userEventResponse\<close>): the listener as a machine of interleaved invocations and a promise.
    Signer_Response (the rest of it, and \<open>sendTransaction\<close>): what a response waits for, and what is never sent.
  \<^item> Client_Search, Revert_Reason (\<open>test/testutils.ts\<close>): the searches for the lowest gas, validation data, the
    decoding of revert reasons.
  \<^item> Create2, Create2_Properties (\<open>Create2Factory.ts\<close>): addresses, gas limits, idempotence.
  \<^item> Interface_Id (\<open>Utils.ts\<close>): the ERC-165 identifier, with the signed 32-bit \<open>^\<close> of the language.
  \<^item> Gas_Collector (\<open>GasCheckCollector\<close>): its initialisation under interleaving, its table.
  \<^item> Gas_Bundle, Gas_Bundle_Properties, Gas_Bundle_Run (the concurrent functions of \<open>runTest\<close>): one task per
    account with polling lock and shared cache of estimates; exclusion, what each task makes, and the end of
    every fair run. Gas_Checker, Gas_Checker_Properties (the rest of \<open>GasChecker.ts\<close> and the measurement files
    \<open>gascalc/*.gas.ts\<close>): accounts, sending, checking, rows. Gas_Estimate: the estimate that the tasks of a bundle share.
    Gas_Demo: a node on which these are evaluated. Gas_Suite: the files as \<open>mocha --bail\<close> runs them, and the report at
    the end, whose rows are those of the receipts of the bundles that were sent.
  \<^item> Run_Scripts (\<open>deploy/*.ts\<close>, \<open>hardhat.config.ts\<close>, \<open>runop.ts\<close>), Sample_Script (\<open>sample-script.js\<close>, \<open>AAProvider\<close>).

  \<^bold>\<open>Parameters and hypotheses.\<close> Code that is not in the repository is an argument: the ethers library
  (\<open>ethers_ok\<close>, and \<open>abi_ok\<close> for its ABI coder), Keccak, the wallet's signatures, the node, hardhat. Of the
  contracts that the account calls only \<open>storage_protected\<close> is assumed: a callee changes the storage of the
  account by re-entering its functions and in no other way. \<open>reenters P\<close> adds from which addresses, \<open>P\<close>, and is
  \<open>storage_protected\<close> when \<open>P\<close> has all; where a property needs that the owner does not re-enter, it says so. The same for the contracts that the EntryPoint calls
  is \<open>honest\<close>: they change its storage by calling its functions. What \<open>gasleft()\<close> shows is arbitrary: the
  differences that an operation reads are the record \<open>op_gas\<close>. The comparison of the simulation with the EntryPoint
  assumes in addition that the operation's sender and paymaster are no precompiled contracts (\<open>silent_without_code\<close>) and
  that no contract asks the EntryPoint for its interfaces (\<open>interfaces_unused\<close>), which the simulation has not. Every property with a hypothesis has a witness on a
  concrete instance.

  \<^bold>\<open>Bounds and fuel.\<close> \<open>poll_receipt\<close> makes the 100 attempts of the code. A bundle of \<open>runTest\<close> is run under a
  schedule, a list of rounds of turns: each task has at most five segments, and in every round in which each
  task has a turn one that is not finished moves or the lock is released, so \<open>5 * count\<close> rounds are enough;
  \<open>runTest_completes\<close> proves it for every such schedule. \<open>findMin\<close> has no bound in the code and is a partial
  function: \<open>findMin_correct\<close> says when it returns and when it does not. \<open>decode_data\<close> is given one more level than
  its data has characters, and \<open>decodeRevertReason_ends\<close> proves that more changes nothing. All other loops are
  structural. The \<open>while\<close> loop of
  the lock polls for ever under an unfair schedule, which is why termination has that hypothesis.

  \<^bold>\<open>Divergences from the source.\<close> Solidity integers are words with checked operations where the compiler checks
  them; failures of the ABI decoder are the one error \<open>EmptyRevert\<close>. JavaScript numbers are unbounded integers
  where the code stays below \<open>2 ^ 53\<close>, doubles or 32-bit where it does not. What \<open>fillSignAndPack\<close>
  asks the node while its task holds the lock of \<open>runTest\<close> is answered at one moment, its last, with other tasks running
  before it; a random destination is made in one step. The script of Deployment does not charge the gas of its
  transactions. Output on the console is left out, except for the numbers that \<open>runop.ts\<close> prints, the report of the gas suite and the lines of the sample
  script. Addresses on the client are the strings the library gives; the two forms of upper and lower case are told apart only where the code lowers them.

  \<^bold>\<open>Not modelled.\<close> The getters of the EntryPoint; the test contracts and legacy interfaces of the library; the
  code of OpenZeppelin (\<open>Ownable2Step\<close>, the proxy, \<open>ECDSA\<close>), which is not in the repository; the two client
  helpers that send a simulation with a state override, which are a parameter of the searches; helpers of
  the test utilities that deploy, fund or print; the timeouts of the tests; the settings of the linter and the
  coverage tool, which have no behaviour; \<open>forge-std\<close>, tests and data. Of the TypeScript what is left are imports,
  comments and these settings.
\<close>

end
